(* ===== verification/Prelude.thy ===== *)
theory Prelude
  imports Complex_Main "HOL-Library.While_Combinator" "HOL-Library.Monad_Syntax"
begin

text \<open>
  Shared vocabulary of the development.

  \<^item> Decimals. The program computes with \<^verbatim>\<open>decimal.Decimal\<close> of shopspring/decimal,
    an arbitrary-precision decimal \<open>value * 10 ^ exp\<close>. Values are modelled by their
    exact rational value: addition, subtraction, multiplication, negation, \<open>Abs\<close>, \<open>Min\<close>,
    \<open>Max\<close> and the comparisons of that type are lossless and are those of \<^typ>\<open>rat\<close>.
  \<^item> The operations of that package that round or that go through floating point are code
    outside the repository: they are the fields of the record \<open>decimal_lib\<close>, a parameter
    \<open>L\<close> of every definition that needs one. What the program relies on is the locale
    \<open>decimal_laws\<close>.
  \<^item> Control. A Go function that may panic (division by zero, the explicit panic of
    \<^verbatim>\<open>Sqrt\<close>) or that may not return gives an \<open>option\<close>, with \<open>None\<close> for the panic; a Go
    function with an \<^verbatim>\<open>error\<close> result gives a sum, with \<open>Inl\<close> for the error message.
\<close>

named_theorems go_simps \<open>unfolding rules of the Go-level combinators\<close>
named_theorems dec_laws \<open>facts on rounded decimals\<close>

subsection \<open>Types\<close>

type_synonym decimal = rat
type_synonym error = string

text \<open>\<open>'a result\<close> is Go's pair of a value and an error; \<open>'a go\<close> adds the panic.\<close>

type_synonym 'a result = "error + 'a"
type_synonym 'a go = "'a result option"

text \<open>
  \<open>go_try r f\<close> is the Go idiom \<^verbatim>\<open>x, err := ...; if err != nil { return err }\<close> followed
  by \<open>f x\<close>.
\<close>

definition go_try :: "'a result \<Rightarrow> ('a \<Rightarrow> 'b go) \<Rightarrow> 'b go" where
  "go_try r f = (case r of Inl e \<Rightarrow> Some (Inl e) | Inr x \<Rightarrow> f x)"

lemma go_try_simps [simp, go_simps]:
  "go_try (Inl e) f = Some (Inl e)"
  "go_try (Inr x) f = f x"
  by (simp_all add: go_try_def)

lemma go_try_eq_Some_Inr:
  "go_try r f = Some (Inr y) \<longleftrightarrow> (\<exists>x. r = Inr x \<and> f x = Some (Inr y))"
  by (cases r) simp_all

lemma bind_Some_iff:
  "(m \<bind> f) = Some y \<longleftrightarrow> (\<exists>x. m = Some x \<and> f x = Some y)"
  by (cases m) simp_all

text \<open>A guard that returns an error.\<close>

lemma guard_eq_Some_Inr:
  "(if b then Some (Inl e) else r) = Some (Inr y) \<longleftrightarrow> \<not> b \<and> r = Some (Inr y)"
  by simp

lemma case_sum_eq_Some_SomeE:
  "map_option (case_sum (\<lambda>_. None) Some) r = Some (Some y) \<longleftrightarrow> r = Some (Inr y)"
  by (cases r) (auto split: sum.splits)

lemmas go_conv = go_try_eq_Some_Inr bind_Some_iff guard_eq_Some_Inr

text \<open>
  \<open>opt_all P m\<close>: whatever \<open>m\<close> returns satisfies \<open>P\<close>, with one rule per combinator.
\<close>

definition opt_all :: "('a \<Rightarrow> bool) \<Rightarrow> 'a option \<Rightarrow> bool" where
  "opt_all P m \<longleftrightarrow> (\<forall>x. m = Some x \<longrightarrow> P x)"

lemma opt_allD: "opt_all P m \<Longrightarrow> m = Some x \<Longrightarrow> P x"
  by (simp add: opt_all_def)

lemma opt_all_simps [simp]: "opt_all P None" "opt_all P (Some x) \<longleftrightarrow> P x"
  by (simp_all add: opt_all_def)

lemma opt_all_bind: "(\<And>x. m = Some x \<Longrightarrow> opt_all P (f x)) \<Longrightarrow> opt_all P (m \<bind> f)"
  by (cases m) simp_all

lemma opt_all_if: "(b \<Longrightarrow> opt_all P m) \<Longrightarrow> (\<not> b \<Longrightarrow> opt_all P n) \<Longrightarrow> opt_all P (if b then m else n)"
  by simp

lemma opt_all_case_sum:
  "(\<And>e. r = Inl e \<Longrightarrow> opt_all P (f e)) \<Longrightarrow> (\<And>x. r = Inr x \<Longrightarrow> opt_all P (g x)) \<Longrightarrow>
   opt_all P (case r of Inl e \<Rightarrow> f e | Inr x \<Rightarrow> g x)"
  by (cases r) simp_all

lemma opt_all_case_option:
  "(m = None \<Longrightarrow> opt_all P n) \<Longrightarrow> (\<And>x. m = Some x \<Longrightarrow> opt_all P (f x)) \<Longrightarrow>
   opt_all P (case m of None \<Rightarrow> n | Some x \<Rightarrow> f x)"
  by (cases m) simp_all

lemma opt_all_map: "opt_all (\<lambda>x. P (f x)) m \<Longrightarrow> opt_all P (map_option f m)"
  by (cases m) simp_all

lemmas opt_all_rules = opt_all_bind opt_all_if opt_all_case_sum opt_all_case_option

subsection \<open>The decimal library\<close>

text \<open>
  \<open>quo\<close> is \<open>Decimal.Div\<close> at a nonzero divisor, with \<open>DivisionPrecision\<close> set to 18 by
  \<^verbatim>\<open>init\<close> of \<^verbatim>\<open>math.go\<close>; \<open>round18\<close> and \<open>round_bank18\<close> are \<open>Round(18)\<close> and
  \<open>RoundBank(18)\<close>; \<open>sqrt_seed\<close> is \<open>NewFromFloat(math.Sqrt(d.Float64()))\<close>, the first
  guess of \<^verbatim>\<open>Sqrt\<close>; \<open>to_float\<close> and \<open>of_float\<close> are \<open>Float64\<close> and
  \<open>NewFromFloat\<close>.
\<close>

record decimal_lib =
  quo :: "decimal \<Rightarrow> decimal \<Rightarrow> decimal"
  round18 :: "decimal \<Rightarrow> decimal"
  round_bank18 :: "decimal \<Rightarrow> decimal"
  sqrt_seed :: "decimal \<Rightarrow> decimal"
  to_float :: "decimal \<Rightarrow> rat"
  of_float :: "rat \<Rightarrow> decimal"

text \<open>\<open>Decimal.Div\<close>: panics when the divisor is zero.\<close>

definition DivD :: "decimal_lib \<Rightarrow> decimal \<Rightarrow> decimal \<Rightarrow> decimal option" where
  "DivD L x y = (if y = 0 then None else Some (quo L x y))"

lemma DivD_simps [simp, go_simps]:
  "DivD L x 0 = None"
  "y \<noteq> 0 \<Longrightarrow> DivD L x y = Some (quo L x y)"
  by (simp_all add: DivD_def)

lemma DivD_eq_Some [simp]: "DivD L x y = Some z \<longleftrightarrow> y \<noteq> 0 \<and> z = quo L x y"
  by (auto simp: DivD_def)

text \<open>The unit in the last place at 18 decimal places, and the decimals on that grid.\<close>

definition ulp :: decimal where
  "ulp = 1 / 10 ^ 18"

definition on_grid :: "decimal \<Rightarrow> bool" where
  "on_grid x \<longleftrightarrow> (\<exists>k::int. x = of_int k * ulp)"

lemma ulp_pos [simp, intro]: "0 < ulp"
  by (simp add: ulp_def)

lemma ulp_nonneg [simp, intro]: "0 \<le> ulp"
  by (simp add: ulp_def)

lemma ulp_neq_0 [simp]: "ulp \<noteq> 0" "\<not> ulp < 0"
  by (simp_all add: ulp_def)

lemma on_grid_0 [simp, intro]: "on_grid 0"
  unfolding on_grid_def by (rule exI [of _ 0]) simp

lemma on_grid_ulp [simp, intro]: "on_grid ulp"
  unfolding on_grid_def by (rule exI [of _ 1]) simp

lemma on_grid_of_int [simp, intro]: "on_grid (of_int k)"
  unfolding on_grid_def ulp_def by (rule exI [of _ "k * 10 ^ 18"]) simp

lemma on_grid_numeral [simp, intro]: "on_grid (numeral n)" "on_grid (- numeral n)" "on_grid 1"
  using on_grid_of_int [of "numeral n"] on_grid_of_int [of "- numeral n"] on_grid_of_int [of 1]
  by simp_all

lemma on_grid_scaleI: "x * 10 ^ 18 = of_int k \<Longrightarrow> on_grid x"
  unfolding on_grid_def ulp_def by (rule exI [of _ k]) (simp add: field_simps)

lemma on_grid_fractions [simp]:
  "on_grid (1 / 2)" "on_grid (1 / 4)" "on_grid (3 / 4)" "on_grid (1 / 8)" "on_grid (3 / 16)"
  "on_grid (- (1 / 2))" "on_grid (- (1 / 4))" "on_grid (- (3 / 4))" "on_grid (- (1 / 8))"
  by (rule on_grid_scaleI [of _ "5 * 10 ^ 17"], simp)
    (rule on_grid_scaleI [of _ "25 * 10 ^ 16"], simp,
     rule on_grid_scaleI [of _ "75 * 10 ^ 16"], simp,
     rule on_grid_scaleI [of _ "125 * 10 ^ 15"], simp,
     rule on_grid_scaleI [of _ "1875 * 10 ^ 14"], simp,
     rule on_grid_scaleI [of _ "- (5 * 10 ^ 17)"], simp,
     rule on_grid_scaleI [of _ "- (25 * 10 ^ 16)"], simp,
     rule on_grid_scaleI [of _ "- (75 * 10 ^ 16)"], simp,
     rule on_grid_scaleI [of _ "- (125 * 10 ^ 15)"], simp)

lemma on_grid_minus [intro]: "on_grid x \<Longrightarrow> on_grid (- x)"
  unfolding on_grid_def by (metis mult_minus_left of_int_minus)

lemma on_grid_add [intro]: "on_grid x \<Longrightarrow> on_grid y \<Longrightarrow> on_grid (x + y)"
  unfolding on_grid_def by (metis distrib_right of_int_add)

lemma on_grid_diff [intro]: "on_grid x \<Longrightarrow> on_grid y \<Longrightarrow> on_grid (x - y)"
  using on_grid_add [of x "- y"] on_grid_minus by auto

text \<open>Two grid points closer than one unit coincide, and grid points are one unit apart.\<close>

lemma grid_close_eq:
  assumes "on_grid x" "on_grid y" "\<bar>x - y\<bar> < ulp"
  shows "x = y"
proof -
  from assms(1,2) obtain k l :: int where k: "x = of_int k * ulp" and l: "y = of_int l * ulp"
    unfolding on_grid_def by blast
  have "x - y = of_int (k - l) * ulp"
    by (simp add: k l algebra_simps)
  with assms(3) have "\<bar>of_int (k - l) :: rat\<bar> * ulp < 1 * ulp"
    by (simp add: abs_mult)
  then have "\<bar>of_int (k - l) :: rat\<bar> < 1"
    by (simp only: mult_less_cancel_right_pos [OF ulp_pos])
  then have "\<bar>k - l\<bar> < 1"
    by (metis of_int_abs of_int_1 of_int_less_iff)
  then show ?thesis by (simp add: k l)
qed

lemma grid_less_imp_ulp:
  assumes "on_grid x" "on_grid y" "x < y"
  shows "x + ulp \<le> y"
proof (rule ccontr)
  assume "\<not> x + ulp \<le> y"
  with assms(3) have "\<bar>x - y\<bar> < ulp" by linarith
  with assms show False using grid_close_eq [of x y] by simp
qed

subsection \<open>What the program relies on\<close>

text \<open>
  The documented behaviour of the rounding operations: \<open>Div\<close> gives a quotient with
  \<open>DivisionPrecision\<close> = 18 decimal places, rounded to nearest; \<open>Round\<close> and
  \<open>RoundBank\<close> round to nearest at 18 places (they differ on ties only). The float square
  root of a positive number is positive.
\<close>

locale decimal_laws =
  fixes L :: decimal_lib
  assumes quo_grid: "y \<noteq> 0 \<Longrightarrow> on_grid (quo L x y)"
    and quo_err: "y \<noteq> 0 \<Longrightarrow> \<bar>quo L x y - x / y\<bar> \<le> ulp / 2"
    and round18_grid: "on_grid (round18 L x)"
    and round18_err: "\<bar>round18 L x - x\<bar> \<le> ulp / 2"
    and round_bank18_grid: "on_grid (round_bank18 L x)"
    and round_bank18_err: "\<bar>round_bank18 L x - x\<bar> \<le> ulp / 2"
    and seed_pos: "0 < d \<Longrightarrow> 0 < sqrt_seed L d"
begin

lemma quo_bounds:
  assumes "y \<noteq> 0"
  shows "x / y - ulp / 2 \<le> quo L x y" "quo L x y \<le> x / y + ulp / 2"
  using quo_err [OF assms, of x] by (simp_all only: abs_le_iff) linarith+

lemma quo_exact:
  assumes "y \<noteq> 0" "on_grid (x / y)"
  shows "quo L x y = x / y"
proof (rule grid_close_eq)
  have "ulp / 2 < ulp" by simp
  then show "\<bar>quo L x y - x / y\<bar> < ulp"
    using quo_err [OF assms(1), of x] by linarith
qed (use assms quo_grid in auto)

lemma round_exact: "on_grid x \<Longrightarrow> round18 L x = x" "on_grid x \<Longrightarrow> round_bank18 L x = x"
proof -
  have u: "ulp / 2 < ulp" by simp
  show "on_grid x \<Longrightarrow> round18 L x = x"
    using grid_close_eq [OF round18_grid, of x x] round18_err [of x] u by linarith
  show "on_grid x \<Longrightarrow> round_bank18 L x = x"
    using grid_close_eq [OF round_bank18_grid, of x x] round_bank18_err [of x] u by linarith
qed

lemma quo_nonneg:
  assumes "y \<noteq> 0" "0 \<le> x / y"
  shows "0 \<le> quo L x y"
proof (rule ccontr)
  assume "\<not> 0 \<le> quo L x y"
  then have "quo L x y + ulp \<le> 0"
    using grid_less_imp_ulp [OF quo_grid [OF assms(1), of x] on_grid_0] by simp
  moreover have "0 < ulp" by simp
  ultimately show False using quo_bounds(1) [OF assms(1), of x] assms(2) by linarith
qed

lemma quo_minus_nonpos:
  assumes "y \<noteq> 0" "x / y \<le> 0"
  shows "quo L x y \<le> 0"
proof (rule ccontr)
  assume "\<not> quo L x y \<le> 0"
  then have "0 + ulp \<le> quo L x y"
    using grid_less_imp_ulp [OF on_grid_0 quo_grid [OF assms(1), of x]] by simp
  moreover have "0 < ulp" by simp
  ultimately show False using quo_bounds(2) [OF assms(1), of x] assms(2) by linarith
qed

end

subsection \<open>An implementation of the laws\<close>

text \<open>
  Rounding to nearest at 18 places, ties away from zero (\<open>Div\<close>, \<open>Round\<close>) and ties to
  even (\<open>RoundBank\<close>), and an integer square root as the seed: an executable instance of
  \<open>decimal_laws\<close>, on which the witnesses of the development are evaluated.
\<close>

definition round_away :: "decimal \<Rightarrow> int" where
  "round_away q = (if 0 \<le> q then \<lfloor>q + 1 / 2\<rfloor> else - \<lfloor>1 / 2 - q\<rfloor>)"

definition round_even :: "decimal \<Rightarrow> int" where
  "round_even q =
     (let k = \<lfloor>q\<rfloor>; r = q - of_int k
      in if r < 1 / 2 then k else if 1 / 2 < r then k + 1 else if even k then k else k + 1)"

text \<open>An upper integer square root, by doubling and bisection on the bits.\<close>

fun isqrt :: "nat \<Rightarrow> nat" where
  "isqrt n = (if n = 0 then 0 else
     (let r = 2 * isqrt (n div 4) in if (r + 1) * (r + 1) \<le> n then r + 1 else r))"

declare isqrt.simps [simp del]

definition isqrt_up :: "nat \<Rightarrow> nat" where
  "isqrt_up n = (let r = isqrt n in if r * r < n then r + 1 else r)"

definition seed_isqrt :: "decimal \<Rightarrow> decimal" where
  "seed_isqrt d = (let (p, q) = quotient_of d
     in of_nat (max 1 (isqrt_up (nat \<bar>p\<bar>))) / of_nat (max 1 (isqrt_up (nat \<bar>q\<bar>))))"

definition lib18 :: decimal_lib where
  "lib18 = \<lparr> quo = (\<lambda>x y. of_int (round_away (x / y * 10 ^ 18)) / 10 ^ 18),
             round18 = (\<lambda>x. of_int (round_away (x * 10 ^ 18)) / 10 ^ 18),
             round_bank18 = (\<lambda>x. of_int (round_even (x * 10 ^ 18)) / 10 ^ 18),
             sqrt_seed = seed_isqrt,
             to_float = (\<lambda>x. x), of_float = (\<lambda>x. x) \<rparr>"

lemma round_away_err: "\<bar>of_int (round_away q) - q\<bar> \<le> 1 / 2"
proof (cases "0 \<le> q")
  case True
  have "of_int \<lfloor>q + 1 / 2\<rfloor> \<le> q + 1 / 2" "q + 1 / 2 < of_int \<lfloor>q + 1 / 2\<rfloor> + 1"
    using floor_correct [of "q + 1 / 2"] by auto
  then have "\<bar>of_int \<lfloor>q + 1 / 2\<rfloor> - q\<bar> \<le> 1 / 2" unfolding abs_le_iff by linarith
  with True show ?thesis by (simp only: round_away_def if_True)
next
  case False
  have "of_int \<lfloor>1 / 2 - q\<rfloor> \<le> 1 / 2 - q" "1 / 2 - q < of_int \<lfloor>1 / 2 - q\<rfloor> + 1"
    using floor_correct [of "1 / 2 - q"] by auto
  then have "\<bar>- of_int \<lfloor>1 / 2 - q\<rfloor> - q\<bar> \<le> 1 / 2" unfolding abs_le_iff by linarith
  with False show ?thesis by (simp only: round_away_def if_False of_int_minus)
qed

lemma round_even_err: "\<bar>of_int (round_even q) - q\<bar> \<le> 1 / 2"
proof -
  define k where "k = \<lfloor>q\<rfloor>"
  have "of_int k \<le> q" "q < of_int k + 1"
    using floor_correct [of q] by (simp_all add: k_def)
  then show ?thesis
    by (auto simp: round_even_def Let_def k_def [symmetric] abs_le_iff)
qed

lemma on_grid_scaled [simp, intro]: "on_grid (of_int k / 10 ^ 18)"
  unfolding on_grid_def ulp_def by (rule exI [of _ k]) simp

lemma scaled_err:
  assumes "\<bar>of_int k - x * 10 ^ 18\<bar> \<le> (1 / 2 :: rat)"
  shows "\<bar>of_int k / 10 ^ 18 - x\<bar> \<le> ulp / 2"
proof -
  have "of_int k / 10 ^ 18 - x = (of_int k - x * 10 ^ 18) / 10 ^ 18"
    by (simp add: field_simps)
  then have "\<bar>of_int k / 10 ^ 18 - x\<bar> = \<bar>of_int k - x * 10 ^ 18\<bar> / 10 ^ 18"
    by (simp only: abs_divide) simp
  also have "\<dots> \<le> (1 / 2) / 10 ^ 18"
    using assms by (rule divide_right_mono) simp
  finally show ?thesis by (simp add: ulp_def)
qed

lemma isqrt_correct: "isqrt n * isqrt n \<le> n \<and> n < (isqrt n + 1) * (isqrt n + 1)"
proof (induction n rule: isqrt.induct)
  case (1 n)
  show ?case
  proof (cases "n = 0")
    case False
    define r where "r = isqrt (n div 4)"
    from "1.IH" False have r: "r * r \<le> n div 4" "n div 4 < (r + 1) * (r + 1)"
      by (simp_all add: r_def)
    have "4 * (r * r) \<le> n" "n < 4 * ((r + 1) * (r + 1))" using r by linarith+
    then have "2 * r * (2 * r) \<le> n" "n < (2 * r + 2) * (2 * r + 2)" by (simp_all add: algebra_simps)
    with False show ?thesis
      by (auto simp: isqrt.simps [of n] r_def [symmetric] Let_def)
  qed (simp add: isqrt.simps)
qed

lemma isqrt_square [simp]: "isqrt (r * r) = r"
proof -
  from isqrt_correct [of "r * r"] have a: "isqrt (r * r) * isqrt (r * r) \<le> r * r"
    and b: "r * r < (isqrt (r * r) + 1) * (isqrt (r * r) + 1)" by simp_all
  from a have "isqrt (r * r) \<le> r" by (metis mult_strict_mono' not_le zero_le)
  moreover from b have "r < isqrt (r * r) + 1" by (metis mult_mono' not_le zero_le)
  ultimately show ?thesis by simp
qed

text \<open>The seed of a rational square is its root.\<close>

lemma seed_isqrt_square:
  assumes "0 < p" "0 < q" "coprime p q"
  shows "seed_isqrt (of_nat p / of_nat q * (of_nat p / of_nat q)) = of_nat p / of_nat q"
proof -
  have "of_nat p / of_nat q * (of_nat p / of_nat q :: rat) = Fract (int (p * p)) (int (q * q))"
    by (simp add: Fract_of_int_quotient)
  moreover have "coprime (int (p * p)) (int (q * q))"
    using assms(3) by (simp del: of_nat_mult)
  ultimately have "quotient_of (of_nat p / of_nat q * (of_nat p / of_nat q)) = (int (p * p), int (q * q))"
    using assms by (simp add: quotient_of_Fract Rat.normalize_def Let_def del: of_nat_mult)
  then show ?thesis
    using assms by (simp add: seed_isqrt_def isqrt_up_def nat_mult_distrib del: of_nat_mult)
qed

lemma seed_isqrt_pos: "0 < seed_isqrt d"
  by (cases "quotient_of d") (simp add: seed_isqrt_def)

interpretation d18: decimal_laws lib18
proof unfold_locales
  fix x y :: decimal
  show "\<bar>quo lib18 x y - x / y\<bar> \<le> ulp / 2"
    using scaled_err [OF round_away_err, of "x / y"] by (simp add: lib18_def)
  show "\<bar>round18 lib18 x - x\<bar> \<le> ulp / 2"
    using scaled_err [OF round_away_err, of x] by (simp add: lib18_def)
  show "\<bar>round_bank18 lib18 x - x\<bar> \<le> ulp / 2"
    using scaled_err [OF round_even_err, of x] by (simp add: lib18_def)
  show "on_grid (quo lib18 x y)" "on_grid (round18 lib18 x)" "on_grid (round_bank18 lib18 x)"
    unfolding lib18_def decimal_lib.simps by (rule on_grid_scaled)+
qed (simp add: lib18_def seed_isqrt_pos)

lemma decimal_laws_lib18 [simp, intro]: "decimal_laws lib18"
  by (rule d18.decimal_laws_axioms)

end
