(* ===== verification/Number_Utils.thy ===== *)
theory Number_Utils
  imports Prelude "HOL-Library.Word"
begin

text \<open>
  \<^verbatim>\<open>src/common/mai3/utils\<close>: the unit conversions, the sign test, the split of a trade into
  the part that closes a position and the part that opens one (\<^verbatim>\<open>number.go\<close>), and the
  hexadecimal codec with the 32-byte hash buffers (\<^verbatim>\<open>hex.go\<close>).
\<close>

section \<open>number.go\<close>

definition ToWad :: "decimal \<Rightarrow> decimal" where
  "ToWad n = n * 10 ^ 18"

definition ToGwei :: "decimal \<Rightarrow> decimal" where
  "ToGwei n = n * 10 ^ 9"

definition ToRate :: "decimal \<Rightarrow> decimal" where
  "ToRate n = n * 10 ^ 4"

text \<open>\<^verbatim>\<open>n.SetString(d.Floor().String(), 10)\<close>: the integer below \<open>d\<close>.\<close>

definition MustDecimalToBigInt :: "decimal \<Rightarrow> int" where
  "MustDecimalToBigInt d = \<lfloor>d\<rfloor>"

text \<open>\<open>Decimal.Sign\<close> is -1, 0 or 1; two such numbers have a zero exclusive-or exactly when equal.\<close>

definition HasTheSameSign :: "decimal \<Rightarrow> decimal \<Rightarrow> bool" where
  "HasTheSameSign x y = (if x = 0 \<or> y = 0 then True else sgn x = sgn y)"

definition SplitAmount :: "decimal \<Rightarrow> decimal \<Rightarrow> decimal \<times> decimal" where
  "SplitAmount position amount =
     (if HasTheSameSign position amount then (0, amount)
      else if \<bar>amount\<bar> \<le> \<bar>position\<bar> then (amount, 0)
      else (- position, position + amount))"

section \<open>hex.go\<close>

type_synonym byte = "8 word"

text \<open>\<^verbatim>\<open>hex.EncodeToString\<close> and \<^verbatim>\<open>hex.DecodeString\<close> of the standard library.\<close>

definition hex_digits :: string where
  "hex_digits = ''0123456789abcdef''"

definition hex_char :: "nat \<Rightarrow> char" where
  "hex_char n = hex_digits ! (n mod 16)"

definition hex_value :: "char \<Rightarrow> nat option" where
  "hex_value c =
     (let n = of_char c :: nat in
      if 48 \<le> n \<and> n \<le> 57 then Some (n - 48)
      else if 97 \<le> n \<and> n \<le> 102 then Some (n - 87)
      else if 65 \<le> n \<and> n \<le> 70 then Some (n - 55)
      else None)"

definition Bytes2Hex :: "byte list \<Rightarrow> string" where
  "Bytes2Hex bs = concat (map (\<lambda>b. [hex_char (unat b div 16), hex_char (unat b mod 16)]) bs)"

fun hex_decode :: "string \<Rightarrow> byte list result" where
  "hex_decode [] = Inr []"
| "hex_decode [c] = Inl ''encoding/hex: odd length hex string''"
| "hex_decode (c1 # c2 # cs) =
     (case (hex_value c1, hex_value c2) of
        (Some a, Some b) \<Rightarrow>
          (case hex_decode cs of
             Inl e \<Rightarrow> Inl e
           | Inr bs \<Rightarrow> Inr (of_nat (16 * a + b) # bs))
      | _ \<Rightarrow> Inl ''encoding/hex: invalid byte'')"

definition strip_0x :: "string \<Rightarrow> string" where
  "strip_0x s = (if take 2 s = ''0x'' \<or> take 2 s = ''0X'' then drop 2 s else s)"

definition Hex2Bytes :: "string \<Rightarrow> byte list result" where
  "Hex2Bytes str =
     (let s = strip_0x str;
          s' = (if odd (length s) then CHR ''0'' # s else s)
      in hex_decode s')"

definition Bytes2HexP :: "byte list \<Rightarrow> string" where
  "Bytes2HexP bs = ''0x'' @ Bytes2Hex bs"

definition HashLength :: nat where
  "HashLength = 32"

text \<open>
  \<^verbatim>\<open>SetBytes\<close> on a fresh \<^verbatim>\<open>Hash\<close>: the last 32 bytes, or the whole slice behind leading
  zero bytes.
\<close>

definition BytesToHash :: "byte list \<Rightarrow> byte list" where
  "BytesToHash b =
     (let b' = (if HashLength < length b then drop (length b - HashLength) b else b)
      in replicate (HashLength - length b') 0 @ b')"

definition HexToHash :: "string \<Rightarrow> byte list result" where
  "HexToHash s = (case Hex2Bytes s of Inl e \<Rightarrow> Inl e | Inr b \<Rightarrow> Inr (BytesToHash b))"

section \<open>Lemmas\<close>

subsection \<open>Signs and splits\<close>

lemma HasTheSameSign_iff: "HasTheSameSign x y \<longleftrightarrow> 0 \<le> x * y"
  by (auto simp: HasTheSameSign_def sgn_if zero_le_mult_iff split: if_splits)

lemma HasTheSameSign_sym: "HasTheSameSign x y = HasTheSameSign y x"
  by (simp add: HasTheSameSign_iff mult.commute)

lemma HasTheSameSign_0 [simp]: "HasTheSameSign 0 y" "HasTheSameSign x 0" "HasTheSameSign x x"
  by (simp_all add: HasTheSameSign_iff)

lemma HasTheSameSign_pos: "0 < x \<Longrightarrow> HasTheSameSign x y \<longleftrightarrow> 0 \<le> y"
  by (simp add: HasTheSameSign_iff zero_le_mult_iff)

lemma HasTheSameSign_neg: "x < 0 \<Longrightarrow> HasTheSameSign x y \<longleftrightarrow> y \<le> 0"
  by (simp add: HasTheSameSign_iff zero_le_mult_iff)

lemma SplitAmount_sum:
  assumes "SplitAmount position amount = (close, opn)"
  shows "close + opn = amount"
  using assms by (auto simp: SplitAmount_def split: if_splits)

lemma SplitAmount_close:
  assumes "SplitAmount position amount = (close, opn)"
  shows "\<bar>close\<bar> \<le> \<bar>position\<bar>" "\<bar>close\<bar> \<le> \<bar>amount\<bar>" "close \<noteq> 0 \<Longrightarrow> \<not> HasTheSameSign position close"
    "close \<noteq> 0 \<Longrightarrow> HasTheSameSign close amount"
  using assms
  by (auto simp: SplitAmount_def HasTheSameSign_iff zero_le_mult_iff not_le mult_less_0_iff
      split: if_splits)

lemma SplitAmount_open:
  assumes "SplitAmount position amount = (close, opn)"
  shows "opn \<noteq> 0 \<Longrightarrow> HasTheSameSign (position + close) opn"
    "opn \<noteq> 0 \<Longrightarrow> close \<noteq> 0 \<Longrightarrow> position + close = 0"
  using assms by (auto simp: SplitAmount_def split: if_splits)

lemma SplitAmount_eq_0 [simp]: "SplitAmount position amount = (0, 0) \<longleftrightarrow> amount = 0"
  by (auto simp: SplitAmount_def HasTheSameSign_def)

subsection \<open>Hexadecimal\<close>

lemma hex_value_hex_char [simp]:
  assumes "n < 16"
  shows "hex_value (hex_char n) = Some n"
proof -
  have "\<forall>n < 16. hex_value (hex_char n) = Some n" by code_simp
  with assms show ?thesis by blast
qed

lemma length_Bytes2Hex [simp]: "length (Bytes2Hex bs) = 2 * length bs"
  by (induction bs) (simp_all add: Bytes2Hex_def)

lemma Bytes2Hex_Nil [simp]: "Bytes2Hex [] = []"
  by (simp add: Bytes2Hex_def)

lemma Bytes2Hex_Cons [simp]:
  "Bytes2Hex (b # bs) = hex_char (unat b div 16) # hex_char (unat b mod 16) # Bytes2Hex bs"
  by (simp add: Bytes2Hex_def)

lemma unat_byte_div_16 [simp]: "unat (b :: byte) div 16 < 16"
  using unsigned_less [of b, where ?'a = nat] by simp

lemma hex_decode_Bytes2Hex [simp]: "hex_decode (Bytes2Hex bs) = Inr bs"
  by (induction bs) simp_all

lemma hex_char_not_x: "hex_char n \<noteq> CHR ''x''" "hex_char n \<noteq> CHR ''X''"
proof -
  have "\<forall>n < 16. hex_digits ! n \<noteq> CHR ''x'' \<and> hex_digits ! n \<noteq> CHR ''X''" by code_simp
  then show "hex_char n \<noteq> CHR ''x''" "hex_char n \<noteq> CHR ''X''" by (simp_all add: hex_char_def)
qed

lemma strip_0x_Bytes2Hex [simp]: "strip_0x (Bytes2Hex bs) = Bytes2Hex bs"
  by (cases bs) (simp_all add: strip_0x_def hex_char_not_x)

lemma length_BytesToHash [simp]: "length (BytesToHash b) = HashLength"
  by (simp add: BytesToHash_def Let_def)

end
