(* ===== verification/Model.thy ===== *)
theory Model
  imports Number_Utils
begin

text \<open>
  \<^verbatim>\<open>src/common/model\<close>: the data of the program. Structs are records (an embedded struct is
  a record extension), string and integer enumerations are datatypes, \<^verbatim>\<open>null\<close> columns are
  options, times are integers. Where two structs share a field name, the field of the second
  one carries a prefix. The operations are \<^verbatim>\<open>CancelOrder\<close> (\<^verbatim>\<open>change_order.go\<close>) and
  the status conversions of \<^verbatim>\<open>launch_transaction.go\<close>. \<open>conserved\<close> is the accounting
  invariant of an order.
\<close>

section \<open>Data\<close>

type_synonym time = int

subsection \<open>order.go\<close>

datatype CancelReasonType =
    CancelReasonEmpty
  | CancelReasonExpired
  | CancelReasonCloseOnly
  | CancelReasonUserCancel
  | CancelReasonTransactionFail
  | CancelReasonRemainTooSmall
  | CancelReasonInsufficientFunds
  | CancelReasonGasNotEnough
  | CancelReasonContractSettled

datatype MatchCode =
    MatchOK
  | MatchInternalErrorID
  | MatchGasNotEnoughErrorID
  | MatchCloseOnlyErrorID
  | MatchInsufficientBalanceErrorID
  | MatchMaxOrderNumReachID

text \<open>\<^verbatim>\<open>OrderType\<close> is a Go \<^verbatim>\<open>int\<close> with three named values.\<close>

type_synonym OrderType = int

definition LimitOrder :: OrderType where "LimitOrder = 1"
definition StopLimitOrder :: OrderType where "StopLimitOrder = 2"
definition TakeProfitOrder :: OrderType where "TakeProfitOrder = 3"

lemmas OrderType_defs = LimitOrder_def StopLimitOrder_def TakeProfitOrder_def

text \<open>\<open>OrderStatusUnset\<close> is the empty string, the zero value of the Go type.\<close>

datatype OrderStatus = OrderStatusUnset | OrderCanceled | OrderPending | OrderPartialFilled | OrderFullFilled

record OrderCancelReason =
  crReason :: CancelReasonType
  crAmount :: decimal
  crCanceledAt :: time
  crTransactionHash :: string

record OrderParam =
  TraderAddress :: string
  LiquidityPoolAddress :: string
  PerpetualIndex :: int
  RelayerAddress :: string
  BrokerAddress :: string
  ReferrerAddress :: string
  Type :: OrderType
  Price :: decimal
  Amount :: decimal
  MinTradeAmount :: decimal
  TriggerPrice :: decimal
  BrokerFeeLimit :: int
  ExpiresAt :: time
  Salt :: int
  IsCloseOnly :: bool
  ChainID :: int
  Signature :: string

record Order = OrderParam +
  ID :: int
  OrderHash :: string
  OldStatus :: OrderStatus
  Status :: OrderStatus
  CollateralAddress :: string
  AvailableAmount :: decimal
  ConfirmedAmount :: decimal
  CanceledAmount :: decimal
  PendingAmount :: decimal
  GasFeeLimit :: int
  CreatedAt :: time
  UpdatedAt :: time
  CheckAmount :: decimal
  CancelReasons :: "OrderCancelReason list"

subsection \<open>mai3.go\<close>

record PerpetualStorage =
  IsNormal :: bool
  MarkPrice :: decimal
  IndexPrice :: decimal
  UnitAccumulativeFunding :: decimal
  InitialMarginRate :: decimal
  MaintenanceMarginRate :: decimal
  OperatorFeeRate :: decimal
  LpFeeRate :: decimal
  ReferrerRebateRate :: decimal
  LiquidationPenaltyRate :: decimal
  KeeperGasReward :: decimal
  InsuranceFundRate :: decimal
  OpenInterest :: decimal
  MaxOpenInterestRate :: decimal
  HalfSpread :: decimal
  OpenSlippageFactor :: decimal
  CloseSlippageFactor :: decimal
  FundingRateFactor :: decimal
  FundingRateLimit :: decimal
  MaxLeverage :: decimal
  MaxClosePriceDiscount :: decimal
  AmmCashBalance :: decimal
  AmmPositionAmount :: decimal

text \<open>
  The map \<^verbatim>\<open>Perpetuals\<close> is an association list with distinct keys: its order is the order in
  which a \<^verbatim>\<open>range\<close> loop happens to visit the entries.
\<close>

record LiquidityPoolStorage =
  VaultFeeRate :: decimal
  PoolCashBalance :: decimal
  Perpetuals :: "(int \<times> PerpetualStorage) list"

record AccountStorage =
  TargetLeverage :: decimal
  WalletBalance :: decimal
  CashBalance :: decimal
  PositionAmount :: decimal

record AccountComputed =
  PositionValue :: decimal
  PositionMargin :: decimal
  MaintenanceMargin :: decimal
  AvailableCashBalance :: decimal
  MarginBalance :: decimal
  AvailableMargin :: decimal
  WithdrawableBalance :: decimal
  IsMMSafe :: bool
  IsIMSafe :: bool
  IsMarginSafe :: bool
  Leverage :: decimal

record AMMTradingContext =
  cxIndex :: decimal
  cxPosition1 :: decimal
  cxHalfSpread :: decimal
  cxOpenSlippageFactor :: decimal
  cxCloseSlippageFactor :: decimal
  cxFundingRateLimit :: decimal
  cxMaxClosePriceDiscount :: decimal
  cxMaxLeverage :: decimal
  cxOtherIndex :: "decimal list"
  cxOtherPosition :: "decimal list"
  cxOtherOpenSlippageFactor :: "decimal list"
  cxOtherMaxLeverage :: "decimal list"
  cxCash :: decimal
  cxPoolMargin :: decimal
  cxDeltaMargin :: decimal
  cxDeltaPosition :: decimal
  cxBestAskBidPrice :: decimal
  cxValueWithoutCurrent :: decimal
  cxSquareValueWithoutCurrent :: decimal
  cxPositionMarginWithoutCurrent :: decimal

subsection \<open>match_transaction.go, launch_transaction.go, chain.go, perpetual.go\<close>

datatype TransactionStatus =
    TransactionStatusInit
  | TransactionStatusPending
  | TransactionStatusSuccess
  | TransactionStatusFail
  | TransactionStatusAbort

record MatchItemRow =
  miOrderHash :: string
  miAmount :: decimal

record MatchResult =
  MatchItems :: "MatchItemRow list"
  SuccItems :: "MatchItemRow list"
  FailedItems :: "MatchItemRow list"

record MatchTransaction =
  mtID :: string
  mtLiquidityPoolAddress :: string
  mtPerpetualIndex :: int
  mtBrokerAddress :: string
  mtStatus :: TransactionStatus
  mtBlockConfirmed :: bool
  mtBlockNumber :: "int option"
  mtBlockHash :: "string option"
  mtTransactionHash :: "string option"
  mtExecutedAt :: "time option"
  mtMatchResult :: MatchResult

datatype LaunchTransactionStatus = TxInitial | TxPending | TxSuccess | TxFailed | TxCanceled

definition LaunchStatus_String :: "LaunchTransactionStatus \<Rightarrow> string" where
  "LaunchStatus_String ts =
     (case ts of TxInitial \<Rightarrow> ''INITIAL'' | TxPending \<Rightarrow> ''PENDING'' | TxSuccess \<Rightarrow> ''SUCCESS''
      | TxFailed \<Rightarrow> ''FAILED'' | TxCanceled \<Rightarrow> ''CANCELED'')"

definition LaunchStatus_TransactionStatus :: "LaunchTransactionStatus \<Rightarrow> TransactionStatus" where
  "LaunchStatus_TransactionStatus ts =
     (case ts of TxInitial \<Rightarrow> TransactionStatusInit
      | TxPending \<Rightarrow> TransactionStatusPending
      | TxSuccess \<Rightarrow> TransactionStatusSuccess
      | TxFailed \<Rightarrow> TransactionStatusFail
      | TxCanceled \<Rightarrow> TransactionStatusAbort)"

record TradeSuccessEvent =
  sePerpetualAddress :: string
  seBlockNumber :: int
  seTransactionSeq :: int
  seTransactionHash :: string
  seTraderAddress :: string
  seOrderHash :: string
  seAmount :: decimal
  seGas :: decimal

record TradeFailedEvent =
  fePerpetualAddress :: string
  feBlockNumber :: int
  feTransactionSeq :: int
  feTransactionHash :: string
  feTraderAddress :: string
  feOrderHash :: string
  feAmount :: decimal
  feReason :: string

record Perpetual =
  ppLiquidityPoolAddress :: string
  ppPerpetualIndex :: int
  ppSymbol :: string
  ppOperatorAddress :: string
  ppCollateralSymbol :: string
  ppCollateralAddress :: string
  ppCollateralDecimals :: int
  ppIsPublished :: bool
  ppBlockNumber :: int

section \<open>change_order.go\<close>

text \<open>\<open>executedAt\<close> is the \<^verbatim>\<open>null.Time\<close> argument and \<open>now\<close> the clock.\<close>

definition addCancelReason ::
  "time \<Rightarrow> Order \<Rightarrow> CancelReasonType \<Rightarrow> decimal \<Rightarrow> string \<Rightarrow> time option \<Rightarrow> Order" where
  "addCancelReason now order reason amount transactionHash executedAt =
     (let r = \<lparr> crReason = reason, crAmount = amount,
                crCanceledAt = (case executedAt of Some t \<Rightarrow> t | None \<Rightarrow> now),
                crTransactionHash = transactionHash \<rparr>
      in order\<lparr> CancelReasons := CancelReasons order @ [r] \<rparr>)"

definition CancelOrder :: "time \<Rightarrow> Order \<Rightarrow> CancelReasonType \<Rightarrow> decimal \<Rightarrow> Order result" where
  "CancelOrder now order reason amount =
     (if reason = CancelReasonEmpty then Inl ''cancel order, empty reason''
      else if amount = 0 \<or> \<not> HasTheSameSign amount (Amount order)
        then Inl ''cancel order fail, bad amount''
      else if \<bar>AvailableAmount order\<bar> < \<bar>amount\<bar>
        then Inl ''cancel order fail, cancel amount larger than available''
      else
        let order = order\<lparr> AvailableAmount := AvailableAmount order - amount,
                           CanceledAmount := CanceledAmount order + amount \<rparr>
        in Inr (addCancelReason now order reason amount [] None))"

section \<open>The accounting of an order\<close>

text \<open>
  Every amount of an order is in exactly one of four places: available to the matcher, pending in
  a transaction, confirmed on chain or cancelled.
\<close>

definition conserved :: "Order \<Rightarrow> bool" where
  "conserved ord =
     (Amount ord = AvailableAmount ord + PendingAmount ord + ConfirmedAmount ord + CanceledAmount ord)"

text \<open>The fields that identify an order and that no operation after its creation may change.\<close>

definition same_order :: "Order \<Rightarrow> Order \<Rightarrow> bool" where
  "same_order ord ord' \<longleftrightarrow> OrderParam.truncate ord = OrderParam.truncate ord' \<and>
     ID ord = ID ord' \<and> OrderHash ord = OrderHash ord' \<and> CollateralAddress ord = CollateralAddress ord'"

lemma same_order_refl [simp, intro]: "same_order ord ord"
  by (simp add: same_order_def)

lemma CancelOrder_Inr:
  assumes "CancelOrder now order reason amount = Inr order'"
  shows "amount \<noteq> 0" "HasTheSameSign amount (Amount order)"
    "\<bar>amount\<bar> \<le> \<bar>AvailableAmount order\<bar>"
    "AvailableAmount order' = AvailableAmount order - amount"
    "CanceledAmount order' = CanceledAmount order + amount"
    "PendingAmount order' = PendingAmount order" "ConfirmedAmount order' = ConfirmedAmount order"
    "Amount order' = Amount order" "OrderHash order' = OrderHash order" "Price order' = Price order"
    "TraderAddress order' = TraderAddress order"
  using assms
  by (auto simp: CancelOrder_def addCancelReason_def Let_def split: if_splits)

lemma CancelOrder_conserved:
  "CancelOrder now order reason amount = Inr order' \<Longrightarrow> conserved order \<Longrightarrow> conserved order'"
  by (auto simp: CancelOrder_def addCancelReason_def Let_def conserved_def split: if_splits)

end
