(* ===== verification/GoMath.thy ===== *)
theory GoMath
  imports Prelude "HOL-Library.Log_Nat"
begin

text \<open>
  \<^verbatim>\<open>src/common/mai3/math.go\<close>: the square root on decimals (a float seed, raised until it
  is an upper bound, then Newton's iteration until it stops decreasing) and the golden section
  search on floats. \<open>Sqrt\<close> is shown to return on every input from \<open>10^-36\<close> up, with an
  answer within 1.5 units of the 18th decimal place of the real root, and to panic on negative
  inputs and on positive ones too small for the 18 places it works with.
\<close>

section \<open>Definitions\<close>

subsection \<open>Sqrt\<close>

text \<open>The first loop: \<^verbatim>\<open>for next.Mul(next).LessThan(d) { next = next.Mul(1.1) }\<close>.\<close>

partial_function (option) raise_guess :: "decimal \<Rightarrow> decimal \<Rightarrow> decimal option" where
  "raise_guess d next = (if next * next < d then raise_guess d (next * (11 / 10)) else Some next)"

text \<open>The second loop, Newton's iteration, entered with \<^verbatim>\<open>y = next\<close>.\<close>

partial_function (option) newton :: "decimal_lib \<Rightarrow> decimal \<Rightarrow> decimal \<Rightarrow> decimal option" where
  "newton L d y = do {
     q \<leftarrow> DivD L d y;
     next \<leftarrow> DivD L (q + y) 2;
     if y \<le> next then Some y else newton L d next
   }"

declare raise_guess.simps [code] newton.simps [code]

definition Sqrt :: "decimal_lib \<Rightarrow> decimal \<Rightarrow> decimal option" where
  "Sqrt L d =
     (if d = 1 then Some 1
      else if d < 0 then None
      else if d = 0 then Some 0
      else do {
        next \<leftarrow> raise_guess d (sqrt_seed L d);
        newton L d next
      })"

subsection \<open>Golden section search on float64\<close>

text \<open>
  A finite \<^verbatim>\<open>float64\<close> is its rational value and every arithmetic operation rounds its exact
  result to the nearest number with a 53-bit significand, ties to even; overflow and underflow
  of the exponent are not modelled. \<^verbatim>\<open>NaN\<close>, which the search uses as "not computed yet", is
  \<open>None\<close>.
\<close>

definition ilog2 :: "rat \<Rightarrow> int" where
  "ilog2 x = (let (p, q) = quotient_of x; e = int (floorlog 2 (nat p)) - int (floorlog 2 (nat q))
              in if 2 powi e \<le> x then e else e - 1)"

definition fl :: "rat \<Rightarrow> rat" where
  "fl x = (if x = 0 then 0
           else let e = ilog2 \<bar>x\<bar> - 52 in of_int (round_even (x / 2 powi e)) * 2 powi e)"

definition fsqrt5 :: rat where
  "fsqrt5 = 629397181890197 / 281474976710656"

definition invphi :: rat where
  "invphi = fl (fl (fsqrt5 - 1) / 2)"

definition invphi2 :: rat where
  "invphi2 = fl (fl (3 - fsqrt5) / 2)"

record gss_state =
  gs_a :: rat
  gs_b :: rat
  gs_h :: rat
  gs_c :: "(rat \<times> rat) option"
  gs_d :: "(rat \<times> rat) option"

text \<open>
  \<open>gs_c\<close> holds \<^verbatim>\<open>c\<close> with \<^verbatim>\<open>fc\<close> and \<open>gs_d\<close> holds \<^verbatim>\<open>d\<close> with \<^verbatim>\<open>fd\<close>: the
  code sets and clears them together. \<open>probe\<close> evaluates \<^verbatim>\<open>f\<close> at a point that is NaN.
\<close>

definition probe :: "(rat \<Rightarrow> rat option) \<Rightarrow> (rat \<times> rat) option \<Rightarrow> rat \<Rightarrow> (rat \<times> rat) option" where
  "probe f known x = (case known of Some v \<Rightarrow> Some v | None \<Rightarrow> do { y \<leftarrow> f x; Some (x, y) })"

fun gss_loop :: "(rat \<Rightarrow> rat option) \<Rightarrow> rat \<Rightarrow> nat \<Rightarrow> gss_state \<Rightarrow> rat option" where
  "gss_loop f tol 0 s = Some (fl (fl (gs_a s + gs_b s) / 2))"
| "gss_loop f tol (Suc it) s =
     (if gs_h s < tol then Some (fl (fl (gs_a s + gs_b s) / 2))
      else let a = min (gs_a s) (gs_b s); b = max (gs_a s) (gs_b s); h = gs_h s in do {
        c \<leftarrow> probe f (gs_c s) (fl (a + fl (invphi2 * h)));
        d \<leftarrow> probe f (gs_d s) (fl (a + fl (invphi * h)));
        gss_loop f tol it
          (if snd c < snd d
           then \<lparr> gs_a = a, gs_b = fst d, gs_h = fl (h * invphi), gs_c = None, gs_d = Some c \<rparr>
           else \<lparr> gs_a = fst c, gs_b = b, gs_h = fl (h * invphi), gs_c = Some d, gs_d = None \<rparr>)
      })"

definition Gss :: "(rat \<Rightarrow> rat option) \<Rightarrow> rat \<Rightarrow> rat \<Rightarrow> rat \<Rightarrow> nat \<Rightarrow> rat option" where
  "Gss f a b tol maxIter =
     (let lo = min a b; hi = max a b in
      gss_loop f tol maxIter
        \<lparr> gs_a = lo, gs_b = hi, gs_h = fl (hi - lo), gs_c = None, gs_d = None \<rparr>)"


section \<open>Sqrt returns, and how close it is\<close>

lemma power_11_10_ge: "of_nat n / 10 \<le> ((11 / 10) ^ n :: rat)"
proof (induction n)
  case (Suc n)
  have "(1::rat) \<le> (11 / 10) ^ n" by (simp add: one_le_power)
  with Suc have "(of_nat n + 1) / 10 \<le> (11 / 10) ^ n * (11 / 10 :: rat)" by (simp add: field_simps)
  then show ?case by (simp add: mult.commute)
qed simp

lemma raise_guess_power:
  assumes "0 < x" "d \<le> (x * (11 / 10) ^ n) * (x * (11 / 10) ^ n)"
  shows "\<exists>r. raise_guess d x = Some r \<and> x \<le> r \<and> d \<le> r * r"
  using assms
proof (induction n arbitrary: x)
  case 0
  then show ?case by (simp add: raise_guess.simps [of d x])
next
  case (Suc n)
  show ?case
  proof (cases "x * x < d")
    case True
    from Suc.IH [of "x * (11 / 10)"] Suc.prems
    obtain r where "raise_guess d (x * (11 / 10)) = Some r" "x * (11 / 10) \<le> r" "d \<le> r * r"
      by (auto simp: mult.assoc)
    with True Suc.prems(1) show ?thesis by (auto simp: raise_guess.simps [of d x])
  next
    case False
    then show ?thesis by (simp add: raise_guess.simps [of d x])
  qed
qed

lemma raise_guess_total:
  assumes "0 < x"
  shows "\<exists>r. raise_guess d x = Some r \<and> x \<le> r \<and> d \<le> r * r"
proof -
  obtain n where n: "10 * (\<bar>d\<bar> + 1) / x < of_nat n"
    using reals_Archimedean2 by blast
  let ?y = "x * (11 / 10) ^ n"
  have "\<bar>d\<bar> + 1 \<le> x * (of_nat n / 10)"
    using n assms by (simp add: field_simps)
  also have "\<dots> \<le> ?y"
    using power_11_10_ge [of n] assms by (intro mult_left_mono) simp_all
  finally have y: "\<bar>d\<bar> + 1 \<le> ?y" .
  then have "?y * 1 \<le> ?y * ?y"
    using y by (intro mult_left_mono) linarith+
  with y have "d \<le> ?y * ?y" by linarith
  with assms show ?thesis by (rule raise_guess_power)
qed

lemma mean_rounding:
  fixes t y q n u :: rat
  shows "t - u / 2 \<le> q \<Longrightarrow> (q + y) / 2 - u / 2 \<le> n \<Longrightarrow> (t + y) / 2 - 3 / 4 * u \<le> n"
    and "q \<le> t + u / 2 \<Longrightarrow> n \<le> (q + y) / 2 + u / 2 \<Longrightarrow> n \<le> (t + y) / 2 + 3 / 4 * u"
    and "y \<le> n \<Longrightarrow> n \<le> (t + y) / 2 + 3 / 4 * u \<Longrightarrow> y \<le> t + 3 / 2 * u"
  by (auto simp: field_simps)

context decimal_laws
begin

text \<open>One Newton step from \<open>y\<close>, as the loop computes it.\<close>

lemma newton_step_bounds:
  assumes "0 < y" "n = quo L (quo L d y + y) 2"
  shows "(d / y + y) / 2 - 3 / 4 * ulp \<le> n" and "n \<le> (d / y + y) / 2 + 3 / 4 * ulp"
    and "on_grid n"
proof -
  have "y \<noteq> 0" using assms(1) by simp
  note q = quo_bounds [OF this, of d]
  have "(2::rat) \<noteq> 0" by simp
  note h = quo_bounds [OF this, of "quo L d y + y"]
  show "(d / y + y) / 2 - 3 / 4 * ulp \<le> n"
    unfolding assms(2) by (rule mean_rounding(1) [OF q(1) h(1)])
  show "n \<le> (d / y + y) / 2 + 3 / 4 * ulp"
    unfolding assms(2) by (rule mean_rounding(2) [OF q(2) h(2)])
  show "on_grid n" unfolding assms(2) by (simp add: quo_grid)
qed

text \<open>The mean of \<open>d / y\<close> and \<open>y\<close> is never below the root.\<close>

lemma mean_ge_root:
  fixes d y :: decimal
  assumes "0 < y"
  shows "d \<le> ((d / y + y) / 2) * ((d / y + y) / 2)"
proof -
  have "0 \<le> ((d / y - y) / 2) * ((d / y - y) / 2)" by simp
  also have "\<dots> = ((d / y + y) / 2) * ((d / y + y) / 2) - d"
    using assms by (simp add: field_simps)
  finally show ?thesis by simp
qed

lemma newton_total:
  assumes "9 / 16 * (ulp * ulp) < d" "0 < y" "d \<le> (y + 3 / 4 * ulp) * (y + 3 / 4 * ulp)"
  shows "\<exists>r. newton L d y = Some r \<and> 0 < r \<and> d \<le> (r + 3 / 4 * ulp) * (r + 3 / 4 * ulp) \<and>
             r * r \<le> d + 3 / 2 * ulp * r"
  using assms(2,3)
proof (induction "nat \<lceil>y / ulp\<rceil>" arbitrary: y rule: less_induct)
  case less
  define n where "n = quo L (quo L d y + y) 2"
  note n = newton_step_bounds [OF less.prems(1) n_def]
  have u: "newton L d y = (if y \<le> n then Some y else newton L d n)"
    using less.prems(1) by (subst newton.simps) (simp add: n_def)
  let ?m = "(d / y + y) / 2"
  have d0: "0 < d" using assms(1) mult_pos_pos [OF ulp_pos ulp_pos] by linarith
  have m0: "0 < ?m" using d0 less.prems(1) by (simp add: add_pos_pos)
  show ?case
  proof (cases "y \<le> n")
    case True
    then have "y \<le> d / y + 3 / 2 * ulp" by (rule mean_rounding(3) [OF _ n(2)])
    then have "y * y \<le> y * (d / y + 3 / 2 * ulp)"
      using less.prems(1) by (intro mult_left_mono) simp_all
    also have "\<dots> = d + 3 / 2 * ulp * y"
      using less.prems(1) by (simp add: field_simps)
    finally show ?thesis using True less.prems u by simp
  next
    case False
    have "?m * ?m \<le> (n + 3 / 4 * ulp) * (n + 3 / 4 * ulp)"
      using n(1) m0 by (intro mult_mono) linarith+
    with mean_ge_root [OF less.prems(1), of d]
    have dn: "d \<le> (n + 3 / 4 * ulp) * (n + 3 / 4 * ulp)" by linarith
    have n0: "0 < n"
    proof (rule ccontr)
      assume "\<not> 0 < n"
      then have "n + 3 / 4 * ulp \<le> 3 / 4 * ulp" "0 \<le> n + 3 / 4 * ulp" using n(1) m0 by linarith+
      then have "(n + 3 / 4 * ulp) * (n + 3 / 4 * ulp) \<le> (3 / 4 * ulp) * (3 / 4 * ulp)"
        by (intro mult_mono) simp_all
      with dn assms(1) show False by (simp add: algebra_simps)
    qed
    from n(3) obtain k :: int where k: "n = of_int k * ulp" by (auto simp: on_grid_def)
    have "n / ulp < y / ulp" using False by (intro divide_strict_right_mono) simp_all
    then have "k < \<lceil>y / ulp\<rceil>" by (simp add: k less_ceiling_iff)
    moreover have "0 \<le> k" using n0 by (auto simp: k zero_less_mult_iff)
    ultimately have "nat \<lceil>n / ulp\<rceil> < nat \<lceil>y / ulp\<rceil>"
      using less.prems(1) by (simp add: k)
    from less.hyps [OF this n0 dn] show ?thesis using False u by simp
  qed
qed

text \<open>The loop on a guess below half a unit: both divisions give zero, and the next divides by it.\<close>

lemma newton_small_panics:
  assumes "0 < d" "0 < y" "y < ulp / 2" "d \<le> y * y"
  shows "newton L d y = None"
proof -
  have "d / y \<le> y" using assms(2,4) by (simp add: divide_le_eq)
  moreover have "0 \<le> d / y" using assms by simp
  moreover have "y \<noteq> 0" using assms(2) by simp
  ultimately have "\<bar>quo L d y - 0\<bar> < ulp"
    using quo_bounds [of y d] assms(3) unfolding abs_less_iff by linarith
  with quo_grid [OF \<open>y \<noteq> 0\<close>, of d] have q: "quo L d y = 0" using grid_close_eq by blast
  have "\<bar>quo L (0 + y) 2 - 0\<bar> < ulp"
    using quo_bounds [of 2 y] assms(2,3) by (simp add: abs_less_iff)
  with quo_grid [of 2 "0 + y"] have n: "quo L (0 + y) 2 = 0" using grid_close_eq by fastforce
  have "newton L d y = newton L d 0"
    using \<open>y \<noteq> 0\<close> q n assms(2) by (subst newton.simps) simp
  also have "\<dots> = None" by (subst newton.simps) simp
  finally show ?thesis .
qed

lemma Sqrt_total:
  assumes "ulp * ulp \<le> d"
  shows "\<exists>r. Sqrt L d = Some r \<and> 0 < r \<and> d \<le> (r + 3 / 4 * ulp) * (r + 3 / 4 * ulp) \<and>
             r * r \<le> d + 3 / 2 * ulp * r"
proof -
  have uu: "0 < ulp * ulp" by simp
  then have d0: "0 < d" using assms by linarith
  show ?thesis
  proof (cases "d = 1")
    case True
    have "1 * 1 \<le> (1 + 3 / 4 * ulp) * (1 + 3 / 4 * ulp)" by (intro mult_mono) simp_all
    with True show ?thesis by (simp add: Sqrt_def)
  next
    case False
    from raise_guess_total [OF seed_pos [OF d0], of d] obtain x where
      x: "raise_guess d (sqrt_seed L d) = Some x" "sqrt_seed L d \<le> x" "d \<le> x * x" by blast
    have "0 < x" using seed_pos [OF d0] x(2) by simp
    then have "x * x \<le> (x + 3 / 4 * ulp) * (x + 3 / 4 * ulp)" by (intro mult_mono) simp_all
    with newton_total [OF _ \<open>0 < x\<close>, of d] x(3) assms uu
    show ?thesis using False d0 x(1) by (simp add: Sqrt_def)
  qed
qed

text \<open>A seed that is the exact root, on the grid, is returned at once.\<close>

lemma Sqrt_seed_exact:
  assumes "0 < r" "on_grid r" "sqrt_seed L (r * r) = r"
  shows "Sqrt L (r * r) = Some r"
proof -
  have r: "r \<noteq> 0" using assms(1) by simp
  have "quo L (r * r) r = r" "quo L (r + r) 2 = r"
    using quo_exact [OF r, of "r * r"] quo_exact [of 2 "r + r"] r assms(2) by simp_all
  then have n: "newton L (r * r) r = Some r" using r by (subst newton.simps) simp
  have "raise_guess (r * r) r = Some r" by (subst raise_guess.simps) simp
  then show ?thesis
    using n assms(1,3) r by (auto simp: Sqrt_def not_less square_eq_1_iff)
qed

end

subsection \<open>The properties\<close>



text \<open>
  below that range the square root of a positive number may panic: whenever the float
  seed is an upper bound of the root but smaller than half a unit of the 18th place, the first
  Newton step rounds to zero and the second one divides by it.
\<close>

theorem Sqrt_tiny_panics:
  assumes "decimal_laws L" "0 < d" "d \<le> sqrt_seed L d * sqrt_seed L d" "sqrt_seed L d < ulp / 2"
  shows "Sqrt L d = None"
proof -
  have "sqrt_seed L d * sqrt_seed L d \<le> ulp / 2 * (ulp / 2)"
    using decimal_laws.seed_pos [OF assms(1,2)] assms(4) by (intro mult_mono) simp_all
  also have "\<dots> < 1" by (simp add: ulp_def)
  finally have "d \<noteq> 1" using assms(3) by simp
  moreover have "raise_guess d (sqrt_seed L d) = Some (sqrt_seed L d)"
    using assms(3) by (subst raise_guess.simps) simp
  moreover have "newton L d (sqrt_seed L d) = None"
    by (rule decimal_laws.newton_small_panics)
      (use assms decimal_laws.seed_pos [OF assms(1,2)] in auto)
  ultimately show ?thesis using assms(2) by (simp add: Sqrt_def)
qed

theorem Sqrt_tiny_panics_witness: "Sqrt lib18 (1 / 10 ^ 40) = None"
proof (rule Sqrt_tiny_panics)
  have "(1 / 10 ^ 40 :: rat) = (of_nat 1 / of_nat (10 ^ 20)) * (of_nat 1 / of_nat (10 ^ 20))"
    by simp
  then have s: "sqrt_seed lib18 (1 / 10 ^ 40) = 1 / 10 ^ 20"
    using seed_isqrt_square [of 1 "10 ^ 20"] by (simp add: lib18_def)
  show "1 / 10 ^ 40 \<le> sqrt_seed lib18 (1 / 10 ^ 40) * sqrt_seed lib18 (1 / 10 ^ 40)"
    unfolding s by simp
  show "sqrt_seed lib18 (1 / 10 ^ 40) < ulp / 2"
    unfolding s ulp_def by simp
qed simp_all

end
