(* ===== verification/AMM.thy ===== *)
theory AMM
  imports Model GoMath
begin

text \<open>
  \<^verbatim>\<open>src/common/mai3/amm.go\<close>, the pricing of the automated market maker, function by
  function: the trading context of one perpetual of a pool, the pool margin, the safety test, the
  largest safe positions, the margin paid for a move of the AMM's position, and the inverse
  problem (the amount that can be traded at a limit price). \<open>None\<close> is a panic: a division by
  zero, a nil context or the panic of \<open>Sqrt\<close>. Contexts are passed and returned by value;
  a context that a function of the code updates through its pointer is part of the result.
\<close>

section \<open>Copies\<close>

definition CopyAccountStorage :: "AccountStorage \<Rightarrow> AccountStorage" where
  "CopyAccountStorage a =
     \<lparr> TargetLeverage = TargetLeverage a, WalletBalance = WalletBalance a,
       CashBalance = CashBalance a, PositionAmount = PositionAmount a \<rparr>"

definition CopyPerpetualStorage :: "PerpetualStorage \<Rightarrow> PerpetualStorage" where
  "CopyPerpetualStorage perp =
     \<lparr> IsNormal = IsNormal perp, MarkPrice = MarkPrice perp, IndexPrice = IndexPrice perp,
       UnitAccumulativeFunding = UnitAccumulativeFunding perp,
       InitialMarginRate = InitialMarginRate perp,
       MaintenanceMarginRate = MaintenanceMarginRate perp,
       OperatorFeeRate = OperatorFeeRate perp, LpFeeRate = LpFeeRate perp,
       ReferrerRebateRate = ReferrerRebateRate perp,
       LiquidationPenaltyRate = LiquidationPenaltyRate perp,
       KeeperGasReward = KeeperGasReward perp, InsuranceFundRate = InsuranceFundRate perp,
       OpenInterest = OpenInterest perp, MaxOpenInterestRate = MaxOpenInterestRate perp,
       HalfSpread = HalfSpread perp, OpenSlippageFactor = OpenSlippageFactor perp,
       CloseSlippageFactor = CloseSlippageFactor perp,
       FundingRateFactor = FundingRateFactor perp, FundingRateLimit = FundingRateLimit perp,
       MaxLeverage = MaxLeverage perp, MaxClosePriceDiscount = MaxClosePriceDiscount perp,
       AmmCashBalance = AmmCashBalance perp, AmmPositionAmount = AmmPositionAmount perp \<rparr>"

definition CopyLiquidityPoolStorage :: "LiquidityPoolStorage \<Rightarrow> LiquidityPoolStorage" where
  "CopyLiquidityPoolStorage p =
     \<lparr> VaultFeeRate = VaultFeeRate p, PoolCashBalance = PoolCashBalance p,
       Perpetuals = map (\<lambda>(k, perp). (k, CopyPerpetualStorage perp)) (Perpetuals p) \<rparr>"

text \<open>
  The copy leaves \<^verbatim>\<open>MaxClosePriceDiscount\<close> out of the literal, so the field of the copy is
  the zero decimal.
\<close>

definition copyAMMTradingContext :: "AMMTradingContext \<Rightarrow> AMMTradingContext" where
  "copyAMMTradingContext c =
     \<lparr> cxIndex = cxIndex c, cxPosition1 = cxPosition1 c, cxHalfSpread = cxHalfSpread c,
       cxOpenSlippageFactor = cxOpenSlippageFactor c,
       cxCloseSlippageFactor = cxCloseSlippageFactor c,
       cxFundingRateLimit = cxFundingRateLimit c,
       cxMaxClosePriceDiscount = 0,
       cxMaxLeverage = cxMaxLeverage c,
       cxOtherIndex = cxOtherIndex c, cxOtherPosition = cxOtherPosition c,
       cxOtherOpenSlippageFactor = cxOtherOpenSlippageFactor c,
       cxOtherMaxLeverage = cxOtherMaxLeverage c,
       cxCash = cxCash c, cxPoolMargin = cxPoolMargin c,
       cxDeltaMargin = cxDeltaMargin c, cxDeltaPosition = cxDeltaPosition c,
       cxBestAskBidPrice = cxBestAskBidPrice c,
       cxValueWithoutCurrent = cxValueWithoutCurrent c,
       cxSquareValueWithoutCurrent = cxSquareValueWithoutCurrent c,
       cxPositionMarginWithoutCurrent = cxPositionMarginWithoutCurrent c \<rparr>"

section \<open>The trading context\<close>

fun splitPerpetuals ::
  "int \<Rightarrow> (int \<times> PerpetualStorage) list \<Rightarrow> AMMTradingContext \<Rightarrow> AMMTradingContext option" where
  "splitPerpetuals perpetualIndex [] c = Some c"
| "splitPerpetuals perpetualIndex ((id', perp) # ps) c =
     (if \<not> IsNormal perp then splitPerpetuals perpetualIndex ps c
      else if IndexPrice perp \<le> 0 then None
      else
        let c = c\<lparr> cxCash := cxCash c + AmmCashBalance perp
                     - UnitAccumulativeFunding perp * AmmPositionAmount perp \<rparr>
        in splitPerpetuals perpetualIndex ps
             (if id' = perpetualIndex
              then c\<lparr> cxIndex := IndexPrice perp, cxPosition1 := AmmPositionAmount perp,
                      cxHalfSpread := HalfSpread perp,
                      cxOpenSlippageFactor := OpenSlippageFactor perp,
                      cxCloseSlippageFactor := CloseSlippageFactor perp,
                      cxFundingRateLimit := FundingRateLimit perp,
                      cxMaxClosePriceDiscount := MaxClosePriceDiscount perp,
                      cxMaxLeverage := MaxLeverage perp \<rparr>
              else c\<lparr> cxOtherIndex := cxOtherIndex c @ [IndexPrice perp],
                      cxOtherPosition := cxOtherPosition c @ [AmmPositionAmount perp],
                      cxOtherOpenSlippageFactor :=
                        cxOtherOpenSlippageFactor c @ [OpenSlippageFactor perp],
                      cxOtherMaxLeverage := cxOtherMaxLeverage c @ [MaxLeverage perp] \<rparr>))"

definition emptyContext :: "decimal \<Rightarrow> AMMTradingContext" where
  "emptyContext cash =
     \<lparr> cxIndex = 0, cxPosition1 = 0, cxHalfSpread = 0, cxOpenSlippageFactor = 0,
       cxCloseSlippageFactor = 0, cxFundingRateLimit = 0, cxMaxClosePriceDiscount = 0,
       cxMaxLeverage = 0, cxOtherIndex = [], cxOtherPosition = [],
       cxOtherOpenSlippageFactor = [], cxOtherMaxLeverage = [],
       cxCash = cash, cxPoolMargin = 0, cxDeltaMargin = 0, cxDeltaPosition = 0,
       cxBestAskBidPrice = 0, cxValueWithoutCurrent = 0, cxSquareValueWithoutCurrent = 0,
       cxPositionMarginWithoutCurrent = 0 \<rparr>"

text \<open>
  The loop of the eager evaluation: the sums over the other perpetuals of the value, of the
  slippage-weighted square value and of the position margin. The slices are read at the same
  index, so a shorter one would be an index out of range.
\<close>

fun sumOthers ::
  "decimal_lib \<Rightarrow> decimal list \<Rightarrow> decimal list \<Rightarrow> decimal list \<Rightarrow> decimal list \<Rightarrow>
   decimal \<times> decimal \<times> decimal \<Rightarrow> (decimal \<times> decimal \<times> decimal) option" where
  "sumOthers L [] ns bs ls acc = Some acc"
| "sumOthers L (i # is) (n # ns) (b # bs) (l # ls) (v, sq, pm) = do {
     m \<leftarrow> DivD L (i * \<bar>n\<bar>) l;
     sumOthers L is ns bs ls (v + i * n, sq + b * i * i * n * n, pm + m)
   }"
| "sumOthers L (i # is) _ _ _ acc = None"

definition initAMMTradingContextEagerEvaluation ::
  "decimal_lib \<Rightarrow> AMMTradingContext \<Rightarrow> AMMTradingContext go" where
  "initAMMTradingContextEagerEvaluation L c = do {
     (value, squareValue, positionMargin) \<leftarrow>
       sumOthers L (cxOtherIndex c) (cxOtherPosition c) (cxOtherOpenSlippageFactor c)
         (cxOtherMaxLeverage c) (0, 0, 0);
     let marginBalanceWithCurrent = cxCash c + value + cxIndex c * cxPosition1 c;
     if marginBalanceWithCurrent < 0 then Some (Inl ''AMM is emergency'')
     else Some (Inr (c\<lparr> cxValueWithoutCurrent := value,
                         cxSquareValueWithoutCurrent := squareValue,
                         cxPositionMarginWithoutCurrent := positionMargin \<rparr>))
   }"

text \<open>\<open>Some None\<close> is the nil context the code returns.\<close>

definition initAMMTradingContext ::
  "decimal_lib \<Rightarrow> LiquidityPoolStorage \<Rightarrow> int \<Rightarrow> AMMTradingContext option option" where
  "initAMMTradingContext L p perpetualIndex =
     (case map_of (Perpetuals p) perpetualIndex of
        None \<Rightarrow> Some None
      | Some _ \<Rightarrow>
          (case splitPerpetuals perpetualIndex (Perpetuals p) (emptyContext (PoolCashBalance p)) of
             None \<Rightarrow> Some None
           | Some c \<Rightarrow> do {
               r \<leftarrow> initAMMTradingContextEagerEvaluation L c;
               Some (case r of Inl _ \<Rightarrow> None | Inr c' \<Rightarrow> Some c')
             }))"

section \<open>Pool margin, safety and safe positions\<close>

definition isAMMSafe :: "decimal_lib \<Rightarrow> AMMTradingContext \<Rightarrow> decimal \<Rightarrow> bool option" where
  "isAMMSafe L c beta = do {
     let valueWithCurrent = cxValueWithoutCurrent c + cxIndex c * cxPosition1 c;
     let squareValueWithCurrent = cxSquareValueWithoutCurrent c +
           beta * cxIndex c * cxIndex c * cxPosition1 c * cxPosition1 c;
     let beforeSqrt = 2 * squareValueWithCurrent;
     root \<leftarrow> Sqrt L beforeSqrt;
     let safeCash = root - valueWithCurrent;
     Some (safeCash \<le> cxCash c)
   }"

definition computeAMMPoolMargin ::
  "decimal_lib \<Rightarrow> AMMTradingContext \<Rightarrow> decimal \<Rightarrow> bool \<Rightarrow> AMMTradingContext go" where
  "computeAMMPoolMargin L c beta allowUnsafe = do {
     let marginBalanceWithCurrent =
           cxCash c + cxValueWithoutCurrent c + cxIndex c * cxPosition1 c;
     let squareValueWithCurrent = cxSquareValueWithoutCurrent c +
           beta * cxIndex c * cxIndex c * cxPosition1 c * cxPosition1 c;
     let beforeSqrt =
           marginBalanceWithCurrent * marginBalanceWithCurrent - 2 * squareValueWithCurrent;
     if beforeSqrt < 0 \<and> \<not> allowUnsafe then Some (Inl ''AMM available margin sqrt < 0'')
     else do {
       root \<leftarrow> Sqrt L (if beforeSqrt < 0 then 0 else beforeSqrt);
       poolMargin \<leftarrow> DivD L (marginBalanceWithCurrent + root) 2;
       if poolMargin < 0 then Some (Inl ''pool margin is negative'')
       else Some (Inr (c\<lparr> cxPoolMargin := poolMargin \<rparr>))
     }
   }"

definition computeAMMSafeCondition1 ::
  "decimal_lib \<Rightarrow> AMMTradingContext \<Rightarrow> decimal \<Rightarrow> decimal option" where
  "computeAMMSafeCondition1 L c beta = do {
     q \<leftarrow> DivD L (cxPoolMargin c) (cxIndex c);
     DivD L q beta
   }"

definition computeAMMSafeCondition2 ::
  "decimal_lib \<Rightarrow> AMMTradingContext \<Rightarrow> decimal \<Rightarrow> (decimal \<times> bool) option" where
  "computeAMMSafeCondition2 L c beta =
     (if cxPoolMargin c \<le> 0 then Some (0, True)
      else do {
        q \<leftarrow> DivD L (cxSquareValueWithoutCurrent c) (cxPoolMargin c);
        h \<leftarrow> DivD L q 2;
        let x = cxPoolMargin c - cxPositionMarginWithoutCurrent c + h;
        let beforeSqrt = x * cxMaxLeverage c * cxMaxLeverage c * beta * 2;
        let beforeSqrt = (cxPoolMargin c - beforeSqrt) * cxPoolMargin c;
        if beforeSqrt < 0 then Some (0, True)
        else do {
          root \<leftarrow> Sqrt L beforeSqrt;
          let position2 = max (cxPoolMargin c - root) 0;
          p1 \<leftarrow> DivD L position2 beta;
          p2 \<leftarrow> DivD L p1 (cxMaxLeverage c);
          p3 \<leftarrow> DivD L p2 (cxIndex c);
          Some (p3, False)
        }
      })"

definition computeAMMSafeCondition3 ::
  "decimal_lib \<Rightarrow> AMMTradingContext \<Rightarrow> decimal \<Rightarrow> (decimal \<times> bool) option" where
  "computeAMMSafeCondition3 L c beta = do {
     beforeSqrt \<leftarrow>
       DivD L (2 * cxPoolMargin c * cxPoolMargin c - cxSquareValueWithoutCurrent c) beta;
     if beforeSqrt < 0 then Some (0, False)
     else do {
       root \<leftarrow> Sqrt L beforeSqrt;
       q \<leftarrow> DivD L root (cxIndex c);
       Some (q, True)
     }
   }"

definition computeAMMSafeShortPositionAmount ::
  "decimal_lib \<Rightarrow> AMMTradingContext \<Rightarrow> decimal \<Rightarrow> decimal option" where
  "computeAMMSafeShortPositionAmount L c beta = do {
     (condition3, ok) \<leftarrow> computeAMMSafeCondition3 L c beta;
     if \<not> ok then Some 0
     else do {
       let condition3 = - condition3;
       (condition2, ok) \<leftarrow> computeAMMSafeCondition2 L c beta;
       if ok then Some condition3
       else Some (max (- condition2) condition3)
     }
   }"

definition computeAMMSafeLongPositionAmount ::
  "decimal_lib \<Rightarrow> AMMTradingContext \<Rightarrow> decimal \<Rightarrow> decimal option" where
  "computeAMMSafeLongPositionAmount L c beta = do {
     (condition3, ok) \<leftarrow> computeAMMSafeCondition3 L c beta;
     if \<not> ok then Some 0
     else do {
       condition1 \<leftarrow> computeAMMSafeCondition1 L c beta;
       let condition13 = min condition1 condition3;
       (condition2, ok) \<leftarrow> computeAMMSafeCondition2 L c beta;
       if ok then Some condition13
       else Some (min condition2 condition13)
     }
   }"

section \<open>Prices and margins\<close>

definition appendSpread :: "decimal_lib \<Rightarrow> AMMTradingContext \<Rightarrow> decimal \<Rightarrow> bool \<Rightarrow> decimal" where
  "appendSpread L c midPrice isAMMBuy =
     (if isAMMBuy then round_bank18 L (midPrice * (1 - cxHalfSpread c))
      else round18 L (midPrice * (1 + cxHalfSpread c)))"

definition computeBestAskBidPriceIfSafe ::
  "decimal_lib \<Rightarrow> AMMTradingContext \<Rightarrow> decimal \<Rightarrow> bool \<Rightarrow> decimal option" where
  "computeBestAskBidPriceIfSafe L c beta isAMMBuy =
     (if cxPoolMargin c \<le> 0 then Some 0
      else do {
        q \<leftarrow> DivD L (cxPosition1 c * cxIndex c) (cxPoolMargin c);
        let price = q * beta;
        let price = (1 - price) * cxIndex c;
        Some (appendSpread L c price isAMMBuy)
      })"

definition computeBestAskBidPriceIfUnsafe :: "AMMTradingContext \<Rightarrow> decimal" where
  "computeBestAskBidPriceIfUnsafe c = cxIndex c"

definition computeDeltaMargin ::
  "decimal_lib \<Rightarrow> AMMTradingContext \<Rightarrow> decimal \<Rightarrow> decimal \<Rightarrow> decimal go" where
  "computeDeltaMargin L c beta position2 =
     (if (0 < cxPosition1 c \<and> position2 < 0) \<or> (cxPosition1 c < 0 \<and> 0 < position2)
        then Some (Inl ''computeDeltaMargin: cross direction is not supported'')
      else if cxPoolMargin c \<le> 0 then Some (Inl ''computeDeltaMargin: AMM poolMargin <= 0'')
      else do {
        h \<leftarrow> DivD L (position2 + cxPosition1 c) 2;
        q \<leftarrow> DivD L (h * cxIndex c) (cxPoolMargin c);
        let ret = 1 - q * beta;
        Some (Inr ((cxPosition1 c - position2) * ret * cxIndex c))
      })"

definition computeAMMInverseVWAP ::
  "decimal_lib \<Rightarrow> AMMTradingContext \<Rightarrow> decimal \<Rightarrow> decimal \<Rightarrow> bool \<Rightarrow> decimal go" where
  "computeAMMInverseVWAP L c price beta isAMMBuy = do {
     let previousMa1MinusMa2 = - cxDeltaMargin c;
     let previousAmount = cxDeltaPosition c;
     let a = cxIndex c * cxIndex c * beta;
     let denominator = a * 2;
     if denominator = 0
     then Some (Inl ''computeAMMInverseVWAP: bad perpetual parameter beta or index'')
     else do {
       let b = (- (cxIndex c * cxPoolMargin c) + a * cxPosition1 c + cxPoolMargin c * price) * 2;
       let c' = - ((previousMa1MinusMa2 - previousAmount * price) * cxPoolMargin c * 2);
       let beforeSqrt = - (a * c' * 4) + b * b;
       if beforeSqrt < 0
       then Some (Inl ''computeAMMInverseVWAP: impossible price. beforeSqrt'')
       else do {
         root \<leftarrow> Sqrt L beforeSqrt;
         let numerator = (if isAMMBuy then root else - root) - b;
         q \<leftarrow> DivD L numerator denominator;
         Some (Inr q)
       }
     }
   }"

section \<open>Closing, opening and trading\<close>

definition computeAMMInternalClose ::
  "decimal_lib \<Rightarrow> AMMTradingContext \<Rightarrow> decimal \<Rightarrow> AMMTradingContext go" where
  "computeAMMInternalClose L context amount = do {
     let beta = cxCloseSlippageFactor context;
     let ret = copyAMMTradingContext context;
     let position2 = cxPosition1 ret + amount;
     safe \<leftarrow> isAMMSafe L ret beta;
     traded \<leftarrow>
       (if safe then do {
          r \<leftarrow> computeAMMPoolMargin L ret beta False;
          go_try r (\<lambda>ret. do {
            best \<leftarrow> computeBestAskBidPriceIfSafe L ret beta (0 < amount);
            let ret = ret\<lparr> cxBestAskBidPrice := best \<rparr>;
            dm \<leftarrow> computeDeltaMargin L ret beta position2;
            go_try dm (\<lambda>deltaMargin. Some (Inr (ret, deltaMargin)))
          })
        }
        else do {
          let ret = ret\<lparr> cxBestAskBidPrice := computeBestAskBidPriceIfUnsafe ret \<rparr>;
          Some (Inr (ret, - (cxBestAskBidPrice ret * amount)))
        });
     go_try traded (\<lambda>(ret, deltaMargin). do {
       let discount = (if amount < 0 then - cxMaxClosePriceDiscount context
                       else cxMaxClosePriceDiscount context);
       let limitValue = - ((1 + discount) * cxIndex context * amount);
       let deltaMargin = max deltaMargin limitValue;
       if HasTheSameSign deltaMargin amount
       then Some (Inl ''close error. deltaM and amount has the same sign unexpectedly'')
       else Some (Inr (ret\<lparr> cxDeltaMargin := cxDeltaMargin ret + deltaMargin,
                            cxDeltaPosition := cxDeltaPosition ret + amount,
                            cxCash := cxCash ret + deltaMargin,
                            cxPosition1 := position2 \<rparr>))
     })
   }"

definition computeAMMInternalOpen ::
  "decimal_lib \<Rightarrow> AMMTradingContext \<Rightarrow> decimal \<Rightarrow> AMMTradingContext go" where
  "computeAMMInternalOpen L context amount = do {
     let beta = cxOpenSlippageFactor context;
     let ret = copyAMMTradingContext context;
     let position2 = cxPosition1 ret + amount;
     safe \<leftarrow> isAMMSafe L ret beta;
     if \<not> safe then Some (Inl ''unsafe amm'')
     else do {
       r \<leftarrow> computeAMMPoolMargin L ret beta False;
       go_try r (\<lambda>ret. do {
         safePosition2 \<leftarrow> (if 0 < amount then computeAMMSafeLongPositionAmount L ret beta
                          else computeAMMSafeShortPositionAmount L ret beta);
         if (if 0 < amount then safePosition2 < position2 else position2 < safePosition2)
         then Some (Inl ''AMM can not open position anymore: position too large after trade'')
         else do {
           best \<leftarrow> (if cxBestAskBidPrice ret = 0
                    then computeBestAskBidPriceIfSafe L ret beta (0 < amount)
                    else Some (cxBestAskBidPrice ret));
           let ret = ret\<lparr> cxBestAskBidPrice := best \<rparr>;
           dm \<leftarrow> computeDeltaMargin L ret beta position2;
           go_try dm (\<lambda>deltaMargin.
             if HasTheSameSign deltaMargin amount
             then Some (Inl ''open error. deltaM and amount has the same sign'')
             else Some (Inr (ret\<lparr> cxDeltaMargin := cxDeltaMargin ret + deltaMargin,
                                  cxDeltaPosition := cxDeltaPosition ret + amount,
                                  cxCash := cxCash ret + deltaMargin,
                                  cxPosition1 := position2 \<rparr>)))
         }
       })
     }
   }"

definition computeAMMInternalTrade ::
  "decimal_lib \<Rightarrow> LiquidityPoolStorage \<Rightarrow> int \<Rightarrow> decimal \<Rightarrow> AMMTradingContext go" where
  "computeAMMInternalTrade L p perpetualIndex amount = do {
     init \<leftarrow> initAMMTradingContext L p perpetualIndex;
     (case init of
        None \<Rightarrow> Some (Inl ''perpetual init trading context fail'')
      | Some context \<Rightarrow> do {
          let (cls, opn) = SplitAmount (cxPosition1 context) amount;
          if cls = 0 \<and> opn = 0 then Some (Inl ''AMM trade: trading amount = 0'')
          else do {
            r1 \<leftarrow> (if cls \<noteq> 0 then computeAMMInternalClose L context cls else Some (Inr context));
            go_try r1 (\<lambda>context. do {
              r2 \<leftarrow> (if opn \<noteq> 0 then computeAMMInternalOpen L context opn else Some (Inr context));
              go_try r2 (\<lambda>context.
                if cxBestAskBidPrice context = 0 then Some (Inl ''bestAskBidPrice is null'')
                else
                  let valueAtBestAskBidPrice = - (cxBestAskBidPrice context * amount)
                  in Some (Inr (if cxDeltaMargin context < valueAtBestAskBidPrice
                                then context\<lparr> cxDeltaMargin := valueAtBestAskBidPrice \<rparr>
                                else context)))
            })
          }
        })
   }"

section \<open>Amounts at a limit price\<close>

definition computeAMMOpenAmountWithPrice ::
  "decimal_lib \<Rightarrow> AMMTradingContext \<Rightarrow> decimal \<Rightarrow> bool \<Rightarrow> decimal option" where
  "computeAMMOpenAmountWithPrice L context limitPrice isAMMBuy =
     (if (isAMMBuy \<and> cxPosition1 context < 0) \<or> (\<not> isAMMBuy \<and> 0 < cxPosition1 context) then Some 0
      else do {
        safe \<leftarrow> isAMMSafe L context (cxOpenSlippageFactor context);
        if \<not> safe then Some 0
        else do {
          r \<leftarrow> computeAMMPoolMargin L context (cxOpenSlippageFactor context) False;
          (case r of
             Inl _ \<Rightarrow> Some 0
           | Inr context \<Rightarrow> do {
               best \<leftarrow> (if cxBestAskBidPrice context = 0
                        then computeBestAskBidPriceIfSafe L context (cxOpenSlippageFactor context) isAMMBuy
                        else Some (cxBestAskBidPrice context));
               let context = context\<lparr> cxBestAskBidPrice := best \<rparr>;
               if (if isAMMBuy then cxBestAskBidPrice context < limitPrice
                   else limitPrice < cxBestAskBidPrice context) then Some 0
               else do {
                 safePos2 \<leftarrow>
                   (if isAMMBuy then computeAMMSafeLongPositionAmount L context (cxOpenSlippageFactor context)
                    else computeAMMSafeShortPositionAmount L context (cxOpenSlippageFactor context));
                 if (if isAMMBuy then safePos2 < cxPosition1 context
                     else cxPosition1 context < safePos2) then Some 0
                 else do {
                   let maxAmount = safePos2 - cxPosition1 context;
                   o2 \<leftarrow> computeAMMInternalOpen L context maxAmount;
                   (case o2 of
                      Inl _ \<Rightarrow> Some 0
                    | Inr safePos2Context \<Rightarrow>
                        if maxAmount \<noteq> cxDeltaPosition safePos2Context - cxDeltaPosition context
                        then Some 0
                        else do {
                          q \<leftarrow> DivD L (cxDeltaMargin safePos2Context) (cxDeltaPosition safePos2Context);
                          let safePos2Price = \<bar>q\<bar>;
                          if (isAMMBuy \<and> limitPrice \<le> safePos2Price) \<or>
                             (\<not> isAMMBuy \<and> safePos2Price \<le> limitPrice)
                          then Some maxAmount
                          else do {
                            inv \<leftarrow> computeAMMInverseVWAP L context limitPrice
                                     (cxOpenSlippageFactor context) isAMMBuy;
                            (case inv of
                               Inl _ \<Rightarrow> Some 0
                             | Inr amount \<Rightarrow>
                                 Some (if (isAMMBuy \<and> 0 < amount) \<or> (\<not> isAMMBuy \<and> amount < 0)
                                       then amount else 0))
                          }
                        })
                 }
               }
             })
        }
      })"

text \<open>
  Case 6 of \<^verbatim>\<open>computeAMMCloseAndOpenAmountWithPrice\<close>: the position left after closing, and the
  amount that can still be opened.
\<close>

definition closeThenOpen ::
  "decimal_lib \<Rightarrow> AMMTradingContext \<Rightarrow> decimal \<Rightarrow> bool \<Rightarrow> decimal option" where
  "closeThenOpen L context limitPrice isAMMBuy =
     (if (isAMMBuy \<and> 0 \<le> cxPosition1 context) \<or> (\<not> isAMMBuy \<and> cxPosition1 context \<le> 0) then do {
        openAmount \<leftarrow> computeAMMOpenAmountWithPrice L context limitPrice isAMMBuy;
        Some (cxDeltaPosition context + openAmount)
      }
      else Some (cxDeltaPosition context))"

definition computeAMMCloseAndOpenAmountWithPrice ::
  "decimal_lib \<Rightarrow> AMMTradingContext \<Rightarrow> decimal \<Rightarrow> bool \<Rightarrow> decimal option" where
  "computeAMMCloseAndOpenAmountWithPrice L context limitPrice isAMMBuy =
     (if cxDeltaMargin context \<noteq> 0 \<or> cxDeltaPosition context \<noteq> 0 then Some 0
      else if cxPosition1 context = 0 then Some 0
      else do {
        ammSafe \<leftarrow> isAMMSafe L context (cxCloseSlippageFactor context);
        priced \<leftarrow>
          (if ammSafe then do {
             r \<leftarrow> computeAMMPoolMargin L context (cxCloseSlippageFactor context) False;
             go_try r (\<lambda>context. do {
               best \<leftarrow> computeBestAskBidPriceIfSafe L context (cxCloseSlippageFactor context) isAMMBuy;
               Some (Inr (context\<lparr> cxBestAskBidPrice := best \<rparr>))
             })
           }
           else Some (Inr (context\<lparr> cxBestAskBidPrice := computeBestAskBidPriceIfUnsafe context \<rparr>)));
        (case priced of
           Inl _ \<Rightarrow> Some 0
         | Inr context \<Rightarrow>
             if (if isAMMBuy then cxBestAskBidPrice context < limitPrice
                 else limitPrice < cxBestAskBidPrice context) then Some 0
             else
               let discount = (if 0 < cxPosition1 context then - cxMaxClosePriceDiscount context
                               else cxMaxClosePriceDiscount context);
                   discountLimitPrice = (1 + discount) * cxIndex context
               in if (if isAMMBuy then discountLimitPrice < limitPrice
                      else limitPrice < discountLimitPrice) then Some 0
               else do {
                 z \<leftarrow> computeAMMInternalClose L context (- cxPosition1 context);
                 (case z of
                    Inl _ \<Rightarrow> Some 0
                  | Inr zeroContext \<Rightarrow>
                      if cxDeltaPosition zeroContext = 0 then Some 0
                      else do {
                        q \<leftarrow> DivD L (cxDeltaMargin zeroContext) (cxDeltaPosition zeroContext);
                        let zeroPrice = \<bar>q\<bar>;
                        if (isAMMBuy \<and> limitPrice \<le> zeroPrice) \<or> (\<not> isAMMBuy \<and> zeroPrice \<le> limitPrice)
                        then closeThenOpen L zeroContext limitPrice isAMMBuy
                        else if \<not> ammSafe then Some 0
                        else do {
                          inv \<leftarrow> computeAMMInverseVWAP L context limitPrice
                                   (cxCloseSlippageFactor context) isAMMBuy;
                          (case inv of
                             Inl _ \<Rightarrow> Some 0
                           | Inr amount \<Rightarrow>
                               if (isAMMBuy \<and> 0 < amount) \<or> (\<not> isAMMBuy \<and> amount < 0) then do {
                                 k \<leftarrow> computeAMMInternalClose L context amount;
                                 (case k of
                                    Inl _ \<Rightarrow> Some 0
                                  | Inr context \<Rightarrow> closeThenOpen L context limitPrice isAMMBuy)
                               }
                               else closeThenOpen L context limitPrice isAMMBuy)
                        }
                      })
               })
      })"

definition ComputeAMMAmountWithPrice ::
  "decimal_lib \<Rightarrow> LiquidityPoolStorage \<Rightarrow> int \<Rightarrow> bool \<Rightarrow> decimal \<Rightarrow> decimal option" where
  "ComputeAMMAmountWithPrice L p perpetualIndex isTraderBuy limitPrice =
     (case map_of (Perpetuals p) perpetualIndex of
        None \<Rightarrow> Some 0
      | Some _ \<Rightarrow> do {
          let isAMMBuy = (\<not> isTraderBuy);
          init \<leftarrow> initAMMTradingContext L p perpetualIndex;
          (case init of
             None \<Rightarrow> Some 0
           | Some context \<Rightarrow>
               if cxPosition1 context \<le> 0 \<and> \<not> isAMMBuy
                 then map_option uminus (computeAMMOpenAmountWithPrice L context limitPrice isAMMBuy)
               else if cxPosition1 context < 0 \<and> isAMMBuy
                 then map_option uminus (computeAMMCloseAndOpenAmountWithPrice L context limitPrice isAMMBuy)
               else if 0 \<le> cxPosition1 context \<and> isAMMBuy
                 then map_option uminus (computeAMMOpenAmountWithPrice L context limitPrice isAMMBuy)
               else if 0 < cxPosition1 context \<and> \<not> isAMMBuy
                 then map_option uminus (computeAMMCloseAndOpenAmountWithPrice L context limitPrice isAMMBuy)
               else Some 0)
        })"

definition ComputeBestAskBidPrice ::
  "decimal_lib \<Rightarrow> LiquidityPoolStorage \<Rightarrow> int \<Rightarrow> bool \<Rightarrow> decimal option" where
  "ComputeBestAskBidPrice L p perpetualIndex isAMMBuy = do {
     init \<leftarrow> initAMMTradingContext L p perpetualIndex;
     context \<leftarrow> init;
     let isAMMClosing = ((0 < cxPosition1 context \<and> \<not> isAMMBuy) \<or> (cxPosition1 context < 0 \<and> isAMMBuy));
     let beta = (if isAMMClosing then cxCloseSlippageFactor context else cxOpenSlippageFactor context);
     safe \<leftarrow> isAMMSafe L context beta;
     if \<not> safe then
       (if \<not> isAMMClosing then Some 0 else Some (computeBestAskBidPriceIfUnsafe context))
     else do {
       r \<leftarrow> computeAMMPoolMargin L context beta False;
       (case r of
          Inl _ \<Rightarrow> Some 0
        | Inr context \<Rightarrow> do {
            price \<leftarrow> computeBestAskBidPriceIfSafe L context beta isAMMBuy;
            if isAMMClosing then
              let discount = (if 0 < cxPosition1 context then - cxMaxClosePriceDiscount context
                              else cxMaxClosePriceDiscount context);
                  discountLimitPrice = (1 + discount) * cxIndex context
              in Some (if isAMMBuy then (if discountLimitPrice < price then discountLimitPrice else price)
                       else (if price < discountLimitPrice then discountLimitPrice else price))
            else Some price
          })
     }
   }"

section \<open>Lemmas\<close>

lemma copyAMMTradingContext_simps [simp]:
  "cxIndex (copyAMMTradingContext c) = cxIndex c" "cxPosition1 (copyAMMTradingContext c) = cxPosition1 c"
  "cxCash (copyAMMTradingContext c) = cxCash c"
  "cxDeltaMargin (copyAMMTradingContext c) = cxDeltaMargin c"
  "cxDeltaPosition (copyAMMTradingContext c) = cxDeltaPosition c"
  "cxBestAskBidPrice (copyAMMTradingContext c) = cxBestAskBidPrice c"
  by (simp_all add: copyAMMTradingContext_def)

lemma computeAMMPoolMargin_Inr:
  assumes "computeAMMPoolMargin L c beta unsafe = Some (Inr c')"
  obtains m where "c' = c\<lparr> cxPoolMargin := m \<rparr>" "0 \<le> m"
  using assms by (auto simp: computeAMMPoolMargin_def Let_def bind_Some_iff not_less split: if_splits)

text \<open>
  What closing and opening do to a context: the position and the cash move by the amount and by
  the margin that is paid for it, and that margin has the sign opposite to the amount.
\<close>

definition ctx_moved :: "AMMTradingContext \<Rightarrow> decimal \<Rightarrow> AMMTradingContext \<Rightarrow> bool" where
  "ctx_moved c amount c' \<longleftrightarrow>
     cxDeltaPosition c' = cxDeltaPosition c + amount \<and> cxPosition1 c' = cxPosition1 c + amount \<and>
     cxIndex c' = cxIndex c \<and>
     cxCash c' - cxCash c = cxDeltaMargin c' - cxDeltaMargin c \<and>
     \<not> HasTheSameSign (cxDeltaMargin c' - cxDeltaMargin c) amount"

lemma computeAMMInternalClose_moved:
  assumes "computeAMMInternalClose L c amount = Some (Inr c')"
  shows "ctx_moved c amount c'"
    "- ((1 + (if amount < 0 then - cxMaxClosePriceDiscount c else cxMaxClosePriceDiscount c)) *
        cxIndex c * amount) \<le> cxDeltaMargin c' - cxDeltaMargin c"
  using assms
  by (auto simp: computeAMMInternalClose_def ctx_moved_def go_conv Let_def
      elim!: computeAMMPoolMargin_Inr split: if_splits)

lemma computeAMMInternalOpen_moved:
  assumes "computeAMMInternalOpen L c amount = Some (Inr c')"
  shows "ctx_moved c amount c'" "cxBestAskBidPrice c \<noteq> 0 \<Longrightarrow> cxBestAskBidPrice c' = cxBestAskBidPrice c"
proof -
  from assms obtain r best dm where r: "computeAMMPoolMargin L (copyAMMTradingContext c)
      (cxOpenSlippageFactor c) False = Some (Inr r)"
    and best: "(if cxBestAskBidPrice r = 0
        then computeBestAskBidPriceIfSafe L r (cxOpenSlippageFactor c) (0 < amount)
        else Some (cxBestAskBidPrice r)) = Some best"
    and dm: "\<not> HasTheSameSign dm amount"
    and c': "c' = r\<lparr> cxBestAskBidPrice := best, cxDeltaMargin := cxDeltaMargin r + dm,
                 cxDeltaPosition := cxDeltaPosition r + amount, cxCash := cxCash r + dm,
                 cxPosition1 := cxPosition1 (copyAMMTradingContext c) + amount \<rparr>"
    unfolding computeAMMInternalOpen_def Let_def go_conv option.inject sum.inject
    by (elim exE conjE, hypsubst) (rule that, assumption, assumption, assumption, simp)
  from r obtain m where "r = (copyAMMTradingContext c)\<lparr> cxPoolMargin := m \<rparr>"
    by (rule computeAMMPoolMargin_Inr)
  with best dm c' show "ctx_moved c amount c'"
    "cxBestAskBidPrice c \<noteq> 0 \<Longrightarrow> cxBestAskBidPrice c' = cxBestAskBidPrice c"
    by (auto simp: ctx_moved_def)
qed

lemma splitPerpetuals_delta:
  "splitPerpetuals i ps c = Some c' \<Longrightarrow> cxDeltaPosition c' = cxDeltaPosition c \<and>
     cxDeltaMargin c' = cxDeltaMargin c \<and> cxBestAskBidPrice c' = cxBestAskBidPrice c"
  by (induction i ps c rule: splitPerpetuals.induct) (auto simp: Let_def split: if_splits)

lemma initAMMTradingContext_delta:
  assumes "initAMMTradingContext L p i = Some (Some c)"
  shows "cxDeltaPosition c = 0" "cxDeltaMargin c = 0"
proof -
  from assms obtain c0 v where c0: "splitPerpetuals i (Perpetuals p) (emptyContext (PoolCashBalance p)) = Some c0"
    "initAMMTradingContextEagerEvaluation L c0 = Some (Inr v)" "c = v"
    by (clarsimp simp: initAMMTradingContext_def bind_Some_iff split: option.split_asm)
      (auto split: sum.split_asm)
  from c0(2) have "cxDeltaPosition v = cxDeltaPosition c0" "cxDeltaMargin v = cxDeltaMargin c0"
    by (auto simp: initAMMTradingContextEagerEvaluation_def bind_Some_iff Let_def split: if_splits)
  with splitPerpetuals_delta [OF c0(1)] c0(3) show "cxDeltaPosition c = 0" "cxDeltaMargin c = 0"
    by (simp_all add: emptyContext_def)
qed

lemma ctx_moved_trans:
  assumes "ctx_moved c x c1" "ctx_moved c1 y c2" "HasTheSameSign x y"
  shows "ctx_moved c (x + y) c2"
  using assms
  unfolding ctx_moved_def HasTheSameSign_iff
  by (auto simp: zero_le_mult_iff not_le mult_less_0_iff add_pos_pos add_neg_neg)

lemma SplitAmount_same_sign:
  "SplitAmount position amount = (cls, opn) \<Longrightarrow> HasTheSameSign cls opn"
  by (auto simp: SplitAmount_def HasTheSameSign_iff zero_le_mult_iff abs_if split: if_splits)

text \<open>The context an AMM trade ends with, before and after the best-price correction.\<close>

lemma computeAMMInternalTrade_Inr:
  assumes "computeAMMInternalTrade L p i amount = Some (Inr c')"
  obtains c where "cxDeltaPosition c = amount" "\<not> HasTheSameSign (cxDeltaMargin c) amount"
    "cxBestAskBidPrice c \<noteq> 0"
    "c' = c\<lparr> cxDeltaMargin := max (cxDeltaMargin c) (- (cxBestAskBidPrice c * amount)) \<rparr>"
proof -
  from assms obtain c0 where c0: "initAMMTradingContext L p i = Some (Some c0)"
    by (clarsimp simp: computeAMMInternalTrade_def bind_Some_iff) (auto split: option.split_asm)
  obtain cls opn where s: "SplitAmount (cxPosition1 c0) amount = (cls, opn)" by fastforce
  from assms c0 s have nz: "\<not> (cls = 0 \<and> opn = 0)"
    by (auto simp: computeAMMInternalTrade_def split: if_split_asm)
  from assms [unfolded computeAMMInternalTrade_def Let_def c0 bind.bind_lunit option.case s prod.case go_conv]
  obtain c1 c2 where c1: "(if cls \<noteq> 0 then computeAMMInternalClose L c0 cls else Some (Inr c0)) = Some (Inr c1)"
    and c2: "(if opn \<noteq> 0 then computeAMMInternalOpen L c1 opn else Some (Inr c1)) = Some (Inr c2)"
    and best: "cxBestAskBidPrice c2 \<noteq> 0"
    and c': "c' = (if cxDeltaMargin c2 < - (cxBestAskBidPrice c2 * amount)
               then c2\<lparr> cxDeltaMargin := - (cxBestAskBidPrice c2 * amount) \<rparr> else c2)"
    by auto
  note d0 = initAMMTradingContext_delta [OF c0]
  have m1: "cls \<noteq> 0 \<Longrightarrow> ctx_moved c0 cls c1" "cls = 0 \<Longrightarrow> c1 = c0"
    using c1 computeAMMInternalClose_moved(1) [of L c0 cls c1] by auto
  have m2: "opn \<noteq> 0 \<Longrightarrow> ctx_moved c1 opn c2" "opn = 0 \<Longrightarrow> c2 = c1"
    using c2 computeAMMInternalOpen_moved(1) [of L c1 opn c2] by auto
  have "ctx_moved c0 amount c2"
    using m1 m2 nz ctx_moved_trans [OF _ _ SplitAmount_same_sign [OF s], of c0 c1 c2] SplitAmount_sum [OF s]
    by (cases "cls = 0"; cases "opn = 0") auto
  with d0 have "cxDeltaPosition c2 = amount" "\<not> HasTheSameSign (cxDeltaMargin c2) amount"
    by (simp_all add: ctx_moved_def)
  then show ?thesis using best by (intro that [of c2]) (simp_all add: c' max_def)
qed

subsection \<open>The sign of the amount at a limit price\<close>

definition onSide :: "bool \<Rightarrow> decimal \<Rightarrow> bool" where
  "onSide isBuy x = (if isBuy then 0 \<le> x else x \<le> 0)"

lemma onSide_0 [simp]: "onSide b 0"
  by (simp add: onSide_def)

lemma onSide_add: "onSide b x \<Longrightarrow> onSide b y \<Longrightarrow> onSide b (x + y)"
  by (auto simp: onSide_def split: if_splits)

lemma computeAMMOpenAmountWithPrice_side:
  "opt_all (onSide isAMMBuy) (computeAMMOpenAmountWithPrice L c limitPrice isAMMBuy)"
  unfolding computeAMMOpenAmountWithPrice_def Let_def
  by (intro opt_all_rules) (auto simp: onSide_def elim!: computeAMMPoolMargin_Inr)

lemma closeThenOpen_side:
  assumes "onSide isAMMBuy (cxDeltaPosition c)"
  shows "opt_all (onSide isAMMBuy) (closeThenOpen L c limitPrice isAMMBuy)"
  unfolding closeThenOpen_def
  by (intro opt_all_rules)
    (use assms opt_allD [OF computeAMMOpenAmountWithPrice_side] in \<open>auto intro!: onSide_add\<close>)

lemma computeAMMCloseAndOpenAmountWithPrice_side:
  assumes "cxPosition1 c \<noteq> 0 \<longrightarrow> (isAMMBuy \<longleftrightarrow> cxPosition1 c < 0)"
  shows "opt_all (onSide isAMMBuy) (computeAMMCloseAndOpenAmountWithPrice L c limitPrice isAMMBuy)"
proof -
  let ?P = "\<lambda>c'. cxPosition1 c' = cxPosition1 c \<and> cxDeltaPosition c' = cxDeltaPosition c"
  have "opt_all (\<lambda>r. \<forall>c'. r = Inr c' \<longrightarrow> ?P c')
     (if safe then do {
             r \<leftarrow> computeAMMPoolMargin L c (cxCloseSlippageFactor c) False;
             go_try r (\<lambda>context. do {
               best \<leftarrow> computeBestAskBidPriceIfSafe L context (cxCloseSlippageFactor context) isAMMBuy;
               Some (Inr (context\<lparr> cxBestAskBidPrice := best \<rparr>))
             })
           }
           else Some (Inr (c\<lparr> cxBestAskBidPrice := computeBestAskBidPriceIfUnsafe c \<rparr>)))" for safe
    unfolding go_try_def by (intro opt_all_rules) (auto elim!: computeAMMPoolMargin_Inr)
  note priced = opt_allD [OF this, rule_format, OF _ refl]
  have zero: "onSide isAMMBuy (cxDeltaPosition z)"
    if "computeAMMInternalClose L c' (- cxPosition1 c) = Some (Inr z)"
      "cxDeltaPosition c' = 0" "cxPosition1 c \<noteq> 0" for c' z
    using computeAMMInternalClose_moved(1) [OF that(1)] that(2,3) assms
    by (auto simp: ctx_moved_def onSide_def)
  have part: "onSide isAMMBuy (cxDeltaPosition z)"
    if "computeAMMInternalClose L c' a = Some (Inr z)" "cxDeltaPosition c' = 0"
      "(isAMMBuy \<and> 0 < a) \<or> (\<not> isAMMBuy \<and> a < 0)" for c' z a
    using computeAMMInternalClose_moved(1) [OF that(1)] that(2,3)
    by (auto simp: ctx_moved_def onSide_def)
  show ?thesis
    unfolding computeAMMCloseAndOpenAmountWithPrice_def Let_def
    by (intro opt_all_rules opt_all_simps(2) [THEN iffD2] onSide_0 closeThenOpen_side; hypsubst?;
        drule priced; auto intro: zero part)
qed

subsection \<open>A sample pool\<close>

text \<open>A pool with one perpetual at index price 1, on which the witnesses are evaluated.\<close>

definition sample_perp :: PerpetualStorage where
  "sample_perp =
     \<lparr> IsNormal = True, MarkPrice = 1, IndexPrice = 1, UnitAccumulativeFunding = 0,
       InitialMarginRate = 1 / 2, MaintenanceMarginRate = 1 / 4, OperatorFeeRate = 0, LpFeeRate = 1,
       ReferrerRebateRate = 0, LiquidationPenaltyRate = 0, KeeperGasReward = 0, InsuranceFundRate = 0,
       OpenInterest = 0, MaxOpenInterestRate = 100, HalfSpread = 0, OpenSlippageFactor = 2,
       CloseSlippageFactor = 2, FundingRateFactor = 0, FundingRateLimit = 0, MaxLeverage = 1,
       MaxClosePriceDiscount = 0, AmmCashBalance = 0, AmmPositionAmount = 0 \<rparr>"

definition sample_pool :: LiquidityPoolStorage where
  "sample_pool = \<lparr> VaultFeeRate = 0, PoolCashBalance = 1, Perpetuals = [(0, sample_perp)] \<rparr>"

lemmas sample_amm_defs = sample_perp_def sample_pool_def

lemma sample_pool_perp: "map_of (Perpetuals sample_pool) 0 = Some sample_perp"
  by (simp add: sample_pool_def)

lemma lib18_quo_int: "y \<noteq> 0 \<Longrightarrow> on_grid (x / y) \<Longrightarrow> quo lib18 x y = x / y"
  by (rule d18.quo_exact)

lemmas lib18_round = d18.round_exact

lemma Sqrt_0_1 [simp]: "Sqrt L 0 = Some 0" "Sqrt L 1 = Some 1"
  by (simp_all add: Sqrt_def)

lemma sample_context:
  "initAMMTradingContext L sample_pool 0 = Some (Some ((emptyContext 1)\<lparr>
     cxIndex := 1, cxOpenSlippageFactor := 2, cxCloseSlippageFactor := 2, cxMaxLeverage := 1 \<rparr>))"
  by (simp add: initAMMTradingContext_def initAMMTradingContextEagerEvaluation_def sample_amm_defs
      emptyContext_def Let_def)

text \<open>
  the amount the AMM can trade at a limit price has the side of the trader: never negative
  for a buyer, never positive for a seller, for every pool, price and rounding of the decimal
  library.
\<close>

theorem ComputeAMMAmountWithPrice_side:
  assumes "ComputeAMMAmountWithPrice L p i isTraderBuy limitPrice = Some x"
  shows "if isTraderBuy then 0 \<le> x else x \<le> 0"
proof -
  have neg: "onSide (\<not> b) y \<Longrightarrow> onSide b (- y)" for b y by (auto simp: onSide_def split: if_splits)
  have "opt_all (onSide isTraderBuy) (ComputeAMMAmountWithPrice L p i isTraderBuy limitPrice)"
    unfolding ComputeAMMAmountWithPrice_def Let_def
    by (intro opt_all_rules opt_all_map; (simp; fail)?)
      (auto simp: opt_all_def intro!: neg
        dest: opt_allD [OF computeAMMOpenAmountWithPrice_side]
        opt_allD [OF computeAMMCloseAndOpenAmountWithPrice_side, rotated])
  with assms show ?thesis by (simp add: opt_all_def onSide_def)
qed

lemma sample_amount: "ComputeAMMAmountWithPrice lib18 sample_pool 0 False (1 / 2) = Some (- (1 / 2))"
  unfolding ComputeAMMAmountWithPrice_def sample_context
  by (simp add: sample_pool_perp emptyContext_def computeAMMOpenAmountWithPrice_def Let_def
      isAMMSafe_def computeAMMPoolMargin_def computeBestAskBidPriceIfSafe_def appendSpread_def
      computeAMMSafeLongPositionAmount_def computeAMMSafeCondition1_def computeAMMSafeCondition2_def
      computeAMMSafeCondition3_def computeAMMInternalOpen_def copyAMMTradingContext_def
      computeDeltaMargin_def HasTheSameSign_def lib18_quo_int lib18_round)

theorem ComputeAMMAmountWithPrice_side_witness:
  "ComputeAMMAmountWithPrice lib18 sample_pool 0 False (1 / 2) = Some (- (1 / 2)) \<and>
   (if False then 0 \<le> - (1 / 2 :: decimal) else - (1 / 2 :: decimal) \<le> 0)"
  using ComputeAMMAmountWithPrice_side [OF sample_amount] sample_amount by simp

end
