(* ===== verification/Computation.thy ===== *)
theory Computation
  imports AMM
begin

text \<open>
  \<^verbatim>\<open>src/common/mai3/computation.go\<close> and the search of \<^verbatim>\<open>amm.go\<close> built on it: the margin
  account of a trader, a trade at a given price, a trade against the AMM, and the largest safe
  trade. Functions that update the trader's account or the pool through a pointer return the
  updated value next to their result, on the error paths as well: a trade that fails late has
  already changed them.
\<close>

section \<open>Definitions\<close>

definition ComputeAccount ::
  "decimal_lib \<Rightarrow> LiquidityPoolStorage \<Rightarrow> int \<Rightarrow> AccountStorage \<Rightarrow> AccountComputed go" where
  "ComputeAccount L p perpetualIndex a =
     (case map_of (Perpetuals p) perpetualIndex of
        None \<Rightarrow> Some (Inl ''perpetual not found in the pool'')
      | Some perpetual \<Rightarrow> do {
          let positionValue = MarkPrice perpetual * \<bar>PositionAmount a\<bar>;
          let positionMargin = positionValue * InitialMarginRate perpetual;
          let maintenanceMargin = positionValue * MaintenanceMarginRate perpetual;
          let reservedCash = (if PositionAmount a \<noteq> 0 then KeeperGasReward perpetual else 0);
          let availableCashBalance =
                CashBalance a - PositionAmount a * UnitAccumulativeFunding perpetual;
          let marginBalance = availableCashBalance + MarkPrice perpetual * PositionAmount a;
          let availableMargin = marginBalance - positionMargin - reservedCash;
          let withdrawableBalance = max 0 availableMargin;
          let isIMSafe = (0 \<le> availableMargin);
          let isMMSafe = (0 \<le> marginBalance - maintenanceMargin - reservedCash);
          let isMarginSafe = (reservedCash \<le> marginBalance);
          let marginWithoutReserved = marginBalance - reservedCash;
          leverage \<leftarrow> (if 0 < positionValue \<and> 0 < marginWithoutReserved
                       then DivD L positionValue marginWithoutReserved else Some 0);
          Some (Inr \<lparr> PositionValue = positionValue, PositionMargin = positionMargin,
                      MaintenanceMargin = maintenanceMargin,
                      AvailableCashBalance = availableCashBalance,
                      MarginBalance = marginBalance, AvailableMargin = availableMargin,
                      WithdrawableBalance = withdrawableBalance, IsMMSafe = isMMSafe,
                      IsIMSafe = isIMSafe, IsMarginSafe = isMarginSafe, Leverage = leverage \<rparr>)
        })"

definition computeOpenInterest :: "decimal \<Rightarrow> decimal \<Rightarrow> decimal \<Rightarrow> decimal" where
  "computeOpenInterest oldOpenInterest oldPosition tradeAmount =
     (let newPosition = oldPosition + tradeAmount;
          oi1 = (if 0 < oldPosition then oldOpenInterest - oldPosition else oldOpenInterest)
      in if 0 < newPosition then oi1 + newPosition else oi1)"

definition ComputeAMMPrice ::
  "decimal_lib \<Rightarrow> LiquidityPoolStorage \<Rightarrow> int \<Rightarrow> decimal \<Rightarrow> (decimal \<times> decimal \<times> decimal) go" where
  "ComputeAMMPrice L p perpetualIndex amount =
     (if amount = 0 then Some (Inl ''bad amount'')
      else do {
        r \<leftarrow> computeAMMInternalTrade L p perpetualIndex (- amount);
        go_try r (\<lambda>ammTrading. do {
          q \<leftarrow> DivD L (cxDeltaMargin ammTrading) (cxDeltaPosition ammTrading);
          Some (Inr (cxDeltaMargin ammTrading, cxDeltaPosition ammTrading, \<bar>q\<bar>))
        })
      })"

definition ComputeDecreasePosition ::
  "LiquidityPoolStorage \<Rightarrow> int \<Rightarrow> AccountStorage \<Rightarrow> decimal \<Rightarrow> decimal \<Rightarrow> AccountStorage result" where
  "ComputeDecreasePosition p perpetualIndex a price amount =
     (case map_of (Perpetuals p) perpetualIndex of
        None \<Rightarrow> Inl ''perpetual not found in the pool''
      | Some perpetual \<Rightarrow>
          let oldAmount = PositionAmount a in
          if oldAmount = 0 \<or> amount = 0 \<or> HasTheSameSign oldAmount amount
            then Inl ''invalid amount or position''
          else if price \<le> 0 then Inl ''invalid price''
          else if \<bar>oldAmount\<bar> < \<bar>amount\<bar> then Inl ''position size is less than amount''
          else Inr (a\<lparr> CashBalance := CashBalance a - price * amount
                                      + UnitAccumulativeFunding perpetual * amount,
                       PositionAmount := PositionAmount a + amount \<rparr>))"

definition ComputeIncreasePosition ::
  "LiquidityPoolStorage \<Rightarrow> int \<Rightarrow> AccountStorage \<Rightarrow> decimal \<Rightarrow> decimal \<Rightarrow> AccountStorage result" where
  "ComputeIncreasePosition p perpetualIndex a price amount =
     (case map_of (Perpetuals p) perpetualIndex of
        None \<Rightarrow> Inl ''perpetual not found in the pool''
      | Some perpetual \<Rightarrow>
          let oldAmount = PositionAmount a in
          if price \<le> 0 then Inl ''invalid price''
          else if amount = 0 then Inl ''invalid amount''
          else if oldAmount \<noteq> 0 \<and> \<not> HasTheSameSign oldAmount amount
            then Inl ''invalid amount or position''
          else Inr (a\<lparr> CashBalance := CashBalance a - price * amount
                                      + UnitAccumulativeFunding perpetual * amount,
                       PositionAmount := PositionAmount a + amount \<rparr>))"

definition ComputeFee ::
  "bool \<Rightarrow> decimal \<Rightarrow> decimal \<Rightarrow> decimal \<Rightarrow> AccountComputed \<Rightarrow> decimal result" where
  "ComputeFee hasOpened price amount feeRate afterTrade =
     (if price \<le> 0 \<or> amount = 0 then Inl ''invalid price or admount''
      else
        let totalFee = price * \<bar>amount\<bar> * feeRate in
        Inr (if \<not> hasOpened then
               let availableMargin = AvailableMargin afterTrade in
               if availableMargin \<le> 0 then 0
               else if availableMargin < totalFee then availableMargin
               else totalFee
             else totalFee))"

definition adjustMarginLeverage ::
  "decimal_lib \<Rightarrow> LiquidityPoolStorage \<Rightarrow> int \<Rightarrow> AccountComputed \<Rightarrow> AccountStorage \<Rightarrow>
   decimal \<Rightarrow> decimal \<Rightarrow> decimal \<Rightarrow> decimal \<Rightarrow> decimal go" where
  "adjustMarginLeverage L p perpetualIndex a trader price cls opn totalFee =
     (case map_of (Perpetuals p) perpetualIndex of
        None \<Rightarrow> Some (Inl ''perpetual not found in the pool'')
      | Some perpetual \<Rightarrow>
          let deltaPosition = cls + opn;
              deltaCash = - (deltaPosition * price);
              position2 = PositionAmount trader
          in if cls \<noteq> 0 \<and> opn = 0 then do {
               let c1 = AvailableCashBalance a * cls;
               let c2 = c1 - (deltaCash - totalFee) * position2;
               let c3 = (if position2 \<noteq> 0 then c2 - KeeperGasReward perpetual * cls else c2);
               c4 \<leftarrow> DivD L c3 (position2 - cls);
               let limit = - AvailableMargin a;
               Some (Inr (min (max c4 limit) 0))
             }
             else if TargetLeverage trader \<le> 0 then Some (Inl ''target leverage <= 0'')
             else do {
               openPositionMargin \<leftarrow> DivD L (\<bar>opn\<bar> * MarkPrice perpetual) (TargetLeverage trader);
               let adjustCollateral =
                     (if position2 - deltaPosition = 0 \<or> cls \<noteq> 0
                      then openPositionMargin + KeeperGasReward perpetual - MarginBalance a
                      else openPositionMargin - MarkPrice perpetual * opn - deltaCash + totalFee);
               Some (Inr (max adjustCollateral (- AvailableMargin a)))
             })"

text \<open>
  The trade of an account at a price. The account comes back with the result: its value at
  the point where the function returns, error or not.
\<close>

definition ComputeTradeWithPrice ::
  "decimal_lib \<Rightarrow> LiquidityPoolStorage \<Rightarrow> int \<Rightarrow> AccountStorage \<Rightarrow> decimal \<Rightarrow> decimal \<Rightarrow> decimal \<Rightarrow>
   (AccountStorage \<times> (AccountComputed \<times> bool \<times> decimal) result) option" where
  "ComputeTradeWithPrice L p perpetualIndex a price amount feeRate =
     (if price \<le> 0 \<or> amount = 0 then Some (a, Inl ''bad price or amount'')
      else
        let (cls, opn) = SplitAmount (PositionAmount a) amount in
        case (if cls \<noteq> 0 then ComputeDecreasePosition p perpetualIndex a price cls else Inr a) of
          Inl e \<Rightarrow> Some (a, Inl e)
        | Inr a \<Rightarrow>
        case (if opn \<noteq> 0 then ComputeIncreasePosition p perpetualIndex a price opn else Inr a) of
          Inl e \<Rightarrow> Some (a, Inl e)
        | Inr a \<Rightarrow> do {
            r1 \<leftarrow> ComputeAccount L p perpetualIndex a;
            (case r1 of
               Inl e \<Rightarrow> Some (a, Inl e)
             | Inr afterTrade \<Rightarrow>
            case ComputeFee (opn \<noteq> 0) price amount feeRate afterTrade of
               Inl e \<Rightarrow> Some (a, Inl e)
             | Inr totalFee \<Rightarrow> do {
                 let a = a\<lparr> CashBalance := CashBalance a - totalFee \<rparr>;
                 r2 \<leftarrow> ComputeAccount L p perpetualIndex a;
                 (case r2 of
                    Inl e \<Rightarrow> Some (a, Inl e)
                  | Inr afterTrade \<Rightarrow> do {
                      r3 \<leftarrow> adjustMarginLeverage L p perpetualIndex afterTrade a price cls opn totalFee;
                      (case r3 of
                         Inl e \<Rightarrow> Some (a, Inl e)
                       | Inr adjustMargin \<Rightarrow>
                           if WalletBalance a < adjustMargin
                           then Some (a, Inl ''wallet balance not enough for trading'')
                           else do {
                             let a = a\<lparr> CashBalance := CashBalance a + adjustMargin,
                                        WalletBalance := WalletBalance a - adjustMargin \<rparr>;
                             r4 \<leftarrow> ComputeAccount L p perpetualIndex a;
                             (case r4 of
                                Inl e \<Rightarrow> Some (a, Inl e)
                              | Inr afterTrade \<Rightarrow>
                                  let tradeIsSafe = (if opn \<noteq> 0 then IsIMSafe afterTrade
                                                     else IsMarginSafe afterTrade)
                                  in Some (a, Inr (afterTrade, tradeIsSafe, totalFee)))
                           })
                    })
               })
          })"

text \<open>Assignment through the pointer stored in the map of perpetuals.\<close>

definition setPerpetual ::
  "LiquidityPoolStorage \<Rightarrow> int \<Rightarrow> PerpetualStorage \<Rightarrow> LiquidityPoolStorage" where
  "setPerpetual p i perp =
     p\<lparr> Perpetuals := map (\<lambda>(k, v). (k, if k = i then perp else v)) (Perpetuals p) \<rparr>"

text \<open>
  A trade of \<open>trader\<close> against the AMM: the pool and the trader come back with the result. The
  pool is updated before the open interest limit is checked.
\<close>

definition ComputeAMMTrade ::
  "decimal_lib \<Rightarrow> LiquidityPoolStorage \<Rightarrow> int \<Rightarrow> AccountStorage \<Rightarrow> decimal \<Rightarrow>
   (LiquidityPoolStorage \<times> AccountStorage \<times> (AccountComputed \<times> bool \<times> decimal) result) option" where
  "ComputeAMMTrade L p perpetualIndex trader amount =
     (if amount = 0 then Some (p, trader, Inl ''bad amount'')
      else case map_of (Perpetuals p) perpetualIndex of
        None \<Rightarrow> Some (p, trader, Inl ''perpetual not found in the pool'')
      | Some perpetual \<Rightarrow> do {
          let oldOpenInterest = OpenInterest perpetual;
          r1 \<leftarrow> ComputeAMMPrice L p perpetualIndex amount;
          (case r1 of
             Inl e \<Rightarrow> Some (p, trader, Inl e)
           | Inr (_, deltaAMMAmount, tradingPrice) \<Rightarrow>
               if - deltaAMMAmount \<noteq> amount then Some (p, trader, Inl ''trading amount mismatched'')
               else do {
                 let feeRate = LpFeeRate perpetual + VaultFeeRate p + OperatorFeeRate perpetual;
                 (trader, r2) \<leftarrow> ComputeTradeWithPrice L p perpetualIndex trader tradingPrice
                                  (- deltaAMMAmount) feeRate;
                 (case r2 of
                    Inl e \<Rightarrow> Some (p, trader, Inl e)
                  | Inr (afterTrade, tradeIsSafe, totalFee) \<Rightarrow> do {
                      lpFee \<leftarrow> DivD L (totalFee * LpFeeRate perpetual) feeRate;
                      let oi1 = computeOpenInterest oldOpenInterest (PositionAmount trader)
                                  (- deltaAMMAmount);
                      let newPoolCashBalance = PoolCashBalance p - deltaAMMAmount * tradingPrice
                            + UnitAccumulativeFunding perpetual * deltaAMMAmount + lpFee;
                      let newOpenInterest = computeOpenInterest oi1 (AmmPositionAmount perpetual)
                                              deltaAMMAmount;
                      let perpetual = perpetual\<lparr>
                            AmmPositionAmount := AmmPositionAmount perpetual + deltaAMMAmount,
                            OpenInterest := newOpenInterest \<rparr>;
                      let p = (setPerpetual p perpetualIndex perpetual)\<lparr>
                                PoolCashBalance := newPoolCashBalance \<rparr>;
                      if oldOpenInterest < newOpenInterest then do {
                        init \<leftarrow> initAMMTradingContext L p perpetualIndex;
                        context \<leftarrow> init;
                        r3 \<leftarrow> computeAMMPoolMargin L context (cxOpenSlippageFactor context) True;
                        (case r3 of
                           Inl e \<Rightarrow> Some (p, trader, Inl e)
                         | Inr context \<Rightarrow> do {
                             limit \<leftarrow> DivD L (cxPoolMargin context * MaxOpenInterestRate perpetual)
                                       (IndexPrice perpetual);
                             if limit < newOpenInterest
                             then Some (p, trader, Inl ''ComputeAMMTrade open interest exceeds limit'')
                             else Some (p, trader, Inr (afterTrade, tradeIsSafe, tradingPrice))
                           })
                      }
                      else Some (p, trader, Inr (afterTrade, tradeIsSafe, tradingPrice))
                    })
               })
        })"

text \<open>The largest amount between 0 and \<open>amount\<close> the golden section search finds safe.\<close>

definition checkTrading ::
  "decimal_lib \<Rightarrow> LiquidityPoolStorage \<Rightarrow> int \<Rightarrow> AccountStorage \<Rightarrow> rat \<Rightarrow> rat option" where
  "checkTrading L p perpetualIndex trader a =
     (if a = 0 then Some 0
      else do {
        (_, _, r) \<leftarrow> ComputeAMMTrade L (CopyLiquidityPoolStorage p) perpetualIndex
                       (CopyAccountStorage trader) (of_float L a);
        Some (case r of
                Inl _ \<Rightarrow> \<bar>a\<bar>
              | Inr (_, tradeIsSafe, _) \<Rightarrow> if tradeIsSafe then - \<bar>a\<bar> else \<bar>a\<bar>)
      })"

definition ComputeAMMMaxTradeAmount ::
  "decimal_lib \<Rightarrow> LiquidityPoolStorage \<Rightarrow> int \<Rightarrow> AccountStorage \<Rightarrow> decimal \<Rightarrow> bool \<Rightarrow> decimal option" where
  "ComputeAMMMaxTradeAmount L p perpetualIndex trader amount isTraderBuy = do {
     init \<leftarrow> initAMMTradingContext L p perpetualIndex;
     (case init of
        None \<Rightarrow> Some 0
      | Some ammContext \<Rightarrow> do {
          safe \<leftarrow> isAMMSafe L ammContext (cxOpenSlippageFactor ammContext);
          if \<not> safe \<and> ((isTraderBuy \<and> cxPosition1 ammContext < 0) \<or>
                          (\<not> isTraderBuy \<and> 0 < cxPosition1 ammContext))
          then Some 0
          else do {
            res \<leftarrow> Gss (checkTrading L p perpetualIndex trader) 0 (to_float L amount)
                     (3022314549036573 / 302231454903657293676544) 15;
            Some (of_float L res)
          }
        })
   }"

section \<open>The margin account\<close>

text \<open>The account's figures as plain expressions of the perpetual and of the stored account.\<close>

definition marginOf :: "PerpetualStorage \<Rightarrow> AccountStorage \<Rightarrow> decimal" where
  "marginOf perp a = CashBalance a - PositionAmount a * UnitAccumulativeFunding perp
     + MarkPrice perp * PositionAmount a"

definition reservedOf :: "PerpetualStorage \<Rightarrow> AccountStorage \<Rightarrow> decimal" where
  "reservedOf perp a = (if PositionAmount a \<noteq> 0 then KeeperGasReward perp else 0)"

definition availableOf :: "PerpetualStorage \<Rightarrow> AccountStorage \<Rightarrow> decimal" where
  "availableOf perp a = marginOf perp a
     - MarkPrice perp * \<bar>PositionAmount a\<bar> * InitialMarginRate perp - reservedOf perp a"

lemmas account_defs = marginOf_def reservedOf_def availableOf_def

lemma ComputeAccount_total:
  assumes "map_of (Perpetuals p) i = Some perp"
  shows "\<exists>c. ComputeAccount L p i a = Some (Inr c) \<and> MarginBalance c = marginOf perp a \<and>
             AvailableMargin c = availableOf perp a \<and> (IsIMSafe c \<longleftrightarrow> 0 \<le> availableOf perp a) \<and>
             (IsMarginSafe c \<longleftrightarrow> reservedOf perp a \<le> marginOf perp a) \<and>
             AvailableCashBalance c = CashBalance a - PositionAmount a * UnitAccumulativeFunding perp"
  using assms by (auto simp: ComputeAccount_def Let_def account_defs)

lemma ComputeAccount_Inr:
  assumes "ComputeAccount L p i a = Some (Inr c)" "map_of (Perpetuals p) i = Some perp"
  shows "MarginBalance c = marginOf perp a" "AvailableMargin c = availableOf perp a"
    "IsIMSafe c \<longleftrightarrow> 0 \<le> availableOf perp a" "IsMarginSafe c \<longleftrightarrow> reservedOf perp a \<le> marginOf perp a"
    "AvailableCashBalance c = CashBalance a - PositionAmount a * UnitAccumulativeFunding perp"
  using ComputeAccount_total [OF assms(2), of L a] assms(1) by auto

lemma marginOf_cash [simp]:
  "marginOf perp (a\<lparr>CashBalance := x\<rparr>) = marginOf perp a + (x - CashBalance a)"
  "marginOf perp (a\<lparr>WalletBalance := w\<rparr>) = marginOf perp a"
  by (simp_all add: marginOf_def)

lemma availableOf_cash [simp]:
  "availableOf perp (a\<lparr>CashBalance := x\<rparr>) = availableOf perp a + (x - CashBalance a)"
  "availableOf perp (a\<lparr>WalletBalance := w\<rparr>) = availableOf perp a"
  by (simp_all add: availableOf_def reservedOf_def)

section \<open>A trade at a price\<close>

text \<open>Both position updates move the cash by the price and by the funding, and keep the wallet.\<close>

definition moved :: "PerpetualStorage \<Rightarrow> AccountStorage \<Rightarrow> decimal \<Rightarrow> decimal \<Rightarrow> AccountStorage" where
  "moved perp a price amount =
     a\<lparr> CashBalance := CashBalance a - price * amount + UnitAccumulativeFunding perp * amount,
        PositionAmount := PositionAmount a + amount \<rparr>"

lemma moved_simps [simp]:
  "PositionAmount (moved perp a price amount) = PositionAmount a + amount"
  "WalletBalance (moved perp a price amount) = WalletBalance a"
  "TargetLeverage (moved perp a price amount) = TargetLeverage a"
  "CashBalance (moved perp a price amount) =
     CashBalance a - price * amount + UnitAccumulativeFunding perp * amount"
  by (simp_all add: moved_def)

lemma moved_0 [simp]: "moved perp a price 0 = a"
  by (simp add: moved_def)

lemma moved_moved: "moved perp (moved perp a price x) price y = moved perp a price (x + y)"
  by (simp add: moved_def algebra_simps)

lemma Decrease_moved:
  assumes "map_of (Perpetuals p) i = Some perp" "0 < price"
    "SplitAmount (PositionAmount a) amount = (cls, opn)"
  shows "(if cls \<noteq> 0 then ComputeDecreasePosition p i a price cls else Inr a) =
         Inr (moved perp a price cls)"
proof (cases "cls = 0")
  case False
  with SplitAmount_close [OF assms(3)] have "\<not> HasTheSameSign (PositionAmount a) cls"
    "\<bar>cls\<bar> \<le> \<bar>PositionAmount a\<bar>" by auto
  then show ?thesis
    using assms(1,2) by (auto simp: ComputeDecreasePosition_def moved_def Let_def)
qed simp

lemma Increase_moved:
  assumes "map_of (Perpetuals p) i = Some perp" "0 < price"
    "SplitAmount (PositionAmount a) amount = (cls, opn)"
  shows "(if opn \<noteq> 0 then ComputeIncreasePosition p i (moved perp a price cls) price opn
          else Inr (moved perp a price cls)) = Inr (moved perp a price amount)"
proof (cases "opn = 0")
  case True
  with SplitAmount_sum [OF assms(3)] show ?thesis by simp
next
  case False
  with SplitAmount_open(1) [OF assms(3)] have "HasTheSameSign (PositionAmount a + cls) opn" .
  then have "ComputeIncreasePosition p i (moved perp a price cls) price opn =
             Inr (moved perp (moved perp a price cls) price opn)"
    using assms(1,2) False
    unfolding ComputeIncreasePosition_def moved_def [of _ "moved perp a price cls"]
    by (simp add: Let_def)
  with False SplitAmount_sum [OF assms(3)] show ?thesis by (simp add: moved_moved)
qed

text \<open>
  What a trade amounts to: the position moves, the fee is paid out of the cash, and an
  adjustment moves collateral between the wallet and the account.
\<close>

lemma ComputeTradeWithPrice_cases:
  assumes "ComputeTradeWithPrice L p i a price amount feeRate = Some (a', Inr (after, safe, fee))"
    "map_of (Perpetuals p) i = Some perp" "SplitAmount (PositionAmount a) amount = (cls, opn)"
  obtains before paid adj where
    "0 < price" "amount \<noteq> 0"
    "ComputeAccount L p i (moved perp a price amount) = Some (Inr before)"
    "ComputeFee (opn \<noteq> 0) price amount feeRate before = Inr fee"
    "ComputeAccount L p i ((moved perp a price amount)
        \<lparr> CashBalance := CashBalance (moved perp a price amount) - fee \<rparr>) = Some (Inr paid)"
    "adjustMarginLeverage L p i paid ((moved perp a price amount)
        \<lparr> CashBalance := CashBalance (moved perp a price amount) - fee \<rparr>) price cls opn fee
     = Some (Inr adj)"
    "adj \<le> WalletBalance a"
    "a' = (moved perp a price amount)
        \<lparr> CashBalance := CashBalance (moved perp a price amount) - fee + adj,
          WalletBalance := WalletBalance a - adj \<rparr>"
    "ComputeAccount L p i a' = Some (Inr after)"
    "safe = (if opn \<noteq> 0 then IsIMSafe after else IsMarginSafe after)"
proof -
  from assms(1) have pa: "0 < price" "amount \<noteq> 0"
    by (auto simp: ComputeTradeWithPrice_def not_le split: if_splits)
  then have bad: "\<not> (price \<le> 0 \<or> amount = 0)" by simp
  define m where "m = moved perp a price amount"
  note r = assms(1) [unfolded ComputeTradeWithPrice_def assms(3) Let_def prod.case if_not_P [OF bad]
      Decrease_moved [OF assms(2) pa(1) assms(3)] sum.case Increase_moved [OF assms(2) pa(1) assms(3)],
      folded m_def]
  from ComputeAccount_total [OF assms(2), of L m] obtain c1 where
    c1: "ComputeAccount L p i m = Some (Inr c1)" by blast
  from r c1 obtain fee' where fee': "ComputeFee (opn \<noteq> 0) price amount feeRate c1 = Inr fee'"
    by (auto split: sum.splits)
  define n where "n = m\<lparr> CashBalance := CashBalance m - fee' \<rparr>"
  from ComputeAccount_total [OF assms(2), of L n] obtain c2 where
    c2: "ComputeAccount L p i n = Some (Inr c2)" by blast
  note r2 = r [unfolded c1 fee' bind.bind_lunit sum.case, folded n_def, unfolded c2 bind.bind_lunit sum.case]
  from r2 obtain adj where
    adj: "adjustMarginLeverage L p i c2 n price cls opn fee' = Some (Inr adj)"
    by (cases "adjustMarginLeverage L p i c2 n price cls opn fee'"; cases "the (adjustMarginLeverage L p i c2 n price cls opn fee')") auto
  note r3 = r2 [unfolded adj bind.bind_lunit sum.case]
  from r3 have wallet: "\<not> WalletBalance n < adj" by (auto split: if_splits)
  define f where "f = n\<lparr> CashBalance := CashBalance n + adj, WalletBalance := WalletBalance n - adj \<rparr>"
  from ComputeAccount_total [OF assms(2), of L f] obtain c3 where
    c3: "ComputeAccount L p i f = Some (Inr c3)" by blast
  note r4 = r3 [unfolded if_not_P [OF wallet], folded f_def, unfolded c3 bind.bind_lunit sum.case]
  then have e: "a' = f" "after = c3" "fee = fee'" "safe = (if opn \<noteq> 0 then IsIMSafe c3 else IsMarginSafe c3)"
    by simp_all
  show ?thesis
  proof (rule that)
    show "ComputeFee (opn \<noteq> 0) price amount feeRate c1 = Inr fee" using fee' e by simp
  qed (use pa c1 c2 c3 adj wallet in \<open>simp_all add: e n_def f_def m_def not_less\<close>)
qed

text \<open>What the fee and the collateral adjustment can be.\<close>

lemma ComputeFee_Inr:
  assumes "ComputeFee opened price amount feeRate c = Inr fee"
  shows "0 < price" "amount \<noteq> 0"
    "fee = (if opened then price * \<bar>amount\<bar> * feeRate
            else if AvailableMargin c \<le> 0 then 0 else min (price * \<bar>amount\<bar> * feeRate) (AvailableMargin c))"
  using assms by (auto simp: ComputeFee_def Let_def not_le split: if_splits)

lemma adjustMarginLeverage_Inr:
  assumes "adjustMarginLeverage L p i c a price cls opn fee = Some (Inr adj)"
  shows "cls \<noteq> 0 \<Longrightarrow> opn = 0 \<Longrightarrow> adj \<le> 0"
    "cls \<noteq> 0 \<Longrightarrow> opn = 0 \<Longrightarrow> - AvailableMargin c \<le> adj \<or> adj = 0"
    "cls = 0 \<or> opn \<noteq> 0 \<Longrightarrow> - AvailableMargin c \<le> adj"
    "cls = 0 \<or> opn \<noteq> 0 \<Longrightarrow> 0 < TargetLeverage a"
  using assms
  by (auto simp: adjustMarginLeverage_def Let_def bind_Some_iff min_def max_def not_le
      split: option.splits if_splits)

lemma ComputeTradeWithPrice_perpetual:
  assumes "ComputeTradeWithPrice L p i a price amount feeRate = Some (a', Inr r)"
  obtains perp where "map_of (Perpetuals p) i = Some perp"
proof (cases "map_of (Perpetuals p) i")
  case None
  obtain cls opn where s: "SplitAmount (PositionAmount a) amount = (cls, opn)" by fastforce
  have "amount \<noteq> 0" using assms by (auto simp: ComputeTradeWithPrice_def split: if_splits)
  with s have "cls \<noteq> 0 \<or> opn \<noteq> 0" using SplitAmount_eq_0 by fastforce
  with None assms s show ?thesis
    by (auto simp: ComputeTradeWithPrice_def ComputeDecreasePosition_def ComputeIncreasePosition_def
        split: if_splits)
qed (use that in blast)

section \<open>Properties of a trade at a price\<close>

lemma ComputeTradeWithPrice_accounting_aux:
  assumes "ComputeTradeWithPrice L p i a price amount feeRate = Some (a', Inr (after, safe, fee))"
    "map_of (Perpetuals p) i = Some perp"
  shows "PositionAmount a' = PositionAmount a + amount \<and>
         CashBalance a' + WalletBalance a' = CashBalance a + WalletBalance a - price * amount
           + UnitAccumulativeFunding perp * amount - fee \<and>
         0 \<le> WalletBalance a' \<and> TargetLeverage a' = TargetLeverage a \<and>
         MarginBalance after = marginOf perp a' \<and> (0 \<le> feeRate \<longrightarrow> 0 \<le> fee)"
proof -
  obtain cls opn where s: "SplitAmount (PositionAmount a) amount = (cls, opn)" by fastforce
  from assms s obtain before adj where t: "0 < price"
    "ComputeFee (opn \<noteq> 0) price amount feeRate before = Inr fee" "adj \<le> WalletBalance a"
    "a' = (moved perp a price amount)
        \<lparr> CashBalance := CashBalance (moved perp a price amount) - fee + adj,
          WalletBalance := WalletBalance a - adj \<rparr>"
    "ComputeAccount L p i a' = Some (Inr after)"
    by (rule ComputeTradeWithPrice_cases) blast
  have "0 \<le> feeRate \<longrightarrow> 0 \<le> fee" using ComputeFee_Inr(3) [OF t(2)] t(1) by (auto split: if_splits)
  with t(3) ComputeAccount_Inr(1) [OF t(5) assms(2)] show ?thesis by (simp add: t(4))
qed

text \<open>
  C30: the books of a trade balance. After a successful trade the position has moved by the
  amount, the collateral in the account and in the wallet together has paid exactly the value at
  the price and the fee and received the accumulated funding, the wallet has not been
  overdrawn, and the fee is not negative when the fee rate is not.
\<close>

theorem ComputeTradeWithPrice_accounting:
  assumes "ComputeTradeWithPrice L p i a price amount feeRate = Some (a', Inr (after, safe, fee))"
    "map_of (Perpetuals p) i = Some perp"
  shows "PositionAmount a' = PositionAmount a + amount \<and>
         CashBalance a' + WalletBalance a' = CashBalance a + WalletBalance a - price * amount
           + UnitAccumulativeFunding perp * amount - fee \<and>
         0 \<le> WalletBalance a' \<and> TargetLeverage a' = TargetLeverage a \<and>
         MarginBalance after = marginOf perp a' \<and> (0 \<le> feeRate \<longrightarrow> 0 \<le> fee)"
  by (rule ComputeTradeWithPrice_accounting_aux [OF assms])

definition sample_account :: "decimal \<Rightarrow> decimal \<Rightarrow> AccountStorage" where
  "sample_account cash position =
     \<lparr> TargetLeverage = 1, WalletBalance = 100, CashBalance = cash, PositionAmount = position \<rparr>"

lemmas sample_defs = sample_amm_defs sample_account_def

lemma sample_open_trade:
  "\<exists>a' after safe fee. ComputeTradeWithPrice lib18 sample_pool 0 (sample_account 0 0) 1 2 0 =
     Some (a', Inr (after, safe, fee)) \<and> PositionAmount a' = 2 \<and> CashBalance a' = 0 \<and>
     WalletBalance a' = 98 \<and> fee = 0"
  by (simp add: ComputeTradeWithPrice_def ComputeIncreasePosition_def ComputeAccount_def
      ComputeFee_def adjustMarginLeverage_def SplitAmount_def HasTheSameSign_def Let_def
      sample_defs lib18_quo_int ex_bool_eq)

theorem ComputeTradeWithPrice_accounting_witness:
  "\<exists>a' after safe fee. ComputeTradeWithPrice lib18 sample_pool 0 (sample_account 0 0) 1 2 0 =
     Some (a', Inr (after, safe, fee)) \<and> map_of (Perpetuals sample_pool) 0 = Some sample_perp \<and>
     CashBalance a' + WalletBalance a' = 100 - 2 - fee"
proof -
  from sample_open_trade obtain a' after safe fee where
    t: "ComputeTradeWithPrice lib18 sample_pool 0 (sample_account 0 0) 1 2 0 =
     Some (a', Inr (after, safe, fee))" by blast
  from ComputeTradeWithPrice_accounting [OF t sample_pool_perp] t sample_pool_perp show ?thesis
    by (auto simp: sample_defs)
qed

text \<open>
  C31: a trade that opens (part of) a position and that the wallet can pay is always safe: the
  collateral adjustment brings the available margin to at least zero, so the account meets the
  initial margin after the trade.
\<close>

theorem ComputeTradeWithPrice_open_is_safe:
  assumes "ComputeTradeWithPrice L p i a price amount feeRate = Some (a', Inr (after, safe, fee))"
    "snd (SplitAmount (PositionAmount a) amount) \<noteq> 0"
  shows "safe \<and> IsIMSafe after \<and> 0 \<le> AvailableMargin after \<and> 0 < TargetLeverage a"
proof -
  obtain perp where perp: "map_of (Perpetuals p) i = Some perp"
    using assms(1) by (rule ComputeTradeWithPrice_perpetual)
  obtain cls opn where s: "SplitAmount (PositionAmount a) amount = (cls, opn)" by fastforce
  let ?m = "moved perp a price amount"
  from assms(1) perp s obtain paid adj where t:
    "ComputeAccount L p i (?m\<lparr> CashBalance := CashBalance ?m - fee \<rparr>) = Some (Inr paid)"
    "adjustMarginLeverage L p i paid (?m\<lparr> CashBalance := CashBalance ?m - fee \<rparr>) price cls opn fee
     = Some (Inr adj)"
    "a' = ?m\<lparr> CashBalance := CashBalance ?m - fee + adj, WalletBalance := WalletBalance a - adj \<rparr>"
    "ComputeAccount L p i a' = Some (Inr after)"
    "safe = (if opn \<noteq> 0 then IsIMSafe after else IsMarginSafe after)"
    by (rule ComputeTradeWithPrice_cases) blast
  have "opn \<noteq> 0" using assms(2) s by simp
  then have "- AvailableMargin paid \<le> adj" "0 < TargetLeverage a"
    using adjustMarginLeverage_Inr(3,4) [OF t(2)] by auto
  moreover have "AvailableMargin paid = availableOf perp ?m - fee"
    using ComputeAccount_Inr(2) [OF t(1) perp] by simp
  ultimately have "0 \<le> availableOf perp a'" by (simp add: t(3))
  with \<open>opn \<noteq> 0\<close> \<open>0 < TargetLeverage a\<close> t(5) ComputeAccount_Inr [OF t(4) perp] show ?thesis by simp
qed

theorem ComputeTradeWithPrice_open_is_safe_witness:
  "\<exists>a' after safe fee. ComputeTradeWithPrice lib18 sample_pool 0 (sample_account 0 0) 1 2 0 =
     Some (a', Inr (after, safe, fee)) \<and>
     snd (SplitAmount (PositionAmount (sample_account 0 0)) 2) \<noteq> 0 \<and> safe"
proof -
  from sample_open_trade obtain a' after safe fee where
    t: "ComputeTradeWithPrice lib18 sample_pool 0 (sample_account 0 0) 1 2 0 =
     Some (a', Inr (after, safe, fee))" by blast
  have s: "snd (SplitAmount (PositionAmount (sample_account 0 0)) 2) \<noteq> 0"
    by (simp add: SplitAmount_def sample_defs)
  from ComputeTradeWithPrice_open_is_safe [OF t s] t s show ?thesis by blast
qed

text \<open>
  C32: a trade that only closes never takes collateral from the wallet, charges no fee when
  the margin left after the move does not cover the initial margin, and otherwise leaves the
  available margin at or above zero: the fee and the withdrawal together never eat into the
  initial margin.
\<close>

theorem ComputeTradeWithPrice_close_only:
  assumes "ComputeTradeWithPrice L p i a price amount feeRate = Some (a', Inr (after, safe, fee))"
    "map_of (Perpetuals p) i = Some perp" "snd (SplitAmount (PositionAmount a) amount) = 0"
  shows "WalletBalance a \<le> WalletBalance a' \<and>
         (availableOf perp (moved perp a price amount) \<le> 0 \<longrightarrow>
            fee = 0 \<and> WalletBalance a' = WalletBalance a) \<and>
         (0 < availableOf perp (moved perp a price amount) \<longrightarrow> 0 \<le> AvailableMargin after) \<and>
         (safe \<longleftrightarrow> reservedOf perp a' \<le> marginOf perp a')"
proof -
  obtain cls opn where s: "SplitAmount (PositionAmount a) amount = (cls, opn)" by fastforce
  let ?m = "moved perp a price amount"
  from assms(1,2) s obtain before paid adj where t: "amount \<noteq> 0"
    "ComputeAccount L p i ?m = Some (Inr before)"
    "ComputeFee (opn \<noteq> 0) price amount feeRate before = Inr fee"
    "ComputeAccount L p i (?m\<lparr> CashBalance := CashBalance ?m - fee \<rparr>) = Some (Inr paid)"
    "adjustMarginLeverage L p i paid (?m\<lparr> CashBalance := CashBalance ?m - fee \<rparr>) price cls opn fee
     = Some (Inr adj)"
    "a' = ?m\<lparr> CashBalance := CashBalance ?m - fee + adj, WalletBalance := WalletBalance a - adj \<rparr>"
    "ComputeAccount L p i a' = Some (Inr after)"
    "safe = (if opn \<noteq> 0 then IsIMSafe after else IsMarginSafe after)"
    by (rule ComputeTradeWithPrice_cases) blast
  have o: "opn = 0" "cls \<noteq> 0" using assms(3) s t(1) SplitAmount_eq_0 by auto
  have b: "AvailableMargin before = availableOf perp ?m" using ComputeAccount_Inr(2) [OF t(2) assms(2)] .
  have pd: "AvailableMargin paid = availableOf perp ?m - fee"
    using ComputeAccount_Inr(2) [OF t(4) assms(2)] by simp
  have fee: "fee = (if availableOf perp ?m \<le> 0 then 0
                    else min (price * \<bar>amount\<bar> * feeRate) (availableOf perp ?m))"
    using ComputeFee_Inr(3) [OF t(3)] o b by simp
  have adj: "adj \<le> 0" "- AvailableMargin paid \<le> adj \<or> adj = 0"
    using adjustMarginLeverage_Inr(1,2) [OF t(5)] o by blast+
  have av: "AvailableMargin after = availableOf perp ?m - fee + adj"
    using ComputeAccount_Inr(2) [OF t(7) assms(2)] by (simp add: t(6))
  have safe: "safe \<longleftrightarrow> reservedOf perp a' \<le> marginOf perp a'"
    using ComputeAccount_Inr(4) [OF t(7) assms(2)] t(8) o by simp
  have w: "WalletBalance a' = WalletBalance a - adj" by (simp add: t(6))
  have "fee \<le> availableOf perp ?m \<or> availableOf perp ?m \<le> 0" using fee by auto
  with adj pd av w fee safe show ?thesis by auto
qed

lemma sample_close_trade:
  "\<exists>a' after safe fee. ComputeTradeWithPrice lib18 sample_pool 0 (sample_account 4 2) 1 (-1) 0 =
     Some (a', Inr (after, safe, fee))"
  by (simp add: ComputeTradeWithPrice_def ComputeDecreasePosition_def ComputeAccount_def
      ComputeFee_def adjustMarginLeverage_def SplitAmount_def HasTheSameSign_def Let_def
      sample_defs lib18_quo_int ex_bool_eq)

theorem ComputeTradeWithPrice_close_only_witness:
  "\<exists>a' after safe fee. ComputeTradeWithPrice lib18 sample_pool 0 (sample_account 4 2) 1 (-1) 0 =
     Some (a', Inr (after, safe, fee)) \<and> map_of (Perpetuals sample_pool) 0 = Some sample_perp \<and>
     snd (SplitAmount (PositionAmount (sample_account 4 2)) (-1)) = 0 \<and>
     0 < availableOf sample_perp (moved sample_perp (sample_account 4 2) 1 (-1)) \<and>
     0 \<le> AvailableMargin after \<and> 100 \<le> WalletBalance a'"
proof -
  from sample_close_trade obtain a' after safe fee where
    t: "ComputeTradeWithPrice lib18 sample_pool 0 (sample_account 4 2) 1 (-1) 0 =
     Some (a', Inr (after, safe, fee))" by blast
  have s: "snd (SplitAmount (PositionAmount (sample_account 4 2)) (-1)) = 0"
    by (simp add: SplitAmount_def HasTheSameSign_def sample_defs)
  have v: "0 < availableOf sample_perp (moved sample_perp (sample_account 4 2) 1 (-1))"
    by (simp add: account_defs moved_def sample_defs)
  have "WalletBalance (sample_account 4 2) = 100" by (simp add: sample_defs)
  with ComputeTradeWithPrice_close_only [OF t sample_pool_perp s] t s v sample_pool_perp
  show ?thesis by metis
qed

lemma adjustMarginLeverage_total:
  assumes "map_of (Perpetuals p) i = Some perp" "SplitAmount position amount = (cls, opn)"
    "PositionAmount a = position + amount"
  shows "adjustMarginLeverage L p i c a price cls opn fee \<noteq> None"
proof -
  have "cls \<noteq> 0 \<Longrightarrow> opn = 0 \<Longrightarrow> PositionAmount a - cls \<noteq> 0"
    using SplitAmount_sum [OF assms(2)] SplitAmount_close(3) [OF assms(2)] assms(3) by auto
  with assms(1) show ?thesis by (auto simp: adjustMarginLeverage_def Let_def)
qed

lemma ComputeTradeWithPrice_returns:
  "\<exists>a' r. ComputeTradeWithPrice L p i a price amount feeRate = Some (a', r)"
proof (cases "price \<le> 0 \<or> amount = 0")
  case True
  then show ?thesis by (auto simp: ComputeTradeWithPrice_def)
next
  case bad: False
  then have pa: "0 < price" "amount \<noteq> 0" by auto
  obtain cls opn where s: "SplitAmount (PositionAmount a) amount = (cls, opn)" by fastforce
  show ?thesis
  proof (cases "map_of (Perpetuals p) i")
    case None
    from pa(2) s have "cls \<noteq> 0 \<or> opn \<noteq> 0" using SplitAmount_eq_0 by fastforce
    with None s show ?thesis
      by (auto simp: ComputeTradeWithPrice_def ComputeDecreasePosition_def ComputeIncreasePosition_def)
  next
    case (Some perp)
    define m where "m = moved perp a price amount"
    obtain c1 where c1: "ComputeAccount L p i m = Some (Inr c1)"
      using ComputeAccount_total [OF Some] by blast
    obtain fee where fee: "ComputeFee (opn \<noteq> 0) price amount feeRate c1 = Inr fee"
      using pa by (auto simp: ComputeFee_def Let_def)
    define n where "n = m\<lparr> CashBalance := CashBalance m - fee \<rparr>"
    obtain c2 where c2: "ComputeAccount L p i n = Some (Inr c2)"
      using ComputeAccount_total [OF Some] by blast
    have "PositionAmount n = PositionAmount a + amount" by (simp add: n_def m_def)
    from adjustMarginLeverage_total [OF Some s this]
    obtain adj where adj: "adjustMarginLeverage L p i c2 n price cls opn fee = Some adj" by blast
    define f where "f = (\<lambda>x. n\<lparr> CashBalance := CashBalance n + x, WalletBalance := WalletBalance n - x \<rparr>)"
    have c3: "\<exists>c. ComputeAccount L p i (f x) = Some (Inr c)" for x
      using ComputeAccount_total [OF Some] by blast
    show ?thesis
    proof (cases adj)
      case (Inl e)
      show ?thesis
        unfolding ComputeTradeWithPrice_def s Let_def prod.case if_not_P [OF bad] sum.case
          Decrease_moved [OF Some pa(1) s] Increase_moved [OF Some pa(1) s] m_def [symmetric]
          c1 fee bind.bind_lunit n_def [symmetric] c2 adj Inl by simp
    next
      case (Inr x)
      obtain c where c: "ComputeAccount L p i (f x) = Some (Inr c)" using c3 by blast
      show ?thesis
        unfolding ComputeTradeWithPrice_def s Let_def prod.case if_not_P [OF bad] sum.case
          Decrease_moved [OF Some pa(1) s] Increase_moved [OF Some pa(1) s] m_def [symmetric]
          c1 fee bind.bind_lunit n_def [symmetric] c2 adj Inr using c by (auto simp: f_def)
    qed
  qed
qed

text \<open>
  a trade at a price never panics: on every pool, account, price, amount and fee rate it
  returns an account and either an error or a result. The one division by a position is by the
  position before the trade, which is not zero when something is closed.
\<close>

theorem ComputeTradeWithPrice_total:
  "\<exists>a' r. ComputeTradeWithPrice L p i a price amount feeRate = Some (a', r)"
  by (rule ComputeTradeWithPrice_returns)

section \<open>Trades against the AMM\<close>

text \<open>How a trade against the AMM ends: with an early error, or with the pool moved.\<close>

definition poolMoved ::
  "LiquidityPoolStorage \<Rightarrow> int \<Rightarrow> PerpetualStorage \<Rightarrow> AccountStorage \<Rightarrow> decimal \<Rightarrow> decimal \<Rightarrow> decimal \<Rightarrow>
   LiquidityPoolStorage" where
  "poolMoved p i perp trader amount price lpFee =
     (setPerpetual p i (perp\<lparr>
        AmmPositionAmount := AmmPositionAmount perp - amount,
        OpenInterest := computeOpenInterest
          (computeOpenInterest (OpenInterest perp) (PositionAmount trader) amount)
          (AmmPositionAmount perp) (- amount) \<rparr>))
     \<lparr> PoolCashBalance := PoolCashBalance p + amount * price
         - UnitAccumulativeFunding perp * amount + lpFee \<rparr>"

lemma ComputeAMMTrade_cases:
  assumes "ComputeAMMTrade L p i a amount = Some (p', a', r)" "map_of (Perpetuals p) i = Some perp"
  obtains (error) e where "p' = p" "r = Inl e"
  | (traded) dm price after safe fee where
    "amount \<noteq> 0" "ComputeAMMPrice L p i amount = Some (Inr (dm, - amount, price))"
    "ComputeTradeWithPrice L p i a price amount
       (LpFeeRate perp + VaultFeeRate p + OperatorFeeRate perp) = Some (a', Inr (after, safe, fee))"
    "LpFeeRate perp + VaultFeeRate p + OperatorFeeRate perp \<noteq> 0"
    "p' = poolMoved p i perp a' amount price
       (quo L (fee * LpFeeRate perp) (LpFeeRate perp + VaultFeeRate p + OperatorFeeRate perp))"
    "\<And>x. r = Inr x \<Longrightarrow> x = (after, safe, price)"
proof (cases "amount = 0")
  case True
  with assms error show ?thesis by (auto simp: ComputeAMMTrade_def)
next
  case False
  let ?rate = "LpFeeRate perp + VaultFeeRate p + OperatorFeeRate perp"
  note u = assms(1) [unfolded ComputeAMMTrade_def if_not_P [OF False] assms(2) option.case Let_def]
  from u obtain q where q: "ComputeAMMPrice L p i amount = Some q" by (auto simp: bind_Some_iff)
  show ?thesis
  proof (cases q)
    case (Inl e)
    with u q error show ?thesis by auto
  next
    case (Inr x)
    obtain dm da price where x: "x = (dm, da, price)" by (cases x)
    show ?thesis
    proof (cases "- da = amount")
      case ne: False
      with u q Inr x error show ?thesis by auto
    next
      case da: True
      then have da': "da = - amount" by simp
      obtain a1 r2 where t: "ComputeTradeWithPrice L p i a price amount ?rate = Some (a1, r2)"
        using ComputeTradeWithPrice_returns by blast
      note u2 = u [unfolded q Inr x bind.bind_lunit sum.case prod.case da' minus_minus, simplified, unfolded t bind.bind_lunit prod.case]
      show ?thesis
      proof (cases r2)
        case (Inl e)
        with u2 error show ?thesis by auto
      next
        case r2: (Inr y)
        obtain after safe fee where y: "y = (after, safe, fee)" by (cases y)
        note u3 = u2 [unfolded r2 y sum.case prod.case]
        from u3 have rate: "?rate \<noteq> 0" by (auto simp: bind_Some_iff)
        have "p' = poolMoved p i perp a1 amount price (quo L (fee * LpFeeRate perp) ?rate) \<and> a' = a1 \<and>
              (\<forall>x. r = Inr x \<longrightarrow> x = (after, safe, price))"
          using u3 rate unfolding poolMoved_def
          by (clarsimp simp: bind_Some_iff split: if_split_asm)
            (auto simp: bind_Some_iff split: sum.split_asm if_split_asm)
        with traded [OF False] q Inr x da' t r2 y rate show ?thesis by auto
      qed
    qed
  qed
qed

lemma map_of_setPerpetual:
  "map_of (Perpetuals (setPerpetual p i perp)) j =
     (if j = i then map_option (\<lambda>_. perp) (map_of (Perpetuals p) i) else map_of (Perpetuals p) j)"
proof -
  have "map_of (map (\<lambda>(k, v). (k, if k = i then perp else v)) ps) j =
     (if j = i then map_option (\<lambda>_. perp) (map_of ps i) else map_of ps j)" for ps
    by (induction ps) auto
  then show ?thesis by (simp add: setPerpetual_def)
qed

lemma poolMoved_perpetual:
  assumes "map_of (Perpetuals p) i = Some perp"
  shows "map_of (Perpetuals (poolMoved p i perp a amount price lpFee)) j =
    (if j = i then Some (perp\<lparr>
        AmmPositionAmount := AmmPositionAmount perp - amount,
        OpenInterest := computeOpenInterest
          (computeOpenInterest (OpenInterest perp) (PositionAmount a) amount)
          (AmmPositionAmount perp) (- amount) \<rparr>)
     else map_of (Perpetuals p) j)"
  using assms by (simp add: poolMoved_def map_of_setPerpetual)


lemma sample_internal_trade:
  "computeAMMInternalTrade lib18 sample_pool 0 (1 / 4) = Some (Inr ((emptyContext 1)\<lparr>
     cxIndex := 1, cxOpenSlippageFactor := 2, cxCloseSlippageFactor := 2, cxMaxLeverage := 1,
     cxPoolMargin := 1, cxBestAskBidPrice := 1, cxDeltaMargin := - (3 / 16), cxDeltaPosition := 1 / 4,
     cxCash := 13 / 16, cxPosition1 := 1 / 4 \<rparr>))"
  unfolding computeAMMInternalTrade_def sample_context
  by (simp add: emptyContext_def Let_def SplitAmount_def
      isAMMSafe_def computeAMMPoolMargin_def computeBestAskBidPriceIfSafe_def appendSpread_def
      computeAMMSafeLongPositionAmount_def computeAMMSafeCondition1_def computeAMMSafeCondition2_def
      computeAMMSafeCondition3_def computeAMMInternalOpen_def copyAMMTradingContext_def
      computeDeltaMargin_def HasTheSameSign_def lib18_quo_int lib18_round)

lemma sample_price: "ComputeAMMPrice lib18 sample_pool 0 (- (1 / 4)) = Some (Inr (- (3 / 16), 1 / 4, 3 / 4))"
  by (simp add: ComputeAMMPrice_def sample_internal_trade emptyContext_def lib18_quo_int)

lemma on_grid_5_2 [simp]: "on_grid (- (5 / 2))"
  by (rule on_grid_scaleI [of _ "- (25 * 10 ^ 17)"]) simp

lemma sample_decrease:
  "ComputeDecreasePosition sample_pool 0 (sample_account 10 1) (3 / 4) (- (1 / 4)) =
   Inr \<lparr>TargetLeverage = 1, WalletBalance = 100, CashBalance = 163 / 16, PositionAmount = 3 / 4\<rparr>"
  by (simp add: ComputeDecreasePosition_def HasTheSameSign_def Let_def sample_defs)

lemma sample_long_account:
  "0 < c \<Longrightarrow> \<exists>d. ComputeAccount lib18 sample_pool 0
     \<lparr>TargetLeverage = l, WalletBalance = w, CashBalance = c, PositionAmount = 3 / 4\<rparr> = Some (Inr d) \<and>
   AvailableCashBalance d = c \<and> AvailableMargin d = c + 3 / 8 \<and> IsMarginSafe d"
  by (simp add: ComputeAccount_def sample_amm_defs Let_def)

lemma sample_priced_trade:
  "\<exists>a' after. ComputeTradeWithPrice lib18 sample_pool 0 (sample_account 10 1) (3 / 4) (- (1 / 4)) 1 =
     Some (a', Inr (after, True, 3 / 16)) \<and> PositionAmount a' = 3 / 4"
proof -
  let ?a = "\<lambda>w c. \<lparr>TargetLeverage = 1, WalletBalance = w, CashBalance = c, PositionAmount = 3 / 4\<rparr>"
  have s: "SplitAmount (PositionAmount (sample_account 10 1)) (- (1 / 4)) = (- (1 / 4), 0)"
    by (simp add: SplitAmount_def HasTheSameSign_def sample_account_def)
  obtain d1 where d1: "ComputeAccount lib18 sample_pool 0 (?a 100 (163 / 16)) = Some (Inr d1)"
    "AvailableMargin d1 = 163 / 16 + 3 / 8" using sample_long_account [of "163 / 16"] by auto
  obtain d2 where d2: "ComputeAccount lib18 sample_pool 0 (?a 100 10) = Some (Inr d2)"
    "AvailableCashBalance d2 = 10" "AvailableMargin d2 = 10 + 3 / 8" using sample_long_account [of 10] by auto
  obtain d3 where d3: "ComputeAccount lib18 sample_pool 0 (?a (205 / 2) (15 / 2)) = Some (Inr d3)"
    "IsMarginSafe d3" using sample_long_account [of "15 / 2"] by auto
  have f: "ComputeFee (0 \<noteq> 0) (3 / 4) (- (1 / 4)) 1 d1 = Inr (3 / 16)" using d1(2) by (simp add: ComputeFee_def Let_def)
  have k: "KeeperGasReward sample_perp = 0" by (simp add: sample_perp_def)
  have j: "adjustMarginLeverage lib18 sample_pool 0 d2 (?a 100 10) (3 / 4) (- (1 / 4)) 0 (3 / 16) = Some (Inr (- (5 / 2)))"
    by (simp add: adjustMarginLeverage_def sample_pool_perp Let_def d2 k lib18_quo_int)
  show ?thesis
    using f by (simp add: ComputeTradeWithPrice_def s sample_decrease d1(1) d2(1) d3 j Let_def)
qed

lemma sample_amm_trade:
  "\<exists>p' a' after. ComputeAMMTrade lib18 sample_pool 0 (sample_account 10 1) (- (1 / 4)) =
     Some (p', a', Inr (after, True, 3 / 4))"
proof -
  from sample_priced_trade obtain a' after where
    "ComputeTradeWithPrice lib18 sample_pool 0 (sample_account 10 1) (3 / 4) (- (1 / 4)) 1 =
     Some (a', Inr (after, True, 3 / 16))" "PositionAmount a' = 3 / 4" by blast
  moreover have "LpFeeRate sample_perp + VaultFeeRate sample_pool + OperatorFeeRate sample_perp = 1"
    "OpenInterest sample_perp = 0" "AmmPositionAmount sample_perp = 0"
    by (simp_all add: sample_amm_defs)
  ultimately show ?thesis
    unfolding ComputeAMMTrade_def sample_price sample_pool_perp
    by (simp add: computeOpenInterest_def Let_def)
qed


text \<open>
  C34: the price of a trade against the AMM. The AMM takes exactly the opposite of the trader's
  amount, and the average price is never better for the trader than the best price the AMM
  quotes in the final context, up to half a unit in the 18th place of the division: a buyer pays at
  least the best ask, a seller gets at most the best bid when that bid is positive.
\<close>

theorem ComputeAMMPrice_not_better_than_best:
  assumes "decimal_laws L" "ComputeAMMPrice L p i amount = Some (Inr (dm, da, price))"
  shows "da = - amount \<and> (\<exists>c. computeAMMInternalTrade L p i (- amount) = Some (Inr c) \<and>
     dm = cxDeltaMargin c \<and>
     (0 < amount \<longrightarrow> cxBestAskBidPrice c - ulp / 2 \<le> price) \<and>
     (amount < 0 \<and> 0 < cxBestAskBidPrice c \<longrightarrow> price \<le> cxBestAskBidPrice c + ulp / 2))"
proof -
  from assms(2) have nz: "amount \<noteq> 0" by (auto simp: ComputeAMMPrice_def)
  from assms(2) nz obtain c' where c': "computeAMMInternalTrade L p i (- amount) = Some (Inr c')"
    "dm = cxDeltaMargin c'" "da = cxDeltaPosition c'"
    "price = \<bar>quo L (cxDeltaMargin c') (cxDeltaPosition c')\<bar>"
    by (auto simp: ComputeAMMPrice_def go_conv)
  from c'(1) obtain c where c: "cxDeltaPosition c = - amount"
    "\<not> HasTheSameSign (cxDeltaMargin c) (- amount)"
    "c' = c\<lparr> cxDeltaMargin := max (cxDeltaMargin c) (- (cxBestAskBidPrice c * (- amount))) \<rparr>"
    by (rule computeAMMInternalTrade_Inr) blast
  define best where "best = cxBestAskBidPrice c"
  define m where "m = max (cxDeltaMargin c) (best * amount)"
  have e: "cxDeltaPosition c' = - amount" "cxDeltaMargin c' = m" "cxBestAskBidPrice c' = best"
    by (simp_all add: c(1,3) best_def m_def)
  have price: "price = \<bar>quo L m (- amount)\<bar>" using c'(4) e by simp
  have "- amount \<noteq> 0" using nz by simp
  note b = decimal_laws.quo_bounds [OF assms(1) this, of m]
  have buy: "best - ulp / 2 \<le> price" if "0 < amount"
  proof -
    have "best \<le> m / amount" using that by (simp add: m_def le_divide_eq)
    then have "m / - amount \<le> - best" by simp
    then have "quo L m (- amount) \<le> - best + ulp / 2" using b(2) by linarith
    then show ?thesis unfolding price by linarith
  qed
  have sell: "price \<le> best + ulp / 2" if "amount < 0" "0 < best"
  proof -
    have "cxDeltaMargin c < 0" using c(2) that(1) by (auto simp: HasTheSameSign_iff mult_le_0_iff not_le)
    then have "m < 0" using that by (simp add: m_def mult_less_0_iff)
    then have neg: "m / - amount \<le> 0" using that(1) by (simp add: divide_nonpos_neg)
    have "- best \<le> m / - amount" using that(1) by (simp add: m_def le_divide_eq field_simps)
    then have "- best - ulp / 2 \<le> quo L m (- amount)" using b(1) by linarith
    moreover have "quo L m (- amount) \<le> 0"
      using decimal_laws.quo_minus_nonpos [OF assms(1) \<open>- amount \<noteq> 0\<close> neg] .
    ultimately show ?thesis unfolding price by linarith
  qed
  show ?thesis using c' e buy sell by auto
qed

theorem ComputeAMMPrice_not_better_than_best_witness:
  "decimal_laws lib18 \<and>
   ComputeAMMPrice lib18 sample_pool 0 (- (1 / 4)) = Some (Inr (- (3 / 16), 1 / 4, 3 / 4)) \<and>
   (3 / 4 :: decimal) \<le> 1 + ulp / 2"
proof -
  from ComputeAMMPrice_not_better_than_best [OF decimal_laws_lib18 sample_price]
  have "(3 / 4 :: decimal) \<le> 1 + ulp / 2" by (auto simp: sample_internal_trade emptyContext_def)
  with sample_price show ?thesis by simp
qed

text \<open>
  when the three fee rates sum to zero a trade against the AMM panics: the share of the
  liquidity providers is a division by that sum, and nothing guards it.
\<close>

theorem ComputeAMMTrade_zero_fee_rates_panic:
  assumes "map_of (Perpetuals p) i = Some perp" "amount \<noteq> 0"
    "ComputeAMMPrice L p i amount = Some (Inr (dm, - amount, price))"
    "ComputeTradeWithPrice L p i a price amount 0 = Some (a', Inr x)"
    "LpFeeRate perp + VaultFeeRate p + OperatorFeeRate perp = 0"
  shows "ComputeAMMTrade L p i a amount = None"
  using assms by (cases x) (simp add: ComputeAMMTrade_def Let_def)

definition free_perp :: PerpetualStorage where
  "free_perp = sample_perp\<lparr> LpFeeRate := 0 \<rparr>"

definition free_pool :: LiquidityPoolStorage where
  "free_pool = sample_pool\<lparr> Perpetuals := [(0, free_perp)] \<rparr>"

lemma free_price: "ComputeAMMPrice lib18 free_pool 0 (- (1 / 4)) = Some (Inr (- (3 / 16), 1 / 4, 3 / 4))"
proof -
  have "initAMMTradingContext lib18 free_pool 0 = initAMMTradingContext lib18 sample_pool 0"
    by (simp add: initAMMTradingContext_def free_pool_def free_perp_def sample_amm_defs)
  then have "ComputeAMMPrice lib18 free_pool 0 (- (1 / 4)) = ComputeAMMPrice lib18 sample_pool 0 (- (1 / 4))"
    by (simp add: ComputeAMMPrice_def computeAMMInternalTrade_def)
  with sample_price show ?thesis by simp
qed

lemma free_trade:
  "\<exists>a' x. ComputeTradeWithPrice lib18 free_pool 0 (sample_account 10 0) (3 / 4) (- (1 / 4)) 0 = Some (a', Inr x)"
  by (simp add: ComputeTradeWithPrice_def ComputeIncreasePosition_def ComputeAccount_def
      ComputeFee_def adjustMarginLeverage_def SplitAmount_def HasTheSameSign_def Let_def
      free_pool_def free_perp_def sample_defs lib18_quo_int ex_bool_eq)

theorem ComputeAMMTrade_zero_fee_rates_panic_witness:
  "ComputeAMMTrade lib18 free_pool 0 (sample_account 10 0) (- (1 / 4)) = None"
proof -
  from free_trade obtain a' x where t:
    "ComputeTradeWithPrice lib18 free_pool 0 (sample_account 10 0) (3 / 4) (- (1 / 4)) 0 = Some (a', Inr x)"
    by blast
  have p: "map_of (Perpetuals free_pool) 0 = Some free_perp" by (simp add: free_pool_def)
  have r: "LpFeeRate free_perp + VaultFeeRate free_pool + OperatorFeeRate free_perp = 0"
    by (simp add: free_pool_def free_perp_def sample_amm_defs)
  show ?thesis
    by (rule ComputeAMMTrade_zero_fee_rates_panic [OF p _ _ t r]) (simp_all add: free_price)
qed

text \<open>
  the open interest a trade stores. The code passes the trader's position \<^emph>\<open>after\<close> the
  trade to \<open>computeOpenInterest\<close> as the old position, so the trader's contribution is counted
  one trade too far: for a trader who closes a long position completely against an AMM without
  a short position, the stored open interest grows by the traded amount although the total of
  long positions has not changed.
\<close>

theorem ComputeAMMTrade_open_interest:
  assumes "ComputeAMMTrade L p i a amount = Some (p', a', Inr x)" "map_of (Perpetuals p) i = Some perp"
    "0 < PositionAmount a" "amount = - PositionAmount a" "0 \<le> AmmPositionAmount perp"
  shows "\<exists>perp'. map_of (Perpetuals p') i = Some perp' \<and>
     OpenInterest perp' = OpenInterest perp + PositionAmount a \<and>
     max 0 (PositionAmount a') + max 0 (AmmPositionAmount perp') =
       max 0 (PositionAmount a) + max 0 (AmmPositionAmount perp)"
  using assms(1,2)
proof (cases rule: ComputeAMMTrade_cases)
  case (traded dm price after safe fee)
  note acc = ComputeTradeWithPrice_accounting_aux [OF traded(3) assms(2)]
  with assms(3-5) show ?thesis
    by (simp add: traded(5) poolMoved_perpetual [OF assms(2)] computeOpenInterest_def Let_def)
qed simp

definition closed_perp :: PerpetualStorage where
  "closed_perp = sample_perp\<lparr> AmmPositionAmount := 1 / 4, OpenInterest := 1 / 4 \<rparr>"

definition closed_pool :: LiquidityPoolStorage where
  "closed_pool = sample_pool\<lparr> Perpetuals := [(0, closed_perp)] \<rparr>"

definition closed_ctx :: AMMTradingContext where
  "closed_ctx = (emptyContext 1)\<lparr> cxIndex := 1, cxPosition1 := 1 / 4,
     cxOpenSlippageFactor := 2, cxCloseSlippageFactor := 2, cxMaxLeverage := 1 \<rparr>"

lemma closed_context: "initAMMTradingContext L closed_pool 0 = Some (Some closed_ctx)"
  by (simp add: initAMMTradingContext_def initAMMTradingContextEagerEvaluation_def closed_pool_def
      closed_perp_def sample_amm_defs emptyContext_def closed_ctx_def Let_def)

lemma closed_margin:
  "\<exists>m. computeAMMPoolMargin lib18 closed_ctx 2 True = Some (Inr (closed_ctx\<lparr> cxPoolMargin := m \<rparr>)) \<and>
     1 / 2 \<le> m"
proof -
  have "ulp * ulp \<le> 21 / 16" by (simp add: ulp_def)
  from d18.Sqrt_total [OF this] obtain r where r: "Sqrt lib18 (21 / 16) = Some r" "0 < r" by blast
  have "ulp \<le> 1 / 4" by (simp add: ulp_def)
  with r(2) have "1 / 2 \<le> (5 / 4 + r) / 2 - ulp / 2" by (simp add: field_simps)
  with d18.quo_bounds(1) [of 2 "5 / 4 + r"] have "1 / 2 \<le> quo lib18 (5 / 4 + r) 2" by linarith
  with r show ?thesis by (simp add: computeAMMPoolMargin_def emptyContext_def closed_ctx_def Let_def)
qed

lemma closed_account:
  "ComputeAccount lib18 sample_pool 0 \<lparr>TargetLeverage = l, WalletBalance = w, CashBalance = c, PositionAmount = 0\<rparr>
   = Some (Inr \<lparr> PositionValue = 0, PositionMargin = 0, MaintenanceMargin = 0, AvailableCashBalance = c,
       MarginBalance = c, AvailableMargin = c, WithdrawableBalance = max 0 c, IsMMSafe = (0 \<le> c), IsIMSafe = (0 \<le> c), IsMarginSafe = (0 \<le> c), Leverage = 0 \<rparr>)"
  by (simp add: ComputeAccount_def sample_amm_defs Let_def)

lemma closed_decrease:
  "ComputeDecreasePosition sample_pool 0 (sample_account 10 (1 / 4)) (3 / 4) (- (1 / 4)) =
   Inr \<lparr>TargetLeverage = 1, WalletBalance = 100, CashBalance = 10 + 3 / 16, PositionAmount = 0\<rparr>"
  by (simp add: ComputeDecreasePosition_def HasTheSameSign_def Let_def sample_defs)

lemma closed_priced_trade:
  "\<exists>a' after. ComputeTradeWithPrice lib18 sample_pool 0 (sample_account 10 (1 / 4)) (3 / 4) (- (1 / 4)) 1 =
     Some (a', Inr (after, True, 3 / 16)) \<and> PositionAmount a' = 0"
proof -
  have s: "SplitAmount (PositionAmount (sample_account 10 (1 / 4))) (- (1 / 4)) = (- (1 / 4), 0)"
    by (simp add: SplitAmount_def HasTheSameSign_def sample_account_def)
  have q: "quo lib18 (10 * - (1 / 4)) (1 / 4) = - 10" by (simp add: lib18_quo_int)
  show ?thesis
    by (simp add: ComputeTradeWithPrice_def s closed_decrease closed_account ComputeFee_def Let_def
       adjustMarginLeverage_def sample_pool_perp q)
qed

lemma closed_trade:
  "\<exists>p' a' x. ComputeAMMTrade lib18 sample_pool 0 (sample_account 10 (1 / 4)) (- (1 / 4)) =
     Some (p', a', Inr x)"
proof -
  obtain a' after where t:
    "ComputeTradeWithPrice lib18 sample_pool 0 (sample_account 10 (1 / 4)) (3 / 4) (- (1 / 4)) 1 =
     Some (a', Inr (after, True, 3 / 16))" "PositionAmount a' = 0" using closed_priced_trade by blast
  have s: "VaultFeeRate sample_pool = 0" "OperatorFeeRate sample_perp = 0"
    "OpenInterest sample_perp = 0" "AmmPositionAmount sample_perp = 0" "PoolCashBalance sample_pool = 1"
    "UnitAccumulativeFunding sample_perp = 0" "LpFeeRate sample_perp = 1" "IndexPrice sample_perp = 1"
    "MaxOpenInterestRate sample_perp = 100" "quo lib18 (3 / 16) 1 = 3 / 16"
    by (simp_all add: sample_amm_defs lib18_quo_int)
  have pool: "(setPerpetual sample_pool 0 (sample_perp\<lparr> AmmPositionAmount := 1 / 4, OpenInterest := 1 / 4 \<rparr>))
      \<lparr> PoolCashBalance := 1 \<rparr> = closed_pool"
    by (simp add: setPerpetual_def closed_pool_def closed_perp_def sample_pool_def)
  obtain m where m: "computeAMMPoolMargin lib18 closed_ctx 2 True = Some (Inr (closed_ctx\<lparr> cxPoolMargin := m \<rparr>))"
     "1 / 2 \<le> m" using closed_margin by blast
  have "ulp \<le> 1" by (simp add: ulp_def)
  with d18.quo_bounds(1) [of 1 "m * 100"] m(2) have q: "\<not> quo lib18 (m * 100) 1 < 1 / 4" by simp
  have b: "cxOpenSlippageFactor closed_ctx = 2" by (simp add: closed_ctx_def emptyContext_def)
  have "ComputeAMMTrade lib18 sample_pool 0 (sample_account 10 (1 / 4)) (- (1 / 4)) =
      Some (closed_pool, a', Inr (after, True, 3 / 4))"
    unfolding ComputeAMMTrade_def sample_price sample_pool_perp
    using q by (simp add: computeOpenInterest_def Let_def t s pool closed_context m(1) b)
  then show ?thesis by blast
qed

theorem ComputeAMMTrade_open_interest_witness:
  "\<exists>p' a' x perp'. ComputeAMMTrade lib18 sample_pool 0 (sample_account 10 (1 / 4)) (- (1 / 4)) =
     Some (p', a', Inr x) \<and> map_of (Perpetuals sample_pool) 0 = Some sample_perp \<and>
     OpenInterest sample_perp = 0 \<and> map_of (Perpetuals p') 0 = Some perp' \<and> OpenInterest perp' = 1 / 4"
proof -
  from closed_trade obtain p' a' x where t:
    "ComputeAMMTrade lib18 sample_pool 0 (sample_account 10 (1 / 4)) (- (1 / 4)) = Some (p', a', Inr x)"
    by blast
  have s: "0 < PositionAmount (sample_account 10 (1 / 4))"
    "- (1 / 4) = - PositionAmount (sample_account 10 (1 / 4))" "0 \<le> AmmPositionAmount sample_perp"
    "OpenInterest sample_perp = 0" by (simp_all add: sample_defs)
  have "PositionAmount (sample_account 10 (1 / 4)) = 1 / 4" by (simp add: sample_defs)
  with ComputeAMMTrade_open_interest [OF t sample_pool_perp s(1-3)] s(4)
  obtain perp' where "map_of (Perpetuals p') 0 = Some perp'" "OpenInterest perp' = 1 / 4" by auto
  with t sample_pool_perp s(4) show ?thesis by blast
qed

end
