(* ===== verification/Containers.thy ===== *)
theory Containers
  imports Prelude "HOL-Library.AList"
begin

text \<open>
  The keyed containers of the program: Go maps, the insertion-ordered map of the price levels
  (\<^verbatim>\<open>ordered_map\<close>) and the search tree of the book (\<^verbatim>\<open>llrb\<close>). Their interface is the
  locale \<open>keyed_store\<close>; they are represented by their contents, an association list with
  distinct keys in which a new key goes to the end and an update keeps its place, which is the
  iteration order of an insertion-ordered map.
\<close>

locale keyed_store =
  fixes empty :: 'm
    and get :: "'m \<Rightarrow> 'k \<Rightarrow> 'v option"
    and put :: "'k \<Rightarrow> 'v \<Rightarrow> 'm \<Rightarrow> 'm"
    and del :: "'k \<Rightarrow> 'm \<Rightarrow> 'm"
    and keys :: "'m \<Rightarrow> 'k list"
    and inv :: "'m \<Rightarrow> bool"
  assumes inv_empty: "inv empty"
    and inv_put: "inv m \<Longrightarrow> inv (put k v m)"
    and inv_del: "inv m \<Longrightarrow> inv (del k m)"
    and get_empty: "get empty k = None"
    and get_put: "get (put k v m) k' = (if k' = k then Some v else get m k')"
    and get_del: "get (del k m) k' = (if k' = k then None else get m k')"
    and keys_dom: "set (keys m) = {k. get m k \<noteq> None}"
    and keys_distinct: "inv m \<Longrightarrow> distinct (keys m)"
    and keys_put_new: "get m k = None \<Longrightarrow> keys (put k v m) = keys m @ [k]"
    and keys_put_old: "get m k \<noteq> None \<Longrightarrow> keys (put k v m) = keys m"
    and keys_del: "keys (del k m) = filter (\<lambda>k'. k' \<noteq> k) (keys m)"
begin

lemma put_get_same: "get m k = Some v \<Longrightarrow> get (put k v m) = get m"
  by (rule ext) (simp add: get_put)

lemma del_put: "get (del k (put k v m)) = get (del k m)"
  by (rule ext) (simp add: get_put get_del)

lemma put_put: "get (put k v (put k w m)) = get (put k v m)"
  by (rule ext) (simp add: get_put)

lemma keys_Nil_iff: "keys m = [] \<longleftrightarrow> (\<forall>k. get m k = None)"
  using keys_dom [of m] by auto

lemma keys_del_Nil_iff: "keys (del k m) = [] \<longleftrightarrow> (\<forall>k'. k' \<noteq> k \<longrightarrow> get m k' = None)"
  by (auto simp: keys_Nil_iff get_del)

lemma in_keys_iff: "k \<in> set (keys m) \<longleftrightarrow> get m k \<noteq> None"
  by (simp add: keys_dom)

lemma keys_put: "set (keys (put k v m)) = insert k (set (keys m))"
  by (auto simp: keys_dom get_put)

end

definition alist_inv :: "('k \<times> 'v) list \<Rightarrow> bool" where
  "alist_inv m = distinct (map fst m)"

interpretation al: keyed_store "[]" map_of AList.update AList.delete "map fst" alist_inv
proof unfold_locales
  fix m :: "('k \<times> 'v) list" and k k' :: 'k and v :: 'v
  show "alist_inv ([] :: ('k \<times> 'v) list)" by (simp add: alist_inv_def)
  show "alist_inv m \<Longrightarrow> alist_inv (AList.update k v m)"
    by (simp add: alist_inv_def distinct_update)
  show "alist_inv m \<Longrightarrow> alist_inv (AList.delete k m)"
    by (simp add: alist_inv_def distinct_delete)
  show "map_of [] k = (None :: 'v option)" by simp
  show "map_of (AList.update k v m) k' = (if k' = k then Some v else map_of m k')"
    by (simp add: update_conv)
  show "map_of (AList.delete k m) k' = (if k' = k then None else map_of m k')"
    by (simp add: delete_conv)
  show "set (map fst m) = {k. map_of m k \<noteq> None}"
    by (auto simp: map_of_eq_None_iff)
  show "alist_inv m \<Longrightarrow> distinct (map fst m)" by (simp add: alist_inv_def)
  show "map_of m k = None \<Longrightarrow> map fst (AList.update k v m) = map fst m @ [k]"
    by (simp add: update_keys map_of_eq_None_iff)
  show "map_of m k \<noteq> None \<Longrightarrow> map fst (AList.update k v m) = map fst m"
    by (simp add: update_keys map_of_eq_None_iff)
  show "map fst (AList.delete k m) = filter (\<lambda>k'. k' \<noteq> k) (map fst m)"
    by (simp add: delete_keys removeAll_filter_not_eq eq_commute [of k])
qed

lemmas al_simps [simp] = al.get_put al.get_del
lemmas al_invs [simp, intro] = al.inv_empty al.inv_put al.inv_del

lemma update_new: "map_of m k = None \<Longrightarrow> AList.update k v m = m @ [(k, v)]"
  by (induction m) auto

lemma delete_filter: "AList.delete k m = filter (\<lambda>(k', _). k' \<noteq> k) m"
  by (simp add: AList.delete_eq eq_commute [of k])

lemma sum_update_old:
  fixes f :: "'v \<Rightarrow> 'n :: ab_group_add"
  assumes "distinct (map fst m)" "map_of m k = Some w"
  shows "sum_list (map (f \<circ> snd) (AList.update k v m)) = sum_list (map (f \<circ> snd) m) - f w + f v"
  using assms by (induction m) (auto simp: algebra_simps split: if_splits)

lemma sum_delete:
  fixes f :: "'v \<Rightarrow> 'n :: ab_group_add"
  assumes "distinct (map fst m)" "map_of m k = Some w"
  shows "sum_list (map (f \<circ> snd) (AList.delete k m)) = sum_list (map (f \<circ> snd) m) - f w"
  using assms
proof (induction m)
  case (Cons x m)
  obtain k' v where x: "x = (k', v)" by (cases x)
  show ?case
  proof (cases "k' = k")
    case True
    with Cons.prems x have "k \<notin> fst ` set m" "w = v" by simp_all
    with True x show ?thesis by (simp add: delete_id)
  next
    case False
    with Cons x show ?thesis by simp
  qed
qed simp

lemma set_update_alist:
  "distinct (map fst m) \<Longrightarrow> (k', v') \<in> set (AList.update k v m) \<longleftrightarrow>
     (if k' = k then v' = v else (k', v') \<in> set m)"
  using map_of_eq_Some_iff [of m k' v'] map_of_eq_Some_iff [OF distinct_update, of m k v k' v']
  by (auto simp: update_conv)

lemma set_delete_alist: "(k', v') \<in> set (AList.delete k m) \<longleftrightarrow> k' \<noteq> k \<and> (k', v') \<in> set m"
  by (auto simp: delete_filter)

lemma update_append_new: "map_of m k = None \<Longrightarrow> AList.update k v (m @ [(k, w)]) = m @ [(k, v)]"
  by (induction m) (auto split: if_splits)

lemma fst_set_delete [simp]: "fst ` set (AList.delete k m) = fst ` set m - {k}"
  by (force simp: delete_filter)

lemma fst_set_update [simp]: "fst ` set (AList.update k v m) = insert k (fst ` set m)"
  by (simp add: dom_update)

end
