(* ===== verification/Orderbook.thy ===== *)
theory Orderbook
  imports Model Containers
begin

text \<open>
  \<^verbatim>\<open>src/common/orderbook/orderbook.go\<close>: the in-memory order book of one perpetual. A price
  level holds its orders in the order of their arrival with a running total; the book holds a tree
  of levels and a set of prices for each side. The operations return the book next to their
  result. The refinement at the end shows that the book implements a finite map from side,
  price and order id to orders, and that its price lists are exactly the prices of that map.
\<close>

section \<open>Data\<close>

record MemoryOrder =
  moID :: string
  moLiquidityPoolAddress :: string
  moPerpetualIndex :: int
  moPrice :: decimal
  moTriggerPrice :: decimal
  moAmount :: decimal
  moMinTradeAmount :: decimal
  moType :: OrderType
  moTrader :: string

record priceLevel =
  plPrice :: decimal
  plTotalAmount :: decimal
  plOrderMap :: "(string \<times> MemoryOrder) list"

text \<open>
  The trees are keyed by the price. The keys of \<^verbatim>\<open>bidPrices\<close> and \<^verbatim>\<open>askPrices\<close> are the
  canonical strings of decimals, here the decimals themselves.
\<close>

type_synonym tree = "(decimal \<times> priceLevel) list"

record Orderbook =
  bidsTree :: tree
  asksTree :: tree
  bidPrices :: "decimal list"
  askPrices :: "decimal list"

section \<open>Price levels\<close>

definition newPriceLevel :: "decimal \<Rightarrow> priceLevel" where
  "newPriceLevel price = \<lparr> plPrice = price, plTotalAmount = 0, plOrderMap = [] \<rparr>"

definition plLen :: "priceLevel \<Rightarrow> nat" where
  "plLen p = length (plOrderMap p)"

definition plInsertOrder :: "priceLevel \<Rightarrow> MemoryOrder \<Rightarrow> priceLevel result" where
  "plInsertOrder p order =
     (case map_of (plOrderMap p) (moID order) of
        Some _ \<Rightarrow> Inl ''priceLevel can't add order which is already in this priceLevel''
      | None \<Rightarrow> Inr (p\<lparr> plOrderMap := AList.update (moID order) order (plOrderMap p),
                        plTotalAmount := plTotalAmount p + moAmount order \<rparr>))"

definition plRemoveOrder :: "priceLevel \<Rightarrow> string \<Rightarrow> (priceLevel \<times> MemoryOrder) result" where
  "plRemoveOrder p orderID =
     (case map_of (plOrderMap p) orderID of
        None \<Rightarrow> Inl ''priceLevel can't remove order which is not in this priceLevel:order not found''
      | Some order \<Rightarrow>
          Inr (p\<lparr> plOrderMap := AList.delete (moID order) (plOrderMap p),
                  plTotalAmount := plTotalAmount p - moAmount order \<rparr>, order))"

definition plGetOrder :: "priceLevel \<Rightarrow> string \<Rightarrow> MemoryOrder option" where
  "plGetOrder p orderID = map_of (plOrderMap p) orderID"

definition plGetOrders :: "priceLevel \<Rightarrow> MemoryOrder list" where
  "plGetOrders p = map snd (plOrderMap p)"

definition plChangeOrder :: "priceLevel \<Rightarrow> string \<Rightarrow> decimal \<Rightarrow> priceLevel result" where
  "plChangeOrder p orderID changeAmount =
     (case map_of (plOrderMap p) orderID of
        None \<Rightarrow> Inl ''can't change order which is not in this priceLevel:order not found''
      | Some order \<Rightarrow>
          let oldAmount = moAmount order;
              newAmount = moAmount order + changeAmount
          in if newAmount \<noteq> 0 \<and> \<not> HasTheSameSign newAmount oldAmount
             then Inl ''can't change order, after change the amount is negative''
             else Inr (p\<lparr> plOrderMap :=
                            (let m = AList.update orderID (order\<lparr> moAmount := newAmount \<rparr>) (plOrderMap p)
                             in if newAmount = 0 then AList.delete orderID m else m),
                          plTotalAmount := plTotalAmount p + changeAmount \<rparr>))"

section \<open>The book\<close>

definition NewOrderbook :: Orderbook where
  "NewOrderbook = \<lparr> bidsTree = [], asksTree = [], bidPrices = [], askPrices = [] \<rparr>"

text \<open>The tree and the price set of one side; \<open>isAsk\<close> is \<^verbatim>\<open>order.Amount.IsNegative()\<close>.\<close>

definition sideTree :: "Orderbook \<Rightarrow> bool \<Rightarrow> tree" where
  "sideTree book isAsk = (if isAsk then asksTree book else bidsTree book)"

definition setSideTree :: "bool \<Rightarrow> tree \<Rightarrow> Orderbook \<Rightarrow> Orderbook" where
  "setSideTree isAsk t book = (if isAsk then book\<lparr> asksTree := t \<rparr> else book\<lparr> bidsTree := t \<rparr>)"

definition sidePrices :: "Orderbook \<Rightarrow> bool \<Rightarrow> decimal list" where
  "sidePrices book isAsk = (if isAsk then askPrices book else bidPrices book)"

definition setSidePrices :: "bool \<Rightarrow> decimal list \<Rightarrow> Orderbook \<Rightarrow> Orderbook" where
  "setSidePrices isAsk ps book = (if isAsk then book\<lparr> askPrices := ps \<rparr> else book\<lparr> bidPrices := ps \<rparr>)"

definition InsertOrder :: "Orderbook \<Rightarrow> MemoryOrder \<Rightarrow> unit result \<times> Orderbook" where
  "InsertOrder book order =
     (let isAsk = moAmount order < 0;
          tree = sideTree book isAsk;
          (price, tree) =
            (case map_of tree (moPrice order) of
               None \<Rightarrow> let l = newPriceLevel (moPrice order) in (l, AList.update (moPrice order) l tree)
             | Some l \<Rightarrow> (l, tree))
      in case plInsertOrder price order of
           Inl e \<Rightarrow> (Inl (''InsertOrder:'' @ e), setSideTree isAsk tree book)
         | Inr price \<Rightarrow>
             (Inr (), setSidePrices isAsk (List.insert (moPrice order) (sidePrices book isAsk))
                        (setSideTree isAsk (AList.update (moPrice order) price tree) book)))"

text \<open>The end of \<^verbatim>\<open>RemoveOrder\<close> and \<^verbatim>\<open>ChangeOrder\<close>: an empty level leaves the tree.\<close>

definition storeLevel :: "bool \<Rightarrow> decimal \<Rightarrow> priceLevel \<Rightarrow> Orderbook \<Rightarrow> Orderbook" where
  "storeLevel isAsk k price book =
     (if plLen price \<le> 0
      then setSidePrices isAsk (removeAll k (sidePrices book isAsk))
             (setSideTree isAsk (AList.delete k (sideTree book isAsk)) book)
      else setSideTree isAsk (AList.update k price (sideTree book isAsk)) book)"

definition RemoveOrder :: "Orderbook \<Rightarrow> MemoryOrder \<Rightarrow> unit result \<times> Orderbook" where
  "RemoveOrder book order =
     (let isAsk = moAmount order < 0 in
      case map_of (sideTree book isAsk) (moPrice order) of
        None \<Rightarrow> (Inl ''remove order: find price level fail:order not found'', book)
      | Some price \<Rightarrow>
          (case plRemoveOrder price (moID order) of
             Inl e \<Rightarrow> (Inl (''remove order fom price level fail:'' @ e), book)
           | Inr (price, _) \<Rightarrow> (Inr (), storeLevel isAsk (moPrice order) price book)))"

definition ChangeOrder :: "Orderbook \<Rightarrow> MemoryOrder \<Rightarrow> decimal \<Rightarrow> unit result \<times> Orderbook" where
  "ChangeOrder book order changeAmount =
     (let isAsk = moAmount order < 0 in
      case map_of (sideTree book isAsk) (moPrice order) of
        None \<Rightarrow> (Inl ''can't change order which is not in this orderbook:order not found'', book)
      | Some price \<Rightarrow>
          (case plChangeOrder price (moID order) changeAmount of
             Inl e \<Rightarrow> (Inl (''change order fail:'' @ e), book)
           | Inr price \<Rightarrow> (Inr (), storeLevel isAsk (moPrice order) price book)))"

definition GetOrder :: "Orderbook \<Rightarrow> string \<Rightarrow> bool \<Rightarrow> decimal \<Rightarrow> MemoryOrder option" where
  "GetOrder book orderID isAsk price =
     (case map_of (sideTree book isAsk) price of
        None \<Rightarrow> None
      | Some pl \<Rightarrow> plGetOrder pl orderID)"

text \<open>\<^verbatim>\<open>Min\<close> and \<^verbatim>\<open>Max\<close> of the tree: nil on the empty tree.\<close>

definition treeMin :: "tree \<Rightarrow> decimal option" where
  "treeMin t = (if t = [] then None else Some (Min (set (map fst t))))"

definition treeMax :: "tree \<Rightarrow> decimal option" where
  "treeMax t = (if t = [] then None else Some (Max (set (map fst t))))"

definition MaxBid :: "Orderbook \<Rightarrow> decimal option" where
  "MaxBid book = treeMax (bidsTree book)"

definition MinBid :: "Orderbook \<Rightarrow> decimal option" where
  "MinBid book = treeMin (bidsTree book)"

definition MinAsk :: "Orderbook \<Rightarrow> decimal option" where
  "MinAsk book = treeMin (asksTree book)"

definition MaxAsk :: "Orderbook \<Rightarrow> decimal option" where
  "MaxAsk book = treeMax (asksTree book)"

definition GetBidPricesDesc :: "Orderbook \<Rightarrow> decimal list" where
  "GetBidPricesDesc book = rev (sort (bidPrices book))"

definition GetAskPricesAsc :: "Orderbook \<Rightarrow> decimal list" where
  "GetAskPricesAsc book = sort (askPrices book)"

definition ordersByPrice :: "tree \<Rightarrow> decimal \<Rightarrow> MemoryOrder list" where
  "ordersByPrice tree price =
     (case map_of tree price of None \<Rightarrow> [] | Some pl \<Rightarrow> plGetOrders pl)"

definition GetAskOrdersByPrice :: "Orderbook \<Rightarrow> decimal \<Rightarrow> MemoryOrder list" where
  "GetAskOrdersByPrice book price = ordersByPrice (asksTree book) price"

definition GetBidOrdersByPrice :: "Orderbook \<Rightarrow> decimal \<Rightarrow> MemoryOrder list" where
  "GetBidOrdersByPrice book price = ordersByPrice (bidsTree book) price"

section \<open>The invariant\<close>

text \<open>
  A level is never empty, its orders are filed under their own id, have the price of the level
  and a nonzero amount on the level's side, and the running total is the sum of their amounts.
\<close>

definition order_wf :: "bool \<Rightarrow> decimal \<Rightarrow> string \<times> MemoryOrder \<Rightarrow> bool" where
  "order_wf isAsk price = (\<lambda>(k, ord). k = moID ord \<and> moPrice ord = price \<and> moAmount ord \<noteq> 0 \<and>
     (moAmount ord < 0 \<longleftrightarrow> isAsk))"

definition level_wf :: "bool \<Rightarrow> decimal \<Rightarrow> priceLevel \<Rightarrow> bool" where
  "level_wf isAsk price l \<longleftrightarrow>
     plPrice l = price \<and> distinct (map fst (plOrderMap l)) \<and>
     (\<forall>e \<in> set (plOrderMap l). order_wf isAsk price e) \<and>
     plTotalAmount l = sum_list (map (moAmount \<circ> snd) (plOrderMap l))"

definition side_wf :: "Orderbook \<Rightarrow> bool \<Rightarrow> bool" where
  "side_wf book isAsk \<longleftrightarrow>
     distinct (map fst (sideTree book isAsk)) \<and>
     (\<forall>price l. map_of (sideTree book isAsk) price = Some l \<longrightarrow>
        level_wf isAsk price l \<and> plOrderMap l \<noteq> []) \<and>
     distinct (sidePrices book isAsk) \<and>
     set (sidePrices book isAsk) = set (map fst (sideTree book isAsk))"

definition book_wf :: "Orderbook \<Rightarrow> bool" where
  "book_wf book \<longleftrightarrow> side_wf book False \<and> side_wf book True"

section \<open>Lemmas\<close>

lemma side_simps [simp]:
  "sideTree (setSideTree a t b) c = (if c = a then t else sideTree b c)"
  "sideTree (setSidePrices a ps b) c = sideTree b c"
  "sidePrices (setSidePrices a ps b) c = (if c = a then ps else sidePrices b c)"
  "sidePrices (setSideTree a t b) c = sidePrices b c"
  by (auto simp: sideTree_def setSideTree_def sidePrices_def setSidePrices_def)

lemma setSideTree_same [simp]: "setSideTree a (sideTree b a) b = b"
  by (simp add: setSideTree_def sideTree_def)

lemma book_wf_iff: "book_wf b \<longleftrightarrow> (\<forall>a. side_wf b a)"
  by (metis book_wf_def)

lemma side_wfD:
  assumes "side_wf b a" "map_of (sideTree b a) price = Some l"
  shows "level_wf a price l" "plOrderMap l \<noteq> []"
  using assms by (auto simp: side_wf_def)

lemma level_wf_new [simp]: "level_wf a price (newPriceLevel price)"
  by (simp add: level_wf_def newPriceLevel_def)

subsection \<open>Levels\<close>

lemma plInsertOrder_Inr:
  assumes "plInsertOrder l ord = Inr l'"
  shows "plGetOrder l (moID ord) = None" "plGetOrder l' = (plGetOrder l)(moID ord \<mapsto> ord)"
    "plGetOrders l' = plGetOrders l @ [ord]" "plOrderMap l' \<noteq> []"
  using assms
  by (auto simp: plInsertOrder_def plGetOrder_def plGetOrders_def update_new fun_eq_iff
      map_add_Some_iff map_add_def split: option.splits)

lemma plInsertOrder_wf:
  assumes "plInsertOrder l ord = Inr l'" "level_wf a (moPrice ord) l"
    "moAmount ord \<noteq> 0" "a \<longleftrightarrow> moAmount ord < 0"
  shows "level_wf a (moPrice ord) l'"
proof -
  from assms(1) have n: "map_of (plOrderMap l) (moID ord) = None"
    and l': "l' = l\<lparr> plOrderMap := plOrderMap l @ [(moID ord, ord)],
                     plTotalAmount := plTotalAmount l + moAmount ord \<rparr>"
    by (auto simp: plInsertOrder_def update_new split: option.splits)
  from n have "moID ord \<notin> fst ` set (plOrderMap l)" by (simp add: map_of_eq_None_iff)
  with assms(2-4) show ?thesis unfolding l' by (auto simp: level_wf_def order_wf_def)
qed

lemma plRemoveOrder_Inr:
  assumes "plRemoveOrder l i = Inr (l', ord)" "level_wf a price l"
  shows "plGetOrder l i = Some ord" "plGetOrder l' = (plGetOrder l)(i := None)" "level_wf a price l'"
proof -
  from assms(1) have m: "map_of (plOrderMap l) i = Some ord"
    and l': "l' = l\<lparr> plOrderMap := AList.delete (moID ord) (plOrderMap l),
                     plTotalAmount := plTotalAmount l - moAmount ord \<rparr>"
    by (auto simp: plRemoveOrder_def split: option.splits)
  from m assms(2) have i: "moID ord = i"
    by (auto simp: level_wf_def order_wf_def dest!: map_of_SomeD)
  show "plGetOrder l i = Some ord" using m by (simp add: plGetOrder_def)
  show "plGetOrder l' = (plGetOrder l)(i := None)" by (auto simp: plGetOrder_def l' i)
  show "level_wf a price l'"
    using assms(2) m unfolding l' i
    by (auto simp: level_wf_def distinct_delete set_delete_alist sum_delete)
qed

lemma same_sign_side:
  assumes "x \<noteq> 0" "y = 0 \<or> HasTheSameSign y x" "y \<noteq> 0"
  shows "y < 0 \<longleftrightarrow> x < (0 :: decimal)"
  using assms by (auto simp: HasTheSameSign_iff zero_le_mult_iff)

lemma plChangeOrder_Inr:
  assumes "plChangeOrder l i delta = Inr l'" "level_wf a price l"
  obtains ord where "plGetOrder l i = Some ord"
    "moAmount ord + delta = 0 \<or> HasTheSameSign (moAmount ord + delta) (moAmount ord)"
    "plGetOrder l' = (plGetOrder l)(i := (if moAmount ord + delta = 0 then None
                        else Some (ord\<lparr> moAmount := moAmount ord + delta \<rparr>)))"
    "level_wf a price l'"
proof -
  from assms(1) obtain ord where m: "map_of (plOrderMap l) i = Some ord"
    and s: "moAmount ord + delta = 0 \<or> HasTheSameSign (moAmount ord + delta) (moAmount ord)"
    by (auto simp: plChangeOrder_def Let_def split: option.splits if_splits)
  let ?ord = "ord\<lparr> moAmount := moAmount ord + delta \<rparr>"
  let ?u = "AList.update i ?ord (plOrderMap l)"
  have l': "l' = l\<lparr> plOrderMap := (if moAmount ord + delta = 0 then AList.delete i ?u else ?u),
                    plTotalAmount := plTotalAmount l + delta \<rparr>"
    using assms(1) m s by (auto simp: plChangeOrder_def Let_def split: if_splits)
  from assms(2) have d: "distinct (map fst (plOrderMap l))" by (simp add: level_wf_def)
  from m assms(2) have ow: "order_wf a price (i, ord)"
    by (auto simp: level_wf_def dest!: map_of_SomeD)
  have su: "sum_list (map (moAmount \<circ> snd) ?u) = plTotalAmount l + delta"
    using assms(2) by (simp add: sum_update_old [OF d m] level_wf_def)
  have g: "plGetOrder l' = (plGetOrder l)(i := (if moAmount ord + delta = 0 then None
                        else Some ?ord))"
    by (auto simp: plGetOrder_def l')
  have "level_wf a price l'"
  proof (cases "moAmount ord + delta = 0")
    case True
    have "sum_list (map (moAmount \<circ> snd) (AList.delete i ?u)) = plTotalAmount l + delta"
      using sum_delete [OF distinct_update [OF d], of i ?ord i ?ord moAmount] True su by simp
    with True assms(2) d show ?thesis
      unfolding l' by (auto simp: level_wf_def distinct_delete distinct_update set_delete_alist
          set_update_alist)
  next
    case False
    with s ow have "order_wf a price (i, ?ord)"
      using same_sign_side [of "moAmount ord" "moAmount ord + delta"] by (auto simp: order_wf_def)
    with False assms(2) d su show ?thesis
      unfolding l' by (auto simp: level_wf_def distinct_update set_update_alist split: if_splits)
  qed
  with m s g show ?thesis using that by (auto simp: plGetOrder_def)
qed

subsection \<open>Storing a level\<close>

lemma storeLevel_GetOrder:
  "GetOrder (storeLevel a k l b) i c price =
     (if c = a \<and> price = k then plGetOrder l i else GetOrder b i c price)"
  by (auto simp: GetOrder_def storeLevel_def plGetOrder_def plLen_def)

lemma level_GetOrder:
  "map_of (sideTree b a) price = Some l \<Longrightarrow> GetOrder b i a price = plGetOrder l i"
  by (simp add: GetOrder_def)

lemma storeLevel_wf:
  assumes "book_wf b" "level_wf a k l" "map_of (sideTree b a) k \<noteq> None"
  shows "book_wf (storeLevel a k l b)"
  unfolding book_wf_iff
proof
  fix c
  from assms(1) have c: "side_wf b c" by (simp add: book_wf_iff)
  show "side_wf (storeLevel a k l b) c"
  proof (cases "c = a")
    case True
    have "k \<in> set (map fst (sideTree b a))"
      using assms(3) unfolding al.in_keys_iff .
    with c True assms(2) show ?thesis
      by (auto simp: side_wf_def storeLevel_def plLen_def distinct_delete distinct_update
          distinct_removeAll insert_absorb set_delete_alist set_update_alist split: if_splits)
  next
    case False
    with c show ?thesis by (simp add: side_wf_def storeLevel_def)
  qed
qed

subsection \<open>The operations\<close>

text \<open>The level an insertion works on, and the tree that holds it.\<close>

lemma InsertOrder_unfold:
  fixes b :: Orderbook and ord :: MemoryOrder
  defines "a \<equiv> moAmount ord < 0"
  defines "l \<equiv> (case map_of (sideTree b a) (moPrice ord) of
                    None \<Rightarrow> newPriceLevel (moPrice ord) | Some l \<Rightarrow> l)"
  shows "InsertOrder b ord =
    (case plInsertOrder l ord of
       Inl e \<Rightarrow> (Inl (''InsertOrder:'' @ e), b)
     | Inr l' \<Rightarrow> (Inr (), setSidePrices a (List.insert (moPrice ord) (sidePrices b a))
                  (setSideTree a (AList.update (moPrice ord) l' (sideTree b a)) b)))"
proof (cases "map_of (sideTree b a) (moPrice ord)")
  case None
  then have "plInsertOrder l ord \<noteq> Inl e" for e
    by (simp add: l_def plInsertOrder_def newPriceLevel_def)
  with None show ?thesis
    unfolding InsertOrder_def a_def [symmetric]
    by (auto simp: l_def Let_def update_new update_append_new split: sum.splits)
next
  case (Some l0)
  then show ?thesis
    unfolding InsertOrder_def a_def [symmetric] by (auto simp: l_def Let_def split: sum.splits)
qed

lemma InsertOrder_error: "InsertOrder b ord = (Inl e, b') \<Longrightarrow> b' = b"
  by (auto simp: InsertOrder_unfold split: sum.splits)

lemma ChangeOrder_error: "ChangeOrder b ord x = (Inl e, b') \<Longrightarrow> b' = b"
  by (auto simp: ChangeOrder_def Let_def split: sum.splits option.splits)

lemma RemoveOrder_error: "RemoveOrder b ord = (Inl e, b') \<Longrightarrow> b' = b"
  by (auto simp: RemoveOrder_def Let_def split: sum.splits option.splits)

lemma InsertOrder_Inr:
  assumes "InsertOrder b ord = (Inr (), b')"
  obtains l l' where "plInsertOrder l ord = Inr l'"
    "l = (case map_of (sideTree b (moAmount ord < 0)) (moPrice ord) of
            None \<Rightarrow> newPriceLevel (moPrice ord) | Some l \<Rightarrow> l)"
    "b' = setSidePrices (moAmount ord < 0)
            (List.insert (moPrice ord) (sidePrices b (moAmount ord < 0)))
            (setSideTree (moAmount ord < 0)
              (AList.update (moPrice ord) l' (sideTree b (moAmount ord < 0))) b)"
  using assms by (auto simp: InsertOrder_unfold split: sum.splits)

lemma InsertOrder_GetOrder:
  assumes "InsertOrder b ord = (Inr (), b')"
  shows "GetOrder b (moID ord) (moAmount ord < 0) (moPrice ord) = None"
    "GetOrder b' i c price =
       (if i = moID ord \<and> c = (moAmount ord < 0) \<and> price = moPrice ord then Some ord
        else GetOrder b i c price)"
proof -
  obtain l l' where l': "plInsertOrder l ord = Inr l'"
    and l: "l = (case map_of (sideTree b (moAmount ord < 0)) (moPrice ord) of
            None \<Rightarrow> newPriceLevel (moPrice ord) | Some l \<Rightarrow> l)"
    and b': "b' = setSidePrices (moAmount ord < 0)
            (List.insert (moPrice ord) (sidePrices b (moAmount ord < 0)))
            (setSideTree (moAmount ord < 0)
              (AList.update (moPrice ord) l' (sideTree b (moAmount ord < 0))) b)"
    using assms by (rule InsertOrder_Inr)
  have g: "GetOrder b i (moAmount ord < 0) (moPrice ord) = plGetOrder l i" for i
    by (auto simp: GetOrder_def l plGetOrder_def newPriceLevel_def split: option.splits)
  then show "GetOrder b (moID ord) (moAmount ord < 0) (moPrice ord) = None"
    using plInsertOrder_Inr(1) [OF l'] by simp
  have "GetOrder b' i c price =
    (if c = (moAmount ord < 0) \<and> price = moPrice ord then plGetOrder l' i else GetOrder b i c price)"
    by (auto simp: GetOrder_def b')
  with g show "GetOrder b' i c price =
       (if i = moID ord \<and> c = (moAmount ord < 0) \<and> price = moPrice ord then Some ord
        else GetOrder b i c price)"
    by (simp add: plInsertOrder_Inr(2) [OF l'])
qed

lemma InsertOrder_wf:
  assumes "InsertOrder b ord = (Inr (), b')" "book_wf b" "moAmount ord \<noteq> 0"
  shows "book_wf b'"
  unfolding book_wf_iff
proof
  fix c
  let ?a = "moAmount ord < 0"
  obtain l l' where l': "plInsertOrder l ord = Inr l'"
    and l: "l = (case map_of (sideTree b ?a) (moPrice ord) of
            None \<Rightarrow> newPriceLevel (moPrice ord) | Some l \<Rightarrow> l)"
    and b': "b' = setSidePrices ?a (List.insert (moPrice ord) (sidePrices b ?a))
            (setSideTree ?a (AList.update (moPrice ord) l' (sideTree b ?a)) b)"
    using assms(1) by (rule InsertOrder_Inr)
  from assms(2) have wf: "side_wf b c" for c by (simp add: book_wf_iff)
  have "level_wf ?a (moPrice ord) l"
    using side_wfD [OF wf, of ?a "moPrice ord"] by (auto simp: l split: option.splits)
  with plInsertOrder_wf [OF l' _ assms(3), of ?a] plInsertOrder_Inr(4) [OF l']
  have "level_wf ?a (moPrice ord) l'" "plOrderMap l' \<noteq> []" by auto
  with wf [of c] show "side_wf b' c"
    unfolding b' side_wf_def side_simps by (auto simp: distinct_update split: if_splits)
qed

lemma ChangeOrder_wf:
  assumes "ChangeOrder b ord x = (r, b')" "book_wf b"
  shows "book_wf b'"
proof (cases r)
  case (Inl e)
  with assms show ?thesis using ChangeOrder_error by metis
next
  case (Inr u)
  let ?a = "moAmount ord < 0"
  from assms(1) Inr obtain l l' where l: "map_of (sideTree b ?a) (moPrice ord) = Some l"
    "plChangeOrder l (moID ord) x = Inr l'" and b': "b' = storeLevel ?a (moPrice ord) l' b"
    by (auto simp: ChangeOrder_def Let_def split: option.splits sum.splits)
  from assms(2) l(1) have "level_wf ?a (moPrice ord) l" by (auto simp: book_wf_iff dest: side_wfD)
  with l(2) have "level_wf ?a (moPrice ord) l'" by (rule plChangeOrder_Inr)
  with assms(2) l(1) show ?thesis unfolding b' by (intro storeLevel_wf) auto
qed

lemma ChangeOrder_GetOrder:
  assumes "ChangeOrder b ord x = (Inr (), b')" "book_wf b"
  obtains cur where "GetOrder b (moID ord) (moAmount ord < 0) (moPrice ord) = Some cur"
    "moAmount cur + x = 0 \<or> HasTheSameSign (moAmount cur + x) (moAmount cur)"
    "\<And>i c price. GetOrder b' i c price =
       (if i = moID ord \<and> c = (moAmount ord < 0) \<and> price = moPrice ord
        then (if moAmount cur + x = 0 then None else Some (cur\<lparr> moAmount := moAmount cur + x \<rparr>))
        else GetOrder b i c price)"
proof -
  let ?a = "moAmount ord < 0"
  from assms(1) obtain l l' where l: "map_of (sideTree b ?a) (moPrice ord) = Some l"
    "plChangeOrder l (moID ord) x = Inr l'" and b': "b' = storeLevel ?a (moPrice ord) l' b"
    by (auto simp: ChangeOrder_def Let_def split: option.splits sum.splits)
  from assms(2) l(1) have "level_wf ?a (moPrice ord) l" by (auto simp: book_wf_iff dest: side_wfD)
  with l(2) obtain cur where cur: "plGetOrder l (moID ord) = Some cur"
    "moAmount cur + x = 0 \<or> HasTheSameSign (moAmount cur + x) (moAmount cur)"
    "plGetOrder l' = (plGetOrder l)(moID ord := (if moAmount cur + x = 0 then None
                        else Some (cur\<lparr> moAmount := moAmount cur + x \<rparr>)))"
    by (rule plChangeOrder_Inr)
  show ?thesis
  proof (rule that)
    show "GetOrder b (moID ord) ?a (moPrice ord) = Some cur" using l(1) cur(1) by (simp add: GetOrder_def)
    show "moAmount cur + x = 0 \<or> HasTheSameSign (moAmount cur + x) (moAmount cur)" by (rule cur(2))
    show "GetOrder b' i c price =
       (if i = moID ord \<and> c = ?a \<and> price = moPrice ord
        then (if moAmount cur + x = 0 then None else Some (cur\<lparr> moAmount := moAmount cur + x \<rparr>))
        else GetOrder b i c price)" for i c price
      using level_GetOrder [OF l(1)] by (auto simp: b' storeLevel_GetOrder cur(3))
  qed
qed

lemma RemoveOrder_wf:
  assumes "RemoveOrder b ord = (r, b')" "book_wf b"
  shows "book_wf b'"
proof (cases r)
  case (Inl e)
  with assms show ?thesis using RemoveOrder_error by metis
next
  case (Inr u)
  let ?a = "moAmount ord < 0"
  from assms(1) Inr obtain l l' x where l: "map_of (sideTree b ?a) (moPrice ord) = Some l"
    "plRemoveOrder l (moID ord) = Inr (l', x)" and b': "b' = storeLevel ?a (moPrice ord) l' b"
    by (auto simp: RemoveOrder_def Let_def split: option.splits sum.splits)
  from assms(2) l(1) have "level_wf ?a (moPrice ord) l" by (auto simp: book_wf_iff dest: side_wfD)
  with plRemoveOrder_Inr(3) [OF l(2)] have "level_wf ?a (moPrice ord) l'" by blast
  with assms(2) l(1) show ?thesis unfolding b' by (intro storeLevel_wf) auto
qed

lemma RemoveOrder_GetOrder:
  assumes "RemoveOrder b ord = (Inr (), b')" "book_wf b"
  shows "GetOrder b (moID ord) (moAmount ord < 0) (moPrice ord) \<noteq> None"
    "GetOrder b' i c price =
       (if i = moID ord \<and> c = (moAmount ord < 0) \<and> price = moPrice ord then None
        else GetOrder b i c price)"
proof -
  let ?a = "moAmount ord < 0"
  from assms(1) obtain l l' x where l: "map_of (sideTree b ?a) (moPrice ord) = Some l"
    "plRemoveOrder l (moID ord) = Inr (l', x)" and b': "b' = storeLevel ?a (moPrice ord) l' b"
    by (auto simp: RemoveOrder_def Let_def split: option.splits sum.splits)
  from assms(2) l(1) have wf: "level_wf ?a (moPrice ord) l" by (auto simp: book_wf_iff dest: side_wfD)
  note r = plRemoveOrder_Inr [OF l(2) wf]
  show "GetOrder b (moID ord) ?a (moPrice ord) \<noteq> None" using l(1) r(1) by (simp add: GetOrder_def)
  show "GetOrder b' i c price =
       (if i = moID ord \<and> c = ?a \<and> price = moPrice ord then None else GetOrder b i c price)"
    using level_GetOrder [OF l(1)] by (auto simp: b' storeLevel_GetOrder r(2))
qed

subsection \<open>The abstract book\<close>

text \<open>
  What the book promises: a finite map from side, price and id to orders. Inserting adds an order
  whose key is free, changing moves the amount of an order within its side and drops it at zero,
  removing drops it.
\<close>

type_synonym order_key = "bool \<times> decimal \<times> string"

definition order_key :: "MemoryOrder \<Rightarrow> order_key" where
  "order_key ord = (moAmount ord < 0, moPrice ord, moID ord)"

definition orders_of :: "Orderbook \<Rightarrow> order_key \<rightharpoonup> MemoryOrder" where
  "orders_of b = (\<lambda>(isAsk, price, i). GetOrder b i isAsk price)"

definition spec_insert ::
  "(order_key \<rightharpoonup> MemoryOrder) \<Rightarrow> MemoryOrder \<Rightarrow> (order_key \<rightharpoonup> MemoryOrder) option" where
  "spec_insert m ord = (if m (order_key ord) = None then Some (m(order_key ord \<mapsto> ord)) else None)"

definition spec_remove ::
  "(order_key \<rightharpoonup> MemoryOrder) \<Rightarrow> MemoryOrder \<Rightarrow> (order_key \<rightharpoonup> MemoryOrder) option" where
  "spec_remove m ord = (if m (order_key ord) = None then None else Some (m(order_key ord := None)))"

definition spec_change ::
  "(order_key \<rightharpoonup> MemoryOrder) \<Rightarrow> MemoryOrder \<Rightarrow> decimal \<Rightarrow> (order_key \<rightharpoonup> MemoryOrder) option" where
  "spec_change m ord x =
     (case m (order_key ord) of
        None \<Rightarrow> None
      | Some cur \<Rightarrow>
          let n = moAmount cur + x in
          if n = 0 then Some (m(order_key ord := None))
          else if (n < 0) = (moAmount cur < 0) then Some (m(order_key ord \<mapsto> cur\<lparr> moAmount := n \<rparr>))
          else None)"

text \<open>\<open>implements b m r\<close>: the result \<open>r\<close> of an operation on \<open>b\<close> is what the specification says.\<close>

definition implements ::
  "Orderbook \<Rightarrow> (order_key \<rightharpoonup> MemoryOrder) option \<Rightarrow> unit result \<times> Orderbook \<Rightarrow> bool" where
  "implements b m r =
     (case m of
        None \<Rightarrow> isl (fst r) \<and> snd r = b
      | Some m' \<Rightarrow> fst r = Inr () \<and> orders_of (snd r) = m' \<and> book_wf (snd r))"

lemma level_wf_order:
  assumes "level_wf a price l" "plGetOrder l i = Some ord"
  shows "moID ord = i" "moPrice ord = price" "moAmount ord \<noteq> 0" "(moAmount ord < 0) = a"
  using assms by (auto simp: level_wf_def order_wf_def plGetOrder_def dest!: map_of_SomeD)

lemma orders_of_wf:
  assumes "book_wf b" "orders_of b k = Some ord"
  shows "order_key ord = k" "moAmount ord \<noteq> 0"
proof -
  obtain a price i where k: "k = (a, price, i)" by (cases k)
  from assms(2) obtain l where l: "map_of (sideTree b a) price = Some l" "plGetOrder l i = Some ord"
    by (auto simp: orders_of_def GetOrder_def k split: option.splits)
  from assms(1) l(1) have "level_wf a price l" by (auto simp: book_wf_iff dest: side_wfD)
  from level_wf_order [OF this l(2)] show "order_key ord = k" "moAmount ord \<noteq> 0"
    by (simp_all add: order_key_def k)
qed

lemma InsertOrder_fails_iff:
  "isl (fst (InsertOrder b ord)) \<longleftrightarrow> orders_of b (order_key ord) \<noteq> None"
  by (auto simp: InsertOrder_unfold plInsertOrder_def orders_of_def order_key_def GetOrder_def
      plGetOrder_def newPriceLevel_def split: option.splits sum.splits)

lemma RemoveOrder_fails_iff:
  "isl (fst (RemoveOrder b ord)) \<longleftrightarrow> orders_of b (order_key ord) = None"
  by (auto simp: RemoveOrder_def Let_def plRemoveOrder_def orders_of_def order_key_def GetOrder_def
      plGetOrder_def split: option.splits sum.splits)

lemma ChangeOrder_fails_iff:
  "isl (fst (ChangeOrder b ord x)) \<longleftrightarrow>
     (case orders_of b (order_key ord) of
        None \<Rightarrow> True
      | Some cur \<Rightarrow> moAmount cur + x \<noteq> 0 \<and> \<not> HasTheSameSign (moAmount cur + x) (moAmount cur))"
  by (auto simp: ChangeOrder_def Let_def plChangeOrder_def orders_of_def order_key_def GetOrder_def
      plGetOrder_def split: option.splits sum.splits)

lemma same_sign_neq_0:
  "x \<noteq> 0 \<Longrightarrow> y \<noteq> 0 \<Longrightarrow> HasTheSameSign x y \<longleftrightarrow> (x < 0) = (y < 0)"
  by (auto simp: HasTheSameSign_iff zero_le_mult_iff)

section \<open>The properties\<close>

text \<open>
  C23: \<open>InsertOrder\<close> implements the insertion of the abstract book: on a well-formed book it
  fails, changing nothing, exactly when an order with that id is at that price on that side, and
  otherwise adds the order and keeps the book well-formed.
\<close>

theorem InsertOrder_refines:
  assumes "book_wf b" "moAmount ord \<noteq> 0"
  shows "implements b (spec_insert (orders_of b) ord) (InsertOrder b ord)"
proof -
  obtain r b' where r: "InsertOrder b ord = (r, b')" by fastforce
  show ?thesis
  proof (cases r)
    case (Inl e)
    with r InsertOrder_fails_iff [of b ord] InsertOrder_error [of b ord e b'] show ?thesis
      by (auto simp: implements_def spec_insert_def)
  next
    case (Inr u)
    with r have ok: "InsertOrder b ord = (Inr (), b')" by simp
    have "orders_of b' = (orders_of b)(order_key ord \<mapsto> ord)"
      by (auto simp: orders_of_def order_key_def InsertOrder_GetOrder(2) [OF ok])
    with InsertOrder_wf [OF ok assms] InsertOrder_GetOrder(1) [OF ok] ok show ?thesis
      by (simp add: implements_def spec_insert_def orders_of_def order_key_def)
  qed
qed

definition sample_order :: "string \<Rightarrow> decimal \<Rightarrow> decimal \<Rightarrow> MemoryOrder" where
  "sample_order i price amount =
     \<lparr> moID = i, moLiquidityPoolAddress = ''0xa1'', moPerpetualIndex = 0, moPrice = price,
       moTriggerPrice = 0, moAmount = amount, moMinTradeAmount = 1, moType = 1, moTrader = ''0xb2'' \<rparr>"

definition sample_book :: Orderbook where
  "sample_book = snd (InsertOrder (snd (InsertOrder NewOrderbook (sample_order ''x'' 7 2)))
                                  (sample_order ''y'' 5 3))"

lemma book_wf_NewOrderbook [simp]: "book_wf NewOrderbook"
  by (simp add: book_wf_def side_wf_def NewOrderbook_def sideTree_def sidePrices_def)

lemma sample_book_eval:
  "sample_book = \<lparr> bidsTree =
       [(7, \<lparr> plPrice = 7, plTotalAmount = 2, plOrderMap = [(''x'', sample_order ''x'' 7 2)] \<rparr>),
        (5, \<lparr> plPrice = 5, plTotalAmount = 3, plOrderMap = [(''y'', sample_order ''y'' 5 3)] \<rparr>)],
     asksTree = [], bidPrices = [5, 7], askPrices = [] \<rparr>"
  by (simp add: sample_book_def sample_order_def InsertOrder_def NewOrderbook_def Let_def
      newPriceLevel_def plInsertOrder_def sideTree_def setSideTree_def sidePrices_def
      setSidePrices_def List.insert_def)

lemma sample_book_wf [simp]: "book_wf sample_book"
  by (auto simp: sample_book_eval book_wf_def side_wf_def sideTree_def sidePrices_def level_wf_def
      order_wf_def sample_order_def split: if_splits)

lemma orders_of_sample_book:
  "orders_of sample_book (False, 7, ''x'') = Some (sample_order ''x'' 7 2)"
  "orders_of sample_book (False, 7, ''z'') = None"
  by (simp_all add: orders_of_def GetOrder_def sideTree_def sample_book_eval plGetOrder_def)

theorem InsertOrder_refines_witness:
  "book_wf sample_book \<and> moAmount (sample_order ''z'' 7 4) \<noteq> 0 \<and>
   spec_insert (orders_of sample_book) (sample_order ''z'' 7 4) \<noteq> None \<and>
   implements sample_book (spec_insert (orders_of sample_book) (sample_order ''z'' 7 4))
     (InsertOrder sample_book (sample_order ''z'' 7 4))"
  using InsertOrder_refines [of sample_book "sample_order ''z'' 7 4"] orders_of_sample_book(2)
  by (simp add: spec_insert_def order_key_def sample_order_def)

text \<open>
  C24: \<open>ChangeOrder\<close> implements the change of the abstract book: the order keeps its place
  with the new amount, disappears when the amount reaches zero, and the call fails without
  effect when the order is absent or the change would carry it to the other side.
\<close>

theorem ChangeOrder_refines:
  assumes "book_wf b"
  shows "implements b (spec_change (orders_of b) ord x) (ChangeOrder b ord x)"
proof -
  obtain r b' where r: "ChangeOrder b ord x = (r, b')" by fastforce
  show ?thesis
  proof (cases r)
    case (Inl e)
    with r ChangeOrder_fails_iff [of b ord x] ChangeOrder_error [of b ord x e b'] assms show ?thesis
      by (auto simp: implements_def spec_change_def Let_def same_sign_neq_0 orders_of_wf
          split: option.splits)
  next
    case (Inr u)
    with r have ok: "ChangeOrder b ord x = (Inr (), b')" by simp
    obtain cur where cur: "GetOrder b (moID ord) (moAmount ord < 0) (moPrice ord) = Some cur"
      "moAmount cur + x = 0 \<or> HasTheSameSign (moAmount cur + x) (moAmount cur)"
      "\<And>i c price. GetOrder b' i c price =
         (if i = moID ord \<and> c = (moAmount ord < 0) \<and> price = moPrice ord
          then (if moAmount cur + x = 0 then None else Some (cur\<lparr> moAmount := moAmount cur + x \<rparr>))
          else GetOrder b i c price)"
      using ok assms by (rule ChangeOrder_GetOrder) blast
    have o: "orders_of b (order_key ord) = Some cur"
      using cur(1) by (simp add: orders_of_def order_key_def)
    then have "moAmount cur \<noteq> 0" using assms orders_of_wf by blast
    moreover have "orders_of b' = (orders_of b)(order_key ord :=
        (if moAmount cur + x = 0 then None else Some (cur\<lparr> moAmount := moAmount cur + x \<rparr>)))"
      by (auto simp: orders_of_def order_key_def cur(3))
    ultimately show ?thesis
      using o ok cur(2) ChangeOrder_wf [OF ok assms]
      by (auto simp: implements_def spec_change_def Let_def same_sign_neq_0)
  qed
qed

theorem ChangeOrder_refines_witness:
  "book_wf sample_book \<and>
   spec_change (orders_of sample_book) (sample_order ''x'' 7 2) (-2) \<noteq> None \<and>
   implements sample_book (spec_change (orders_of sample_book) (sample_order ''x'' 7 2) (-2))
     (ChangeOrder sample_book (sample_order ''x'' 7 2) (-2))"
  using ChangeOrder_refines [of sample_book "sample_order ''x'' 7 2" "-2"] orders_of_sample_book(1)
  by (simp add: spec_change_def order_key_def sample_order_def)

text \<open>
  \<open>RemoveOrder\<close> implements the removal of the abstract book, and fails without effect on
  an absent order.
\<close>

theorem RemoveOrder_refines:
  assumes "book_wf b"
  shows "implements b (spec_remove (orders_of b) ord) (RemoveOrder b ord)"
proof -
  obtain r b' where r: "RemoveOrder b ord = (r, b')" by fastforce
  show ?thesis
  proof (cases r)
    case (Inl e)
    with r RemoveOrder_fails_iff [of b ord] RemoveOrder_error [of b ord e b'] show ?thesis
      by (auto simp: implements_def spec_remove_def)
  next
    case (Inr u)
    with r have ok: "RemoveOrder b ord = (Inr (), b')" by simp
    have "orders_of b' = (orders_of b)(order_key ord := None)"
      by (auto simp: orders_of_def order_key_def RemoveOrder_GetOrder(2) [OF ok assms])
    with RemoveOrder_wf [OF ok assms] RemoveOrder_GetOrder(1) [OF ok assms] ok show ?thesis
      by (simp add: implements_def spec_remove_def orders_of_def order_key_def)
  qed
qed

theorem RemoveOrder_refines_witness:
  "book_wf sample_book \<and> spec_remove (orders_of sample_book) (sample_order ''x'' 7 2) \<noteq> None \<and>
   implements sample_book (spec_remove (orders_of sample_book) (sample_order ''x'' 7 2))
     (RemoveOrder sample_book (sample_order ''x'' 7 2))"
  using RemoveOrder_refines [of sample_book "sample_order ''x'' 7 2"] orders_of_sample_book(1)
  by (simp add: spec_remove_def order_key_def sample_order_def)

subsection \<open>Price lists and time priority\<close>

lemma side_price_iff:
  assumes "book_wf b"
  shows "price \<in> set (sidePrices b a) \<longleftrightarrow> (\<exists>i. orders_of b (a, price, i) \<noteq> None)"
proof -
  from assms have wf: "side_wf b a" by (simp add: book_wf_iff)
  then have "price \<in> set (sidePrices b a) \<longleftrightarrow> (\<exists>l. map_of (sideTree b a) price = Some l)"
    unfolding side_wf_def using al.in_keys_iff [of price "sideTree b a"] by auto
  also have "\<dots> \<longleftrightarrow> (\<exists>i. orders_of b (a, price, i) \<noteq> None)"
  proof
    assume "\<exists>l. map_of (sideTree b a) price = Some l"
    then obtain l where l: "map_of (sideTree b a) price = Some l" by blast
    from side_wfD(2) [OF wf l] obtain i ord where "map_of (plOrderMap l) i = Some ord"
      by (metis al.keys_Nil_iff list.map_disc_iff option.exhaust)
    with l show "\<exists>i. orders_of b (a, price, i) \<noteq> None"
      by (auto simp: orders_of_def GetOrder_def plGetOrder_def)
  qed (auto simp: orders_of_def GetOrder_def split: option.splits)
  finally show ?thesis .
qed

lemma sorted_desc_rev_sort: "distinct xs \<Longrightarrow> sorted_wrt (>) (rev (sort xs))"
  by (simp add: sorted_wrt_rev strict_sorted_iff)

lemma sort_Nil_iff [simp]: "sort xs = [] \<longleftrightarrow> xs = []"
  by (metis length_0_conv length_sort)

lemma hd_rev_sort_Max:
  fixes xs :: "'a :: linorder list"
  assumes "xs \<noteq> []"
  shows "hd (rev (sort xs)) = Max (set xs)"
proof -
  have "rev (sort xs) \<noteq> []" using assms by simp
  then have "hd (rev (sort xs)) = last (sort xs)" by (simp add: hd_rev)
  moreover have "last (sort xs) = Max (set xs)"
  proof (rule Max_eqI [symmetric])
    show "last (sort xs) \<in> set xs" using assms by (metis last_in_set set_empty set_sort)
    fix y assume "y \<in> set xs"
    then have "y \<in> set (sort xs)" by simp
    then obtain i where "i < length (sort xs)" "sort xs ! i = y" by (metis in_set_conv_nth)
    then show "y \<le> last (sort xs)"
      by (metis assms last_conv_nth length_greater_0_conv length_sort less_Suc_eq_le
          Suc_diff_1 diff_less sorted_nth_mono sorted_sort zero_less_one)
  qed simp
  ultimately show ?thesis by simp
qed

text \<open>
  C25: the price list the matcher walks on the bid side is strictly decreasing, holds exactly
  the prices at which some bid rests, and starts at \<open>MaxBid\<close>, the maximum of the tree; on the
  ask side it is strictly increasing, exact, and starts at \<open>MinAsk\<close>.
\<close>

theorem price_lists_exact:
  assumes "book_wf b"
  shows "sorted_wrt (>) (GetBidPricesDesc b) \<and>
         set (GetBidPricesDesc b) = {price. \<exists>i. orders_of b (False, price, i) \<noteq> None} \<and>
         MaxBid b = (case GetBidPricesDesc b of [] \<Rightarrow> None | p # _ \<Rightarrow> Some p) \<and>
         sorted_wrt (<) (GetAskPricesAsc b) \<and>
         set (GetAskPricesAsc b) = {price. \<exists>i. orders_of b (True, price, i) \<noteq> None} \<and>
         MinAsk b = (case GetAskPricesAsc b of [] \<Rightarrow> None | p # _ \<Rightarrow> Some p)"
proof -
  have wf: "side_wf b False" "side_wf b True" using assms by (simp_all add: book_wf_def)
  have d: "distinct (bidPrices b)" "distinct (askPrices b)"
    and k: "set (bidPrices b) = set (map fst (bidsTree b))" "set (askPrices b) = set (map fst (asksTree b))"
    using wf by (simp_all add: side_wf_def sidePrices_def sideTree_def)
  have s: "price \<in> set (bidPrices b) \<longleftrightarrow> (\<exists>i. orders_of b (False, price, i) \<noteq> None)"
    "price \<in> set (askPrices b) \<longleftrightarrow> (\<exists>i. orders_of b (True, price, i) \<noteq> None)" for price
    using side_price_iff [OF assms, of price False] side_price_iff [OF assms, of price True]
    by (simp_all add: sidePrices_def)
  have e: "bidsTree b = [] \<longleftrightarrow> bidPrices b = []" "asksTree b = [] \<longleftrightarrow> askPrices b = []"
    using k by (metis list.map_disc_iff set_empty)+
  have "MaxBid b = (case GetBidPricesDesc b of [] \<Rightarrow> None | p # _ \<Rightarrow> Some p)"
    using hd_rev_sort_Max [of "bidPrices b"] e(1) k(1)
    by (cases "rev (sort (bidPrices b))")
      (auto simp: MaxBid_def treeMax_def GetBidPricesDesc_def)
  moreover have "MinAsk b = (case GetAskPricesAsc b of [] \<Rightarrow> None | p # _ \<Rightarrow> Some p)"
  proof (cases "sort (askPrices b)")
    case Nil
    then have "askPrices b = []" by simp
    with e(2) show ?thesis by (simp add: MinAsk_def treeMin_def GetAskPricesAsc_def)
  next
    case (Cons p ps)
    then have "askPrices b \<noteq> []" by auto
    have "sorted (p # ps)" "set (p # ps) = set (askPrices b)"
      using Cons by (metis sorted_sort, metis set_sort)
    then have "Min (set (askPrices b)) = p" by (metis List.finite_set Min_insert2 list.simps(15) sorted_wrt.simps(2))
    with Cons e(2) k(2) \<open>askPrices b \<noteq> []\<close> show ?thesis
      by (simp add: MinAsk_def treeMin_def GetAskPricesAsc_def)
  qed
  ultimately show ?thesis
    using d s sorted_desc_rev_sort [OF d(1)]
    by (simp add: GetBidPricesDesc_def GetAskPricesAsc_def strict_sorted_iff set_eq_iff)
qed

theorem price_lists_exact_witness:
  "book_wf sample_book \<and> GetBidPricesDesc sample_book = [7, 5] \<and> MaxBid sample_book = Some 7"
proof -
  have g: "GetBidPricesDesc sample_book = [7, 5]" by (simp add: sample_book_eval GetBidPricesDesc_def)
  have "MaxBid sample_book = (case GetBidPricesDesc sample_book of [] \<Rightarrow> None | p # _ \<Rightarrow> Some p)"
    using price_lists_exact [of sample_book] sample_book_wf by blast
  with g show ?thesis by simp
qed

text \<open>
  C26: time priority. A new order goes behind the orders resting at its price and the other
  levels keep their queues.
\<close>

theorem InsertOrder_time_priority:
  assumes "InsertOrder b ord = (Inr (), b')"
  shows "ordersByPrice (sideTree b' a) price =
           ordersByPrice (sideTree b a) price @
           (if a = (moAmount ord < 0) \<and> price = moPrice ord then [ord] else [])"
proof -
  obtain l l' where l': "plInsertOrder l ord = Inr l'"
    and l: "l = (case map_of (sideTree b (moAmount ord < 0)) (moPrice ord) of
            None \<Rightarrow> newPriceLevel (moPrice ord) | Some l \<Rightarrow> l)"
    and b': "b' = setSidePrices (moAmount ord < 0)
            (List.insert (moPrice ord) (sidePrices b (moAmount ord < 0)))
            (setSideTree (moAmount ord < 0)
              (AList.update (moPrice ord) l' (sideTree b (moAmount ord < 0))) b)"
    using assms by (rule InsertOrder_Inr)
  have "ordersByPrice (sideTree b (moAmount ord < 0)) (moPrice ord) = plGetOrders l"
    by (auto simp: ordersByPrice_def l newPriceLevel_def plGetOrders_def split: option.splits)
  with plInsertOrder_Inr(3) [OF l'] show ?thesis by (auto simp: ordersByPrice_def b')
qed

theorem InsertOrder_time_priority_witness:
  "ordersByPrice (sideTree (snd (InsertOrder sample_book (sample_order ''z'' 7 4))) False) 7 =
     [sample_order ''x'' 7 2, sample_order ''z'' 7 4]"
proof -
  have "InsertOrder sample_book (sample_order ''z'' 7 4) =
          (Inr (), snd (InsertOrder sample_book (sample_order ''z'' 7 4)))"
    by (simp add: InsertOrder_def sample_book_eval sample_order_def Let_def plInsertOrder_def sideTree_def)
  from InsertOrder_time_priority [OF this, of False 7] show ?thesis
    by (simp add: ordersByPrice_def sample_book_eval sideTree_def plGetOrders_def sample_order_def)
qed

end
