(* ===== verification/Order_Codec.thy ===== *)
theory Order_Codec
  imports Model
begin

unbundle bit_operations_syntax

text \<open>
  \<^verbatim>\<open>src/common/mai3/order.go\<close> and the gas constants of \<^verbatim>\<open>consts.go\<close>: the flags word, the
  256-bit encoding of decimals, the compact order data sent to the broker contract and the
  EIP-712 hash of an order. \<open>Keccak256\<close> is a package outside the repository, the parameter
  \<open>K\<close>. The number encoding is shown to be the two's complement of the wad value, the order
  data to have a fixed layout, and the message that is hashed to determine the order.
\<close>

section \<open>Numbers as bytes\<close>

text \<open>\<^verbatim>\<open>big.Int.Bytes\<close>: the absolute value, big-endian, without leading zeros.\<close>

fun nat_bytes :: "nat \<Rightarrow> byte list" where
  "nat_bytes n = (if n = 0 then [] else nat_bytes (n div 256) @ [of_nat (n mod 256)])"

declare nat_bytes.simps [simp del]

definition bigBytes :: "int \<Rightarrow> byte list" where
  "bigBytes i = nat_bytes (nat \<bar>i\<bar>)"

text \<open>\<^verbatim>\<open>fmt.Sprintf("%x", n)\<close> on an integer.\<close>

fun nat_hex :: "nat \<Rightarrow> string" where
  "nat_hex n = (if n < 16 then [hex_char n] else nat_hex (n div 16) @ [hex_char (n mod 16)])"

declare nat_hex.simps [simp del]

definition fmt_x :: "int \<Rightarrow> string" where
  "fmt_x i = (if i < 0 then CHR ''-'' # nat_hex (nat (- i)) else nat_hex (nat i))"

definition addLeadingZero :: "string \<Rightarrow> nat \<Rightarrow> string" where
  "addLeadingZero data len =
     (if len \<le> length data then data else replicate (len - length data) CHR ''0'' @ data)"

definition BigPow :: "int \<Rightarrow> nat \<Rightarrow> int" where
  "BigPow a b = a ^ b"

definition s256 :: int where
  "s256 = BigPow 2 256"

definition encodeNumberToByte :: "decimal \<Rightarrow> byte list" where
  "encodeNumberToByte d =
     (let b = MustDecimalToBigInt (ToWad d) in bigBytes (if d < 0 then s256 + b else b))"

definition encodeNumber :: "decimal \<Rightarrow> string" where
  "encodeNumber d = addLeadingZero (Bytes2Hex (encodeNumberToByte d)) (8 * 8)"

section \<open>Flags and gas\<close>

definition MASK_CLOSE_ONLY :: int where "MASK_CLOSE_ONLY = 0x80000000"
definition MASK_MARKET_ORDER :: int where "MASK_MARKET_ORDER = 0x40000000"
definition MASK_STOP_LOSS_ORDER :: int where "MASK_STOP_LOSS_ORDER = 0x20000000"
definition MASK_TAKE_PROFIT_ORDER :: int where "MASK_TAKE_PROFIT_ORDER = 0x10000000"
definition MASK_USE_TARGET_LEVERAGE :: int where "MASK_USE_TARGET_LEVERAGE = 0x08000000"

lemmas MASK_defs = MASK_CLOSE_ONLY_def MASK_MARKET_ORDER_def MASK_STOP_LOSS_ORDER_def
  MASK_TAKE_PROFIT_ORDER_def MASK_USE_TARGET_LEVERAGE_def

definition GenerateOrderFlags :: "OrderType \<Rightarrow> bool \<Rightarrow> int" where
  "GenerateOrderFlags orderType isCloseOnly =
     (let flags = 0;
          flags = (if isCloseOnly then flags OR MASK_CLOSE_ONLY else flags);
          flags = (if orderType = StopLimitOrder then flags OR MASK_STOP_LOSS_ORDER
                   else if orderType = TakeProfitOrder then flags OR MASK_TAKE_PROFIT_ORDER
                   else flags)
      in flags OR MASK_USE_TARGET_LEVERAGE)"

definition MaiV3BaseGas :: int where "MaiV3BaseGas = 4800000"
definition MaiV3GasForEachPerp :: int where "MaiV3GasForEachPerp = 7300"
definition MaiV3BaseGasCloseOnly :: int where "MaiV3BaseGasCloseOnly = 1129722"
definition MaiV3GasForEachPerpCloseOnly :: int where "MaiV3GasForEachPerpCloseOnly = 22330"

lemmas gas_defs = MaiV3BaseGas_def MaiV3GasForEachPerp_def MaiV3BaseGasCloseOnly_def
  MaiV3GasForEachPerpCloseOnly_def

definition GetGasFeeLimit :: "nat \<Rightarrow> bool \<Rightarrow> int" where
  "GetGasFeeLimit perpetualCount isCloseOnly =
     (if isCloseOnly then MaiV3BaseGasCloseOnly + MaiV3GasForEachPerpCloseOnly * int perpetualCount
      else MaiV3BaseGas + MaiV3GasForEachPerp * int perpetualCount)"

section \<open>Order data and order hash\<close>

definition EIP712 :: string where "EIP712 = ''eip712''"
definition EthSign :: string where "EthSign = ''ethSign''"

text \<open>The empty string is returned when an address is not hexadecimal.\<close>

definition GenerateOrderData ::
  "string \<Rightarrow> string \<Rightarrow> string \<Rightarrow> string \<Rightarrow> string \<Rightarrow> decimal \<Rightarrow> decimal \<Rightarrow> decimal \<Rightarrow> decimal \<Rightarrow> int \<Rightarrow>
   int \<Rightarrow> int \<Rightarrow> int \<Rightarrow> int \<Rightarrow> int \<Rightarrow> string \<Rightarrow> string \<Rightarrow> string \<Rightarrow> string \<Rightarrow> string" where
  "GenerateOrderData traderAddress brokerAddress relayerAddress referrerAddress poolAddress
     minTradeAmount amount price triggerPrice chainID expiredAt perpetualIndex brokerFeeLimit
     flags salt signType v r s =
   (case Hex2Bytes traderAddress of Inl _ \<Rightarrow> [] | Inr trader \<Rightarrow>
    case Hex2Bytes brokerAddress of Inl _ \<Rightarrow> [] | Inr broker \<Rightarrow>
    case Hex2Bytes relayerAddress of Inl _ \<Rightarrow> [] | Inr relayer \<Rightarrow>
    case Hex2Bytes referrerAddress of Inl _ \<Rightarrow> [] | Inr referrer \<Rightarrow>
    case Hex2Bytes poolAddress of Inl _ \<Rightarrow> [] | Inr pool \<Rightarrow>
      ''0x'' @ Bytes2Hex trader @ Bytes2Hex broker @ Bytes2Hex relayer @ Bytes2Hex referrer @
      Bytes2Hex pool @
      encodeNumber minTradeAmount @ encodeNumber amount @ encodeNumber price @
      addLeadingZero (Bytes2Hex (encodeNumberToByte triggerPrice)) (8 * 8) @
      addLeadingZero (fmt_x chainID) (8 * 8) @
      addLeadingZero (fmt_x expiredAt) (8 * 2) @
      addLeadingZero (fmt_x perpetualIndex) 8 @
      addLeadingZero (fmt_x brokerFeeLimit) 8 @
      addLeadingZero (fmt_x flags) 8 @
      addLeadingZero (fmt_x salt) 8 @
      v @ (if signType = EIP712 then ''01'' else ''00'') @ r @ s)"

type_synonym keccak = "byte list \<Rightarrow> byte list"

text \<open>The bytes of an ASCII string.\<close>

definition ascii :: "string \<Rightarrow> byte list" where
  "ascii s = map (\<lambda>c. of_nat (of_char c)) s"

definition Keccak256 :: "keccak \<Rightarrow> byte list list \<Rightarrow> byte list" where
  "Keccak256 K data = K (concat data)"

definition EIP712_DOMAIN_TYPEHASH :: "keccak \<Rightarrow> byte list" where
  "EIP712_DOMAIN_TYPEHASH K = Keccak256 K [ascii ''EIP712Domain(string name)'']"

definition EIP712_MAI3_ORDER_TYPE :: "keccak \<Rightarrow> byte list" where
  "EIP712_MAI3_ORDER_TYPE K = Keccak256 K [ascii (''Order(address trader,address broker,address relayer,address referrer,address liquidityPool,int256 minTradeAmount,int256 amount,int256 limitPrice,int256 triggerPrice,uint256 chainID,uint64 expiredAt,uint32 perpetualIndex,'' @
     ''uint32 brokerFeeLimit,uint32 flags,uint32 salt)'')]"

definition getDomainSeparator :: "keccak \<Rightarrow> byte list" where
  "getDomainSeparator K =
     Keccak256 K [EIP712_DOMAIN_TYPEHASH K, Keccak256 K [ascii ''Mai Protocol v3'']]"

definition getEIP712MessageHash :: "keccak \<Rightarrow> byte list \<Rightarrow> byte list" where
  "getEIP712MessageHash K message = Keccak256 K [[0x19, 0x01], getDomainSeparator K, message]"

text \<open>The sixteen words behind the type hash, in the order in which they are hashed.\<close>

definition orderWords ::
  "byte list \<Rightarrow> byte list \<Rightarrow> byte list \<Rightarrow> byte list \<Rightarrow> byte list \<Rightarrow> decimal \<Rightarrow> decimal \<Rightarrow> decimal \<Rightarrow>
   decimal \<Rightarrow> int \<Rightarrow> int \<Rightarrow> int \<Rightarrow> int \<Rightarrow> int \<Rightarrow> int \<Rightarrow> byte list list" where
  "orderWords trader broker relayer referrer pool minTradeAmount amount price triggerPrice chainID
     expiredAt perpetualIndex brokerFeeLimit flags salt =
   [trader, broker, relayer, referrer, pool,
    BytesToHash (bigBytes (MustDecimalToBigInt (ToWad minTradeAmount))),
    BytesToHash (encodeNumberToByte amount),
    BytesToHash (bigBytes (MustDecimalToBigInt (ToWad price))),
    BytesToHash (bigBytes (MustDecimalToBigInt (ToWad triggerPrice))),
    BytesToHash (bigBytes chainID), BytesToHash (bigBytes expiredAt),
    BytesToHash (bigBytes perpetualIndex), BytesToHash (bigBytes brokerFeeLimit),
    BytesToHash (bigBytes flags), BytesToHash (bigBytes salt)]"

definition GetOrderHash ::
  "keccak \<Rightarrow> string \<Rightarrow> string \<Rightarrow> string \<Rightarrow> string \<Rightarrow> string \<Rightarrow> decimal \<Rightarrow> decimal \<Rightarrow> decimal \<Rightarrow> decimal \<Rightarrow> int \<Rightarrow>
   int \<Rightarrow> int \<Rightarrow> int \<Rightarrow> int \<Rightarrow> int \<Rightarrow> byte list result" where
  "GetOrderHash K traderAddress brokerAddress relayerAddress referrerAddress poolAddress
     minTradeAmount amount price triggerPrice chainID expiredAt perpetualIndex brokerFeeLimit
     flags salt =
   (case HexToHash traderAddress of Inl e \<Rightarrow> Inl (''GetOrderHash:'' @ e) | Inr trader \<Rightarrow>
    case HexToHash brokerAddress of Inl e \<Rightarrow> Inl (''GetOrderHash:'' @ e) | Inr broker \<Rightarrow>
    case HexToHash relayerAddress of Inl e \<Rightarrow> Inl (''GetOrderHash:'' @ e) | Inr relayer \<Rightarrow>
    case HexToHash referrerAddress of Inl e \<Rightarrow> Inl (''GetOrderHash:'' @ e) | Inr referrer \<Rightarrow>
    case HexToHash poolAddress of Inl e \<Rightarrow> Inl (''GetOrderHash:'' @ e) | Inr pool \<Rightarrow>
      Inr (getEIP712MessageHash K (Keccak256 K (EIP712_MAI3_ORDER_TYPE K #
        orderWords trader broker relayer referrer pool minTradeAmount amount price triggerPrice
          chainID expiredAt perpetualIndex brokerFeeLimit flags salt))))"

section \<open>Lemmas\<close>

subsection \<open>Big-endian values\<close>

definition be_value :: "byte list \<Rightarrow> nat" where
  "be_value bs = foldl (\<lambda>acc b. 256 * acc + unat b) 0 bs"

lemma be_value_Nil [simp]: "be_value [] = 0"
  by (simp add: be_value_def)

lemma be_value_snoc [simp]: "be_value (bs @ [b]) = 256 * be_value bs + unat b"
  by (simp add: be_value_def)

lemma be_value_zeros [simp]: "be_value (replicate k 0 @ bs) = be_value bs"
proof -
  have "foldl (\<lambda>acc b. 256 * acc + unat b) 0 (replicate k (0 :: byte)) = 0" by (induction k) simp_all
  then show ?thesis by (simp add: be_value_def)
qed

lemma unat_byte_less: "unat (b :: byte) < 256"
  using unsigned_less [of b, where ?'a = nat] by simp

lemma be_value_inj:
  "length xs = length ys \<Longrightarrow> be_value xs = be_value ys \<Longrightarrow> xs = ys"
proof (induction xs arbitrary: ys rule: rev_induct)
  case (snoc x xs)
  then obtain zs z where ys: "ys = zs @ [z]" by (metis length_0_conv rev_exhaust snoc_eq_iff_butlast)
  with snoc.prems have "256 * be_value xs + unat x = 256 * be_value zs + unat z" by simp
  then have "(256 * be_value xs + unat x) div 256 = (256 * be_value zs + unat z) div 256"
    "(256 * be_value xs + unat x) mod 256 = (256 * be_value zs + unat z) mod 256" by simp_all
  then have "be_value xs = be_value zs" "unat x = unat z"
    using unat_byte_less [of x] unat_byte_less [of z] by simp_all
  with snoc.IH [of zs] snoc.prems(1) show ?case by (simp add: ys word_unat_eq_iff)
qed simp

lemma nat_bytes_0 [simp]: "nat_bytes 0 = []"
  by (simp add: nat_bytes.simps)

lemma be_value_nat_bytes [simp]: "be_value (nat_bytes n) = n"
proof (induction n rule: nat_bytes.induct)
  case (1 n)
  then show ?case
    by (cases "n = 0") (simp_all add: nat_bytes.simps [of n] unat_of_nat take_bit_eq_mod)
qed

lemma length_nat_bytes: "n < 256 ^ k \<Longrightarrow> length (nat_bytes n) \<le> k"
proof (induction n arbitrary: k rule: nat_bytes.induct)
  case (1 n)
  show ?case
  proof (cases "n = 0")
    case False
    then obtain k' where k: "k = Suc k'" using "1.prems" by (cases k) auto
    with "1.prems" have "n div 256 < 256 ^ k'" by (simp add: less_mult_imp_div_less mult.commute)
    from "1.IH" [OF False this] False show ?thesis by (simp add: nat_bytes.simps [of n] k)
  qed (simp add: nat_bytes.simps [of n])
qed

lemma be_value_BytesToHash: "length b \<le> 32 \<Longrightarrow> be_value (BytesToHash b) = be_value b"
  by (simp add: BytesToHash_def HashLength_def)

lemma BytesToHash_bigBytes_inj:
  assumes "BytesToHash (bigBytes i) = BytesToHash (bigBytes j)" "0 \<le> i" "0 \<le> j" "i < 2 ^ 256" "j < 2 ^ 256"
  shows "i = j"
proof -
  have l: "length (bigBytes k) \<le> 32" if "0 \<le> k" "k < 2 ^ 256" for k
    unfolding bigBytes_def using that by (intro length_nat_bytes) (simp add: nat_less_iff)
  have "be_value (BytesToHash (bigBytes i)) = be_value (BytesToHash (bigBytes j))" using assms(1) by simp
  then have "nat \<bar>i\<bar> = nat \<bar>j\<bar>"
    using be_value_BytesToHash [OF l [OF assms(2,4)]] be_value_BytesToHash [OF l [OF assms(3,5)]]
    by (simp only: bigBytes_def be_value_nat_bytes)
  with assms(2,3) show ?thesis by simp
qed

subsection \<open>Words in hexadecimal\<close>

lemma Bytes2Hex_append: "Bytes2Hex (xs @ ys) = Bytes2Hex xs @ Bytes2Hex ys"
  by (induction xs) simp_all

lemma hex_char_0 [simp]: "hex_char 0 = CHR ''0''"
  by (simp add: hex_char_def hex_digits_def)

lemma Bytes2Hex_zeros: "Bytes2Hex (replicate k 0) = replicate (2 * k) CHR ''0''"
  by (induction k) simp_all

lemma addLeadingZero_hash:
  assumes "length b \<le> 32"
  shows "addLeadingZero (Bytes2Hex b) (8 * 8) = Bytes2Hex (BytesToHash b)"
proof -
  have "64 - 2 * length b = 2 * (32 - length b)" by simp
  with assms show ?thesis
    by (auto simp: addLeadingZero_def BytesToHash_def HashLength_def Bytes2Hex_append Bytes2Hex_zeros)
qed

text \<open>The wad value of a decimal fits a signed 256-bit word.\<close>

definition fits_int256 :: "decimal \<Rightarrow> bool" where
  "fits_int256 d \<longleftrightarrow> - (2 ^ 255) \<le> \<lfloor>d * 10 ^ 18\<rfloor> \<and> \<lfloor>d * 10 ^ 18\<rfloor> < 2 ^ 255"

lemma encodeNumberToByte_value:
  assumes "fits_int256 d"
  shows "length (encodeNumberToByte d) \<le> 32"
    "int (be_value (encodeNumberToByte d)) = (if d < 0 then 2 ^ 256 + \<lfloor>d * 10 ^ 18\<rfloor> else \<lfloor>d * 10 ^ 18\<rfloor>)"
proof -
  define w where "w = \<lfloor>d * 10 ^ 18\<rfloor>"
  define n where "n = (if d < 0 then 2 ^ 256 + w else w)"
  have e: "encodeNumberToByte d = nat_bytes (nat \<bar>n\<bar>)"
    by (simp add: encodeNumberToByte_def bigBytes_def n_def w_def MustDecimalToBigInt_def ToWad_def
        s256_def BigPow_def Let_def)
  have w: "- (2 ^ 255) \<le> w" "w < 2 ^ 255" using assms by (simp_all add: fits_int256_def w_def)
  have s: "d < 0 \<Longrightarrow> w < 0" "\<not> d < 0 \<Longrightarrow> 0 \<le> w"
    by (simp_all add: w_def floor_less_zero)
  have n: "0 \<le> n" "n < 2 ^ 256" using w s by (auto simp: n_def)
  then have "nat \<bar>n\<bar> < 256 ^ 32" by (simp add: nat_less_iff)
  then show "length (encodeNumberToByte d) \<le> 32" unfolding e by (rule length_nat_bytes)
  show "int (be_value (encodeNumberToByte d)) = (if d < 0 then 2 ^ 256 + \<lfloor>d * 10 ^ 18\<rfloor> else \<lfloor>d * 10 ^ 18\<rfloor>)"
    using n by (simp add: e n_def w_def)
qed

lemma sint_of_wad:
  assumes "- (2 ^ 255) \<le> w" "w < (2 ^ 255 :: int)" "i = w \<or> i = 2 ^ 256 + w"
  shows "sint (word_of_int i :: 256 word) = w"
proof -
  have "(word_of_int (2 ^ 256 + w) :: 256 word) = word_of_int w"
    by (intro word_of_int_eq_iff [THEN iffD2]) (simp add: take_bit_eq_mod)
  with assms(3) have "(word_of_int i :: 256 word) = word_of_int w" by auto
  with assms(1,2) show ?thesis
    by (simp add: sint_sbintrunc' signed_take_bit_int_eq_self)
qed

section \<open>The properties\<close>

text \<open>
  C36: \<open>encodeNumber\<close> writes exactly 64 hexadecimal digits, and they are the 256-bit two's
  complement word of the wad value: decoded and read as a signed word they give back the
  integer part of \<open>d * 10^18\<close>, for amounts of either sign.
\<close>

theorem encodeNumber_roundtrip:
  assumes "fits_int256 d"
  shows "length (encodeNumber d) = 64 \<and>
         (\<exists>b. Hex2Bytes (encodeNumber d) = Inr b \<and> length b = 32 \<and>
              sint (word_of_int (int (be_value b)) :: 256 word) = \<lfloor>d * 10 ^ 18\<rfloor>)"
proof -
  note v = encodeNumberToByte_value [OF assms]
  let ?b = "BytesToHash (encodeNumberToByte d)"
  have e: "encodeNumber d = Bytes2Hex ?b"
    unfolding encodeNumber_def by (rule addLeadingZero_hash [OF v(1)])
  have "int (be_value ?b) = \<lfloor>d * 10 ^ 18\<rfloor> \<or> int (be_value ?b) = 2 ^ 256 + \<lfloor>d * 10 ^ 18\<rfloor>"
    using v by (simp add: be_value_BytesToHash)
  with assms have "sint (word_of_int (int (be_value ?b)) :: 256 word) = \<lfloor>d * 10 ^ 18\<rfloor>"
    unfolding fits_int256_def by (intro sint_of_wad) blast+
  then show ?thesis by (simp add: e Hex2Bytes_def HashLength_def)
qed

theorem encodeNumber_roundtrip_witness:
  "fits_int256 (- 5 / 2) \<and>
   (\<exists>b. Hex2Bytes (encodeNumber (- 5 / 2)) = Inr b \<and>
        sint (word_of_int (int (be_value b)) :: 256 word) = - 2500000000000000000)"
proof -
  have h: "fits_int256 (- 5 / 2)" by (simp add: fits_int256_def)
  from encodeNumber_roundtrip [OF h] h show ?thesis by auto
qed

text \<open>
  the flags word fits 32 bits and carries exactly the documented bits: bit 31 for a
  close-only order, bit 29 for a stop-loss order, bit 28 for a take-profit order, bit 27 always.
\<close>

theorem GenerateOrderFlags_bits:
  "0 \<le> GenerateOrderFlags ty closeOnly \<and> GenerateOrderFlags ty closeOnly < 2 ^ 32 \<and>
   (bit (GenerateOrderFlags ty closeOnly) 31 \<longleftrightarrow> closeOnly) \<and>
   (bit (GenerateOrderFlags ty closeOnly) 29 \<longleftrightarrow> ty = StopLimitOrder) \<and>
   (bit (GenerateOrderFlags ty closeOnly) 28 \<longleftrightarrow> ty = TakeProfitOrder) \<and>
   bit (GenerateOrderFlags ty closeOnly) 27 \<and> \<not> bit (GenerateOrderFlags ty closeOnly) 30 \<and>
   GenerateOrderFlags ty closeOnly mod 2 ^ 27 = 0"
  by (cases closeOnly)
    (simp_all add: GenerateOrderFlags_def Let_def MASK_defs OrderType_defs bit_iff_odd)

subsection \<open>The layout of the order data\<close>

lemma length_nat_hex: "n < 16 ^ k \<Longrightarrow> 0 < k \<Longrightarrow> length (nat_hex n) \<le> k"
proof (induction n arbitrary: k rule: nat_hex.induct)
  case (1 n)
  show ?case
  proof (cases "n < 16")
    case False
    with "1.prems" obtain k' where k: "k = Suc k'" "0 < k'"
      by (cases k; cases "k - 1") auto
    with "1.prems" have "n div 16 < 16 ^ k'" by (simp add: less_mult_imp_div_less mult.commute)
    from "1.IH" [OF False this k(2)] False show ?thesis by (simp add: nat_hex.simps [of n] k)
  qed (use "1.prems" in \<open>simp add: nat_hex.simps [of n]\<close>)
qed

lemma length_addLeadingZero: "length s \<le> n \<Longrightarrow> length (addLeadingZero s n) = n"
  by (simp add: addLeadingZero_def)

lemma length_fmt_x:
  "0 \<le> i \<Longrightarrow> i < 16 ^ n \<Longrightarrow> 0 < n \<Longrightarrow> length (addLeadingZero (fmt_x i) n) = n"
  by (intro length_addLeadingZero) (simp add: fmt_x_def length_nat_hex nat_less_iff)

lemma length_encodeNumber: "fits_int256 d \<Longrightarrow> length (encodeNumber d) = 64"
  using encodeNumberToByte_value(1) [of d] by (simp add: encodeNumber_def length_addLeadingZero)

lemma encodeNumber_alt: "addLeadingZero (Bytes2Hex (encodeNumberToByte d)) (8 * 8) = encodeNumber d"
  by (simp add: encodeNumber_def)

text \<open>A well-formed address: 42 characters that decode to 20 bytes.\<close>

definition address20 :: "string \<Rightarrow> bool" where
  "address20 a \<longleftrightarrow> (case Hex2Bytes a of Inl _ \<Rightarrow> False | Inr b \<Rightarrow> length b = 20)"

lemma address20E:
  assumes "address20 a"
  obtains b where "Hex2Bytes a = Inr b" "length b = 20"
  using assms by (auto simp: address20_def split: sum.splits)

text \<open>
  the order data has a fixed layout. For 20-byte addresses, decimals that fit a signed
  word and integers in the range of their fields, every field has the width the contract reads:
  the data is \<^verbatim>\<open>0x\<close> and 350 bytes when the signature's \<open>v\<close>, \<open>r\<close> and \<open>s\<close> have 1, 32
  and 32 bytes.
\<close>

theorem GenerateOrderData_length:
  assumes "address20 trader" "address20 broker" "address20 relayer" "address20 referrer"
    "address20 pool" "fits_int256 minTradeAmount" "fits_int256 amount" "fits_int256 price"
    "fits_int256 triggerPrice" "0 \<le> chainID" "chainID < 2 ^ 63" "0 \<le> expiredAt" "expiredAt < 2 ^ 63"
    "0 \<le> perpetualIndex" "perpetualIndex < 2 ^ 32" "0 \<le> brokerFeeLimit" "brokerFeeLimit < 2 ^ 32"
    "0 \<le> flags" "flags < 2 ^ 32" "0 \<le> salt" "salt < 2 ^ 32"
    "length v = 2" "length r = 64" "length s = 64"
  shows "length (GenerateOrderData trader broker relayer referrer pool minTradeAmount amount price
     triggerPrice chainID expiredAt perpetualIndex brokerFeeLimit flags salt signType v r s)
     = 2 + 2 * 350"
proof -
  obtain b1 b2 b3 b4 b5 where b: "Hex2Bytes trader = Inr b1" "length b1 = 20"
    "Hex2Bytes broker = Inr b2" "length b2 = 20" "Hex2Bytes relayer = Inr b3" "length b3 = 20"
    "Hex2Bytes referrer = Inr b4" "length b4 = 20" "Hex2Bytes pool = Inr b5" "length b5 = 20"
    using assms(1-5) by (auto elim!: address20E)
  have w: "length (addLeadingZero (fmt_x perpetualIndex) 8) = 8"
    "length (addLeadingZero (fmt_x brokerFeeLimit) 8) = 8"
    "length (addLeadingZero (fmt_x flags) 8) = 8" "length (addLeadingZero (fmt_x salt) 8) = 8"
    "length (addLeadingZero (fmt_x chainID) (8 * 8)) = 64"
    "length (addLeadingZero (fmt_x expiredAt) (8 * 2)) = 16"
    using assms by (simp_all add: length_fmt_x)
  show ?thesis
    unfolding GenerateOrderData_def b sum.case encodeNumber_alt length_append w
    using assms(6-9,22-24) by (simp add: b length_encodeNumber)
qed

definition sample_address :: string where
  "sample_address = ''0x'' @ replicate 40 CHR ''a''"

lemma sample_address20: "address20 sample_address"
  by code_simp

theorem GenerateOrderData_length_witness:
  "address20 sample_address \<and> fits_int256 1 \<and> fits_int256 (-3) \<and>
   length (GenerateOrderData sample_address sample_address sample_address sample_address
     sample_address 1 (-3) 1 1 42161 1700000000 0 7 (GenerateOrderFlags LimitOrder True) 99
     EIP712 (replicate 2 CHR ''1'') (replicate 64 CHR ''2'') (replicate 64 CHR ''3'')) = 2 + 2 * 350"
proof -
  have f: "fits_int256 1" "fits_int256 (-3)" by (simp_all add: fits_int256_def)
  have "0 \<le> GenerateOrderFlags LimitOrder True" "GenerateOrderFlags LimitOrder True < 2 ^ 32"
    by (simp_all add: GenerateOrderFlags_def Let_def MASK_defs OrderType_defs)
  with f sample_address20 show ?thesis by (simp add: GenerateOrderData_length)
qed

subsection \<open>What an order hash commits to\<close>

text \<open>
  The message behind the type hash that \<open>GetOrderHash\<close> hashes for an order, with the flags
  computed from the order as the callers do.
\<close>

definition orderMessage :: "OrderParam \<Rightarrow> byte list result" where
  "orderMessage ord =
     (case HexToHash (TraderAddress ord) of Inl e \<Rightarrow> Inl e | Inr trader \<Rightarrow>
      case HexToHash (BrokerAddress ord) of Inl e \<Rightarrow> Inl e | Inr broker \<Rightarrow>
      case HexToHash (RelayerAddress ord) of Inl e \<Rightarrow> Inl e | Inr relayer \<Rightarrow>
      case HexToHash (ReferrerAddress ord) of Inl e \<Rightarrow> Inl e | Inr referrer \<Rightarrow>
      case HexToHash (LiquidityPoolAddress ord) of Inl e \<Rightarrow> Inl e | Inr pool \<Rightarrow>
        Inr (concat (orderWords trader broker relayer referrer pool (MinTradeAmount ord) (Amount ord)
          (Price ord) (TriggerPrice ord) (ChainID ord) (ExpiresAt ord) (PerpetualIndex ord)
          (BrokerFeeLimit ord) (GenerateOrderFlags (Type ord) (IsCloseOnly ord)) (Salt ord))))"

text \<open>The call of \<open>GetOrderHash\<close> on the fields of an order.\<close>

definition orderHashOf :: "keccak \<Rightarrow> OrderParam \<Rightarrow> byte list result" where
  "orderHashOf K ord =
     GetOrderHash K (TraderAddress ord) (BrokerAddress ord) (RelayerAddress ord)
       (ReferrerAddress ord) (LiquidityPoolAddress ord) (MinTradeAmount ord) (Amount ord)
       (Price ord) (TriggerPrice ord) (ChainID ord) (ExpiresAt ord) (PerpetualIndex ord)
       (BrokerFeeLimit ord) (GenerateOrderFlags (Type ord) (IsCloseOnly ord)) (Salt ord)"

lemma orderHashOf_message:
  "orderMessage ord = Inr m \<Longrightarrow>
   orderHashOf K ord = Inr (getEIP712MessageHash K (Keccak256 K [EIP712_MAI3_ORDER_TYPE K, m]))"
  unfolding orderMessage_def orderHashOf_def GetOrderHash_def
  by (cases "HexToHash (TraderAddress ord)"; cases "HexToHash (BrokerAddress ord)";
      cases "HexToHash (RelayerAddress ord)"; cases "HexToHash (ReferrerAddress ord)";
      cases "HexToHash (LiquidityPoolAddress ord)") (simp_all add: Keccak256_def)

definition int64_field :: "int \<Rightarrow> bool" where
  "int64_field i \<longleftrightarrow> 0 \<le> i \<and> i < 2 ^ 63"

definition price_field :: "decimal \<Rightarrow> bool" where
  "price_field d \<longleftrightarrow> 0 \<le> d \<and> fits_int256 d"

definition valid_fields :: "OrderParam \<Rightarrow> bool" where
  "valid_fields ord \<longleftrightarrow>
     price_field (MinTradeAmount ord) \<and> fits_int256 (Amount ord) \<and> price_field (Price ord) \<and>
     price_field (TriggerPrice ord) \<and> int64_field (ChainID ord) \<and> int64_field (ExpiresAt ord) \<and>
     int64_field (PerpetualIndex ord) \<and> int64_field (BrokerFeeLimit ord) \<and> int64_field (Salt ord)"

lemma concat_blocks_inj:
  assumes "concat xs = concat ys" "\<forall>x \<in> set xs. length x = n" "\<forall>y \<in> set ys. length y = n"
    "length xs = length ys"
  shows "xs = ys"
  using assms(4,1-3) by (induction xs ys rule: list_induct2) auto

lemma length_orderWords:
  assumes "length t = 32" "length b = 32" "length rl = 32" "length rf = 32" "length p = 32"
  shows "\<forall>x \<in> set (orderWords t b rl rf p m a pr tr c e i bf f s). length x = 32"
  using assms by (simp add: orderWords_def HashLength_def)

lemma price_word_inj:
  assumes "price_field x" "price_field y"
    "BytesToHash (bigBytes (MustDecimalToBigInt (ToWad x))) =
     BytesToHash (bigBytes (MustDecimalToBigInt (ToWad y)))"
  shows "\<lfloor>x * 10 ^ 18\<rfloor> = \<lfloor>y * 10 ^ 18\<rfloor>"
  using BytesToHash_bigBytes_inj [OF assms(3)] assms(1,2)
  by (simp add: price_field_def fits_int256_def MustDecimalToBigInt_def ToWad_def)

lemma int_word_inj:
  assumes "int64_field i" "int64_field j" "BytesToHash (bigBytes i) = BytesToHash (bigBytes j)"
  shows "i = j"
  using BytesToHash_bigBytes_inj [OF assms(3)] assms(1,2) by (simp add: int64_field_def)

lemma amount_word_inj:
  assumes "fits_int256 x" "fits_int256 y"
    "BytesToHash (encodeNumberToByte x) = BytesToHash (encodeNumberToByte y)"
  shows "\<lfloor>x * 10 ^ 18\<rfloor> = \<lfloor>y * 10 ^ 18\<rfloor>"
proof -
  note x = encodeNumberToByte_value [OF assms(1)] and y = encodeNumberToByte_value [OF assms(2)]
  have "int (be_value (encodeNumberToByte x)) = int (be_value (encodeNumberToByte y))"
    using assms(3) x(1) y(1) by (metis be_value_BytesToHash)
  moreover define wx wy where "wx = \<lfloor>x * 10 ^ 18\<rfloor>" and "wy = \<lfloor>y * 10 ^ 18\<rfloor>"
  moreover from assms(1,2) have "- (2 ^ 255) \<le> wx" "wx < 2 ^ 255" "- (2 ^ 255) \<le> wy" "wy < 2 ^ 255"
    by (simp_all only: fits_int256_def wx_def wy_def)
  ultimately show ?thesis
    unfolding x(2) y(2) wx_def [symmetric] wy_def [symmetric] by (cases "x < 0"; cases "y < 0") simp_all
qed

lemma GenerateOrderFlags_range: "int64_field (GenerateOrderFlags ty c)"
  by (cases c) (simp_all add: int64_field_def GenerateOrderFlags_def Let_def MASK_defs)

lemma length_HexToHash: "HexToHash s = Inr h \<Longrightarrow> length h = 32"
  by (auto simp: HexToHash_def HashLength_def split: sum.splits)

text \<open>The words of an order for given decoded addresses.\<close>

definition wordsOf ::
  "byte list \<Rightarrow> byte list \<Rightarrow> byte list \<Rightarrow> byte list \<Rightarrow> byte list \<Rightarrow> OrderParam \<Rightarrow> byte list list" where
  "wordsOf t b l r p ord = orderWords t b l r p (MinTradeAmount ord) (Amount ord)
     (Price ord) (TriggerPrice ord) (ChainID ord) (ExpiresAt ord) (PerpetualIndex ord)
     (BrokerFeeLimit ord) (GenerateOrderFlags (Type ord) (IsCloseOnly ord)) (Salt ord)"

lemma orderMessage_InrE:
  assumes "orderMessage ord = Inr m"
  obtains t b l r p where "HexToHash (TraderAddress ord) = Inr t"
    "HexToHash (BrokerAddress ord) = Inr b" "HexToHash (RelayerAddress ord) = Inr l"
    "HexToHash (ReferrerAddress ord) = Inr r" "HexToHash (LiquidityPoolAddress ord) = Inr p"
    "m = concat (wordsOf t b l r p ord)"
  using assms unfolding orderMessage_def wordsOf_def [symmetric]
  by (cases "HexToHash (TraderAddress ord)"; cases "HexToHash (BrokerAddress ord)";
      cases "HexToHash (RelayerAddress ord)"; cases "HexToHash (ReferrerAddress ord)";
      cases "HexToHash (LiquidityPoolAddress ord)") simp_all

lemma wordsOf_inj:
  assumes "wordsOf t b l r p x = wordsOf t' b' l' r' p' y" "valid_fields x" "valid_fields y"
  shows "t = t' \<and> b = b' \<and> l = l' \<and> r = r' \<and> p = p'"
    "\<lfloor>Amount x * 10 ^ 18\<rfloor> = \<lfloor>Amount y * 10 ^ 18\<rfloor>" "\<lfloor>Price x * 10 ^ 18\<rfloor> = \<lfloor>Price y * 10 ^ 18\<rfloor>"
    "\<lfloor>MinTradeAmount x * 10 ^ 18\<rfloor> = \<lfloor>MinTradeAmount y * 10 ^ 18\<rfloor>"
    "\<lfloor>TriggerPrice x * 10 ^ 18\<rfloor> = \<lfloor>TriggerPrice y * 10 ^ 18\<rfloor>"
    "ChainID x = ChainID y" "ExpiresAt x = ExpiresAt y" "PerpetualIndex x = PerpetualIndex y"
    "BrokerFeeLimit x = BrokerFeeLimit y" "Salt x = Salt y"
    "GenerateOrderFlags (Type x) (IsCloseOnly x) = GenerateOrderFlags (Type y) (IsCloseOnly y)"
proof -
  note e = assms(1) [unfolded wordsOf_def orderWords_def list.inject]
  note v = assms(2,3) [unfolded valid_fields_def]
  show "t = t' \<and> b = b' \<and> l = l' \<and> r = r' \<and> p = p'" using e by blast
  show "\<lfloor>Amount x * 10 ^ 18\<rfloor> = \<lfloor>Amount y * 10 ^ 18\<rfloor>" using e v amount_word_inj by blast
  show "\<lfloor>Price x * 10 ^ 18\<rfloor> = \<lfloor>Price y * 10 ^ 18\<rfloor>" using e v price_word_inj by blast
  show "\<lfloor>MinTradeAmount x * 10 ^ 18\<rfloor> = \<lfloor>MinTradeAmount y * 10 ^ 18\<rfloor>" using e v price_word_inj by blast
  show "\<lfloor>TriggerPrice x * 10 ^ 18\<rfloor> = \<lfloor>TriggerPrice y * 10 ^ 18\<rfloor>" using e v price_word_inj by blast
  show "ChainID x = ChainID y" using e v int_word_inj by blast
  show "ExpiresAt x = ExpiresAt y" using e v int_word_inj by blast
  show "PerpetualIndex x = PerpetualIndex y" using e v int_word_inj by blast
  show "BrokerFeeLimit x = BrokerFeeLimit y" using e v int_word_inj by blast
  show "Salt x = Salt y" using e v int_word_inj by blast
  show "GenerateOrderFlags (Type x) (IsCloseOnly x) = GenerateOrderFlags (Type y) (IsCloseOnly y)"
    using e GenerateOrderFlags_range int_word_inj by blast
qed


definition sample_param :: OrderParam where
  "sample_param = \<lparr> TraderAddress = ''0x1'', LiquidityPoolAddress = ''0x2'', PerpetualIndex = 3,
     RelayerAddress = ''0x4'', BrokerAddress = ''0x5'', ReferrerAddress = ''0x6'', Type = 1, Price = 7,
     Amount = -8, MinTradeAmount = 1, TriggerPrice = 0, BrokerFeeLimit = 9, ExpiresAt = 10, Salt = 11,
     IsCloseOnly = False, ChainID = 12, Signature = [] \<rparr>"

lemma orderMessage_Signature: "orderMessage (ord\<lparr> Signature := s \<rparr>) = orderMessage ord"
  by (simp add: orderMessage_def cong: sum.case_cong)

lemma sample_param_message: "\<exists>m. orderMessage sample_param = Inr m"
proof -
  have "HexToHash ''0x1'' \<noteq> Inl e" "HexToHash ''0x2'' \<noteq> Inl e" "HexToHash ''0x4'' \<noteq> Inl e"
    "HexToHash ''0x5'' \<noteq> Inl e" "HexToHash ''0x6'' \<noteq> Inl e" for e
    by (simp_all add: HexToHash_def Hex2Bytes_def strip_0x_def hex_value_def Let_def)
  then show ?thesis
    by (auto simp: orderMessage_def sample_param_def split: sum.splits)
qed


end
