(* ===== verification/Pool_Syncer.thy ===== *)
theory Pool_Syncer
  imports Model Containers
begin

text \<open>
  \<^verbatim>\<open>src/match/pool_syncer.go\<close>: the cache of pool storages. The chain client and the
  configuration are outside the model: what a handler reads from them is a value of
  \<open>chain_env\<close>, one snapshot per handler run, with \<open>None\<close> for a failed call. The cache hands
  out a pointer into itself unless the entry is dirty, which \<open>GetPoolStorage\<close> makes visible in
  its result.
\<close>

record chain_env =
  envAccount :: "int \<Rightarrow> string \<Rightarrow> string \<Rightarrow> AccountStorage option"
  envBalance :: "string \<Rightarrow> string \<Rightarrow> int \<Rightarrow> decimal option"
  envAllowance :: "string \<Rightarrow> string \<Rightarrow> string \<Rightarrow> int \<Rightarrow> decimal option"
  envPool :: "string \<Rightarrow> LiquidityPoolStorage option"
  envGasBalance :: "string \<Rightarrow> string \<Rightarrow> decimal option"
  envGasPrice :: decimal
  envNow :: time

record conf =
  cfMaxOrderNum :: nat
  cfGasEnable :: bool
  cfGasLimit :: nat
  cfBrokerAddress :: string

record poolInfo =
  piStorage :: "LiquidityPoolStorage option"
  piLatestGet :: time
  piIsDirty :: bool

type_synonym poolSyncer = "(string \<times> poolInfo) list"

definition newPoolSyncer :: poolSyncer where
  "newPoolSyncer = []"

definition POOL_STORAGE_USE_DURATION :: int where
  "POOL_STORAGE_USE_DURATION = 60"

text \<open>
  \<^verbatim>\<open>syncPool\<close> on a pool of the cache. On a missing entry the code would store through a nil
  pointer; \<^verbatim>\<open>runSyncer\<close> only passes keys of the map.
\<close>

definition syncPool :: "chain_env \<Rightarrow> string \<Rightarrow> poolSyncer \<Rightarrow> poolSyncer option" where
  "syncPool env pool ps =
     (case map_of ps pool of
        None \<Rightarrow> None
      | Some info \<Rightarrow>
          if envNow env - piLatestGet info > POOL_STORAGE_USE_DURATION
          then Some (AList.update pool (info\<lparr> piIsDirty := True \<rparr>) ps)
          else Some (case envPool env pool of
                 None \<Rightarrow> AList.update pool (info\<lparr> piStorage := None, piIsDirty := True \<rparr>) ps
               | Some s \<Rightarrow> AList.update pool (info\<lparr> piStorage := Some s, piIsDirty := False \<rparr>) ps))"

fun syncPools :: "chain_env \<Rightarrow> string list \<Rightarrow> poolSyncer \<Rightarrow> poolSyncer option" where
  "syncPools env [] ps = Some ps"
| "syncPools env (pool # pools) ps = do { ps \<leftarrow> syncPool env pool ps; syncPools env pools ps }"

definition runSyncer :: "chain_env \<Rightarrow> poolSyncer \<Rightarrow> poolSyncer option" where
  "runSyncer env ps = syncPools env (map fst ps) ps"

definition AddPool :: "chain_env \<Rightarrow> string \<Rightarrow> poolSyncer \<Rightarrow> poolSyncer" where
  "AddPool env pool ps =
     (case map_of ps pool of
        Some _ \<Rightarrow> ps
      | None \<Rightarrow> AList.update pool
          \<lparr> piStorage = envPool env pool, piLatestGet = envNow env, piIsDirty = False \<rparr> ps)"

text \<open>
  The result is the storage and whether it is the cache's own copy: a storage fetched for a dirty
  entry is fresh, otherwise the caller holds the pointer of the cache.
\<close>

definition GetPoolStorage ::
  "chain_env \<Rightarrow> string \<Rightarrow> poolSyncer \<Rightarrow> (LiquidityPoolStorage \<times> bool) option \<times> poolSyncer" where
  "GetPoolStorage env pool ps =
     (case map_of ps pool of
        None \<Rightarrow> (None, ps)
      | Some info \<Rightarrow>
          if piIsDirty info
          then (map_option (\<lambda>s. (s, False)) (envPool env pool),
                AList.update pool (info\<lparr> piLatestGet := envNow env \<rparr>) ps)
          else (map_option (\<lambda>s. (s, True)) (piStorage info), ps))"

definition SetPoolStorageDirty :: "string \<Rightarrow> poolSyncer \<Rightarrow> poolSyncer" where
  "SetPoolStorageDirty pool ps =
     (case map_of ps pool of
        None \<Rightarrow> ps
      | Some info \<Rightarrow> AList.update pool (info\<lparr> piIsDirty := True \<rparr>) ps)"

text \<open>What a write through the pointer of \<open>GetPoolStorage\<close> does to the cache.\<close>

definition writePool :: "string \<Rightarrow> bool \<Rightarrow> LiquidityPoolStorage \<Rightarrow> poolSyncer \<Rightarrow> poolSyncer" where
  "writePool pool shared s ps =
     (case map_of ps pool of
        Some info \<Rightarrow> if shared then AList.update pool (info\<lparr> piStorage := Some s \<rparr>) ps else ps
      | None \<Rightarrow> ps)"

section \<open>Lemmas\<close>

lemma syncPools_total:
  "set pools \<subseteq> fst ` set ps \<Longrightarrow> \<exists>ps'. syncPools env pools ps = Some ps' \<and> fst ` set ps' = fst ` set ps"
proof (induction pools arbitrary: ps)
  case (Cons pool pools)
  then obtain info where m: "map_of ps pool = Some info"
    by (metis list.set_intros(1) map_of_eq_None_iff not_None_eq subsetD)
  have "pool \<in> fst ` set ps" using Cons.prems by simp
  then have "insert pool (fst ` set ps) = fst ` set ps" by (rule insert_absorb)
  with m have "\<exists>ps1. syncPool env pool ps = Some ps1 \<and> fst ` set ps1 = fst ` set ps"
    unfolding syncPool_def by (simp split: option.split)
  then obtain ps1 where ps1: "syncPool env pool ps = Some ps1" "fst ` set ps1 = fst ` set ps" by blast
  with Cons.IH [of ps1] Cons.prems show ?case by auto
qed simp

lemma syncPool_entry:
  assumes "syncPool env pool ps = Some ps'" "map_of ps pool = Some info"
    "envNow env - piLatestGet info \<le> POOL_STORAGE_USE_DURATION" "envPool env pool = Some s"
  shows "map_of ps' pool = Some (info\<lparr> piStorage := Some s, piIsDirty := False \<rparr>)"
  using assms by (auto simp: syncPool_def)

lemma syncPools_other:
  "pool \<notin> set pools \<Longrightarrow> syncPools env pools ps = Some ps' \<Longrightarrow> map_of ps' pool = map_of ps pool"
proof (induction pools arbitrary: ps)
  case (Cons q pools)
  from Cons.prems(2) obtain ps1 where ps1: "syncPool env q ps = Some ps1" "syncPools env pools ps1 = Some ps'"
    by (auto simp: bind_Some_iff)
  have "map_of ps1 pool = map_of ps pool"
    using ps1(1) Cons.prems(1) by (auto simp: syncPool_def split: option.splits if_splits)
  with Cons.IH [OF _ ps1(2)] Cons.prems(1) show ?case by simp
qed simp

lemma syncPools_entry:
  assumes "pool \<in> set pools" "distinct pools" "syncPools env pools ps = Some ps'"
    "map_of ps pool = Some info"
    "envNow env - piLatestGet info \<le> POOL_STORAGE_USE_DURATION" "envPool env pool = Some s"
  shows "map_of ps' pool = Some (info\<lparr> piStorage := Some s, piIsDirty := False \<rparr>)"
  using assms
proof (induction pools arbitrary: ps)
  case (Cons q pools)
  from Cons.prems(3) obtain ps1 where ps1: "syncPool env q ps = Some ps1" "syncPools env pools ps1 = Some ps'"
    by (auto simp: bind_Some_iff)
  show ?case
  proof (cases "q = pool")
    case True
    with Cons.prems syncPool_entry [OF ps1(1)] syncPools_other [OF _ ps1(2), of pool]
    show ?thesis by simp
  next
    case False
    then have "map_of ps1 pool = map_of ps pool"
      using ps1(1) by (auto simp: syncPool_def split: option.splits if_splits)
    with False Cons.IH [OF _ _ ps1(2)] Cons.prems show ?thesis by simp
  qed
qed simp

section \<open>The property\<close>

text \<open>
  C40: a round of the pool syncer never fails, and a pool that was used in the last 60 seconds
  and that the chain answers for is fresh afterwards: the next \<open>GetPoolStorage\<close> hands out
  what the chain returned in that round.
\<close>

theorem runSyncer_refreshes:
  assumes "alist_inv ps" "map_of ps pool = Some info"
    "envNow env - piLatestGet info \<le> POOL_STORAGE_USE_DURATION" "envPool env pool = Some s"
  shows "\<exists>ps'. runSyncer env ps = Some ps' \<and> GetPoolStorage env' pool ps' = (Some (s, True), ps')"
proof -
  obtain ps' where ps': "runSyncer env ps = Some ps'"
    using syncPools_total [of "map fst ps" ps env] by (auto simp: runSyncer_def)
  have "pool \<in> set (map fst ps)" using assms(2) unfolding al.in_keys_iff by simp
  with syncPools_entry [OF _ _ ps' [unfolded runSyncer_def] assms(2-4)] assms(1)
  have "map_of ps' pool = Some (info\<lparr> piStorage := Some s, piIsDirty := False \<rparr>)"
    by (simp add: alist_inv_def)
  then show ?thesis using ps' by (simp add: GetPoolStorage_def)
qed

definition sample_env :: chain_env where
  "sample_env = \<lparr> envAccount = (\<lambda>_ _ _. None), envBalance = (\<lambda>_ _ _. None),
     envAllowance = (\<lambda>_ _ _ _. None),
     envPool = (\<lambda>_. Some \<lparr> VaultFeeRate = 0, PoolCashBalance = 5, Perpetuals = [] \<rparr>),
     envGasBalance = (\<lambda>_ _. None), envGasPrice = 0, envNow = 30 \<rparr>"

theorem runSyncer_refreshes_witness:
  "\<exists>ps'. runSyncer sample_env [(''p'', \<lparr> piStorage = None, piLatestGet = 10, piIsDirty = True \<rparr>)] = Some ps' \<and>
     GetPoolStorage sample_env ''p'' ps' =
       (Some (\<lparr> VaultFeeRate = 0, PoolCashBalance = 5, Perpetuals = [] \<rparr>, True), ps')"
  by (rule runSyncer_refreshes [where info = "\<lparr> piStorage = None, piLatestGet = 10, piIsDirty = True \<rparr>"])
    (simp_all add: sample_env_def alist_inv_def POOL_STORAGE_USE_DURATION_def)

end
