(* ===== verification/Match_Order.thy ===== *)
theory Match_Order
  imports Computation Orderbook Order_Codec Pool_Syncer "HOL-Library.Sublist"
begin

text \<open>
  \<^verbatim>\<open>src/match/order.go\<close>: the margin a trader's resting orders need (\<open>ComputeOrderAvailable\<close>),
  the close-only rule, and the matching of one perpetual's book against the AMM
  (\<open>MatchOrderSideBySide\<close>, \<open>matchOneSide\<close>, \<open>getMatchItem\<close>). Matching works on the pool
  storage it is given and returns it as the trades have changed it. \<open>None\<close> is a panic.
\<close>

section \<open>The margin of resting orders\<close>

record OrderCancelItem =
  ocLiquidityPoolAddress :: string
  ocPerpetualIndex :: int
  ocOrderHash :: string
  ocStatus :: OrderStatus
  ocToCancel :: decimal
  ocReason :: CancelReasonType

definition TradeAmountRelaxFactor :: decimal where
  "TradeAmountRelaxFactor = 99 / 100"

text \<open>
  \<^verbatim>\<open>sort.Slice\<close> leaves the order of equal prices open; a stable sort is one of its results.
\<close>

definition splitActiveOrders :: "Order list \<Rightarrow> Order list \<times> Order list" where
  "splitActiveOrders orders =
     (let checked = map (\<lambda>ord. ord\<lparr> CheckAmount := AvailableAmount ord + PendingAmount ord \<rparr>) orders;
          sells = filter (\<lambda>ord. CheckAmount ord < 0) checked;
          buys = filter (\<lambda>ord. 0 < CheckAmount ord) checked
      in (sort_key (\<lambda>ord. - Price ord) buys, sort_key Price sells))"

definition openOrderCost ::
  "decimal_lib \<Rightarrow> LiquidityPoolStorage \<Rightarrow> int \<Rightarrow> Order \<Rightarrow> decimal \<Rightarrow> (decimal \<times> decimal \<times> decimal) option" where
  "openOrderCost L pool perpetualIndex order leverage =
     (case map_of (Perpetuals pool) perpetualIndex of
        None \<Rightarrow> Some (0, 0, 0)
      | Some perp \<Rightarrow> do {
          let amount = CheckAmount order;
          let feeRate = VaultFeeRate pool + LpFeeRate perp + OperatorFeeRate perp;
          let potentialPNL = (MarkPrice perp - Price order) * amount;
          let potentialLoss = min 0 potentialPNL;
          let fee = Price order * \<bar>amount\<bar> * feeRate;
          margin \<leftarrow> (if amount < 0 \<and> Price order < MarkPrice perp
                     then DivD L (MarkPrice perp * \<bar>amount\<bar>) leverage
                     else DivD L (Price order * \<bar>amount\<bar>) leverage);
          let cost = margin + fee - potentialLoss;
          Some (cost, fee, potentialLoss)
        })"

record sideState =
  ssPosition :: decimal
  ssMargin :: decimal
  ssWallet :: decimal
  ssOrders :: "Order list"

text \<open>The body of the first loop of \<^verbatim>\<open>sideAvailable\<close>: the closing part of an order.\<close>

definition closeStep ::
  "decimal_lib \<Rightarrow> PerpetualStorage \<Rightarrow> decimal \<Rightarrow> sideState \<Rightarrow> Order \<Rightarrow> sideState option" where
  "closeStep L perpetual feeRate st order = do {
     let amount = CheckAmount order;
     let cls = fst (SplitAmount (ssPosition st) amount);
     if cls \<noteq> 0 then do {
       let newPosition = ssPosition st + cls;
       let newPositionMargin = MarkPrice perpetual * \<bar>newPosition\<bar> * InitialMarginRate perpetual;
       let newPositionMargin = (if newPosition \<noteq> 0 then newPositionMargin + KeeperGasReward perpetual
                                else newPositionMargin);
       let potentialPNL = (MarkPrice perpetual - Price order) * cls;
       let potentialLoss = min potentialPNL 0;
       let afterMargin = ssMargin st + potentialLoss;
       let fee = (if cls = amount
                  then min (max (afterMargin - newPositionMargin) 0) (Price order * \<bar>cls\<bar> * feeRate)
                  else Price order * \<bar>cls\<bar> * feeRate);
       let afterMargin = afterMargin - fee;
       if afterMargin < 0
       then Some (st\<lparr> ssPosition := 0, ssMargin := 0, ssOrders := ssOrders st @ [order] \<rparr>)
       else do {
         withdraw \<leftarrow>
           (if newPositionMargin \<le> afterMargin then do {
              q \<leftarrow> DivD L cls (ssPosition st);
              let w = (1 - \<bar>q\<bar>) * (ssMargin st - KeeperGasReward perpetual);
              let w = afterMargin - w;
              let w = (if newPosition \<noteq> 0 then w - KeeperGasReward perpetual else w);
              Some (max 0 w)
            }
            else Some 0);
         let newOrderAmount = amount - cls;
         Some (st\<lparr> ssMargin := afterMargin - withdraw, ssWallet := ssWallet st + withdraw,
                   ssPosition := ssPosition st + cls,
                   ssOrders := (if newOrderAmount \<noteq> 0
                                then ssOrders st @ [order\<lparr> CheckAmount := newOrderAmount \<rparr>]
                                else ssOrders st) \<rparr>)
       }
     }
     else Some (st\<lparr> ssOrders := ssOrders st @ [order] \<rparr>)
   }"

fun closeLoop ::
  "decimal_lib \<Rightarrow> PerpetualStorage \<Rightarrow> decimal \<Rightarrow> Order list \<Rightarrow> sideState \<Rightarrow> sideState option" where
  "closeLoop L perpetual feeRate [] st = Some st"
| "closeLoop L perpetual feeRate (ord # ords) st = do {
     st \<leftarrow> closeStep L perpetual feeRate st ord;
     closeLoop L perpetual feeRate ords st
   }"

text \<open>The second loop: the cost of opening what is left, and the orders the wallet cannot pay.\<close>

fun openLoop ::
  "decimal_lib \<Rightarrow> LiquidityPoolStorage \<Rightarrow> int \<Rightarrow> PerpetualStorage \<Rightarrow> decimal \<Rightarrow> Order list \<Rightarrow>
   decimal \<Rightarrow> decimal \<Rightarrow> decimal \<Rightarrow> OrderCancelItem list \<Rightarrow> (OrderCancelItem list \<times> decimal) option" where
  "openLoop L pool perpetualIndex perpetual leverage [] position margin wallet cancels =
     Some (cancels, wallet)"
| "openLoop L pool perpetualIndex perpetual leverage (order # orders) position margin wallet cancels = do {
     (cost, fee, potentialLoss) \<leftarrow> openOrderCost L pool perpetualIndex order leverage;
     let cost = (if position = 0 then cost + KeeperGasReward perpetual else cost);
     let position = position + CheckAmount order;
     let margin = margin + potentialLoss - fee;
     let im = MarkPrice perpetual * \<bar>position\<bar> * InitialMarginRate perpetual + KeeperGasReward perpetual;
     let cost = max (im - margin) cost;
     let margin = margin + cost;
     let wallet = wallet - cost;
     let cancels = (if wallet < 0
                    then cancels @ [\<lparr> ocLiquidityPoolAddress = LiquidityPoolAddress order,
                           ocPerpetualIndex = PerpetualIndex order, ocOrderHash = OrderHash order,
                           ocStatus = Status order, ocToCancel = AvailableAmount order,
                           ocReason = CancelReasonInsufficientFunds \<rparr>]
                    else cancels);
     openLoop L pool perpetualIndex perpetual leverage orders position margin wallet cancels
   }"

definition sideAvailable ::
  "decimal_lib \<Rightarrow> LiquidityPoolStorage \<Rightarrow> int \<Rightarrow> decimal \<Rightarrow> decimal \<Rightarrow> decimal \<Rightarrow> decimal \<Rightarrow> Order list \<Rightarrow>
   (OrderCancelItem list \<times> decimal) option" where
  "sideAvailable L pool perpetualIndex marginBalance position targetLeverage walletBalance orders =
     (if orders = [] then Some ([], walletBalance)
      else case map_of (Perpetuals pool) perpetualIndex of
        None \<Rightarrow> Some ([], walletBalance)
      | Some perpetual \<Rightarrow> do {
          let feeRate = VaultFeeRate pool + LpFeeRate perpetual + OperatorFeeRate perpetual;
          st \<leftarrow> closeLoop L perpetual feeRate orders
                 \<lparr> ssPosition = position, ssMargin = marginBalance, ssWallet = walletBalance, ssOrders = [] \<rparr>;
          let st = (if ssPosition st = 0
                    then st\<lparr> ssWallet := ssWallet st + ssMargin st, ssMargin := 0 \<rparr> else st);
          openLoop L pool perpetualIndex perpetual targetLeverage (ssOrders st)
            (ssPosition st) (ssMargin st) (ssWallet st) []
        })"

definition ComputeOrderAvailable ::
  "decimal_lib \<Rightarrow> LiquidityPoolStorage \<Rightarrow> int \<Rightarrow> AccountStorage \<Rightarrow> Order list \<Rightarrow>
   (OrderCancelItem list \<times> decimal) option" where
  "ComputeOrderAvailable L poolStorage perpetualIndex account orders = do {
     let (buyOrders, sellOrders) = splitActiveOrders orders;
     r \<leftarrow> ComputeAccount L poolStorage perpetualIndex account;
     (case r of
        Inl _ \<Rightarrow> Some ([], 0)
      | Inr computedAccount \<Rightarrow> do {
          (buyCancels, buySideAvailable) \<leftarrow> sideAvailable L poolStorage perpetualIndex
             (MarginBalance computedAccount) (PositionAmount account) (TargetLeverage account)
             (WalletBalance account) buyOrders;
          (sellCancels, sellSideAvailable) \<leftarrow> sideAvailable L poolStorage perpetualIndex
             (MarginBalance computedAccount) (PositionAmount account) (TargetLeverage account)
             (WalletBalance account) sellOrders;
          Some (buyCancels @ sellCancels, min buySideAvailable sellSideAvailable)
        })
   }"

definition CheckCloseOnly :: "AccountStorage \<Rightarrow> Order \<Rightarrow> decimal" where
  "CheckCloseOnly account order =
     (if IsCloseOnly order then
        if PositionAmount account = 0 then AvailableAmount order
        else if HasTheSameSign (PositionAmount account) (Amount order) then AvailableAmount order
        else if \<bar>PositionAmount account\<bar> < \<bar>AvailableAmount order\<bar>
          then AvailableAmount order + PositionAmount account
        else 0
      else 0)"

section \<open>Matching against the AMM\<close>

record MatchItem =
  mitOrder :: MemoryOrder
  mitOrderCancelAmounts :: "decimal list"
  mitOrderCancelReasons :: "CancelReasonType list"
  mitOrderTotalCancel :: decimal
  mitMatchedAmount :: decimal

text \<open>
  The final check of \<^verbatim>\<open>getMatchItem\<close>: a rest below the minimal trade amount is cancelled.
\<close>

definition remainCheck :: "MemoryOrder \<Rightarrow> MatchItem \<Rightarrow> MatchItem" where
  "remainCheck order matchItem =
     (let remain = moAmount order - mitMatchedAmount matchItem in
      if remain \<noteq> 0 \<and> \<bar>remain\<bar> < \<bar>moMinTradeAmount order\<bar>
      then matchItem\<lparr> mitOrderCancelAmounts := mitOrderCancelAmounts matchItem @ [remain],
                      mitOrderCancelReasons := mitOrderCancelReasons matchItem @ [CancelReasonRemainTooSmall],
                      mitOrderTotalCancel := remain \<rparr>
      else matchItem)"

definition tradeFailed :: "(AccountComputed \<times> bool \<times> decimal) result \<Rightarrow> bool" where
  "tradeFailed r = (case r of Inl _ \<Rightarrow> True | Inr (_, tradeIsSafe, _) \<Rightarrow> \<not> tradeIsSafe)"

definition getMatchItem ::
  "decimal_lib \<Rightarrow> int \<Rightarrow> decimal \<Rightarrow> MemoryOrder \<Rightarrow> bool \<Rightarrow> AccountStorage \<Rightarrow> LiquidityPoolStorage \<Rightarrow>
   (LiquidityPoolStorage \<times> MatchItem result) option" where
  "getMatchItem L perpetualIndex matchedAmount order isBuy account poolStorage = do {
     let matchItem = \<lparr> mitOrder = order, mitOrderCancelAmounts = [], mitOrderCancelReasons = [],
                       mitOrderTotalCancel = 0, mitMatchedAmount = matchedAmount \<rparr>;
     (poolStorage, account, r) \<leftarrow> ComputeAMMTrade L poolStorage perpetualIndex account matchedAmount;
     if tradeFailed r then do {
       amount \<leftarrow> ComputeAMMMaxTradeAmount L poolStorage perpetualIndex account matchedAmount isBuy;
       if amount = 0 \<or> \<bar>amount\<bar> < moMinTradeAmount order
       then Some (poolStorage, Inl ''trade amount is zero'')
       else do {
         (poolStorage, account, r) \<leftarrow> ComputeAMMTrade L poolStorage perpetualIndex account amount;
         if tradeFailed r then Some (poolStorage, Inl ''trader if unsafe after trade'')
         else Some (poolStorage, Inr (remainCheck order (matchItem\<lparr> mitMatchedAmount := amount \<rparr>)))
       }
     }
     else Some (poolStorage, Inr (remainCheck order matchItem))
   }"

text \<open>Whether the trigger of a stop-limit or take-profit order lets it trade at this index price.\<close>

definition triggered :: "decimal \<Rightarrow> MemoryOrder \<Rightarrow> bool" where
  "triggered indexPrice order =
     (if moType order = StopLimitOrder \<or> moType order = TakeProfitOrder then
        if indexPrice = 0 then False
        else if moType order = StopLimitOrder then
          \<not> (0 < moAmount order \<and> indexPrice < moTriggerPrice order) \<and>
          \<not> (moAmount order < 0 \<and> moTriggerPrice order < indexPrice)
        else
          \<not> (0 < moAmount order \<and> moTriggerPrice order < indexPrice) \<and>
          \<not> (moAmount order < 0 \<and> indexPrice < moTriggerPrice order)
      else True)"

text \<open>
  The account of a trader as the matcher reads it: the stored account with the smaller of balance
  and allowance as its wallet.
\<close>

definition traderAccount :: "chain_env \<Rightarrow> Perpetual \<Rightarrow> string \<Rightarrow> AccountStorage option" where
  "traderAccount env perp trader = do {
     account \<leftarrow> envAccount env (ppPerpetualIndex perp) (ppLiquidityPoolAddress perp) trader;
     balance \<leftarrow> envBalance env (ppCollateralAddress perp) trader (ppCollateralDecimals perp);
     allowance \<leftarrow> envAllowance env (ppCollateralAddress perp) trader (ppLiquidityPoolAddress perp)
                    (ppCollateralDecimals perp);
     Some (account\<lparr> WalletBalance := min balance allowance \<rparr>)
   }"

fun matchLoop ::
  "decimal_lib \<Rightarrow> chain_env \<Rightarrow> Perpetual \<Rightarrow> decimal \<Rightarrow> bool \<Rightarrow> nat \<Rightarrow> MemoryOrder list \<Rightarrow>
   LiquidityPoolStorage \<Rightarrow> MatchItem list \<Rightarrow> decimal \<Rightarrow>
   (LiquidityPoolStorage \<times> MatchItem list \<times> bool) option" where
  "matchLoop L env perp indexPrice isBuy maxGroup [] pool res maxTradeAmount = Some (pool, res, True)"
| "matchLoop L env perp indexPrice isBuy maxGroup (order # orders) pool res maxTradeAmount =
     (if length res = maxGroup then Some (pool, res, False)
      else if \<bar>maxTradeAmount\<bar> < \<bar>moMinTradeAmount order\<bar>
        then matchLoop L env perp indexPrice isBuy maxGroup orders pool res maxTradeAmount
      else if \<not> triggered indexPrice order
        then matchLoop L env perp indexPrice isBuy maxGroup orders pool res maxTradeAmount
      else case traderAccount env perp (moTrader order) of
        None \<Rightarrow> Some (pool, res, False)
      | Some account \<Rightarrow>
          if \<bar>moAmount order\<bar> \<le> \<bar>maxTradeAmount\<bar> then do {
            (pool, r) \<leftarrow> getMatchItem L (ppPerpetualIndex perp) (moAmount order) order isBuy account pool;
            (case r of
               Inl _ \<Rightarrow> matchLoop L env perp indexPrice isBuy maxGroup orders pool res maxTradeAmount
             | Inr item \<Rightarrow> matchLoop L env perp indexPrice isBuy maxGroup orders pool (res @ [item])
                              (maxTradeAmount - moAmount order))
          }
          else do {
            let matchedAmount = round18 L (maxTradeAmount * TradeAmountRelaxFactor);
            (pool, r) \<leftarrow> getMatchItem L (ppPerpetualIndex perp) matchedAmount order isBuy account pool;
            (case r of
               Inl _ \<Rightarrow> matchLoop L env perp indexPrice isBuy maxGroup orders pool res maxTradeAmount
             | Inr item \<Rightarrow> Some (pool, res @ [item], True))
          })"

definition matchOneSide ::
  "decimal_lib \<Rightarrow> chain_env \<Rightarrow> Perpetual \<Rightarrow> Orderbook \<Rightarrow> nat \<Rightarrow> LiquidityPoolStorage \<Rightarrow> decimal \<Rightarrow> bool \<Rightarrow>
   MatchItem list \<Rightarrow> (LiquidityPoolStorage \<times> MatchItem list \<times> bool) option" where
  "matchOneSide L env perp book maxGroup poolStorage tradePrice isBuy res =
     (let orders = (if isBuy then GetBidOrdersByPrice book tradePrice
                    else GetAskOrdersByPrice book tradePrice) in
      case orders of
        [] \<Rightarrow> Some (poolStorage, res, True)
      | first # _ \<Rightarrow>
          (case map_of (Perpetuals poolStorage) (ppPerpetualIndex perp) of
             None \<Rightarrow> Some (poolStorage, res, False)
           | Some perpetual \<Rightarrow>
               if \<not> IsNormal perpetual then Some (poolStorage, res, False)
               else do {
                 maxTradeAmount \<leftarrow> ComputeAMMAmountWithPrice L poolStorage (ppPerpetualIndex perp)
                                    isBuy tradePrice;
                 if maxTradeAmount = 0 \<or> \<not> HasTheSameSign maxTradeAmount (moAmount first)
                 then Some (poolStorage, res, False)
                 else matchLoop L env perp (IndexPrice perpetual) isBuy maxGroup orders
                        poolStorage res maxTradeAmount
               }))"

text \<open>
  The loop of \<^verbatim>\<open>MatchOrderSideBySide\<close>: one bid level and one ask level per round, until
  neither side says to go on. The lists are the levels from \<^verbatim>\<open>bidIdx\<close> and \<^verbatim>\<open>askIdx\<close> on.
\<close>

function sideBySide ::
  "(LiquidityPoolStorage \<Rightarrow> decimal \<Rightarrow> bool \<Rightarrow> MatchItem list \<Rightarrow>
     (LiquidityPoolStorage \<times> MatchItem list \<times> bool) option) \<Rightarrow>
   decimal list \<Rightarrow> decimal list \<Rightarrow> LiquidityPoolStorage \<Rightarrow> MatchItem list \<Rightarrow>
   (LiquidityPoolStorage \<times> MatchItem list) option" where
  "sideBySide step bids asks pool res = do {
     (pool1, res1, bidContinue) \<leftarrow>
       (case bids of [] \<Rightarrow> Some (pool, res, False) | price # _ \<Rightarrow> step pool price True res);
     (pool2, res2, askContinue) \<leftarrow>
       (case asks of [] \<Rightarrow> Some (pool1, res1, False) | price # _ \<Rightarrow> step pool1 price False res1);
     if \<not> bidContinue \<and> \<not> askContinue then Some (pool2, res2)
     else sideBySide step (tl bids) (tl asks) pool2 res2
   }"
  by pat_completeness auto
termination
  by (relation "measure (\<lambda>(step, bids, asks, pool, res). length bids + length asks)")
    (auto split: list.splits)

declare sideBySide.simps [simp del]

definition MatchOrderSideBySide ::
  "decimal_lib \<Rightarrow> chain_env \<Rightarrow> conf \<Rightarrow> Perpetual \<Rightarrow> Orderbook \<Rightarrow> poolSyncer \<Rightarrow>
   (MatchItem list \<times> poolSyncer) option" where
  "MatchOrderSideBySide L env cf perp book ps =
     (let bids = GetBidPricesDesc book; asks = GetAskPricesAsc book in
      if bids = [] \<and> asks = [] then Some ([], ps)
      else
        (case GetPoolStorage env (ppLiquidityPoolAddress perp) ps of
           (None, ps) \<Rightarrow> Some ([], ps)
         | (Some (poolStorage, shared), ps) \<Rightarrow> do {
             let orderGasLimit = GetGasFeeLimit (length (Perpetuals poolStorage)) False;
             let maxGroup = cfGasLimit cf div nat orderGasLimit;
             (poolStorage, res) \<leftarrow> sideBySide (\<lambda>pool price isBuy res.
                 matchOneSide L env perp book maxGroup pool price isBuy res) bids asks poolStorage [];
             Some (res, writePool (ppLiquidityPoolAddress perp) shared poolStorage ps)
           }))"

section \<open>Lemmas\<close>

subsection \<open>What a trade leaves of the pool\<close>

text \<open>The perpetuals of a pool agree on their index prices and on being normal.\<close>

definition same_prices :: "LiquidityPoolStorage \<Rightarrow> LiquidityPoolStorage \<Rightarrow> bool" where
  "same_prices p q \<longleftrightarrow>
     (\<forall>i. map_option (\<lambda>perp. (IndexPrice perp, IsNormal perp)) (map_of (Perpetuals p) i) =
          map_option (\<lambda>perp. (IndexPrice perp, IsNormal perp)) (map_of (Perpetuals q) i))"

lemma same_prices_refl [simp, intro]: "same_prices p p"
  by (simp add: same_prices_def)

lemma same_prices_trans: "same_prices p q \<Longrightarrow> same_prices q r \<Longrightarrow> same_prices p r"
  by (simp add: same_prices_def)

lemma ComputeAMMTrade_same_prices:
  assumes "ComputeAMMTrade L p i a amount = Some (p', a', r)"
  shows "same_prices p p'"
proof (cases "map_of (Perpetuals p) i")
  case None
  with assms show ?thesis by (auto simp: ComputeAMMTrade_def split: if_splits)
next
  case (Some perp)
  from assms Some show ?thesis
    by (cases rule: ComputeAMMTrade_cases)
      (auto simp: same_prices_def poolMoved_perpetual [OF Some] Some)
qed

lemma getMatchItem_same_prices:
  assumes "getMatchItem L i amount ord isBuy a p = Some (p', r)"
  shows "same_prices p p'"
  using assms
  by (auto simp: getMatchItem_def Let_def bind_Some_iff split: if_splits
      dest!: ComputeAMMTrade_same_prices intro: same_prices_trans)

subsection \<open>Match items\<close>

text \<open>
  What every match item satisfies: it trades something, its cancel bookkeeping adds up, a
  cancellation takes all that the match leaves, and what stays in the book is nothing or at least
  the minimal trade amount.
\<close>

definition item_ok :: "MatchItem \<Rightarrow> bool" where
  "item_ok item \<longleftrightarrow>
     mitMatchedAmount item \<noteq> 0 \<and>
     length (mitOrderCancelReasons item) = length (mitOrderCancelAmounts item) \<and>
     sum_list (mitOrderCancelAmounts item) = mitOrderTotalCancel item \<and>
     (mitOrderTotalCancel item = 0 \<or> mitMatchedAmount item + mitOrderTotalCancel item = moAmount (mitOrder item)) \<and>
     (let rest = moAmount (mitOrder item) - mitMatchedAmount item - mitOrderTotalCancel item
      in rest = 0 \<or> \<bar>moMinTradeAmount (mitOrder item)\<bar> \<le> \<bar>rest\<bar>)"

lemma remainCheck_ok:
  assumes "mitOrder item = ord" "mitOrderCancelAmounts item = []" "mitOrderCancelReasons item = []"
    "mitOrderTotalCancel item = 0" "mitMatchedAmount item \<noteq> 0"
  shows "item_ok (remainCheck ord item)" "mitOrder (remainCheck ord item) = ord"
  using assms by (auto simp: remainCheck_def item_ok_def Let_def)

lemma ComputeAMMTrade_zero: "ComputeAMMTrade L p i a 0 = Some (p, a, Inl ''bad amount'')"
  by (simp add: ComputeAMMTrade_def)

lemma getMatchItem_ok:
  assumes "getMatchItem L i amount ord isBuy a p = Some (p', Inr item)"
  shows "item_ok item" "mitOrder item = ord"
proof -
  let ?item = "\<lambda>m. \<lparr> mitOrder = ord, mitOrderCancelAmounts = [], mitOrderCancelReasons = [],
                     mitOrderTotalCancel = 0, mitMatchedAmount = m \<rparr>"
  from assms obtain p1 a1 r where r: "ComputeAMMTrade L p i a amount = Some (p1, a1, r)"
    by (auto simp: getMatchItem_def Let_def bind_Some_iff)
  have "\<exists>m. m \<noteq> 0 \<and> item = remainCheck ord (?item m)"
  proof (cases "tradeFailed r")
    case True
    with assms r show ?thesis
      by (auto simp: getMatchItem_def Let_def bind_Some_iff split: if_split_asm)
  next
    case False
    with r have "amount \<noteq> 0" by (auto simp: ComputeAMMTrade_zero tradeFailed_def)
    with False assms r show ?thesis by (auto simp: getMatchItem_def Let_def)
  qed
  then show "item_ok item" "mitOrder item = ord" by (auto simp: remainCheck_ok)
qed

text \<open>The new items of a level: in the order of the queue, triggered, and within the group.\<close>

definition level_items ::
  "decimal \<Rightarrow> MemoryOrder list \<Rightarrow> MatchItem list \<Rightarrow> bool" where
  "level_items indexPrice orders items \<longleftrightarrow>
     subseq (map mitOrder items) orders \<and>
     (\<forall>item \<in> set items. item_ok item \<and> triggered indexPrice (mitOrder item))"

lemma level_items_Nil [simp]: "level_items x orders []"
  by (simp add: level_items_def)

lemma level_items_skip: "level_items x orders items \<Longrightarrow> level_items x (ord # orders) items"
  by (auto simp: level_items_def)

lemma level_items_take:
  "level_items x orders items \<Longrightarrow> item_ok item \<Longrightarrow> triggered x (mitOrder item) \<Longrightarrow>
   level_items x (mitOrder item # orders) (item # items)"
  by (auto simp: level_items_def)

lemma matchLoop_items:
  assumes "matchLoop L env perp x isBuy n orders p res m = Some (p', res', cont)"
  shows "\<exists>new. res' = res @ new \<and> level_items x orders new \<and> same_prices p p' \<and>
               (length res \<le> n \<longrightarrow> length res' \<le> n)"
  using assms
proof (induction orders arbitrary: p res m)
  case (Cons ord orders)
  show ?case
  proof (cases "length res = n \<or> traderAccount env perp (moTrader ord) = None")
    case True
    with Cons.prems show ?thesis by (auto split: if_splits dest!: Cons.IH intro: level_items_skip)
  next
    case False
    then obtain a where a: "traderAccount env perp (moTrader ord) = Some a" "length res \<noteq> n" by auto
    show ?thesis
    proof (cases "\<bar>m\<bar> < \<bar>moMinTradeAmount ord\<bar> \<or> \<not> triggered x ord")
      case True
      with Cons a show ?thesis by (auto split: if_splits dest!: Cons.IH intro: level_items_skip)
    next
      case ok: False
      define amount where "amount = (if \<bar>moAmount ord\<bar> \<le> \<bar>m\<bar> then moAmount ord
                                    else round18 L (m * TradeAmountRelaxFactor))"
      from Cons.prems ok a obtain p1 r where
        r: "getMatchItem L (ppPerpetualIndex perp) amount ord isBuy a p = Some (p1, r)"
        and rest: "case r of Inl _ \<Rightarrow> matchLoop L env perp x isBuy n orders p1 res m = Some (p', res', cont)
          | Inr item \<Rightarrow> (if \<bar>moAmount ord\<bar> \<le> \<bar>m\<bar>
               then matchLoop L env perp x isBuy n orders p1 (res @ [item]) (m - moAmount ord) = Some (p', res', cont)
               else p' = p1 \<and> res' = res @ [item])"
        by (clarsimp simp: amount_def bind_Some_iff Let_def split: if_split_asm)
          (auto split: sum.split_asm sum.split)
      note sp = getMatchItem_same_prices [OF r]
      show ?thesis
      proof (cases r)
        case (Inl e)
        with rest Cons.IH [of p1 res m] sp show ?thesis
          by (auto intro: level_items_skip same_prices_trans)
      next
        case (Inr item)
        with r have item: "item_ok item" "mitOrder item = ord" using getMatchItem_ok by auto
        have tr: "triggered x ord" using ok by simp
        show ?thesis
        proof (cases "\<bar>moAmount ord\<bar> \<le> \<bar>m\<bar>")
          case True
          with rest Inr Cons.IH [of p1 "res @ [item]" "m - moAmount ord"] obtain new where
            "res' = (res @ [item]) @ new" "level_items x orders new" "same_prices p1 p'"
            "length (res @ [item]) \<le> n \<longrightarrow> length res' \<le> n" by auto
          with item tr sp a(2) level_items_take [of x orders new item] show ?thesis
            by (auto intro!: exI [of _ "item # new"] intro: same_prices_trans)
        next
          case False
          with rest Inr item tr sp a(2) level_items_take [of x orders "[]" item] show ?thesis
            by (auto intro!: exI [of _ "[item]"])
        qed
      qed
    qed
  qed
qed (auto intro: exI [of _ "[]"])

text \<open>A level of the book, and the items the whole run collects.\<close>

definition book_level :: "Orderbook \<Rightarrow> bool \<Rightarrow> decimal \<Rightarrow> MemoryOrder list" where
  "book_level book isBuy price = ordersByPrice (sideTree book (\<not> isBuy)) price"

lemma matchOneSide_items:
  assumes "matchOneSide L env perp book n p price isBuy res = Some (p', res', cont)"
  shows "\<exists>new. res' = res @ new \<and> same_prices p p' \<and> (length res \<le> n \<longrightarrow> length res' \<le> n) \<and>
     (new = [] \<or> (\<exists>pp. map_of (Perpetuals p) (ppPerpetualIndex perp) = Some pp \<and> IsNormal pp \<and>
        level_items (IndexPrice pp) (book_level book isBuy price) new))"
proof -
  let ?orders = "book_level book isBuy price"
  have o: "(if isBuy then GetBidOrdersByPrice book price else GetAskOrdersByPrice book price) = ?orders"
    by (simp add: book_level_def GetBidOrdersByPrice_def GetAskOrdersByPrice_def sideTree_def)
  note a = assms [unfolded matchOneSide_def o Let_def]
  show ?thesis
  proof (cases "?orders = [] \<or> (\<forall>pp. map_of (Perpetuals p) (ppPerpetualIndex perp) = Some pp \<longrightarrow> \<not> IsNormal pp)")
    case True
    with a have "p' = p \<and> res' = res"
      by (auto split: list.split_asm option.split_asm if_split_asm)
    then show ?thesis by auto
  next
    case False
    then obtain first tl pp where f: "?orders = first # tl"
      "map_of (Perpetuals p) (ppPerpetualIndex perp) = Some pp" "IsNormal pp"
      by (cases ?orders) auto
    from a f obtain m where m: "ComputeAMMAmountWithPrice L p (ppPerpetualIndex perp) isBuy price = Some m"
      by (auto simp: bind_Some_iff)
    show ?thesis
    proof (cases "m = 0 \<or> \<not> HasTheSameSign m (moAmount first)")
      case True
      with a f m show ?thesis by auto
    next
      case ok: False
      with a f m have "matchLoop L env perp (IndexPrice pp) isBuy n ?orders p res m = Some (p', res', cont)"
        by simp
      from matchLoop_items [OF this] f(2,3) show ?thesis by auto
    qed
  qed
qed

text \<open>
  \<open>run_items\<close>: the items of a run, each from a level of the book, in bounds, triggered at the
  index price the run started with.
\<close>

definition run_items ::
  "Perpetual \<Rightarrow> Orderbook \<Rightarrow> LiquidityPoolStorage \<Rightarrow> MatchItem list \<Rightarrow> bool" where
  "run_items perp book pool items \<longleftrightarrow>
     (items = [] \<or> (\<exists>pp. map_of (Perpetuals pool) (ppPerpetualIndex perp) = Some pp \<and> IsNormal pp \<and>
       (\<forall>item \<in> set items. item_ok item \<and> triggered (IndexPrice pp) (mitOrder item) \<and>
          (\<exists>isBuy price. mitOrder item \<in> set (book_level book isBuy price)))))"

lemma run_items_append:
  assumes "run_items perp book pool res" "same_prices pool p"
    "new = [] \<or> (\<exists>pp. map_of (Perpetuals p) (ppPerpetualIndex perp) = Some pp \<and> IsNormal pp \<and>
        level_items (IndexPrice pp) (book_level book isBuy price) new)"
  shows "run_items perp book pool (res @ new)"
proof (cases "new = []")
  case False
  with assms(3) obtain pp where pp: "map_of (Perpetuals p) (ppPerpetualIndex perp) = Some pp" "IsNormal pp"
    "level_items (IndexPrice pp) (book_level book isBuy price) new" by blast
  from assms(2) have "map_option (\<lambda>perp. (IndexPrice perp, IsNormal perp)) (map_of (Perpetuals pool) (ppPerpetualIndex perp)) =
      map_option (\<lambda>perp. (IndexPrice perp, IsNormal perp)) (map_of (Perpetuals p) (ppPerpetualIndex perp))"
    unfolding same_prices_def by blast
  with pp(1) obtain pq where pq: "map_of (Perpetuals pool) (ppPerpetualIndex perp) = Some pq"
    "IndexPrice pq = IndexPrice pp" "IsNormal pq = IsNormal pp" by auto
  have "\<forall>item \<in> set new. item_ok item \<and> triggered (IndexPrice pq) (mitOrder item) \<and>
          (\<exists>isBuy price. mitOrder item \<in> set (book_level book isBuy price))"
  proof
    fix item assume item: "item \<in> set new"
    have "subseq (map mitOrder new) (book_level book isBuy price)" "mitOrder item \<in> set (map mitOrder new)"
      using pp(3) item by (auto simp: level_items_def)
    then have "mitOrder item \<in> set (book_level book isBuy price)"
      by (rule list_emb_set) simp
    with item pp(3) pq(2) show "item_ok item \<and> triggered (IndexPrice pq) (mitOrder item) \<and>
          (\<exists>isBuy price. mitOrder item \<in> set (book_level book isBuy price))"
      by (auto simp: level_items_def)
  qed
  with assms(1) pp(2) pq show ?thesis by (auto simp: run_items_def)
qed (use assms(1) in simp)

lemma sideBySide_items:
  assumes "sideBySide (\<lambda>pool price isBuy res. matchOneSide L env perp book n pool price isBuy res)
             bids asks p res = Some (p', res')"
    "same_prices pool p" "run_items perp book pool res" "length res \<le> n"
  shows "run_items perp book pool res' \<and> length res' \<le> n \<and> same_prices pool p'"
  using assms
proof (induction "length bids + length asks" arbitrary: bids asks p res rule: less_induct)
  case less
  let ?step = "\<lambda>pool price isBuy res. matchOneSide L env perp book n pool price isBuy res"
  have step: "same_prices pool q' \<and> run_items perp book pool r' \<and> length r' \<le> n"
    if "(case ps of [] \<Rightarrow> Some (q, r, False) | price # _ \<Rightarrow> ?step q price isBuy r) = Some (q', r', cont)"
      "same_prices pool q" "run_items perp book pool r" "length r \<le> n" for ps q r q' r' cont isBuy
  proof (cases ps)
    case (Cons price ps')
    with that(1) have "?step q price isBuy r = Some (q', r', cont)" by simp
    from matchOneSide_items [OF this] that(2-4) show ?thesis
      by (auto intro: same_prices_trans run_items_append)
  qed (use that in auto)
  from less.prems(1) [unfolded sideBySide.simps [of _ bids asks]] obtain p1 r1 bc p2 r2 ac where
    1: "(case bids of [] \<Rightarrow> Some (p, res, False) | price # _ \<Rightarrow> ?step p price True res) = Some (p1, r1, bc)"
    and 2: "(case asks of [] \<Rightarrow> Some (p1, r1, False) | price # _ \<Rightarrow> ?step p1 price False r1) = Some (p2, r2, ac)"
    and 3: "(if \<not> bc \<and> \<not> ac then Some (p2, r2) else sideBySide ?step (tl bids) (tl asks) p2 r2) = Some (p', res')"
    by (auto simp: bind_Some_iff)
  from step [OF 1 less.prems(2-4)] have s1: "same_prices pool p1" "run_items perp book pool r1" "length r1 \<le> n" by auto
  from step [OF 2 s1] have s2: "same_prices pool p2" "run_items perp book pool r2" "length r2 \<le> n" by auto
  show ?case
  proof (cases "\<not> bc \<and> \<not> ac")
    case True
    with 3 s2 show ?thesis by simp
  next
    case False
    with 1 2 have "length (tl bids) + length (tl asks) < length bids + length asks"
      by (auto split: list.splits)
    from less.hyps [OF this _ s2] 3 False show ?thesis by simp
  qed
qed

text \<open>
  No order is matched twice: on a well-formed book the items of a run have different keys. The
  runs of the two sides are over different prices.
\<close>

definition item_key :: "MatchItem \<Rightarrow> order_key" where
  "item_key item = order_key (mitOrder item)"

lemma book_level_orders:
  assumes "book_wf book" "ord \<in> set (book_level book isBuy price)"
  shows "orders_of book (\<not> isBuy, price, moID ord) = Some ord" "order_key ord = (\<not> isBuy, price, moID ord)"
proof -
  from assms(2) obtain l where l: "map_of (sideTree book (\<not> isBuy)) price = Some l" "ord \<in> snd ` set (plOrderMap l)"
    by (cases "map_of (sideTree book (\<not> isBuy)) price")
      (auto simp: book_level_def ordersByPrice_def plGetOrders_def)
  from assms(1) l(1) have wf: "level_wf (\<not> isBuy) price l" by (auto simp: book_wf_iff dest: side_wfD)
  with l(2) have "(moID ord, ord) \<in> set (plOrderMap l)" "distinct (map fst (plOrderMap l))"
    by (auto simp: level_wf_def order_wf_def)
  then have m: "plGetOrder l (moID ord) = Some ord" by (simp add: plGetOrder_def)
  with l(1) show "orders_of book (\<not> isBuy, price, moID ord) = Some ord"
    by (simp add: orders_of_def GetOrder_def)
  then show "order_key ord = (\<not> isBuy, price, moID ord)" using orders_of_wf assms(1) by blast
qed

lemma book_level_distinct:
  assumes "book_wf book"
  shows "distinct (map order_key (book_level book isBuy price))"
proof (cases "map_of (sideTree book (\<not> isBuy)) price")
  case (Some l)
  with assms have wf: "level_wf (\<not> isBuy) price l" by (auto simp: book_wf_iff dest: side_wfD)
  then have "map (\<lambda>e. order_key (snd e)) (plOrderMap l) = map (\<lambda>e. (\<not> isBuy, price, fst e)) (plOrderMap l)"
    by (auto simp: level_wf_def order_wf_def order_key_def)
  moreover have "distinct (map (\<lambda>e. (\<not> isBuy, price, fst e)) (plOrderMap l))"
    using wf by (auto simp: level_wf_def distinct_map inj_on_def)
  ultimately have "distinct (map (\<lambda>e. order_key (snd e)) (plOrderMap l))" by (rule ssubst)
  with Some show ?thesis by (simp add: book_level_def ordersByPrice_def plGetOrders_def comp_def)
qed (simp add: book_level_def ordersByPrice_def)

text \<open>\<open>open_prices isBuy ps items\<close>: no item of that side is at one of the prices \<open>ps\<close>.\<close>

definition open_prices :: "bool \<Rightarrow> decimal list \<Rightarrow> MatchItem list \<Rightarrow> bool" where
  "open_prices isBuy ps items \<longleftrightarrow> (\<forall>item \<in> set items. \<forall>price \<in> set ps. \<forall>i. item_key item \<noteq> (\<not> isBuy, price, i))"

lemma open_prices_simps:
  "open_prices isBuy ps (xs @ ys) \<longleftrightarrow> open_prices isBuy ps xs \<and> open_prices isBuy ps ys"
  "open_prices isBuy (p # ps) xs \<Longrightarrow> open_prices isBuy ps xs"
  by (auto simp: open_prices_def)

lemma matchOneSide_distinct:
  assumes "matchOneSide L env perp book n p price isBuy res = Some (p', res', cont)" "book_wf book"
    "distinct (map item_key res)" "open_prices isBuy (price # ps) res" "open_prices (\<not> isBuy) qs res"
    "distinct (price # ps)"
  shows "distinct (map item_key res') \<and> open_prices isBuy ps res' \<and> open_prices (\<not> isBuy) qs res'"
proof -
  let ?level = "book_level book isBuy price"
  from matchOneSide_items [OF assms(1)] obtain new where new: "res' = res @ new"
    and sub: "subseq (map mitOrder new) ?level" by (auto simp: level_items_def)
  have keys: "map item_key new = map order_key (map mitOrder new)" by (simp add: item_key_def)
  have "subseq (map item_key new) (map order_key ?level)" unfolding keys by (rule subseq_map [OF sub])
  then have d: "distinct (map item_key new)" using book_level_distinct [OF assms(2)]
    by (metis subseq_conv_nths distinct_nthsI)
  have k: "\<exists>i. item_key item = (\<not> isBuy, price, i)" if "item \<in> set new" for item
  proof -
    have "mitOrder item \<in> set (map mitOrder new)" using that by simp
    with sub have "mitOrder item \<in> set ?level" by (rule list_emb_set) simp
    from book_level_orders(2) [OF assms(2) this] show ?thesis by (auto simp: item_key_def)
  qed
  have "item_key x \<noteq> item_key y" if "x \<in> set res" "y \<in> set new" for x y
  proof -
    from k [OF that(2)] obtain i where "item_key y = (\<not> isBuy, price, i)" ..
    with that(1) assms(4) show ?thesis by (simp add: open_prices_def)
  qed
  then have "item_key ` set res \<inter> item_key ` set new = {}" by auto metis
  moreover have "open_prices isBuy ps new" "open_prices (\<not> isBuy) qs new"
    using assms(6) k by (auto simp: open_prices_def) fastforce+
  ultimately show ?thesis using assms(3-5) d unfolding new by (simp add: open_prices_simps)
qed

lemma sideBySide_distinct:
  assumes "sideBySide (\<lambda>pool price isBuy res. matchOneSide L env perp book n pool price isBuy res)
             bids asks p res = Some (p', res')" "book_wf book" "distinct (map item_key res)"
    "open_prices True bids res" "open_prices False asks res" "distinct bids" "distinct asks"
  shows "distinct (map item_key res')"
  using assms
proof (induction "length bids + length asks" arbitrary: bids asks p res rule: less_induct)
  case less
  let ?step = "\<lambda>pool price isBuy res. matchOneSide L env perp book n pool price isBuy res"
  have step: "distinct (map item_key r') \<and> open_prices isBuy (tl ps) r' \<and> open_prices (\<not> isBuy) qs r'"
    if "(case ps of [] \<Rightarrow> Some (q, r, False) | price # _ \<Rightarrow> ?step q price isBuy r) = Some (q', r', cont)"
      "distinct (map item_key r)" "open_prices isBuy ps r" "open_prices (\<not> isBuy) qs r" "distinct ps"
    for ps qs q r q' r' cont isBuy
    using that matchOneSide_distinct [OF _ less.prems(2), of L env perp n q _ isBuy r q' r' cont]
    by (cases ps) auto
  from less.prems(1) [unfolded sideBySide.simps [of _ bids asks]] obtain p1 r1 bc p2 r2 ac where
    1: "(case bids of [] \<Rightarrow> Some (p, res, False) | price # _ \<Rightarrow> ?step p price True res) = Some (p1, r1, bc)"
    and 2: "(case asks of [] \<Rightarrow> Some (p1, r1, False) | price # _ \<Rightarrow> ?step p1 price False r1) = Some (p2, r2, ac)"
    and 3: "(if \<not> bc \<and> \<not> ac then Some (p2, r2) else sideBySide ?step (tl bids) (tl asks) p2 r2) = Some (p', res')"
    by (auto simp: bind_Some_iff)
  from step [OF 1 less.prems(3,4) _ less.prems(6), of asks] less.prems(5)
  have s1: "distinct (map item_key r1)" "open_prices True (tl bids) r1" "open_prices False asks r1" by auto
  from step [OF 2 s1(1,3) _ less.prems(7), of "tl bids"] s1(2)
  have s2: "distinct (map item_key r2)" "open_prices False (tl asks) r2" "open_prices True (tl bids) r2" by auto
  show ?case
  proof (cases "\<not> bc \<and> \<not> ac")
    case True
    with 3 s2 show ?thesis by simp
  next
    case False
    with 1 2 have "length (tl bids) + length (tl asks) < length bids + length asks"
      by (auto split: list.splits)
    from less.hyps [OF this _ less.prems(2) s2(1,3,2)] 3 False less.prems(6,7) show ?thesis
      by (simp add: distinct_tl)
  qed
qed

text \<open>What the handlers rely on: the orders of a run are in the book, once each, and are in order.\<close>

lemma MatchOrderSideBySide_run:
  assumes "MatchOrderSideBySide L env cf perp book ps = Some (items, ps')" "item \<in> set items"
  shows "item_ok item" "\<exists>isBuy price. mitOrder item \<in> set (book_level book isBuy price)"
proof -
  obtain g ps1 where g: "GetPoolStorage env (ppLiquidityPoolAddress perp) ps = (g, ps1)" by fastforce
  from assms g obtain pool shared n pool' where
    "sideBySide (\<lambda>pool price isBuy res. matchOneSide L env perp book n pool price isBuy res)
       (GetBidPricesDesc book) (GetAskPricesAsc book) pool [] = Some (pool', items)"
    by (auto simp: MatchOrderSideBySide_def Let_def bind_Some_iff split: if_splits option.splits)
  from sideBySide_items [OF this same_prices_refl] have "run_items perp book pool items"
    by (auto simp: run_items_def)
  with assms(2) show "item_ok item" "\<exists>isBuy price. mitOrder item \<in> set (book_level book isBuy price)"
    by (auto simp: run_items_def)
qed

lemma MatchOrderSideBySide_distinct:
  assumes "MatchOrderSideBySide L env cf perp book ps = Some (items, ps')" "book_wf book"
  shows "distinct (map item_key items)"
proof -
  obtain g ps1 where g: "GetPoolStorage env (ppLiquidityPoolAddress perp) ps = (g, ps1)" by fastforce
  have d: "distinct (GetBidPricesDesc book)" "distinct (GetAskPricesAsc book)"
    using assms(2) by (auto simp: GetBidPricesDesc_def GetAskPricesAsc_def book_wf_def side_wf_def sidePrices_def)
  show ?thesis
  proof (cases "items = []")
    case False
    with assms g obtain pool n pool' where
      "sideBySide (\<lambda>pool price isBuy res. matchOneSide L env perp book n pool price isBuy res)
         (GetBidPricesDesc book) (GetAskPricesAsc book) pool [] = Some (pool', items)"
      by (auto simp: MatchOrderSideBySide_def Let_def bind_Some_iff split: if_splits option.splits)
    from sideBySide_distinct [OF this assms(2) _ _ _ d] show ?thesis by (simp add: open_prices_def)
  qed simp
qed

section \<open>Properties of matching\<close>

text \<open>
  C27: what a matching run produces. Every item is an order resting in the book of a perpetual
  in the normal state; its stop-loss or take-profit trigger is met at the pool's index price; the
  amount left in the book after the match and the cancellation is zero or at least the minimal
  trade amount, the cancelled amounts add up to the total; and the number of items fits the gas
  limit of one transaction.
\<close>

theorem MatchOrderSideBySide_items:
  assumes "MatchOrderSideBySide L env cf perp book ps = Some (items, ps')" "items \<noteq> []"
  shows "\<exists>pool shared pp. fst (GetPoolStorage env (ppLiquidityPoolAddress perp) ps) = Some (pool, shared) \<and>
     map_of (Perpetuals pool) (ppPerpetualIndex perp) = Some pp \<and> IsNormal pp \<and>
     length items \<le> cfGasLimit cf div nat (GetGasFeeLimit (length (Perpetuals pool)) False) \<and>
     (\<forall>item \<in> set items.
        (\<exists>isBuy price. mitOrder item \<in> set (book_level book isBuy price)) \<and>
        triggered (IndexPrice pp) (mitOrder item) \<and>
        sum_list (mitOrderCancelAmounts item) = mitOrderTotalCancel item \<and>
        (let rest = moAmount (mitOrder item) - mitMatchedAmount item - mitOrderTotalCancel item
         in rest = 0 \<or> \<bar>moMinTradeAmount (mitOrder item)\<bar> \<le> \<bar>rest\<bar>))"
proof -
  obtain g ps1 where g: "GetPoolStorage env (ppLiquidityPoolAddress perp) ps = (g, ps1)" by fastforce
  from assms g obtain pool shared where pool: "g = Some (pool, shared)"
    by (cases g) (auto simp: MatchOrderSideBySide_def Let_def split: if_splits)
  let ?n = "cfGasLimit cf div nat (GetGasFeeLimit (length (Perpetuals pool)) False)"
  from assms g pool obtain pool' where
    "sideBySide (\<lambda>pool price isBuy res. matchOneSide L env perp book ?n pool price isBuy res)
       (GetBidPricesDesc book) (GetAskPricesAsc book) pool [] = Some (pool', items)"
    by (auto simp: MatchOrderSideBySide_def Let_def bind_Some_iff split: if_splits)
  from sideBySide_items [OF this same_prices_refl] have
    r: "run_items perp book pool items" "length items \<le> ?n" by (auto simp: run_items_def)
  from r(1) assms(2) obtain pp where "map_of (Perpetuals pool) (ppPerpetualIndex perp) = Some pp" "IsNormal pp"
    "\<forall>item \<in> set items. item_ok item \<and> triggered (IndexPrice pp) (mitOrder item) \<and>
          (\<exists>isBuy price. mitOrder item \<in> set (book_level book isBuy price))"
    by (auto simp: run_items_def)
  with g pool r(2) show ?thesis by (auto simp: item_ok_def)
qed

definition match_env :: chain_env where
  "match_env = \<lparr> envAccount = (\<lambda>_ _ _. Some (sample_account 10 1)), envBalance = (\<lambda>_ _ _. Some 100),
     envAllowance = (\<lambda>_ _ _ _. Some 100), envPool = (\<lambda>_. Some sample_pool),
     envGasBalance = (\<lambda>_ _. Some 0), envGasPrice = 0, envNow = 0 \<rparr>"

definition match_conf :: conf where
  "match_conf = \<lparr> cfMaxOrderNum = 10, cfGasEnable = False, cfGasLimit = 100000000, cfBrokerAddress = ''0xb'' \<rparr>"

definition match_perp :: Perpetual where
  "match_perp = \<lparr> ppLiquidityPoolAddress = ''0xa'', ppPerpetualIndex = 0, ppSymbol = ''S'',
     ppOperatorAddress = ''0xc'', ppCollateralSymbol = ''USD'', ppCollateralAddress = ''0xd'',
     ppCollateralDecimals = 18, ppIsPublished = True, ppBlockNumber = 0 \<rparr>"

definition match_order :: MemoryOrder where
  "match_order = \<lparr> moID = ''x'', moLiquidityPoolAddress = ''0xa'', moPerpetualIndex = 0, moPrice = 1 / 2,
     moTriggerPrice = 1, moAmount = - (1 / 4), moMinTradeAmount = 1 / 8, moType = StopLimitOrder, moTrader = ''0xe'' \<rparr>"

definition match_book :: Orderbook where
  "match_book = \<lparr> bidsTree = [], asksTree = [(1 / 2, \<lparr> plPrice = 1 / 2, plTotalAmount = - (1 / 4),
       plOrderMap = [(''x'', match_order)] \<rparr>)], bidPrices = [], askPrices = [1 / 2] \<rparr>"

definition match_syncer :: poolSyncer where
  "match_syncer = [(''0xa'', \<lparr> piStorage = Some sample_pool, piLatestGet = 0, piIsDirty = False \<rparr>)]"

lemma match_item:
  "\<exists>p'. getMatchItem lib18 0 (- (1 / 4)) match_order False (sample_account 10 1) sample_pool =
     Some (p', Inr \<lparr> mitOrder = match_order, mitOrderCancelAmounts = [], mitOrderCancelReasons = [],
                     mitOrderTotalCancel = 0, mitMatchedAmount = - (1 / 4) \<rparr>)"
proof -
  from sample_amm_trade obtain p' a' after where
    "ComputeAMMTrade lib18 sample_pool 0 (sample_account 10 1) (- (1 / 4)) =
     Some (p', a', Inr (after, True, 3 / 4))" by blast
  moreover have "moAmount match_order = - (1 / 4)" by (simp add: match_order_def)
  ultimately show ?thesis by (simp add: getMatchItem_def tradeFailed_def remainCheck_def Let_def)
qed

lemma match_level:
  "\<exists>p'. matchOneSide lib18 match_env match_perp match_book 20 sample_pool (1 / 2) False [] =
     Some (p', [\<lparr> mitOrder = match_order, mitOrderCancelAmounts = [], mitOrderCancelReasons = [],
                     mitOrderTotalCancel = 0, mitMatchedAmount = - (1 / 4) \<rparr>], True)"
proof -
  have o: "GetAskOrdersByPrice match_book (1 / 2) = [match_order]"
    by (simp add: GetAskOrdersByPrice_def ordersByPrice_def match_book_def plGetOrders_def)
  have a: "traderAccount match_env match_perp (moTrader match_order) = Some (sample_account 10 1)"
    by (simp add: traderAccount_def match_env_def sample_account_def)
  have m: "moAmount match_order = - (1 / 4)" "moMinTradeAmount match_order = 1 / 8"
    "ppPerpetualIndex match_perp = 0" "IsNormal sample_perp" "IndexPrice sample_perp = 1"
    "triggered 1 match_order"
    by (simp_all add: match_order_def match_perp_def sample_amm_defs triggered_def)
  from match_item obtain p' where
    "getMatchItem lib18 0 (- (1 / 4)) match_order False (sample_account 10 1) sample_pool =
     Some (p', Inr \<lparr> mitOrder = match_order, mitOrderCancelAmounts = [], mitOrderCancelReasons = [],
                     mitOrderTotalCancel = 0, mitMatchedAmount = - (1 / 4) \<rparr>)" by blast
  with o a m show ?thesis
    by (simp add: matchOneSide_def Let_def sample_pool_perp sample_amount HasTheSameSign_def)
qed

lemma match_run:
  "\<exists>ps'. MatchOrderSideBySide lib18 match_env match_conf match_perp match_book match_syncer =
     Some ([\<lparr> mitOrder = match_order, mitOrderCancelAmounts = [], mitOrderCancelReasons = [],
              mitOrderTotalCancel = 0, mitMatchedAmount = - (1 / 4) \<rparr>], ps')"
proof -
  have b: "GetBidPricesDesc match_book = []" "GetAskPricesAsc match_book = [1 / 2]"
    by (simp_all add: GetBidPricesDesc_def GetAskPricesAsc_def match_book_def)
  have g: "GetPoolStorage match_env (ppLiquidityPoolAddress match_perp) match_syncer =
      (Some (sample_pool, True), match_syncer)"
    by (simp add: GetPoolStorage_def match_syncer_def match_perp_def)
  have n: "cfGasLimit match_conf div nat (GetGasFeeLimit (length (Perpetuals sample_pool)) False) = 20"
    by (simp add: match_conf_def GetGasFeeLimit_def gas_defs sample_pool_def)
  from match_level obtain p' where l: "matchOneSide lib18 match_env match_perp match_book 20 sample_pool (1 / 2) False [] =
     Some (p', [\<lparr> mitOrder = match_order, mitOrderCancelAmounts = [], mitOrderCancelReasons = [],
                     mitOrderTotalCancel = 0, mitMatchedAmount = - (1 / 4) \<rparr>], True)" by blast
  show ?thesis
    by (simp add: MatchOrderSideBySide_def Let_def b g n sideBySide.simps l)
qed

theorem MatchOrderSideBySide_items_witness:
  "\<exists>items ps'. MatchOrderSideBySide lib18 match_env match_conf match_perp match_book match_syncer =
     Some (items, ps') \<and> items \<noteq> [] \<and>
     length items \<le> cfGasLimit match_conf div nat (GetGasFeeLimit 1 False)"
proof -
  from match_run obtain items ps' where r:
    "MatchOrderSideBySide lib18 match_env match_conf match_perp match_book match_syncer = Some (items, ps')"
    "items \<noteq> []" by blast
  have "fst (GetPoolStorage match_env (ppLiquidityPoolAddress match_perp) match_syncer) = Some (sample_pool, True)"
    by (simp add: GetPoolStorage_def match_syncer_def match_perp_def)
  moreover have "length (Perpetuals sample_pool) = 1" by (simp add: sample_pool_def)
  ultimately show ?thesis using MatchOrderSideBySide_items [OF r] r by auto
qed

text \<open>
  C29: the close-only rule. For a close-only order whose available amount has the sign of its
  amount, cancelling what \<open>CheckCloseOnly\<close> returns leaves an amount that can only reduce the
  position: it is opposite to the position and not larger; and the rule cancels nothing when
  the order already satisfies that.
\<close>

theorem CheckCloseOnly_leaves_closing:
  assumes "IsCloseOnly ord" "HasTheSameSign (AvailableAmount ord) (Amount ord)" "Amount ord \<noteq> 0"
  shows "(let rest = AvailableAmount ord - CheckCloseOnly a ord in
          \<bar>rest\<bar> \<le> \<bar>PositionAmount a\<bar> \<and> rest * PositionAmount a \<le> 0 \<and>
          \<bar>rest\<bar> \<le> \<bar>AvailableAmount ord\<bar>) \<and>
         (PositionAmount a * Amount ord < 0 \<and> \<bar>AvailableAmount ord\<bar> \<le> \<bar>PositionAmount a\<bar> \<longrightarrow>
            CheckCloseOnly a ord = 0)"
  using assms
  by (auto simp: CheckCloseOnly_def Let_def HasTheSameSign_iff zero_le_mult_iff mult_le_0_iff
      mult_less_0_iff not_le not_less abs_if split: if_splits)

definition match_db_order :: Order where
  "match_db_order = \<lparr> TraderAddress = ''0xe'', LiquidityPoolAddress = ''0xa'', PerpetualIndex = 0,
     RelayerAddress = [], BrokerAddress = ''0xb'', ReferrerAddress = [], Type = 1, Price = 2,
     Amount = -5, MinTradeAmount = 1, TriggerPrice = 0, BrokerFeeLimit = 0, ExpiresAt = 1000,
     Salt = 0, IsCloseOnly = True, ChainID = 1, Signature = [],
     ID = 1, OrderHash = ''h'', OldStatus = OrderPending, Status = OrderPending,
     CollateralAddress = ''0xd'', AvailableAmount = -5, ConfirmedAmount = 0, CanceledAmount = 0,
     PendingAmount = 0, GasFeeLimit = 0, CreatedAt = 0, UpdatedAt = 0, CheckAmount = 0, CancelReasons = [] \<rparr>"

theorem CheckCloseOnly_leaves_closing_witness:
  "IsCloseOnly match_db_order \<and> HasTheSameSign (AvailableAmount match_db_order) (Amount match_db_order) \<and>
   Amount match_db_order \<noteq> 0 \<and> CheckCloseOnly (sample_account 0 3) match_db_order = -2 \<and>
   \<bar>AvailableAmount match_db_order - CheckCloseOnly (sample_account 0 3) match_db_order\<bar> \<le>
     \<bar>PositionAmount (sample_account 0 3)\<bar>"
proof -
  have h: "IsCloseOnly match_db_order" "HasTheSameSign (AvailableAmount match_db_order) (Amount match_db_order)"
    "Amount match_db_order \<noteq> 0" by (simp_all add: match_db_order_def)
  have "CheckCloseOnly (sample_account 0 3) match_db_order = -2"
    by (simp add: CheckCloseOnly_def match_db_order_def sample_account_def HasTheSameSign_def)
  with h CheckCloseOnly_leaves_closing [OF h, of "sample_account 0 3"] show ?thesis
    unfolding Let_def by blast
qed

subsection \<open>The margin check\<close>

text \<open>Rates, rewards and prices that are not negative, and a positive leverage.\<close>

definition margin_params :: "LiquidityPoolStorage \<Rightarrow> PerpetualStorage \<Rightarrow> decimal \<Rightarrow> bool" where
  "margin_params pool perp leverage \<longleftrightarrow>
     0 \<le> VaultFeeRate pool + LpFeeRate perp + OperatorFeeRate perp \<and> 0 \<le> MarkPrice perp \<and>
     0 \<le> KeeperGasReward perp \<and> 0 < leverage"

lemma openOrderCost_nonneg:
  assumes "decimal_laws L" "map_of (Perpetuals pool) i = Some perp" "margin_params pool perp lev"
    "0 \<le> Price ord"
  shows "\<exists>cost fee loss. openOrderCost L pool i ord lev = Some (cost, fee, loss) \<and> 0 \<le> cost"
proof -
  have lev: "lev \<noteq> 0" "0 < lev" using assms(3) by (simp_all add: margin_params_def)
  have q: "0 \<le> quo L (x * \<bar>CheckAmount ord\<bar>) lev" if "0 \<le> x" for x
    using decimal_laws.quo_nonneg [OF assms(1) lev(1), of "x * \<bar>CheckAmount ord\<bar>"] that lev(2) by simp
  define margin where "margin = (if CheckAmount ord < 0 \<and> Price ord < MarkPrice perp
      then quo L (MarkPrice perp * \<bar>CheckAmount ord\<bar>) lev else quo L (Price ord * \<bar>CheckAmount ord\<bar>) lev)"
  define fee where "fee = Price ord * \<bar>CheckAmount ord\<bar> * (VaultFeeRate pool + LpFeeRate perp + OperatorFeeRate perp)"
  define loss where "loss = min 0 ((MarkPrice perp - Price ord) * CheckAmount ord)"
  have "0 \<le> MarkPrice perp" using assms(3) by (simp add: margin_params_def)
  then have "0 \<le> margin" using q [OF assms(4)] q [of "MarkPrice perp"] unfolding margin_def by presburger
  moreover have "0 \<le> fee" using assms(3,4) by (simp add: margin_params_def fee_def)
  moreover have "loss \<le> 0" by (simp add: loss_def)
  moreover have "openOrderCost L pool i ord lev = Some (margin + fee - loss, fee, loss)"
    using assms(2) lev(1) by (simp add: openOrderCost_def Let_def margin_def fee_def loss_def)
  ultimately show ?thesis by simp
qed

lemma openLoop_cancels:
  assumes "decimal_laws L" "map_of (Perpetuals pool) i = Some perp" "margin_params pool perp lev"
    "\<forall>ord \<in> set orders. 0 \<le> Price ord"
    "wallet < 0 \<longrightarrow> cancels \<noteq> []" "cancels \<noteq> [] \<longrightarrow> wallet < 0"
    "\<forall>c \<in> set cancels. \<exists>ord \<in> set all. ocOrderHash c = OrderHash ord \<and> ocToCancel c = AvailableAmount ord"
    "set orders \<subseteq> set all"
  shows "\<exists>cs w. openLoop L pool i perp lev orders position margin wallet cancels = Some (cs, w) \<and>
     w \<le> wallet \<and> (cs = [] \<longleftrightarrow> 0 \<le> w) \<and>
     (\<forall>c \<in> set cs. \<exists>ord \<in> set all. ocOrderHash c = OrderHash ord \<and> ocToCancel c = AvailableAmount ord)"
  using assms(4-8)
proof (induction orders arbitrary: position margin wallet cancels)
  case Nil
  then show ?case by auto
next
  case (Cons ord orders)
  obtain cost fee loss where c: "openOrderCost L pool i ord lev = Some (cost, fee, loss)" "0 \<le> cost"
    using openOrderCost_nonneg [OF assms(1-3)] Cons.prems(1) by force
  define position' where "position' = position + CheckAmount ord"
  define margin' where "margin' = margin + loss - fee"
  define im where "im = MarkPrice perp * \<bar>position'\<bar> * InitialMarginRate perp + KeeperGasReward perp"
  define cost' where "cost' = max (im - margin') (if position = 0 then cost + KeeperGasReward perp else cost)"
  define wallet' where "wallet' = wallet - cost'"
  define cancels' where "cancels' = (if wallet' < 0
                    then cancels @ [\<lparr> ocLiquidityPoolAddress = LiquidityPoolAddress ord,
                           ocPerpetualIndex = PerpetualIndex ord, ocOrderHash = OrderHash ord,
                           ocStatus = Status ord, ocToCancel = AvailableAmount ord,
                           ocReason = CancelReasonInsufficientFunds \<rparr>]
                    else cancels)"
  have e: "openLoop L pool i perp lev (ord # orders) position margin wallet cancels =
      openLoop L pool i perp lev orders position' (margin' + cost') wallet' cancels'"
    unfolding openLoop.simps c bind.bind_lunit prod.case Let_def position'_def margin'_def im_def
      cost'_def wallet'_def cancels'_def by (rule refl)
  have k: "0 \<le> KeeperGasReward perp" using assms(3) by (simp add: margin_params_def)
  then have "0 \<le> cost'" using c(2) by (simp add: cost'_def max_def)
  then have w: "wallet' \<le> wallet" by (simp add: wallet'_def)
  have 1: "wallet' < 0 \<longrightarrow> cancels' \<noteq> []" "cancels' \<noteq> [] \<longrightarrow> wallet' < 0"
    using Cons.prems(2,3) w by (auto simp: cancels'_def)
  have 2: "\<forall>c \<in> set cancels'. \<exists>ord \<in> set all. ocOrderHash c = OrderHash ord \<and> ocToCancel c = AvailableAmount ord"
    using Cons.prems(4,5) by (auto simp: cancels'_def)
  from Cons.IH [OF _ 1 2, of position' "margin' + cost'"] Cons.prems(1,5) obtain cs w' where
    "openLoop L pool i perp lev orders position' (margin' + cost') wallet' cancels' = Some (cs, w')"
    "w' \<le> wallet'" "cs = [] \<longleftrightarrow> 0 \<le> w'"
    "\<forall>c \<in> set cs. \<exists>ord \<in> set all. ocOrderHash c = OrderHash ord \<and> ocToCancel c = AvailableAmount ord"
    by auto
  then show ?case unfolding e using w by auto
qed

text \<open>The closing loop keeps the wallet growing, and leaves no negative margin on a closed position.\<close>

definition side_ok :: "decimal \<Rightarrow> Order list \<Rightarrow> sideState \<Rightarrow> bool" where
  "side_ok wallet all st \<longleftrightarrow>
     wallet \<le> ssWallet st \<and> (ssPosition st = 0 \<longrightarrow> 0 \<le> ssMargin st) \<and>
     (\<forall>ord \<in> set (ssOrders st). \<exists>ord' \<in> set all. OrderHash ord = OrderHash ord' \<and>
        AvailableAmount ord = AvailableAmount ord' \<and> Price ord = Price ord')"

lemma closeStep_ok:
  assumes "decimal_laws L" "side_ok wallet all st" "ord \<in> set all"
  shows "\<exists>st'. closeStep L perp feeRate st ord = Some st' \<and> side_ok wallet all st'"
proof -
  obtain cls opn where s: "SplitAmount (ssPosition st) (CheckAmount ord) = (cls, opn)" by fastforce
  show ?thesis
  proof (cases "cls = 0")
    case True
    with s assms(2,3) show ?thesis by (auto simp: closeStep_def side_ok_def)
  next
    case False
    have pos: "ssPosition st \<noteq> 0" using SplitAmount_close(3) [OF s False] by auto
    have one: "ssPosition st + cls = 0 \<Longrightarrow> quo L cls (ssPosition st) = - 1"
    proof -
      assume "ssPosition st + cls = 0"
      then have "cls = - ssPosition st" by (simp add: eq_neg_iff_add_eq_0 add.commute)
      then have "cls / ssPosition st = - 1" using pos by simp
      then show ?thesis
        using decimal_laws.quo_exact [OF assms(1) pos, of cls] on_grid_minus [of 1] by simp
    qed
    define np where "np = ssPosition st + cls"
    define npm where "npm = (if np \<noteq> 0 then MarkPrice perp * \<bar>np\<bar> * InitialMarginRate perp + KeeperGasReward perp
                             else MarkPrice perp * \<bar>np\<bar> * InitialMarginRate perp)"
    define am0 where "am0 = ssMargin st + min ((MarkPrice perp - Price ord) * cls) 0"
    define am where "am = am0 - (if cls = CheckAmount ord
        then min (max (am0 - npm) 0) (Price ord * \<bar>cls\<bar> * feeRate) else Price ord * \<bar>cls\<bar> * feeRate)"
    define w0 where "w0 = am - (1 - \<bar>quo L cls (ssPosition st)\<bar>) * (ssMargin st - KeeperGasReward perp)"
    define w where "w = (if npm \<le> am then max 0 (if np \<noteq> 0 then w0 - KeeperGasReward perp else w0) else 0)"
    define rest where "rest = CheckAmount ord - cls"
    have e: "closeStep L perp feeRate st ord =
      (if am < 0 then Some (st\<lparr> ssPosition := 0, ssMargin := 0, ssOrders := ssOrders st @ [ord] \<rparr>)
       else Some (st\<lparr> ssMargin := am - w, ssWallet := ssWallet st + w, ssPosition := np,
              ssOrders := (if rest \<noteq> 0 then ssOrders st @ [ord\<lparr> CheckAmount := rest \<rparr>] else ssOrders st) \<rparr>))"
      unfolding closeStep_def Let_def s fst_conv np_def [symmetric] npm_def [symmetric]
        am0_def [symmetric] am_def [symmetric] rest_def [symmetric] DivD_simps(2) [OF pos]
        bind.bind_lunit w0_def [symmetric] w_def
      using False by simp
    have w: "0 \<le> w" by (simp add: w_def)
    have m: "0 \<le> am - w" if "np = 0" "\<not> am < 0"
    proof -
      have "w0 = am" using that(1) one by (simp add: w0_def np_def)
      with that show ?thesis by (simp add: w_def)
    qed
    show ?thesis
    proof (cases "am < 0")
      case True
      with e assms(2,3) show ?thesis by (auto simp: side_ok_def)
    next
      case am: False
      with e w m assms(2,3) show ?thesis by (auto simp: side_ok_def)
    qed
  qed
qed

lemma closeLoop_ok:
  "decimal_laws L \<Longrightarrow> side_ok wallet all st \<Longrightarrow> set orders \<subseteq> set all \<Longrightarrow>
   \<exists>st'. closeLoop L perp feeRate orders st = Some st' \<and> side_ok wallet all st'"
proof (induction orders arbitrary: st)
  case (Cons ord orders)
  have "ord \<in> set all" using Cons.prems(3) by simp
  from closeStep_ok [OF Cons.prems(1,2) this, of perp feeRate] obtain st1 where
    "closeStep L perp feeRate st ord = Some st1" "side_ok wallet all st1" by blast
  with Cons.IH [OF Cons.prems(1)] Cons.prems(3) show ?case by auto
qed simp

text \<open>
  C28: the margin check returns, and its two results agree. With rates and prices that are not
  negative, a positive target leverage and a wallet that is not overdrawn, \<open>sideAvailable\<close>
  never panics; the available balance it returns is negative exactly when it asks to cancel an
  order for insufficient funds, and it only asks to cancel orders it was given, for their whole
  available amount. So an order that \<open>NewOrder\<close> accepts leaves no order of that side to be
  cancelled.
\<close>

theorem sideAvailable_cancels_iff_negative:
  assumes "decimal_laws L" "map_of (Perpetuals pool) i = Some perp" "margin_params pool perp lev"
    "\<forall>ord \<in> set orders. 0 \<le> Price ord" "0 \<le> wallet" "position = 0 \<longrightarrow> 0 \<le> margin"
  shows "\<exists>cancels avail. sideAvailable L pool i margin position lev wallet orders = Some (cancels, avail) \<and>
     (cancels = [] \<longleftrightarrow> 0 \<le> avail) \<and>
     (\<forall>c \<in> set cancels. \<exists>ord \<in> set orders. ocOrderHash c = OrderHash ord \<and> ocToCancel c = AvailableAmount ord)"
proof (cases "orders = []")
  case True
  with assms(5) show ?thesis by (simp add: sideAvailable_def)
next
  case False
  let ?rate = "VaultFeeRate pool + LpFeeRate perp + OperatorFeeRate perp"
  let ?st = "\<lparr> ssPosition = position, ssMargin = margin, ssWallet = wallet, ssOrders = [] \<rparr>"
  have "side_ok wallet orders ?st" using assms(6) by (simp add: side_ok_def)
  from closeLoop_ok [OF assms(1) this subset_refl] obtain st where
    st: "closeLoop L perp ?rate orders ?st = Some st" "side_ok wallet orders st" by blast
  define st' where "st' = (if ssPosition st = 0
                    then st\<lparr> ssWallet := ssWallet st + ssMargin st, ssMargin := 0 \<rparr> else st)"
  have w: "0 \<le> ssWallet st'" using st(2) assms(5) by (auto simp: st'_def side_ok_def)
  have o: "\<forall>ord \<in> set (ssOrders st'). \<exists>ord' \<in> set orders. OrderHash ord = OrderHash ord' \<and>
        AvailableAmount ord = AvailableAmount ord' \<and> Price ord = Price ord'"
    using st(2) by (auto simp: st'_def side_ok_def)
  then have p: "\<forall>ord \<in> set (ssOrders st'). 0 \<le> Price ord" using assms(4) by force
  from openLoop_cancels [OF assms(1-3) p, of "ssWallet st'" "[]" "ssOrders st'" "ssPosition st'" "ssMargin st'"] w
  obtain cs a where c: "openLoop L pool i perp lev (ssOrders st') (ssPosition st') (ssMargin st') (ssWallet st') [] = Some (cs, a)"
    "cs = [] \<longleftrightarrow> 0 \<le> a"
    "\<forall>c \<in> set cs. \<exists>ord \<in> set (ssOrders st'). ocOrderHash c = OrderHash ord \<and> ocToCancel c = AvailableAmount ord"
    by auto
  have "sideAvailable L pool i margin position lev wallet orders = Some (cs, a)"
    using False assms(2) st(1) c(1) by (simp add: sideAvailable_def Let_def st'_def)
  moreover have "\<forall>c \<in> set cs. \<exists>ord \<in> set orders. ocOrderHash c = OrderHash ord \<and> ocToCancel c = AvailableAmount ord"
    using c(3) o by metis
  ultimately show ?thesis using c(2) by blast
qed

theorem sideAvailable_cancels_iff_negative_witness:
  "decimal_laws lib18 \<and> map_of (Perpetuals sample_pool) 0 = Some sample_perp \<and>
   margin_params sample_pool sample_perp 1 \<and>
   (\<exists>cancels avail. sideAvailable lib18 sample_pool 0 0 0 1 3 [match_db_order\<lparr> CheckAmount := -5 \<rparr>] =
      Some (cancels, avail) \<and> (cancels = [] \<longleftrightarrow> 0 \<le> avail))"
proof -
  have m: "margin_params sample_pool sample_perp 1" by (simp add: margin_params_def sample_amm_defs)
  have o: "\<forall>ord \<in> set [match_db_order\<lparr> CheckAmount := -5 \<rparr>]. 0 \<le> Price ord" by (simp add: match_db_order_def)
  from sideAvailable_cancels_iff_negative [OF decimal_laws_lib18 sample_pool_perp m o, of 3 0 0]
    m sample_pool_perp show ?thesis by auto
qed

end
