(* ===== verification/Dao.thy ===== *)
theory Dao
  imports Model Containers
begin

text \<open>
  \<^verbatim>\<open>src/dao\<close>: the tables of the database and the operations on them. A table is the list of
  its rows; a statement may fail, as the next element of \<open>dbFaults\<close> says, and a transaction
  whose body or whose commit fails restores the tables and nothing else. The operations work on
  every extension of the record \<open>dbstate\<close>, so a transaction body may also change the memory of
  its caller. The driver and the database are outside the repository; what the code relies on is
  that a statement that succeeds has the effect of its SQL and that a rollback undoes it.
\<close>

section \<open>State\<close>

record tables =
  tOrders :: "Order list"
  tMatchTxs :: "MatchTransaction list"
  tPerpetuals :: "Perpetual list"
  tNextID :: int

record dbstate =
  dbTables :: tables
  dbFaults :: "bool list"

section \<open>Stateful computations with errors\<close>

type_synonym ('s, 'a) dbm = "'s \<Rightarrow> 'a result \<times> 's"

definition retE :: "'a \<Rightarrow> ('s, 'a) dbm" where
  "retE x s = (Inr x, s)"

definition throwE :: "error \<Rightarrow> ('s, 'a) dbm" where
  "throwE e s = (Inl e, s)"

text \<open>\<open>bindE m f\<close>: run \<open>m\<close>, return its error if it has one, go on with \<open>f\<close> otherwise.\<close>

definition bindE :: "('s, 'a) dbm \<Rightarrow> ('a \<Rightarrow> ('s, 'b) dbm) \<Rightarrow> ('s, 'b) dbm" where
  "bindE m f s = (case m s of (Inl e, s') \<Rightarrow> (Inl e, s') | (Inr x, s') \<Rightarrow> f x s')"

lemma bindE_simps [simp, go_simps]:
  "m s = (Inl e, s') \<Longrightarrow> bindE m f s = (Inl e, s')"
  "m s = (Inr x, s') \<Longrightarrow> bindE m f s = f x s'"
  by (simp_all add: bindE_def)

lemma retE_throwE [simp, go_simps]: "retE x s = (Inr x, s)" "throwE e s = (Inl e, s)"
  by (simp_all add: retE_def throwE_def)

lemma bindE_Inr:
  "bindE m f s = (Inr y, s') \<longleftrightarrow> (\<exists>x s1. m s = (Inr x, s1) \<and> f x s1 = (Inr y, s'))"
  by (auto simp: bindE_def split: prod.splits sum.splits)

text \<open>An invariant of the state, kept by a computation whether it fails or not.\<close>

definition keeps :: "('s \<Rightarrow> bool) \<Rightarrow> ('s, 'a) dbm \<Rightarrow> bool" where
  "keeps P m \<longleftrightarrow> (\<forall>s. P s \<longrightarrow> P (snd (m s)))"

text \<open>As \<open>keeps\<close>, and a result satisfies \<open>Q\<close>.\<close>

definition gives :: "('s \<Rightarrow> bool) \<Rightarrow> ('s, 'a) dbm \<Rightarrow> ('a \<Rightarrow> bool) \<Rightarrow> bool" where
  "gives P m Q \<longleftrightarrow> (\<forall>s r s'. P s \<longrightarrow> m s = (r, s') \<longrightarrow> P s' \<and> (\<forall>x. r = Inr x \<longrightarrow> Q x))"

lemma gives_keeps: "gives P m Q \<Longrightarrow> keeps P m"
  unfolding gives_def keeps_def by (metis prod.collapse)

lemma givesD: "gives P m Q \<Longrightarrow> P s \<Longrightarrow> m s = (r, s') \<Longrightarrow> P s'"
  unfolding gives_def by blast

lemma gives_ret: "Q x \<Longrightarrow> gives P (retE x) Q"
  by (simp add: gives_def)

lemma gives_throw: "gives P (throwE e) Q"
  by (simp add: gives_def)

lemma gives_bind:
  assumes "gives P m Q" "\<And>x. Q x \<Longrightarrow> gives P (f x) R"
  shows "gives P (bindE m f) R"
  unfolding gives_def
proof (intro allI impI)
  fix s r s'
  assume s: "P s" "bindE m f s = (r, s')"
  obtain r1 s1 where m: "m s = (r1, s1)" by fastforce
  show "P s' \<and> (\<forall>x. r = Inr x \<longrightarrow> R x)"
  proof (cases r1)
    case (Inl e)
    with m s assms(1) show ?thesis by (auto simp: bindE_def gives_def)
  next
    case (Inr x)
    with m s assms(1) have "P s1" "Q x" "f x s1 = (r, s')" by (auto simp: bindE_def gives_def)
    with assms(2) [of x] show ?thesis unfolding gives_def by blast
  qed
qed

lemma gives_if: "(b \<Longrightarrow> gives P m Q) \<Longrightarrow> (\<not> b \<Longrightarrow> gives P n Q) \<Longrightarrow> gives P (if b then m else n) Q"
  by simp

lemma gives_case_option:
  "(x = None \<Longrightarrow> gives P m Q) \<Longrightarrow> (\<And>y. x = Some y \<Longrightarrow> gives P (f y) Q) \<Longrightarrow>
   gives P (case x of None \<Rightarrow> m | Some y \<Rightarrow> f y) Q"
  by (cases x) simp_all

lemma gives_weaken: "gives P m Q \<Longrightarrow> (\<And>x. Q x \<Longrightarrow> R x) \<Longrightarrow> gives P m R"
  unfolding gives_def by blast

section \<open>Statements and transactions\<close>

definition dbCall :: "('a dbstate_scheme, 'r) dbm \<Rightarrow> ('a dbstate_scheme, 'r) dbm" where
  "dbCall stmt s =
     (case dbFaults s of
        [] \<Rightarrow> stmt s
      | f # fs \<Rightarrow> let s = s\<lparr> dbFaults := fs \<rparr> in if f then (Inl ''database error'', s) else stmt s)"

text \<open>\<^verbatim>\<open>beginTx\<close> of \<^verbatim>\<open>dao.go\<close>.\<close>

definition Transaction :: "('a dbstate_scheme, 'r) dbm \<Rightarrow> ('a dbstate_scheme, 'r) dbm" where
  "Transaction body s =
     (case body s of
        (Inl e, s') \<Rightarrow> (Inl e, s'\<lparr> dbTables := dbTables s \<rparr>)
      | (Inr x, s') \<Rightarrow>
          (case dbCall (retE x) s' of
             (Inl e, s'') \<Rightarrow> (Inl (''transaction commit failed:'' @ e), s''\<lparr> dbTables := dbTables s \<rparr>)
           | (Inr x, s'') \<Rightarrow> (Inr x, s'')))"

section \<open>order.go\<close>

definition setStatusByAmounts :: "Order \<Rightarrow> Order" where
  "setStatusByAmounts ord = ord\<lparr> Status :=
     (if ConfirmedAmount ord = Amount ord then OrderFullFilled
      else if CanceledAmount ord = Amount ord then OrderCanceled
      else if 0 < \<bar>AvailableAmount ord + PendingAmount ord\<bar> then OrderPending
      else OrderPartialFilled) \<rparr>"

text \<open>
  \<^verbatim>\<open>marshalCancelReason\<close> sorts the slice it shares with the order; the JSON column holds the
  reasons. The columns left out of the table have their zero value when a row is loaded.
\<close>

definition marshalCancelReason :: "Order \<Rightarrow> Order" where
  "marshalCancelReason ord = ord\<lparr> CancelReasons := sort_key crCanceledAt (CancelReasons ord) \<rparr>"

definition dbRow :: "Order \<Rightarrow> Order" where
  "dbRow ord = ord\<lparr> OldStatus := OrderStatusUnset, CheckAmount := 0 \<rparr>"

text \<open>
  \<^verbatim>\<open>Save\<close> of gorm: a row with the zero primary key is inserted under a fresh key, any other one
  replaces the row with its key. The unique index \<^verbatim>\<open>idx_order_hash\<close> rejects a second row with
  the same order hash.
\<close>

definition saveOrder :: "Order \<Rightarrow> ('a dbstate_scheme, unit) dbm" where
  "saveOrder row s =
     (let t = dbTables s in
      if \<exists>r \<in> set (tOrders t). OrderHash r = OrderHash row \<and> (ID row = 0 \<or> ID r \<noteq> ID row)
      then (Inl ''duplicate key value violates unique constraint'', s)
      else if ID row = 0
      then (Inr (), s\<lparr> dbTables := t\<lparr> tOrders := tOrders t @ [row\<lparr> ID := tNextID t \<rparr>],
                                        tNextID := tNextID t + 1 \<rparr> \<rparr>)
      else if \<exists>r \<in> set (tOrders t). ID r = ID row
      then (Inr (), s\<lparr> dbTables := t\<lparr> tOrders := map (\<lambda>r. if ID r = ID row then row else r) (tOrders t) \<rparr> \<rparr>)
      else (Inr (), s\<lparr> dbTables := t\<lparr> tOrders := tOrders t @ [row] \<rparr> \<rparr>))"

text \<open>The order comes back with the fields the call sets on it.\<close>

definition CreateOrder :: "time \<Rightarrow> Order \<Rightarrow> ('a dbstate_scheme, Order) dbm" where
  "CreateOrder now order =
     (let t = setStatusByAmounts ((marshalCancelReason order)\<lparr> CreatedAt := now \<rparr>);
          order = (marshalCancelReason order)\<lparr> OldStatus := Status order, Status := Status t \<rparr>
      in bindE (dbCall (saveOrder (dbRow t))) (\<lambda>_. retE order))"

definition UpdateOrder :: "time \<Rightarrow> Order \<Rightarrow> ('a dbstate_scheme, Order) dbm" where
  "UpdateOrder now order =
     (let t = setStatusByAmounts ((marshalCancelReason order)\<lparr> UpdatedAt := now \<rparr>);
          order = (marshalCancelReason order)\<lparr> OldStatus := Status order, Status := Status t \<rparr>
      in bindE (dbCall (saveOrder (dbRow t))) (\<lambda>_. retE order))"

definition GetOrderByHash :: "string \<Rightarrow> ('a dbstate_scheme, Order) dbm" where
  "GetOrderByHash orderHash =
     dbCall (\<lambda>s. case find (\<lambda>r. OrderHash r = orderHash) (tOrders (dbTables s)) of
               None \<Rightarrow> (Inl ''GetOrder:record not found'', s)
             | Some r \<Rightarrow> (Inr r, s))"

definition GetOrderByHashs :: "string list \<Rightarrow> ('a dbstate_scheme, Order list) dbm" where
  "GetOrderByHashs hashs =
     dbCall (\<lambda>s. (Inr (filter (\<lambda>r. OrderHash r \<in> set hashs) (tOrders (dbTables s))), s))"

text \<open>The \<^verbatim>\<open>WHERE\<close> clause of \<^verbatim>\<open>QueryOrder\<close>; an empty string, list or a zero is no condition.\<close>

definition orderWhere ::
  "string \<Rightarrow> string \<Rightarrow> int \<Rightarrow> OrderStatus list \<Rightarrow> int \<Rightarrow> int \<Rightarrow> Order \<Rightarrow> bool" where
  "orderWhere traderAddress poolAddress perpIndex status beforeOrderID afterOrderID r \<longleftrightarrow>
     (traderAddress \<noteq> [] \<longrightarrow> TraderAddress r = traderAddress) \<and>
     (poolAddress \<noteq> [] \<longrightarrow> LiquidityPoolAddress r = poolAddress \<and> PerpetualIndex r = perpIndex) \<and>
     (status \<noteq> [] \<longrightarrow> Status r \<in> set status) \<and>
     (0 < beforeOrderID \<longrightarrow> ID r < beforeOrderID) \<and> (0 < afterOrderID \<longrightarrow> afterOrderID < ID r)"

definition limitDesc :: "nat \<Rightarrow> Order list \<Rightarrow> Order list" where
  "limitDesc maxRows rows = (if 0 < maxRows then take maxRows (rev (sort_key ID rows)) else rows)"

definition QueryOrder ::
  "string \<Rightarrow> string \<Rightarrow> int \<Rightarrow> OrderStatus list \<Rightarrow> int \<Rightarrow> int \<Rightarrow> nat \<Rightarrow> ('a dbstate_scheme, Order list) dbm" where
  "QueryOrder traderAddress poolAddress perpIndex status beforeOrderID afterOrderID maxRows =
     dbCall (\<lambda>s. (Inr (limitDesc maxRows (filter (orderWhere traderAddress poolAddress perpIndex status
                         beforeOrderID afterOrderID) (tOrders (dbTables s)))), s))"

text \<open>A zero time is no condition.\<close>

definition QueryOrderWithCreateTime ::
  "string \<Rightarrow> string \<Rightarrow> int \<Rightarrow> OrderStatus list \<Rightarrow> int \<Rightarrow> int \<Rightarrow> time option \<Rightarrow> time option \<Rightarrow> nat \<Rightarrow>
   ('a dbstate_scheme, Order list) dbm" where
  "QueryOrderWithCreateTime traderAddress poolAddress perpIndex status beforeOrderID afterOrderID
     beginTime endTime maxRows =
     dbCall (\<lambda>s. (Inr (limitDesc maxRows (filter (\<lambda>r.
        orderWhere traderAddress poolAddress perpIndex status beforeOrderID afterOrderID r \<and>
        (case beginTime of None \<Rightarrow> True | Some t \<Rightarrow> t < CreatedAt r) \<and>
        (case endTime of None \<Rightarrow> True | Some t \<Rightarrow> CreatedAt r < t)) (tOrders (dbTables s)))), s))"

definition GetPendingOrderUsers ::
  "string \<Rightarrow> int \<Rightarrow> OrderStatus list \<Rightarrow> ('a dbstate_scheme, string list) dbm" where
  "GetPendingOrderUsers poolAddress perpIndex status =
     dbCall (\<lambda>s. (Inr (remdups (map TraderAddress
        (filter (orderWhere [] poolAddress perpIndex status 0 0) (tOrders (dbTables s))))), s))"

fun LoadMatchOrders :: "MatchItemRow list \<Rightarrow> ('a dbstate_scheme, Order list) dbm" where
  "LoadMatchOrders [] = retE []"
| "LoadMatchOrders (item # items) =
     bindE (GetOrderByHash (miOrderHash item)) (\<lambda>ord.
     bindE (LoadMatchOrders items) (\<lambda>ords. retE (ord # ords)))"

section \<open>match_transaction.go\<close>

definition CreateMatchTransaction :: "MatchTransaction \<Rightarrow> ('a dbstate_scheme, unit) dbm" where
  "CreateMatchTransaction tx =
     dbCall (\<lambda>s. let t = dbTables s in
       if \<exists>r \<in> set (tMatchTxs t). mtID r = mtID tx then (Inl ''duplicate key value'', s)
       else (Inr (), s\<lparr> dbTables := t\<lparr> tMatchTxs := tMatchTxs t @ [tx] \<rparr> \<rparr>))"

definition GetMatchTransaction :: "string \<Rightarrow> ('a dbstate_scheme, MatchTransaction) dbm" where
  "GetMatchTransaction txID =
     dbCall (\<lambda>s. case find (\<lambda>r. mtID r = txID) (tMatchTxs (dbTables s)) of
               None \<Rightarrow> (Inl ''GetMatchTransaction:record not found'', s)
             | Some r \<Rightarrow> (Inr r, s))"

definition UpdateMatchTransaction :: "MatchTransaction \<Rightarrow> ('a dbstate_scheme, unit) dbm" where
  "UpdateMatchTransaction tx =
     dbCall (\<lambda>s. let t = dbTables s in
       if \<exists>r \<in> set (tMatchTxs t). mtID r = mtID tx
       then (Inr (), s\<lparr> dbTables := t\<lparr> tMatchTxs :=
              map (\<lambda>r. if mtID r = mtID tx then tx else r) (tMatchTxs t) \<rparr> \<rparr>)
       else (Inr (), s\<lparr> dbTables := t\<lparr> tMatchTxs := tMatchTxs t @ [tx] \<rparr> \<rparr>))"

definition QueryMatchTransaction ::
  "string \<Rightarrow> int \<Rightarrow> TransactionStatus list \<Rightarrow> ('a dbstate_scheme, MatchTransaction list) dbm" where
  "QueryMatchTransaction poolAddress perpIndex status =
     dbCall (\<lambda>s. (Inr (filter (\<lambda>r.
        (poolAddress \<noteq> [] \<longrightarrow> mtLiquidityPoolAddress r = poolAddress \<and> mtPerpetualIndex r = perpIndex) \<and>
        (status \<noteq> [] \<longrightarrow> mtStatus r \<in> set status)) (tMatchTxs (dbTables s))), s))"

definition QueryUnconfirmedTransactions :: "('a dbstate_scheme, MatchTransaction list) dbm" where
  "QueryUnconfirmedTransactions =
     dbCall (\<lambda>s. (Inr (filter (\<lambda>r. \<not> mtBlockConfirmed r) (tMatchTxs (dbTables s))), s))"

definition QueryUnconfirmedTransactionsByContract ::
  "string \<Rightarrow> int \<Rightarrow> ('a dbstate_scheme, MatchTransaction list) dbm" where
  "QueryUnconfirmedTransactionsByContract poolAddress perpIndex =
     dbCall (\<lambda>s. (Inr (filter (\<lambda>r. mtLiquidityPoolAddress r = poolAddress \<and>
        mtPerpetualIndex r = perpIndex \<and> \<not> mtBlockConfirmed r) (tMatchTxs (dbTables s))), s))"

section \<open>perpetual.go\<close>

definition perpKey :: "Perpetual \<Rightarrow> string \<times> int" where
  "perpKey p = (ppLiquidityPoolAddress p, ppPerpetualIndex p)"

definition GetPerpetualByPoolAddressAndIndex ::
  "string \<Rightarrow> int \<Rightarrow> bool \<Rightarrow> ('a dbstate_scheme, Perpetual) dbm" where
  "GetPerpetualByPoolAddressAndIndex address index publishedOnly =
     dbCall (\<lambda>s. case find (\<lambda>p. perpKey p = (address, index) \<and> (publishedOnly \<longrightarrow> ppIsPublished p))
                       (tPerpetuals (dbTables s)) of
               None \<Rightarrow> (Inl ''GetPerpetualByAddress:record not found'', s)
             | Some p \<Rightarrow> (Inr p, s))"

definition QueryPerpetuals :: "bool \<Rightarrow> ('a dbstate_scheme, Perpetual list) dbm" where
  "QueryPerpetuals publishedOnly =
     dbCall (\<lambda>s. (Inr (filter (\<lambda>p. publishedOnly \<longrightarrow> ppIsPublished p) (tPerpetuals (dbTables s))), s))"

end
