(* ===== verification/Match.thy ===== *)
theory Match
  imports Match_Order Dao
begin

text \<open>
  \<^verbatim>\<open>src/match\<close>: the handlers of one perpetual's matcher (\<^verbatim>\<open>match.go\<close>, \<^verbatim>\<open>new_order.go\<close>,
  \<^verbatim>\<open>cancel_order.go\<close>, \<^verbatim>\<open>match_result.go\<close>, \<^verbatim>\<open>timer.go\<close>). Every handler holds the
  mutex of the matcher from its first to its last statement, so a handler is one step on the
  state: the database, the order book, the expiration timers, the pool cache, the messages sent to
  the websocket and the tokens in the trigger channel. A transaction that fails restores the
  database only.
\<close>

section \<open>State\<close>

record mstate = dbstate +
  msBook :: Orderbook
  msTimers :: "(string \<times> time) list"
  msExpired :: "string list"
  msPools :: poolSyncer
  msWs :: "Order list"
  msTrgr :: nat

definition ChannelHWM :: nat where
  "ChannelHWM = 64"

definition notifyAll :: "Order list \<Rightarrow> mstate \<Rightarrow> mstate" where
  "notifyAll ords s = s\<lparr> msWs := msWs s @ ords \<rparr>"

section \<open>timer.go\<close>

text \<open>
  A timer in the past starts a goroutine that expires the order as soon as it gets the mutex:
  the order hash is queued in \<open>msExpired\<close>.
\<close>

definition setExpirationTimer :: "time \<Rightarrow> string \<Rightarrow> time \<Rightarrow> (mstate, unit) dbm" where
  "setExpirationTimer now orderID expiresAt s =
     (if \<not> now < expiresAt then (Inr (), s\<lparr> msExpired := msExpired s @ [orderID] \<rparr>)
      else (Inr (), s\<lparr> msTimers := AList.update orderID expiresAt (msTimers s) \<rparr>))"

definition deleteOrderTimer :: "string \<Rightarrow> mstate \<Rightarrow> mstate" where
  "deleteOrderTimer orderID s = s\<lparr> msTimers := AList.delete orderID (msTimers s) \<rparr>"

definition stopTimers :: "mstate \<Rightarrow> mstate" where
  "stopTimers s = s\<lparr> msTimers := [] \<rparr>"

section \<open>The order book as part of the state\<close>

definition bookInsert :: "MemoryOrder \<Rightarrow> (mstate, unit) dbm" where
  "bookInsert ord s = (let (r, b) = InsertOrder (msBook s) ord in (r, s\<lparr> msBook := b \<rparr>))"

definition bookChange :: "MemoryOrder \<Rightarrow> decimal \<Rightarrow> (mstate, unit) dbm" where
  "bookChange ord x s = (let (r, b) = ChangeOrder (msBook s) ord x in (r, s\<lparr> msBook := b \<rparr>))"

definition getMemoryOrder :: "Order \<Rightarrow> MemoryOrder" where
  "getMemoryOrder order =
     \<lparr> moID = OrderHash order, moLiquidityPoolAddress = LiquidityPoolAddress order,
       moPerpetualIndex = PerpetualIndex order, moPrice = Price order,
       moTriggerPrice = TriggerPrice order, moAmount = AvailableAmount order,
       moMinTradeAmount = MinTradeAmount order, moType = Type order, moTrader = TraderAddress order \<rparr>"

section \<open>match.go\<close>

definition newCancelReasons :: "time \<Rightarrow> MatchItem \<Rightarrow> OrderCancelReason list" where
  "newCancelReasons now item =
     map (\<lambda>(r, a). \<lparr> crReason = r, crAmount = a, crCanceledAt = now, crTransactionHash = [] \<rparr>)
       (zip (mitOrderCancelReasons item) (mitOrderCancelAmounts item))"

text \<open>The order with an item matched: available to pending, the cancelled rest to cancelled.\<close>

definition matchedOrder :: "time \<Rightarrow> MatchItem \<Rightarrow> Order \<Rightarrow> Order" where
  "matchedOrder now item order =
     (let order = order\<lparr> AvailableAmount := AvailableAmount order - mitMatchedAmount item,
                         PendingAmount := PendingAmount order + mitMatchedAmount item \<rparr>
      in if mitOrderTotalCancel item \<noteq> 0
         then order\<lparr> CanceledAmount := CanceledAmount order + mitOrderTotalCancel item,
                     AvailableAmount := AvailableAmount order - mitOrderTotalCancel item,
                     CancelReasons := CancelReasons order @ newCancelReasons now item \<rparr>
         else order)"

fun matchItemsLoop ::
  "time \<Rightarrow> MatchItem list \<Rightarrow> (mstate, MatchItemRow list \<times> Order list) dbm" where
  "matchItemsLoop now [] = retE ([], [])"
| "matchItemsLoop now (item # items) =
     bindE (GetOrderByHash (moID (mitOrder item))) (\<lambda>order.
       if \<not> HasTheSameSign (AvailableAmount order - mitMatchedAmount item) (AvailableAmount order)
       then throwE ''order avaliable is negative after match''
       else bindE (UpdateOrder now (matchedOrder now item order)) (\<lambda>order'.
            bindE (matchItemsLoop now items) (\<lambda>(rows, ords).
              retE (\<lparr> miOrderHash = OrderHash order, miAmount = mitMatchedAmount item \<rparr> # rows,
                    order' # ords))))"

fun changeBookLoop :: "MatchItem list \<Rightarrow> (mstate, unit) dbm" where
  "changeBookLoop [] = retE ()"
| "changeBookLoop (item # items) =
     bindE (bookChange (mitOrder item) (- (mitMatchedAmount item + mitOrderTotalCancel item))) (\<lambda>_.
     changeBookLoop items)"

definition newMatchTransaction :: "conf \<Rightarrow> Perpetual \<Rightarrow> string \<Rightarrow> MatchItemRow list \<Rightarrow> MatchTransaction" where
  "newMatchTransaction cf perp uuid rows =
     \<lparr> mtID = uuid, mtLiquidityPoolAddress = ppLiquidityPoolAddress perp,
       mtPerpetualIndex = ppPerpetualIndex perp, mtBrokerAddress = cfBrokerAddress cf,
       mtStatus = TransactionStatusInit, mtBlockConfirmed = False, mtBlockNumber = None,
       mtBlockHash = None, mtTransactionHash = None, mtExecutedAt = None,
       mtMatchResult = \<lparr> MatchItems = rows, SuccItems = [], FailedItems = [] \<rparr> \<rparr>"

definition matchTx :: "conf \<Rightarrow> Perpetual \<Rightarrow> string \<Rightarrow> time \<Rightarrow> MatchItem list \<Rightarrow> (mstate, Order list) dbm" where
  "matchTx cf perp uuid now matchItems =
     Transaction (bindE (matchItemsLoop now matchItems) (\<lambda>(rows, ords).
       bindE (CreateMatchTransaction (newMatchTransaction cf perp uuid rows)) (\<lambda>_.
       bindE (changeBookLoop matchItems) (\<lambda>_. retE ords))))"

text \<open>\<open>uuid\<close> is the result of \<^verbatim>\<open>uuid.NewRandom\<close>; \<open>None\<close> of the result is a panic.\<close>

definition matchOrders ::
  "decimal_lib \<Rightarrow> chain_env \<Rightarrow> conf \<Rightarrow> Perpetual \<Rightarrow> string option \<Rightarrow> mstate \<Rightarrow> mstate option" where
  "matchOrders L env cf perp uuid s =
     (case QueryOrder [] (ppLiquidityPoolAddress perp) (ppPerpetualIndex perp) [OrderPending] 0 0 0 s of
        (Inl _, s) \<Rightarrow> Some s
      | (Inr orders, s) \<Rightarrow>
          if orders = [] then Some s
          else do {
            (matchItems, pools) \<leftarrow> MatchOrderSideBySide L env cf perp (msBook s) (msPools s);
            let s = s\<lparr> msPools := pools \<rparr>;
            (if matchItems = [] then Some s
             else case uuid of
               None \<Rightarrow> Some s
             | Some u \<Rightarrow>
                 (case matchTx cf perp u (envNow env) matchItems s of
                    (Inl _, s) \<Rightarrow> Some s
                  | (Inr ords, s) \<Rightarrow> Some (notifyAll ords s)))
          })"

fun reloadLoop :: "time \<Rightarrow> Order list \<Rightarrow> (mstate, unit) dbm" where
  "reloadLoop now [] = retE ()"
| "reloadLoop now (order # orders) =
     (if AvailableAmount order \<noteq> 0
      then bindE (bookInsert (getMemoryOrder order)) (\<lambda>_.
           bindE (setExpirationTimer now (OrderHash order) (ExpiresAt order)) (\<lambda>_.
           reloadLoop now orders))
      else reloadLoop now orders)"

definition reloadActiveOrders :: "time \<Rightarrow> Perpetual \<Rightarrow> (mstate, unit) dbm" where
  "reloadActiveOrders now perp =
     bindE (QueryOrder [] (ppLiquidityPoolAddress perp) (ppPerpetualIndex perp) [OrderPending] 0 0 0)
       (\<lambda>orders. reloadLoop now orders)"

text \<open>\<^verbatim>\<open>newMatch\<close>: a new matcher has an empty book and no timers, and loads the open orders.\<close>

definition newMatch :: "time \<Rightarrow> Perpetual \<Rightarrow> (mstate, unit) dbm" where
  "newMatch now perp s =
     reloadActiveOrders now perp (s\<lparr> msBook := NewOrderbook, msTimers := [], msExpired := [], msTrgr := 0 \<rparr>)"

section \<open>new_order.go\<close>

record OrdersEachPerp =
  oeLiquidityPoolAddress :: string
  oePerpetualIndex :: int
  oePoolStorage :: LiquidityPoolStorage
  oeOrders :: "Order list"

text \<open>The map is keyed by pool address and perpetual index.\<close>

fun splitActiveOrdersWithCollateral ::
  "chain_env \<Rightarrow> Order list \<Rightarrow> string \<Rightarrow> ((string \<times> int) \<times> OrdersEachPerp) list \<Rightarrow> poolSyncer \<Rightarrow>
   ((string \<times> int) \<times> OrdersEachPerp) list result \<times> poolSyncer" where
  "splitActiveOrdersWithCollateral env [] collateral res ps = (Inr res, ps)"
| "splitActiveOrdersWithCollateral env (order # orders) collateral res ps =
     (let perpetualID = (LiquidityPoolAddress order, PerpetualIndex order) in
      case map_of res perpetualID of
        Some oe \<Rightarrow> splitActiveOrdersWithCollateral env orders collateral
                     (AList.update perpetualID (oe\<lparr> oeOrders := oeOrders oe @ [order] \<rparr>) res) ps
      | None \<Rightarrow>
          if CollateralAddress order = collateral then
            (case GetPoolStorage env (LiquidityPoolAddress order) ps of
               (None, ps) \<Rightarrow> (Inl ''get pool storage error'', ps)
             | (Some (poolStorage, _), ps) \<Rightarrow>
                 splitActiveOrdersWithCollateral env orders collateral
                   (AList.update perpetualID
                      \<lparr> oeLiquidityPoolAddress = LiquidityPoolAddress order,
                        oePerpetualIndex = PerpetualIndex order, oePoolStorage = poolStorage,
                        oeOrders = [order] \<rparr> res) ps)
          else splitActiveOrdersWithCollateral env orders collateral res ps)"

text \<open>
  The loop over the groups of orders: each group is checked against what the earlier ones left of
  the wallet. \<open>Inl\<close> is the code with which \<^verbatim>\<open>NewOrder\<close> returns.
\<close>

fun availableLoop ::
  "decimal_lib \<Rightarrow> chain_env \<Rightarrow> Perpetual \<Rightarrow> AccountStorage \<Rightarrow> string \<Rightarrow> OrdersEachPerp list \<Rightarrow> decimal \<Rightarrow>
   (MatchCode + decimal) option" where
  "availableLoop L env perp account trader [] walletBalance = Some (Inr walletBalance)"
| "availableLoop L env perp account trader (v # vs) walletBalance =
     (case (if oeLiquidityPoolAddress v = ppLiquidityPoolAddress perp \<and>
               oePerpetualIndex v = ppPerpetualIndex perp
            then Some account
            else envAccount env (oePerpetualIndex v) (oeLiquidityPoolAddress v) trader) of
        None \<Rightarrow> Some (Inl MatchInternalErrorID)
      | Some a \<Rightarrow> do {
          (_, available) \<leftarrow> ComputeOrderAvailable L (oePoolStorage v) (oePerpetualIndex v)
                               (a\<lparr> WalletBalance := walletBalance \<rparr>) (oeOrders v);
          if available < 0 then Some (Inl MatchInsufficientBalanceErrorID)
          else availableLoop L env perp account trader vs available
        })"

text \<open>The gas checks: \<open>None\<close> when the order passes.\<close>

definition gasCheck :: "chain_env \<Rightarrow> conf \<Rightarrow> Order \<Rightarrow> nat \<Rightarrow> MatchCode option" where
  "gasCheck env cf order activeOrders =
     (if cfGasEnable cf then
        (case envGasBalance env (cfBrokerAddress cf) (TraderAddress order) of
           None \<Rightarrow> Some MatchInternalErrorID
         | Some gasBalance \<Rightarrow>
             let gasBalance = ToWad gasBalance;
                 gasReward = envGasPrice env * of_int (GasFeeLimit order);
                 ordersGasReward = gasReward * of_nat (activeOrders + 1)
             in if gasBalance < ordersGasReward then Some MatchGasNotEnoughErrorID
                else if ToGwei (of_int (BrokerFeeLimit order)) < gasReward
                  then Some MatchGasNotEnoughErrorID
                else None)
      else None)"

text \<open>The transaction at the end: insert into the database, into the book, set the timer.\<close>

definition newOrderTx :: "time \<Rightarrow> Order \<Rightarrow> (mstate, Order) dbm" where
  "newOrderTx now order =
     Transaction (bindE (CreateOrder now order) (\<lambda>order.
       bindE (bookInsert (getMemoryOrder order)) (\<lambda>_.
       bindE (setExpirationTimer now (OrderHash order) (ExpiresAt order)) (\<lambda>_. retE order))))"

text \<open>
  The checks of \<^verbatim>\<open>NewOrder\<close>, up to the transaction: \<open>Inl\<close> is the code it returns, \<open>Inr\<close> the
  order with its gas limit. \<open>visit\<close> is the order in which the \<^verbatim>\<open>range\<close> loop visits the map of
  groups.
\<close>

definition checkNewOrder ::
  "decimal_lib \<Rightarrow> chain_env \<Rightarrow> conf \<Rightarrow> Perpetual \<Rightarrow> (OrdersEachPerp list \<Rightarrow> OrdersEachPerp list) \<Rightarrow>
   Order \<Rightarrow> mstate \<Rightarrow> ((MatchCode + Order) \<times> mstate) option" where
  "checkNewOrder L env cf perp visit order s =
     (case QueryOrder (TraderAddress order) [] 0 [OrderPending] 0 0 0 s of
        (Inl _, s) \<Rightarrow> Some (Inl MatchInternalErrorID, s)
      | (Inr activeOrders, s) \<Rightarrow>
          if cfMaxOrderNum cf \<le> length activeOrders then Some (Inl MatchMaxOrderNumReachID, s)
          else case envAccount env (ppPerpetualIndex perp) (ppLiquidityPoolAddress perp) (TraderAddress order) of
            None \<Rightarrow> Some (Inl MatchInternalErrorID, s)
          | Some account \<Rightarrow>
          case envBalance env (ppCollateralAddress perp) (TraderAddress order) (ppCollateralDecimals perp) of
            None \<Rightarrow> Some (Inl MatchInternalErrorID, s)
          | Some balance \<Rightarrow>
          case envAllowance env (ppCollateralAddress perp) (TraderAddress order) (ppLiquidityPoolAddress perp)
                 (ppCollateralDecimals perp) of
            None \<Rightarrow> Some (Inl MatchInternalErrorID, s)
          | Some allowance \<Rightarrow>
          let walletBalance = min balance allowance in
          if CheckCloseOnly account order \<noteq> 0 then Some (Inl MatchCloseOnlyErrorID, s)
          else case GetPoolStorage env (ppLiquidityPoolAddress perp) (msPools s) of
            (None, pools) \<Rightarrow> Some (Inl MatchInternalErrorID, s\<lparr> msPools := pools \<rparr>)
          | (Some (poolStorage, _), pools) \<Rightarrow>
          let s = s\<lparr> msPools := pools \<rparr> in
          case map_of (Perpetuals poolStorage) (ppPerpetualIndex perp) of
            None \<Rightarrow> Some (Inl MatchInternalErrorID, s)
          | Some perpetual \<Rightarrow>
          if \<not> IsNormal perpetual then Some (Inl MatchInternalErrorID, s)
          else
          let order = order\<lparr> GasFeeLimit := GetGasFeeLimit (length (Perpetuals poolStorage)) (IsCloseOnly order) \<rparr> in
          case gasCheck env cf order (length activeOrders) of
            Some code \<Rightarrow> Some (Inl code, s)
          | None \<Rightarrow>
          case splitActiveOrdersWithCollateral env (activeOrders @ [order]) (CollateralAddress order) [] (msPools s) of
            (Inl _, pools) \<Rightarrow> Some (Inl MatchInternalErrorID, s\<lparr> msPools := pools \<rparr>)
          | (Inr orderMaps, pools) \<Rightarrow> do {
              let s = s\<lparr> msPools := pools \<rparr>;
              r \<leftarrow> availableLoop L env perp account (TraderAddress order) (visit (map snd orderMaps)) walletBalance;
              Some (case r of Inl code \<Rightarrow> Inl code | Inr _ \<Rightarrow> Inr order, s)
            })"

definition NewOrder ::
  "decimal_lib \<Rightarrow> chain_env \<Rightarrow> conf \<Rightarrow> Perpetual \<Rightarrow> (OrdersEachPerp list \<Rightarrow> OrdersEachPerp list) \<Rightarrow>
   Order \<Rightarrow> mstate \<Rightarrow> (MatchCode \<times> mstate) option" where
  "NewOrder L env cf perp visit order s = do {
     (r, s) \<leftarrow> checkNewOrder L env cf perp visit order s;
     (case r of
        Inl code \<Rightarrow> Some (code, s)
      | Inr order \<Rightarrow>
          (case newOrderTx (envNow env) order s of
             (Inl _, s) \<Rightarrow> Some (MatchInternalErrorID, s)
           | (Inr order, s) \<Rightarrow>
               let s = notifyAll [order] s in
               Some (MatchOK, if msTrgr s < ChannelHWM then s\<lparr> msTrgr := msTrgr s + 1 \<rparr> else s)))
   }"

section \<open>cancel_order.go\<close>

text \<open>
  What is to be cancelled: in the database and in the book, or nothing for an order that is
  already closed.
\<close>

definition cancelAmounts ::
  "Order \<Rightarrow> MemoryOrder option \<Rightarrow> bool \<Rightarrow> decimal \<Rightarrow> (decimal \<times> decimal) option" where
  "cancelAmounts order bookOrder cancelAll cancelAmount =
     (case bookOrder of
        None \<Rightarrow> if AvailableAmount order = 0 then None else Some (AvailableAmount order, 0)
      | Some bo \<Rightarrow>
          let cancelAll = (cancelAll \<or> AvailableAmount order \<noteq> moAmount bo);
              dbAmount = (if cancelAll then AvailableAmount order else cancelAmount);
              bookAmount = (if cancelAll then moAmount bo else cancelAmount);
              dbAmount = (if \<bar>AvailableAmount order\<bar> < \<bar>cancelAmount\<bar> then AvailableAmount order else dbAmount);
              bookAmount = (if \<bar>moAmount bo\<bar> < \<bar>cancelAmount\<bar> then AvailableAmount order else bookAmount)
          in Some (dbAmount, bookAmount))"

text \<open>The order and its entry of the book are at hand; the result is the order to notify, if any.\<close>

definition cancelFound ::
  "time \<Rightarrow> string \<Rightarrow> CancelReasonType \<Rightarrow> bool \<Rightarrow> decimal \<Rightarrow> Order \<Rightarrow> MemoryOrder option \<Rightarrow>
   (mstate, Order option) dbm" where
  "cancelFound now orderHash reason cancelAll cancelAmount order bookOrder =
     (case cancelAmounts order bookOrder cancelAll cancelAmount of
        None \<Rightarrow> retE None
      | Some (dbAmount, bookAmount) \<Rightarrow>
          bindE (if bookAmount \<noteq> 0
                 then (case bookOrder of None \<Rightarrow> throwE ''nil book order'' | Some bo \<Rightarrow> bookChange bo (- bookAmount))
                 else retE ()) (\<lambda>_.
          bindE (if dbAmount \<noteq> 0
                 then (case CancelOrder now order reason dbAmount of
                         Inl e \<Rightarrow> throwE e
                       | Inr order \<Rightarrow> bindE (UpdateOrder now order) (\<lambda>order. retE (Some order)))
                 else retE None) (\<lambda>notified s.
          (Inr notified, deleteOrderTimer orderHash s))))"

definition cancelBody ::
  "time \<Rightarrow> string \<Rightarrow> CancelReasonType \<Rightarrow> bool \<Rightarrow> decimal \<Rightarrow> (mstate, Order option) dbm" where
  "cancelBody now orderHash reason cancelAll cancelAmount =
     bindE (GetOrderByHash orderHash) (\<lambda>order s.
       cancelFound now orderHash reason cancelAll cancelAmount order
         (GetOrder (msBook s) orderHash (Amount order < 0) (Price order)) s)"

definition cancelOrderWithoutLock ::
  "time \<Rightarrow> string \<Rightarrow> CancelReasonType \<Rightarrow> bool \<Rightarrow> decimal \<Rightarrow> (mstate, unit) dbm" where
  "cancelOrderWithoutLock now orderHash reason cancelAll cancelAmount s =
     (case Transaction (cancelBody now orderHash reason cancelAll cancelAmount) s of
        (Inl e, s) \<Rightarrow> (Inl e, s)
      | (Inr None, s) \<Rightarrow> (Inr (), s)
      | (Inr (Some order), s) \<Rightarrow> (Inr (), notifyAll [order] s))"

text \<open>\<^verbatim>\<open>onOrderExpired\<close>: the timer of the order has fired.\<close>

definition onOrderExpired :: "time \<Rightarrow> string \<Rightarrow> mstate \<Rightarrow> mstate" where
  "onOrderExpired now orderID s =
     snd (cancelOrderWithoutLock now orderID CancelReasonExpired True 0 (deleteOrderTimer orderID s))"

end
