(* ===== verification/Match_Result.thy ===== *)
theory Match_Result
  imports Match
begin

text \<open>
  \<^verbatim>\<open>src/match/match_result.go\<close>: what the matcher does when the transaction of a match has
  been mined (\<^verbatim>\<open>UpdateOrdersStatus\<close>) and when a reorganisation of the chain has changed the
  result of one (\<^verbatim>\<open>RollbackOrdersStatus\<close>). The pending amounts of the matched orders become
  confirmed or cancelled or go back to the order book. The \<^verbatim>\<open>*model.MatchTransaction\<close> the Go
  code updates in place is passed and returned.
\<close>

section \<open>Helpers\<close>

definition TriggerPriceNotReach :: string where
  "TriggerPriceNotReach = ''trigger price is not reached''"

definition PriceExceedsLimit :: string where
  "PriceExceedsLimit = ''price exceeds limit''"

text \<open>\<^verbatim>\<open>time.Unix(int64(t), 0)\<close>, and the zero \<^verbatim>\<open>time.Time\<close> a null column holds.\<close>

definition unixTime :: "64 word \<Rightarrow> time" where
  "unixTime t = sint t"

definition zeroTime :: time where
  "zeroTime = - 62135596800"

definition nullTime :: "time option \<Rightarrow> time" where
  "nullTime t = (case t of None \<Rightarrow> zeroTime | Some t \<Rightarrow> t)"

definition nullString :: "string option \<Rightarrow> string" where
  "nullString t = (case t of None \<Rightarrow> [] | Some t \<Rightarrow> t)"

text \<open>The maps from order hashes to amounts; a later entry overwrites an earlier one.\<close>

definition amountMap :: "MatchItemRow list \<Rightarrow> (string \<times> decimal) list" where
  "amountMap items = foldl (\<lambda>m i. AList.update (miOrderHash i) (miAmount i) m) [] items"

definition successItems :: "TradeSuccessEvent list \<Rightarrow> MatchItemRow list" where
  "successItems events = map (\<lambda>e. \<lparr> miOrderHash = seOrderHash e, miAmount = seAmount e \<rparr>) events"

text \<open>A trade that failed on its price or its trigger price goes back to the order book.\<close>

definition failedItems :: "TradeFailedEvent list \<Rightarrow> MatchItemRow list" where
  "failedItems events =
     map (\<lambda>e. \<lparr> miOrderHash = feOrderHash e, miAmount = feAmount e \<rparr>)
       (filter (\<lambda>e. \<not> (feReason e = TriggerPriceNotReach \<or> feReason e = PriceExceedsLimit)) events)"

definition transactionFailReason :: "MatchTransaction \<Rightarrow> decimal \<Rightarrow> OrderCancelReason" where
  "transactionFailReason tx amount =
     \<lparr> crReason = CancelReasonTransactionFail, crAmount = amount,
       crCanceledAt = nullTime (mtExecutedAt tx), crTransactionHash = nullString (mtTransactionHash tx) \<rparr>"

text \<open>The cancel reasons of an order without the ones that the transaction added.\<close>

definition dropReasons :: "MatchTransaction \<Rightarrow> Order \<Rightarrow> Order" where
  "dropReasons tx order =
     order\<lparr> CancelReasons := filter (\<lambda>r. crTransactionHash r \<noteq> nullString (mtTransactionHash tx)) (CancelReasons order) \<rparr>"

section \<open>UpdateOrdersStatus\<close>

definition rollbackOrderbook :: "decimal \<Rightarrow> decimal \<Rightarrow> Order \<Rightarrow> (mstate, unit) dbm" where
  "rollbackOrderbook oldAmount delta order s =
     (if oldAmount = 0 then bookInsert (getMemoryOrder order) s
      else case GetOrder (msBook s) (OrderHash order) (Amount order < 0) (Price order) of
        Some bookOrder \<Rightarrow> bookChange bookOrder delta s
      | None \<Rightarrow> (Inl ''order not fund in orderbook'', s))"

definition recordTradeEvents ::
  "MatchTransaction \<Rightarrow> TradeSuccessEvent list \<Rightarrow> TradeFailedEvent list \<Rightarrow> MatchTransaction" where
  "recordTradeEvents tx successEvents failedEvents =
     (if mtStatus tx = TransactionStatusSuccess
      then tx\<lparr> mtMatchResult := (mtMatchResult tx)\<lparr>
             SuccItems := SuccItems (mtMatchResult tx) @ successItems successEvents,
             FailedItems := FailedItems (mtMatchResult tx) @ failedItems failedEvents \<rparr> \<rparr>
      else tx)"

text \<open>
  The body of the loop over the matched orders: \<open>succ\<close>, \<open>fail\<close> and \<open>matched\<close> are the maps the
  function builds first. A Go map gives the zero decimal for a missing key.
\<close>

definition matchAmountOf :: "(string \<times> decimal) list \<Rightarrow> Order \<Rightarrow> decimal" where
  "matchAmountOf matched order = (case map_of matched (OrderHash order) of Some a \<Rightarrow> a | None \<Rightarrow> 0)"

definition updateOneOrder ::
  "time \<Rightarrow> MatchTransaction \<Rightarrow> (string \<times> decimal) list \<Rightarrow> (string \<times> decimal) list \<Rightarrow>
   (string \<times> decimal) list \<Rightarrow> Order \<Rightarrow> (mstate, Order) dbm" where
  "updateOneOrder now tx succ fail matched order =
     (let matchAmount = matchAmountOf matched order in
      case map_of succ (OrderHash order) of
        Some amount \<Rightarrow>
          bindE (if amount \<noteq> matchAmount
                 then let oldAmount = AvailableAmount order;
                          order = order\<lparr> AvailableAmount := AvailableAmount order + (matchAmount - amount) \<rparr>
                      in bindE (rollbackOrderbook oldAmount (matchAmount - amount) order) (\<lambda>_. retE order)
                 else retE order) (\<lambda>order.
          UpdateOrder now (order\<lparr> PendingAmount := PendingAmount order - matchAmount,
                                   ConfirmedAmount := ConfirmedAmount order + amount \<rparr>))
      | None \<Rightarrow>
          case map_of fail (OrderHash order) of
            Some amount \<Rightarrow>
              UpdateOrder now (order\<lparr> PendingAmount := PendingAmount order - amount,
                                       CanceledAmount := CanceledAmount order + amount,
                                       CancelReasons := CancelReasons order @ [transactionFailReason tx amount] \<rparr>)
          | None \<Rightarrow>
              let oldAmount = AvailableAmount order in
              bindE (UpdateOrder now (order\<lparr> PendingAmount := PendingAmount order - matchAmount,
                                              AvailableAmount := AvailableAmount order + matchAmount \<rparr>)) (\<lambda>order.
              bindE (rollbackOrderbook oldAmount matchAmount order) (\<lambda>_. retE order)))"

fun updateOrdersLoop ::
  "time \<Rightarrow> MatchTransaction \<Rightarrow> (string \<times> decimal) list \<Rightarrow> (string \<times> decimal) list \<Rightarrow>
   (string \<times> decimal) list \<Rightarrow> Order list \<Rightarrow> (mstate, Order list) dbm" where
  "updateOrdersLoop now tx succ fail matched [] = retE []"
| "updateOrdersLoop now tx succ fail matched (order # orders) =
     bindE (updateOneOrder now tx succ fail matched order) (\<lambda>order.
     bindE (updateOrdersLoop now tx succ fail matched orders) (\<lambda>orders. retE (order # orders)))"

definition updateOrdersByTradeEvent ::
  "time \<Rightarrow> MatchTransaction \<Rightarrow> TradeSuccessEvent list \<Rightarrow> TradeFailedEvent list \<Rightarrow>
   (mstate, MatchTransaction \<times> Order list) dbm" where
  "updateOrdersByTradeEvent now tx successEvents failedEvents =
     (let executed = (mtStatus tx = TransactionStatusSuccess);
          succ = (if executed then amountMap (successItems successEvents) else []);
          fail = (if executed then amountMap (failedItems failedEvents) else []);
          tx = recordTradeEvents tx successEvents failedEvents;
          items = MatchItems (mtMatchResult tx)
      in bindE (GetOrderByHashs (map miOrderHash items)) (\<lambda>orders.
         bindE (updateOrdersLoop now tx succ fail (amountMap items) orders) (\<lambda>notify. retE (tx, notify))))"

definition executedTx ::
  "MatchTransaction \<Rightarrow> TransactionStatus \<Rightarrow> string \<Rightarrow> string \<Rightarrow> 64 word \<Rightarrow> 64 word \<Rightarrow> MatchTransaction" where
  "executedTx tx status transactionHash blockHash blockNumber blockTime =
     tx\<lparr> mtTransactionHash := Some transactionHash, mtBlockHash := Some blockHash,
         mtBlockNumber := Some (sint blockNumber), mtExecutedAt := Some (unixTime blockTime),
         mtStatus := status \<rparr>"

definition updateStatusTx ::
  "time \<Rightarrow> string \<Rightarrow> TransactionStatus \<Rightarrow> string \<Rightarrow> string \<Rightarrow> 64 word \<Rightarrow> 64 word \<Rightarrow>
   TradeSuccessEvent list \<Rightarrow> TradeFailedEvent list \<Rightarrow> (mstate, Order list) dbm" where
  "updateStatusTx now txID status transactionHash blockHash blockNumber blockTime successEvents failedEvents =
     Transaction (bindE (GetMatchTransaction txID) (\<lambda>tx.
       let tx = tx\<lparr> mtBlockConfirmed := True, mtStatus := status \<rparr>;
           tx = (if (status = TransactionStatusFail \<or> status = TransactionStatusSuccess) \<and> 0 < blockNumber
                 then executedTx tx status transactionHash blockHash blockNumber blockTime else tx)
       in bindE (updateOrdersByTradeEvent now tx successEvents failedEvents) (\<lambda>(tx, orders).
          bindE (UpdateMatchTransaction tx) (\<lambda>_. retE orders))))"

definition UpdateOrdersStatus ::
  "time \<Rightarrow> string \<Rightarrow> TransactionStatus \<Rightarrow> string \<Rightarrow> string \<Rightarrow> 64 word \<Rightarrow> 64 word \<Rightarrow>
   TradeSuccessEvent list \<Rightarrow> TradeFailedEvent list \<Rightarrow> (mstate, unit) dbm" where
  "UpdateOrdersStatus now txID status transactionHash blockHash blockNumber blockTime successEvents failedEvents s =
     (case updateStatusTx now txID status transactionHash blockHash blockNumber blockTime
             successEvents failedEvents s of
        (Inl e, s) \<Rightarrow> (Inl e, s)
      | (Inr orders, s) \<Rightarrow> (Inr (), notifyAll orders s))"

section \<open>RollbackOrdersStatus\<close>

definition addSuccItem :: "Order \<Rightarrow> decimal \<Rightarrow> MatchTransaction \<Rightarrow> MatchTransaction" where
  "addSuccItem order amount tx =
     tx\<lparr> mtMatchResult := (mtMatchResult tx)\<lparr> SuccItems := SuccItems (mtMatchResult tx) @
           [\<lparr> miOrderHash = OrderHash order, miAmount = amount \<rparr>] \<rparr> \<rparr>"

definition addFailedItem :: "Order \<Rightarrow> decimal \<Rightarrow> MatchTransaction \<Rightarrow> MatchTransaction" where
  "addFailedItem order amount tx =
     tx\<lparr> mtMatchResult := (mtMatchResult tx)\<lparr> FailedItems := FailedItems (mtMatchResult tx) @
           [\<lparr> miOrderHash = OrderHash order, miAmount = amount \<rparr>] \<rparr> \<rparr>"

text \<open>
  The three kinds of branches of the loop: the amount only moves between columns of the row, the
  amount also moves in or out of the order book, or nothing moves.
\<close>

definition moveAmount :: "time \<Rightarrow> Order \<Rightarrow> (mstate, unit) dbm" where
  "moveAmount now order = bindE (UpdateOrder now order) (\<lambda>_. retE ())"

definition moveWithBook :: "time \<Rightarrow> decimal \<Rightarrow> decimal \<Rightarrow> Order \<Rightarrow> (mstate, Order) dbm" where
  "moveWithBook now oldAmount delta order =
     bindE (UpdateOrder now order) (\<lambda>order.
     bindE (rollbackOrderbook oldAmount delta order) (\<lambda>_. retE order))"

text \<open>An order of the transaction that was confirmed by the earlier execution.\<close>

definition rollbackConfirmed ::
  "time \<Rightarrow> (string \<times> decimal) list \<Rightarrow> (string \<times> decimal) list \<Rightarrow> decimal \<Rightarrow> Order \<Rightarrow> MatchTransaction \<Rightarrow>
   (mstate, MatchTransaction \<times> Order list) dbm" where
  "rollbackConfirmed now succ fail amount order tx =
     (if map_of succ (OrderHash order) \<noteq> None then retE (addSuccItem order amount tx, [])
      else if map_of fail (OrderHash order) \<noteq> None then
        bindE (moveAmount now (order\<lparr> ConfirmedAmount := ConfirmedAmount order - amount,
                                       CanceledAmount := CanceledAmount order + amount,
                                       CancelReasons := CancelReasons order @ [transactionFailReason tx amount] \<rparr>)) (\<lambda>_.
        retE (addFailedItem order amount tx, []))
      else
        bindE (moveWithBook now (AvailableAmount order) amount
                 (order\<lparr> ConfirmedAmount := ConfirmedAmount order - amount,
                         AvailableAmount := AvailableAmount order + amount \<rparr>)) (\<lambda>order.
        retE (tx, [order])))"

text \<open>An order that the earlier execution cancelled.\<close>

definition rollbackFailed ::
  "time \<Rightarrow> (string \<times> decimal) list \<Rightarrow> (string \<times> decimal) list \<Rightarrow> decimal \<Rightarrow> Order \<Rightarrow> MatchTransaction \<Rightarrow>
   (mstate, MatchTransaction \<times> Order list) dbm" where
  "rollbackFailed now succ fail amount order tx =
     (if map_of succ (OrderHash order) \<noteq> None then
        bindE (moveAmount now (dropReasons tx
                 (order\<lparr> ConfirmedAmount := ConfirmedAmount order + amount,
                         CanceledAmount := CanceledAmount order - amount \<rparr>))) (\<lambda>_.
        retE (addSuccItem order amount tx, []))
      else if map_of fail (OrderHash order) \<noteq> None then retE (addFailedItem order amount tx, [])
      else
        bindE (moveWithBook now (AvailableAmount order) amount
                 (dropReasons tx
                   (order\<lparr> CanceledAmount := CanceledAmount order - amount,
                           AvailableAmount := AvailableAmount order + amount \<rparr>))) (\<lambda>order.
        retE (tx, [order])))"

text \<open>An order that the earlier execution left in the order book.\<close>

definition rollbackUnexecuted ::
  "time \<Rightarrow> (string \<times> decimal) list \<Rightarrow> (string \<times> decimal) list \<Rightarrow> Order \<Rightarrow> MatchTransaction \<Rightarrow>
   (mstate, MatchTransaction \<times> Order list) dbm" where
  "rollbackUnexecuted now succ fail order tx =
     (case map_of succ (OrderHash order) of
        Some amount \<Rightarrow>
          if \<bar>amount\<bar> \<le> \<bar>AvailableAmount order\<bar> then
            bindE (moveWithBook now (AvailableAmount order) (- amount)
                     (order\<lparr> ConfirmedAmount := ConfirmedAmount order + amount,
                             AvailableAmount := AvailableAmount order - amount \<rparr>)) (\<lambda>order.
            retE (addSuccItem order amount tx, [order]))
          else retE (tx, [])
      | None \<Rightarrow>
          case map_of fail (OrderHash order) of
            Some amount \<Rightarrow>
              if \<bar>amount\<bar> \<le> \<bar>AvailableAmount order\<bar> then
                bindE (moveWithBook now (AvailableAmount order) (- amount)
                         (order\<lparr> CanceledAmount := CanceledAmount order + amount,
                                 AvailableAmount := AvailableAmount order - amount,
                                 CancelReasons := CancelReasons order @ [transactionFailReason tx amount] \<rparr>)) (\<lambda>order.
                retE (addFailedItem order amount tx, [order]))
              else retE (tx, [])
          | None \<Rightarrow> retE (tx, []))"

text \<open>The loop over the orders: \<open>succBefore\<close> and \<open>failBefore\<close> are the results recorded earlier.\<close>

fun rollbackOrdersLoop ::
  "time \<Rightarrow> (string \<times> decimal) list \<Rightarrow> (string \<times> decimal) list \<Rightarrow> (string \<times> decimal) list \<Rightarrow>
   (string \<times> decimal) list \<Rightarrow> Order list \<Rightarrow> MatchTransaction \<Rightarrow>
   (mstate, MatchTransaction \<times> Order list) dbm" where
  "rollbackOrdersLoop now succBefore failBefore succ fail [] tx = retE (tx, [])"
| "rollbackOrdersLoop now succBefore failBefore succ fail (order # orders) tx =
     bindE (case map_of succBefore (OrderHash order) of
              Some amount \<Rightarrow> rollbackConfirmed now succ fail amount order tx
            | None \<Rightarrow>
                (case map_of failBefore (OrderHash order) of
                   Some amount \<Rightarrow> rollbackFailed now succ fail amount order tx
                 | None \<Rightarrow> rollbackUnexecuted now succ fail order tx)) (\<lambda>(tx, notify).
     bindE (rollbackOrdersLoop now succBefore failBefore succ fail orders tx) (\<lambda>(tx, rest).
     retE (tx, notify @ rest)))"

definition clearItems :: "MatchTransaction \<Rightarrow> MatchTransaction" where
  "clearItems tx = tx\<lparr> mtMatchResult := (mtMatchResult tx)\<lparr> SuccItems := [], FailedItems := [] \<rparr> \<rparr>"

definition rollbackOrdersByTradeEvent ::
  "time \<Rightarrow> MatchTransaction \<Rightarrow> TradeSuccessEvent list \<Rightarrow> TradeFailedEvent list \<Rightarrow>
   (mstate, MatchTransaction \<times> Order list) dbm" where
  "rollbackOrdersByTradeEvent now tx successEvents failedEvents =
     bindE (GetOrderByHashs (map miOrderHash (MatchItems (mtMatchResult tx)))) (\<lambda>orders.
     rollbackOrdersLoop now (amountMap (SuccItems (mtMatchResult tx))) (amountMap (FailedItems (mtMatchResult tx)))
       (amountMap (successItems successEvents)) (amountMap (failedItems failedEvents)) orders (clearItems tx))"

definition rollbackStatusTx ::
  "time \<Rightarrow> MatchTransaction \<Rightarrow> TransactionStatus \<Rightarrow> string \<Rightarrow> string \<Rightarrow> 64 word \<Rightarrow> 64 word \<Rightarrow>
   TradeSuccessEvent list \<Rightarrow> TradeFailedEvent list \<Rightarrow> (mstate, Order list) dbm" where
  "rollbackStatusTx now tx status transactionHash blockHash blockNumber blockTime successEvents failedEvents =
     Transaction (bindE (rollbackOrdersByTradeEvent now
         (if mtStatus tx \<noteq> status
          then executedTx tx status transactionHash blockHash blockNumber blockTime else tx)
         successEvents failedEvents) (\<lambda>(tx, orders).
       bindE (UpdateMatchTransaction tx) (\<lambda>_. retE orders)))"

definition RollbackOrdersStatus ::
  "time \<Rightarrow> MatchTransaction \<Rightarrow> TransactionStatus \<Rightarrow> string \<Rightarrow> string \<Rightarrow> 64 word \<Rightarrow> 64 word \<Rightarrow>
   TradeSuccessEvent list \<Rightarrow> TradeFailedEvent list \<Rightarrow> (mstate, unit) dbm" where
  "RollbackOrdersStatus now tx status transactionHash blockHash blockNumber blockTime successEvents failedEvents s =
     (case rollbackStatusTx now tx status transactionHash blockHash blockNumber blockTime
             successEvents failedEvents s of
        (Inl e, s) \<Rightarrow> (Inl e, s)
      | (Inr orders, s) \<Rightarrow> (Inr (), notifyAll orders s))"

end
