(* ===== verification/Match_Invariant.thy ===== *)
theory Match_Invariant
  imports Match_Result
begin

text \<open>
  What the handlers of a matcher keep, whatever fails: the accounting of every order row, its
  status, the identity of the rows and the shape of the order book. The matcher relies on the
  database through a few laws, the locale \<open>order_dao\<close>; the lemmas on the handlers are proved in
  it once. The step relation of a matcher has one rule per handler and per thing the environment
  does, and the invariant holds in every reachable state.
\<close>

section \<open>The invariant\<close>

text \<open>The fields of a row that no operation after the creation changes.\<close>

definition ident :: "Order \<Rightarrow> OrderParam \<times> int \<times> string \<times> string" where
  "ident r = (OrderParam.truncate r, ID r, OrderHash r, CollateralAddress r)"

definition amounts :: "Order \<Rightarrow> decimal \<times> decimal \<times> decimal \<times> decimal" where
  "amounts r = (AvailableAmount r, PendingAmount r, ConfirmedAmount r, CanceledAmount r)"

text \<open>A row is conserved and has the status that its amounts say.\<close>

definition row_ok :: "Order \<Rightarrow> bool" where
  "row_ok r \<longleftrightarrow> conserved r \<and> Status r = Status (setStatusByAmounts r)"

definition orders_ok :: "tables \<Rightarrow> bool" where
  "orders_ok t \<longleftrightarrow>
     distinct (map ID (tOrders t)) \<and> distinct (map OrderHash (tOrders t)) \<and> 0 < tNextID t \<and>
     (\<forall>r \<in> set (tOrders t). 0 < ID r \<and> ID r < tNextID t \<and> row_ok r)"

definition items_of :: "MatchTransaction \<Rightarrow> MatchItemRow list" where
  "items_of tx = MatchItems (mtMatchResult tx) @ SuccItems (mtMatchResult tx) @ FailedItems (mtMatchResult tx)"

definition tx_ok :: "MatchTransaction \<Rightarrow> bool" where
  "tx_ok tx \<longleftrightarrow> (\<forall>i \<in> set (items_of tx). miAmount i \<noteq> 0)"

text \<open>The tables with exactly the rows \<open>K\<close>, in this order.\<close>

definition tables_ok :: "(OrderParam \<times> int \<times> string \<times> string) list \<Rightarrow> tables \<Rightarrow> bool" where
  "tables_ok K t \<longleftrightarrow> orders_ok t \<and> map ident (tOrders t) = K \<and> (\<forall>tx \<in> set (tMatchTxs t). tx_ok tx)"

text \<open>A state whose tables satisfy \<open>T\<close> and whose book is well-formed.\<close>

definition well :: "(tables \<Rightarrow> bool) \<Rightarrow> mstate \<Rightarrow> bool" where
  "well T s \<longleftrightarrow> T (dbTables s) \<and> book_wf (msBook s)"

section \<open>Rules for computations\<close>

lemma ident_simps [simp]:
  "ident (r\<lparr> AvailableAmount := a \<rparr>) = ident r" "ident (r\<lparr> PendingAmount := a \<rparr>) = ident r"
  "ident (r\<lparr> ConfirmedAmount := a \<rparr>) = ident r" "ident (r\<lparr> CanceledAmount := a \<rparr>) = ident r"
  "ident (r\<lparr> CancelReasons := c \<rparr>) = ident r" "ident (r\<lparr> Status := st \<rparr>) = ident r"
  "ident (r\<lparr> OldStatus := st \<rparr>) = ident r" "ident (r\<lparr> UpdatedAt := time \<rparr>) = ident r"
  "ident (r\<lparr> CreatedAt := time \<rparr>) = ident r" "ident (r\<lparr> CheckAmount := a \<rparr>) = ident r"
  "ident (r\<lparr> GasFeeLimit := g \<rparr>) = ident r"
  by (simp_all add: ident_def OrderParam.defs)

lemma identD:
  assumes "ident r = ident r'"
  shows "ID r = ID r'" "OrderHash r = OrderHash r'" "Amount r = Amount r'" "Price r = Price r'"
    "LiquidityPoolAddress r = LiquidityPoolAddress r'" "PerpetualIndex r = PerpetualIndex r'"
    "TraderAddress r = TraderAddress r'" "TriggerPrice r = TriggerPrice r'"
    "MinTradeAmount r = MinTradeAmount r'" "Type r = Type r'"
  using assms by (auto simp: ident_def OrderParam.defs)

lemma conserved_iff:
  "conserved r \<longleftrightarrow> (case amounts r of (a, p, c, x) \<Rightarrow> Amount r = a + p + c + x)"
  by (simp add: conserved_def amounts_def)

lemma conserved_cong:
  "ident r = ident r' \<Longrightarrow> amounts r = amounts r' \<Longrightarrow> conserved r = conserved r'"
  using identD(3) [of r r'] by (simp add: conserved_iff)

lemma well_simps [simp]:
  "well T (s\<lparr> dbFaults := fs \<rparr>) = well T s" "well T (s\<lparr> msTimers := ts \<rparr>) = well T s"
  "well T (s\<lparr> msExpired := es \<rparr>) = well T s" "well T (s\<lparr> msPools := ps \<rparr>) = well T s"
  "well T (s\<lparr> msWs := ws \<rparr>) = well T s" "well T (s\<lparr> msTrgr := n \<rparr>) = well T s"
  by (simp_all add: well_def)

lemma gives_state: "(\<And>x. gives P (f x) Q) \<Longrightarrow> gives P (\<lambda>s. f s s) Q"
  unfolding gives_def by blast

lemma gives_dbCall:
  assumes "gives (well T) stmt Q"
  shows "gives (well T) (dbCall stmt) Q"
  unfolding gives_def
proof (intro allI impI)
  fix s r s'
  assume s: "well T s" "dbCall stmt s = (r, s')"
  have g: "well T s1 \<Longrightarrow> stmt s1 = (r, s') \<Longrightarrow> well T s' \<and> (\<forall>x. r = Inr x \<longrightarrow> Q x)" for s1
    using assms unfolding gives_def by blast
  show "well T s' \<and> (\<forall>x. r = Inr x \<longrightarrow> Q x)"
  proof (cases "dbFaults s")
    case Nil
    with s g [of s] show ?thesis by (simp add: dbCall_def)
  next
    case (Cons f fs)
    with s g [of "s\<lparr> dbFaults := fs \<rparr>"] show ?thesis by (auto simp: dbCall_def Let_def split: if_splits)
  qed
qed

lemma gives_read:
  "(\<And>s. well T s \<Longrightarrow> Q (f s)) \<Longrightarrow> gives (well T) (dbCall (\<lambda>s. (Inr (f s), s))) Q"
  by (rule gives_dbCall) (simp add: gives_def)

lemma gives_Transaction:
  assumes "gives (well T) body Q"
  shows "gives (well T) (Transaction body) Q"
  unfolding gives_def
proof (intro allI impI)
  fix s r s'
  assume s: "well T s" "Transaction body s = (r, s')"
  obtain r1 s1 where b: "body s = (r1, s1)" by fastforce
  with assms s(1) have w: "well T s1" and q: "\<And>x. r1 = Inr x \<Longrightarrow> Q x"
    unfolding gives_def by blast+
  have undo: "well T (s2\<lparr> dbTables := dbTables s \<rparr>)" if "well T s2" for s2
    using that s(1) by (simp add: well_def)
  show "well T s' \<and> (\<forall>x. r = Inr x \<longrightarrow> Q x)"
  proof (cases r1)
    case (Inl e)
    with s(2) b undo [OF w] show ?thesis by (auto simp: Transaction_def)
  next
    case (Inr x)
    obtain r2 s2 where c: "dbCall (retE x) s1 = (r2, s2)" by fastforce
    from gives_dbCall [OF gives_ret, of Q x T] q [OF Inr] w c
    have w2: "well T s2" "\<And>y. r2 = Inr y \<Longrightarrow> Q y" unfolding gives_def by blast+
    with s(2) b Inr c undo [OF w2(1)] show ?thesis by (auto simp: Transaction_def split: sum.splits)
  qed
qed

lemma gives_bookChange: "gives (well T) (bookChange ord x) (\<lambda>_. True)"
  unfolding gives_def bookChange_def by (auto simp: well_def split: prod.splits intro: ChangeOrder_wf)

lemma gives_bookInsert:
  assumes "moAmount ord \<noteq> 0"
  shows "gives (well T) (bookInsert ord) (\<lambda>_. True)"
  unfolding gives_def
proof (intro allI impI)
  fix s r s'
  assume s: "well T s" "bookInsert ord s = (r, s')"
  obtain r1 b where b: "InsertOrder (msBook s) ord = (r1, b)" by fastforce
  have "book_wf b"
  proof (cases r1)
    case (Inl e)
    with b s(1) show ?thesis using InsertOrder_error by (fastforce simp: well_def)
  next
    case (Inr u)
    with b s(1) assms InsertOrder_wf [of "msBook s" ord b] show ?thesis by (simp add: well_def)
  qed
  with s b show "well T s' \<and> (\<forall>x. r = Inr x \<longrightarrow> True)" by (auto simp: bookInsert_def well_def)
qed

lemma gives_setExpirationTimer: "gives (well T) (setExpirationTimer now i time) (\<lambda>_. True)"
  by (auto simp: gives_def setExpirationTimer_def split: if_splits)

lemma well_notifyAll [simp]: "well T (notifyAll ords s) = well T s"
  by (simp add: notifyAll_def)

lemma well_deleteOrderTimer [simp]: "well T (deleteOrderTimer i s) = well T s"
  by (simp add: deleteOrderTimer_def)

text \<open>The maps from hashes to amounts: the last item of a hash counts.\<close>

lemma amountMap_rev:
  "map_of (amountMap items) = map_of (rev (map (\<lambda>i. (miOrderHash i, miAmount i)) items))"
proof -
  have "map_of (foldl (\<lambda>m i. AList.update (miOrderHash i) (miAmount i) m) m items) =
      map_of m ++ map_of (rev (map (\<lambda>i. (miOrderHash i, miAmount i)) items))"
    for m :: "(string \<times> decimal) list" and items :: "MatchItemRow list"
    by (induction items arbitrary: m) (auto simp: update_conv' fun_eq_iff map_add_def split: option.splits)
  then show ?thesis by (simp add: amountMap_def)
qed

lemma amountMap_Some: "map_of (amountMap items) h = Some a \<Longrightarrow> \<exists>i \<in> set items. miOrderHash i = h \<and> miAmount i = a"
  by (auto simp: amountMap_rev dest!: map_of_SomeD)

lemma amountMap_None: "map_of (amountMap items) h = None \<longleftrightarrow> h \<notin> miOrderHash ` set items"
  by (auto simp: amountMap_rev map_of_eq_None_iff image_image)

lemma matchAmountOf_nonzero:
  assumes "OrderHash ord \<in> miOrderHash ` set items" "\<forall>i \<in> set items. miAmount i \<noteq> 0"
  shows "matchAmountOf (amountMap items) ord \<noteq> 0"
  using assms amountMap_None [of items "OrderHash ord"] amountMap_Some [of items "OrderHash ord"]
  by (auto simp: matchAmountOf_def split: option.splits)

text \<open>The events of a mined transaction report trades of nonzero amounts.\<close>

definition events_nonzero :: "TradeSuccessEvent list \<Rightarrow> TradeFailedEvent list \<Rightarrow> bool" where
  "events_nonzero succ fail \<longleftrightarrow> (\<forall>e \<in> set succ. seAmount e \<noteq> 0) \<and> (\<forall>e \<in> set fail. feAmount e \<noteq> 0)"

lemma event_items_nonzero:
  assumes "events_nonzero succ fail"
  shows "i \<in> set (successItems succ) \<Longrightarrow> miAmount i \<noteq> 0" "i \<in> set (failedItems fail) \<Longrightarrow> miAmount i \<noteq> 0"
  using assms by (auto simp: events_nonzero_def successItems_def failedItems_def)

lemma event_amounts_nonzero:
  assumes "events_nonzero succ fail"
  shows "map_of (amountMap (successItems succ)) h = Some a \<Longrightarrow> a \<noteq> 0"
    "map_of (amountMap (failedItems fail)) h = Some a \<Longrightarrow> a \<noteq> 0"
  using event_items_nonzero [OF assms] by (auto dest!: amountMap_Some)

lemma tx_ok_simps [simp]:
  "tx_ok (executedTx tx st th bh bn bt) = tx_ok tx"
  "tx_ok (tx\<lparr> mtBlockConfirmed := b \<rparr>) = tx_ok tx" "tx_ok (tx\<lparr> mtStatus := st \<rparr>) = tx_ok tx"
  "tx_ok (addSuccItem ord a tx) \<longleftrightarrow> tx_ok tx \<and> a \<noteq> 0" "tx_ok (addFailedItem ord a tx) \<longleftrightarrow> tx_ok tx \<and> a \<noteq> 0"
  by (auto simp: tx_ok_def items_of_def executedTx_def addSuccItem_def addFailedItem_def)

lemma tx_ok_clearItems: "tx_ok tx \<Longrightarrow> tx_ok (clearItems tx)"
  by (auto simp: tx_ok_def items_of_def clearItems_def)

lemma tx_ok_recordTradeEvents:
  "tx_ok tx \<Longrightarrow> events_nonzero succ fail \<Longrightarrow> tx_ok (recordTradeEvents tx succ fail)"
  by (auto simp: tx_ok_def items_of_def recordTradeEvents_def dest: event_items_nonzero)

lemma recordTradeEvents_MatchItems [simp]:
  "MatchItems (mtMatchResult (recordTradeEvents tx succ fail)) = MatchItems (mtMatchResult tx)"
  by (simp add: recordTradeEvents_def)

section \<open>The database as the matcher relies on it\<close>

text \<open>
  \<open>known\<close> holds of orders that are rows of the table, up to the fields that may change. Loading a
  row gives a known, conserved order; saving a known order with its accounts in order, and writing
  a transaction without empty items, keeps the tables.
\<close>

locale order_dao =
  fixes T :: "tables \<Rightarrow> bool" and known :: "Order \<Rightarrow> bool"
  assumes load: "T t \<Longrightarrow> r \<in> set (tOrders t) \<Longrightarrow> known r \<and> conserved r"
    and known_cong: "ident r = ident r' \<Longrightarrow> known r \<Longrightarrow> known r'"
    and save: "T (dbTables s) \<Longrightarrow> known row \<Longrightarrow> row_ok row \<Longrightarrow> T (dbTables (snd (saveOrder row (s :: mstate))))"
    and loadTx: "T t \<Longrightarrow> tx \<in> set (tMatchTxs t) \<Longrightarrow> tx_ok tx"
    and saveTx: "T t \<Longrightarrow> set txs \<subseteq> insert tx (set (tMatchTxs t)) \<Longrightarrow> tx_ok tx \<Longrightarrow> T (t\<lparr> tMatchTxs := txs \<rparr>)"
begin

lemma gives_saveOrder:
  assumes "known row" "row_ok row"
  shows "gives (well T) (saveOrder row) (\<lambda>_. True)"
  unfolding gives_def
proof (intro allI impI)
  fix s :: mstate and r s'
  assume s: "well T s" "saveOrder row s = (r, s')"
  from save [OF _ assms, of s] s have "T (dbTables s')" by (simp add: well_def)
  moreover have "msBook s' = msBook s" using s(2) by (auto simp: saveOrder_def Let_def split: if_splits)
  ultimately show "well T s' \<and> (\<forall>x. r = Inr x \<longrightarrow> True)" using s(1) by (simp add: well_def)
qed

lemma gives_UpdateOrder:
  assumes "known ord" "conserved ord"
  shows "gives (well T) (UpdateOrder now ord) (\<lambda>ord'. ident ord' = ident ord \<and> amounts ord' = amounts ord)"
proof -
  let ?t = "setStatusByAmounts ((marshalCancelReason ord)\<lparr> UpdatedAt := now \<rparr>)"
  have i: "ident (dbRow ?t) = ident ord" "amounts (dbRow ?t) = amounts ord"
    by (simp_all add: dbRow_def setStatusByAmounts_def marshalCancelReason_def amounts_def)
  have "known (dbRow ?t)" using known_cong i(1) assms(1) by metis
  moreover have "row_ok (dbRow ?t)"
    using assms(2) conserved_cong [OF i]
    by (simp add: row_ok_def) (simp add: dbRow_def setStatusByAmounts_def marshalCancelReason_def)
  ultimately show ?thesis
    unfolding UpdateOrder_def Let_def
    by (rule gives_bind [OF gives_dbCall [OF gives_saveOrder]])
      (auto intro!: gives_ret simp: marshalCancelReason_def amounts_def)
qed

lemma gives_GetOrderByHash:
  "gives (well T) (GetOrderByHash h) (\<lambda>r. known r \<and> conserved r \<and> OrderHash r = h)"
  unfolding GetOrderByHash_def
  by (rule gives_dbCall)
    (auto simp: gives_def well_def find_Some_iff split: option.splits dest: load nth_mem)

lemma gives_GetOrderByHashs:
  "gives (well T) (GetOrderByHashs hs) (\<lambda>rs. \<forall>r \<in> set rs. known r \<and> conserved r \<and> OrderHash r \<in> set hs)"
  unfolding GetOrderByHashs_def by (rule gives_read) (auto simp: well_def dest: load)

lemma gives_QueryOrder: "gives (well T) (QueryOrder a b c d e f g) (\<lambda>_. True)"
  unfolding QueryOrder_def by (rule gives_read) simp

lemma gives_GetMatchTransaction: "gives (well T) (GetMatchTransaction i) tx_ok"
  unfolding GetMatchTransaction_def
  by (rule gives_dbCall)
    (auto simp: gives_def well_def find_Some_iff split: option.splits dest: loadTx nth_mem)

lemma gives_CreateMatchTransaction:
  "tx_ok tx \<Longrightarrow> gives (well T) (CreateMatchTransaction tx) (\<lambda>_. True)"
  unfolding CreateMatchTransaction_def
  by (rule gives_dbCall) (auto simp: gives_def well_def Let_def split: if_splits intro!: saveTx)

lemma gives_UpdateMatchTransaction:
  "tx_ok tx \<Longrightarrow> gives (well T) (UpdateMatchTransaction tx) (\<lambda>_. True)"
  unfolding UpdateMatchTransaction_def
  by (rule gives_dbCall) (auto simp: gives_def well_def Let_def split: if_splits intro!: saveTx)

lemma gives_matchItemsLoop:
  assumes "\<forall>item \<in> set items. mitMatchedAmount item \<noteq> 0"
  shows "gives (well T) (matchItemsLoop now items) (\<lambda>(rows, ords). \<forall>i \<in> set rows. miAmount i \<noteq> 0)"
  using assms
proof (induction items)
  case (Cons item items)
  have m: "ident (matchedOrder now item ord) = ident ord \<and> conserved (matchedOrder now item ord)"
    if "conserved ord" for ord
    using that by (auto simp: matchedOrder_def Let_def conserved_def)
  show ?case
    unfolding matchItemsLoop.simps
    by (rule gives_bind [OF gives_GetOrderByHash], rule gives_if, rule gives_throw,
        rule gives_bind [OF gives_UpdateOrder], metis m known_cong, metis m,
        rule gives_bind [OF Cons.IH])
      (use Cons.prems in \<open>auto intro!: gives_ret split: prod.splits\<close>)
qed (auto intro: gives_ret)

lemma gives_changeBookLoop: "gives (well T) (changeBookLoop items) (\<lambda>_. True)"
proof (induction items)
  case (Cons item items)
  show ?case unfolding changeBookLoop.simps by (rule gives_bind [OF gives_bookChange Cons.IH])
qed (simp add: gives_def)

lemma gives_matchTx:
  assumes "\<forall>item \<in> set items. mitMatchedAmount item \<noteq> 0"
  shows "gives (well T) (matchTx cf perp uuid now items) (\<lambda>_. True)"
  unfolding matchTx_def
proof (rule gives_Transaction, rule gives_bind [OF gives_matchItemsLoop [OF assms]], clarify)
  fix rows :: "MatchItemRow list" and ords assume "\<forall>i \<in> set rows. miAmount i \<noteq> 0"
  then have "tx_ok (newMatchTransaction cf perp uuid rows)"
    by (auto simp: tx_ok_def items_of_def newMatchTransaction_def)
  then show "gives (well T) (bindE (CreateMatchTransaction (newMatchTransaction cf perp uuid rows))
      (\<lambda>_. bindE (changeBookLoop items) (\<lambda>_. retE ords))) (\<lambda>_. True)"
    by (intro gives_bind [OF gives_CreateMatchTransaction] gives_bind [OF gives_changeBookLoop] gives_ret)
      simp_all
qed

lemma gives_cancelFound:
  assumes "known ord" "conserved ord"
  shows "gives (well T) (cancelFound now h reason all amount ord bo) (\<lambda>_. True)"
proof (cases "cancelAmounts ord bo all amount")
  case None
  then show ?thesis by (simp add: cancelFound_def gives_def)
next
  case (Some da)
  obtain dbAmount bookAmount where da: "da = (dbAmount, bookAmount)" by fastforce
  have a: "gives (well T) (if bookAmount \<noteq> 0
      then (case bo of None \<Rightarrow> throwE ''nil book order'' | Some bo \<Rightarrow> bookChange bo (- bookAmount))
      else retE ()) (\<lambda>_. True)"
    by (intro gives_if gives_case_option gives_throw gives_bookChange gives_ret) simp
  have b: "gives (well T) (if dbAmount \<noteq> 0
      then (case CancelOrder now ord reason dbAmount of
              Inl e \<Rightarrow> throwE e
            | Inr order \<Rightarrow> bindE (UpdateOrder now order) (\<lambda>order. retE (Some order)))
      else retE None) (\<lambda>_. True)"
  proof (cases "CancelOrder now ord reason dbAmount")
    case (Inl e)
    show ?thesis unfolding Inl sum.case by (intro gives_if gives_throw gives_ret) simp
  next
    case (Inr ord')
    have "ident ord = ident ord'"
      using Inr by (auto simp: CancelOrder_def addCancelReason_def Let_def split: if_splits)
    then have "known ord'" using assms(1) known_cong by blast
    moreover have "conserved ord'" using Inr assms(2) by (rule CancelOrder_conserved)
    ultimately show ?thesis unfolding Inr sum.case
      by (intro gives_if gives_bind [OF gives_UpdateOrder] gives_ret) simp_all
  qed
  show ?thesis unfolding cancelFound_def Some da option.case prod.case
    by (rule gives_bind [OF a], rule gives_bind [OF b]) (auto simp: gives_def)
qed

lemma gives_cancelBody: "gives (well T) (cancelBody now h reason all amount) (\<lambda>_. True)"
  unfolding cancelBody_def
  by (rule gives_bind [OF gives_GetOrderByHash], rule gives_state) (auto intro: gives_cancelFound)

lemma well_cancelOrderWithoutLock:
  assumes "well T s" "cancelOrderWithoutLock now h reason all amount s = (r, s')"
  shows "well T s'"
proof -
  obtain r1 s1 where c: "Transaction (cancelBody now h reason all amount) s = (r1, s1)" by fastforce
  with gives_Transaction [OF gives_cancelBody] assms(1) have "well T s1" by (rule givesD)
  with assms(2) c show ?thesis by (auto simp: cancelOrderWithoutLock_def split: sum.splits option.splits)
qed

text \<open>The handlers of \<^verbatim>\<open>match_result.go\<close>.\<close>

lemma gives_rollbackOrderbook:
  assumes "oldAmount = 0 \<Longrightarrow> AvailableAmount ord \<noteq> 0"
  shows "gives (well T) (rollbackOrderbook oldAmount delta ord) (\<lambda>_. True)"
proof (cases "oldAmount = 0")
  case True
  with assms gives_bookInsert [of "getMemoryOrder ord" T] show ?thesis
    by (simp add: rollbackOrderbook_def [abs_def] getMemoryOrder_def)
next
  case False
  have "gives (well T) (case bo of Some b \<Rightarrow> bookChange b delta
      | None \<Rightarrow> throwE ''order not fund in orderbook'') (\<lambda>_. True)" for bo
    by (cases bo) (simp_all add: gives_bookChange gives_throw del: retE_throwE)
  from gives_state [OF this, of "\<lambda>s. GetOrder (msBook s) (OrderHash ord) (Amount ord < 0) (Price ord)"]
  moreover have "rollbackOrderbook oldAmount delta ord =
      (\<lambda>s. (case GetOrder (msBook s) (OrderHash ord) (Amount ord < 0) (Price ord) of
              Some b \<Rightarrow> bookChange b delta | None \<Rightarrow> throwE ''order not fund in orderbook'') s)"
    using False by (auto simp: rollbackOrderbook_def fun_eq_iff split: option.split)
  ultimately show ?thesis by simp
qed

lemma gives_moveWithBook:
  assumes "known ord" "conserved ord" "oldAmount = 0 \<Longrightarrow> AvailableAmount ord \<noteq> 0"
  shows "gives (well T) (moveWithBook now oldAmount delta ord) (\<lambda>_. True)"
  unfolding moveWithBook_def
  by (rule gives_bind [OF gives_UpdateOrder], fact, fact,
      rule gives_bind [OF gives_rollbackOrderbook]) (auto simp: amounts_def assms(3) intro: gives_ret)

lemma gives_moveAmount:
  assumes "known ord" "conserved ord"
  shows "gives (well T) (moveAmount now ord) (\<lambda>_. True)"
  unfolding moveAmount_def by (rule gives_bind [OF gives_UpdateOrder]) (auto intro: assms gives_ret)

lemma gives_updateOneOrder:
  assumes "known ord" "conserved ord" "matchAmountOf matched ord \<noteq> 0"
  shows "gives (well T) (updateOneOrder now tx succ fail matched ord) (\<lambda>_. True)"
proof -
  let ?m = "matchAmountOf matched ord"
  have k: "known ord'" if "ident ord' = ident ord" for ord'
    using that assms(1) known_cong by metis
  show ?thesis
  proof (cases "map_of succ (OrderHash ord)")
    case (Some amount)
    let ?ord = "ord\<lparr> AvailableAmount := AvailableAmount ord + (?m - amount) \<rparr>"
    have "gives (well T) (if amount \<noteq> ?m then bindE (rollbackOrderbook (AvailableAmount ord) (?m - amount) ?ord) (\<lambda>_. retE ?ord)
        else retE ord) (\<lambda>o'. ident o' = ident ord \<and> PendingAmount o' = PendingAmount ord \<and>
          ConfirmedAmount o' = ConfirmedAmount ord \<and> CanceledAmount o' = CanceledAmount ord \<and>
          AvailableAmount o' = AvailableAmount ord + (?m - amount))" (is "gives _ ?first ?Q")
      by (intro gives_if gives_bind [OF gives_rollbackOrderbook] gives_ret) auto
    moreover have "gives (well T) (UpdateOrder now (o'\<lparr> PendingAmount := PendingAmount o' - ?m,
        ConfirmedAmount := ConfirmedAmount o' + amount \<rparr>)) (\<lambda>_. True)" if q: "?Q o'" for o'
    proof -
      let ?o = "o'\<lparr> PendingAmount := PendingAmount o' - ?m, ConfirmedAmount := ConfirmedAmount o' + amount \<rparr>"
      have "Amount o' = Amount ord" using q identD by blast
      with assms(2) q have "conserved ?o" by (simp add: conserved_def)
      moreover have "known ?o" using q k by simp
      ultimately show ?thesis using gives_weaken [OF gives_UpdateOrder, of ?o "\<lambda>_. True" now] by simp
    qed
    ultimately show ?thesis
      unfolding updateOneOrder_def Let_def Some option.case by (rule gives_bind)
  next
    case None
    show ?thesis
    proof (cases "map_of fail (OrderHash ord)")
      case (Some amount)
      have "gives (well T) (UpdateOrder now (ord\<lparr> PendingAmount := PendingAmount ord - amount,
          CanceledAmount := CanceledAmount ord + amount,
          CancelReasons := CancelReasons ord @ [transactionFailReason tx amount] \<rparr>)) (\<lambda>_. True)"
        by (rule gives_weaken [OF gives_UpdateOrder]) (use assms(2) in \<open>auto intro!: k simp: conserved_def\<close>)
      with None Some show ?thesis by (simp add: updateOneOrder_def Let_def)
    next
      case none: None
      have "gives (well T) (moveWithBook now (AvailableAmount ord) ?m (ord\<lparr> PendingAmount := PendingAmount ord - ?m,
          AvailableAmount := AvailableAmount ord + ?m \<rparr>)) (\<lambda>_. True)"
        by (rule gives_moveWithBook) (use assms(2,3) in \<open>auto intro!: k simp: conserved_def\<close>)
      with None none show ?thesis by (simp add: updateOneOrder_def Let_def moveWithBook_def)
    qed
  qed
qed

lemma gives_updateOrdersLoop:
  assumes "\<forall>ord \<in> set orders. known ord \<and> conserved ord \<and> matchAmountOf matched ord \<noteq> 0"
  shows "gives (well T) (updateOrdersLoop now tx succ fail matched orders) (\<lambda>_. True)"
  using assms
proof (induction orders)
  case (Cons ord orders)
  show ?case unfolding updateOrdersLoop.simps
    by (rule gives_bind [OF gives_updateOneOrder], (use Cons.prems in simp_all)[3],
        rule gives_bind [OF Cons.IH]) (use Cons.prems in \<open>auto intro: gives_ret\<close>)
qed (simp add: gives_def)

lemma gives_updateOrdersByTradeEvent:
  assumes "tx_ok tx" "events_nonzero succ fail"
  shows "gives (well T) (updateOrdersByTradeEvent now tx succ fail) (\<lambda>(tx', _). tx_ok tx')"
proof -
  let ?items = "MatchItems (mtMatchResult tx)"
  have "\<forall>i \<in> set ?items. miAmount i \<noteq> 0" using assms(1) by (auto simp: tx_ok_def items_of_def)
  then have nz: "matchAmountOf (amountMap ?items) ord \<noteq> 0" if "OrderHash ord \<in> set (map miOrderHash ?items)" for ord
    using that matchAmountOf_nonzero by simp
  show ?thesis
    unfolding updateOrdersByTradeEvent_def Let_def recordTradeEvents_MatchItems
    by (rule gives_bind [OF gives_GetOrderByHashs], rule gives_bind [OF gives_updateOrdersLoop])
      (use nz tx_ok_recordTradeEvents [OF assms] in \<open>blast, auto intro!: gives_ret\<close>)
qed

lemma gives_updateStatusTx:
  assumes "events_nonzero succ fail"
  shows "gives (well T) (updateStatusTx now txID status th bh bn bt succ fail) (\<lambda>_. True)"
  unfolding updateStatusTx_def Let_def
  by (rule gives_Transaction, rule gives_bind [OF gives_GetMatchTransaction],
      rule gives_bind [OF gives_updateOrdersByTradeEvent [OF _ assms]])
    (auto intro!: gives_bind [OF gives_UpdateMatchTransaction] gives_ret)

lemma well_UpdateOrdersStatus:
  assumes "well T s" "events_nonzero succ fail"
    "UpdateOrdersStatus now txID status th bh bn bt succ fail s = (r, s')"
  shows "well T s'"
proof -
  obtain r1 s1 where c: "updateStatusTx now txID status th bh bn bt succ fail s = (r1, s1)" by fastforce
  with gives_updateStatusTx [OF assms(2)] assms(1) have "well T s1" by (rule givesD)
  with assms(3) c show ?thesis by (auto simp: UpdateOrdersStatus_def split: sum.splits)
qed

lemma gives_rollbackConfirmed:
  assumes "known ord" "conserved ord" "tx_ok tx" "amount \<noteq> 0"
  shows "gives (well T) (rollbackConfirmed now succ fail amount ord tx) (\<lambda>(tx', _). tx_ok tx')"
proof -
  have k: "known ord'" if "ident ord' = ident ord" for ord'
    using that assms(1) known_cong by metis
  show ?thesis
    unfolding rollbackConfirmed_def
    by (intro gives_if gives_bind [OF gives_moveAmount] gives_bind [OF gives_moveWithBook] gives_ret)
      (use assms in \<open>auto intro!: k simp: conserved_def\<close>)
qed

lemma gives_rollbackFailed:
  assumes "known ord" "conserved ord" "tx_ok tx" "amount \<noteq> 0"
  shows "gives (well T) (rollbackFailed now succ fail amount ord tx) (\<lambda>(tx', _). tx_ok tx')"
proof -
  have k: "known ord'" if "ident ord' = ident ord" for ord'
    using that assms(1) known_cong by metis
  show ?thesis
    unfolding rollbackFailed_def
    by (intro gives_if gives_bind [OF gives_moveAmount] gives_bind [OF gives_moveWithBook] gives_ret)
      (use assms in \<open>auto intro!: k simp: conserved_def dropReasons_def\<close>)
qed

lemma gives_rollbackUnexecuted:
  assumes "known ord" "conserved ord" "tx_ok tx"
    "\<And>a. map_of succ (OrderHash ord) = Some a \<Longrightarrow> a \<noteq> 0"
    "\<And>a. map_of fail (OrderHash ord) = Some a \<Longrightarrow> a \<noteq> 0"
  shows "gives (well T) (rollbackUnexecuted now succ fail ord tx) (\<lambda>(tx', _). tx_ok tx')"
proof -
  have k: "known ord'" if "ident ord' = ident ord" for ord'
    using that assms(1) known_cong by metis
  show ?thesis
    unfolding rollbackUnexecuted_def
    by (intro gives_case_option gives_if gives_bind [OF gives_moveWithBook] gives_ret)
      (use assms in \<open>auto intro!: k simp: conserved_def\<close>)
qed

text \<open>Every amount of the four maps is nonzero.\<close>

lemma gives_rollbackOrdersLoop:
  assumes "\<forall>ord \<in> set orders. known ord \<and> conserved ord" "tx_ok tx"
    "\<And>m h a. m \<in> {succBefore, failBefore, succ, fail} \<Longrightarrow> map_of m h = Some a \<Longrightarrow> a \<noteq> 0"
  shows "gives (well T) (rollbackOrdersLoop now succBefore failBefore succ fail orders tx) (\<lambda>(tx', _). tx_ok tx')"
  using assms(1,2)
proof (induction orders arbitrary: tx)
  case (Cons ord orders)
  have "gives (well T) (case map_of succBefore (OrderHash ord) of
              Some amount \<Rightarrow> rollbackConfirmed now succ fail amount ord tx
            | None \<Rightarrow>
                (case map_of failBefore (OrderHash ord) of
                   Some amount \<Rightarrow> rollbackFailed now succ fail amount ord tx
                 | None \<Rightarrow> rollbackUnexecuted now succ fail ord tx)) (\<lambda>(tx', _). tx_ok tx')"
    by (intro gives_case_option gives_rollbackConfirmed gives_rollbackFailed gives_rollbackUnexecuted)
      (use Cons.prems assms(3) in auto)
  then show ?case
    unfolding rollbackOrdersLoop.simps
  proof (rule gives_bind, clarify)
    fix tx' :: MatchTransaction and notify :: "Order list"
    assume tx': "tx_ok tx'"
    show "gives (well T) (bindE (rollbackOrdersLoop now succBefore failBefore succ fail orders tx')
      (\<lambda>(tx, rest). retE (tx, notify @ rest))) (\<lambda>(tx', _). tx_ok tx')"
      by (rule gives_bind [OF Cons.IH]) (use Cons.prems tx' in \<open>auto intro: gives_ret\<close>)
  qed
qed (simp add: gives_def)

lemma gives_rollbackStatusTx:
  assumes "tx_ok tx" "events_nonzero succ fail"
  shows "gives (well T) (rollbackStatusTx now tx status th bh bn bt succ fail) (\<lambda>_. True)"
proof -
  let ?tx = "if mtStatus tx \<noteq> status then executedTx tx status th bh bn bt else tx"
  have tx: "tx_ok ?tx" using assms(1) by simp
  have nz: "a \<noteq> 0" if "m \<in> {amountMap (SuccItems (mtMatchResult ?tx)), amountMap (FailedItems (mtMatchResult ?tx)),
      amountMap (successItems succ), amountMap (failedItems fail)}" "map_of m h = Some a" for m h a
    using that tx event_items_nonzero [OF assms(2)]
    by (auto simp: tx_ok_def items_of_def dest!: amountMap_Some)
  have "gives (well T) (rollbackOrdersByTradeEvent now ?tx succ fail) (\<lambda>(tx', _). tx_ok tx')"
    unfolding rollbackOrdersByTradeEvent_def
    by (rule gives_bind [OF gives_GetOrderByHashs], rule gives_rollbackOrdersLoop)
      (use tx_ok_clearItems [OF tx] nz in auto)
  then show ?thesis
    unfolding rollbackStatusTx_def
    by (intro gives_Transaction, elim gives_bind)
      (auto intro!: gives_bind [OF gives_UpdateMatchTransaction] gives_ret)
qed

lemma well_RollbackOrdersStatus:
  assumes "well T s" "tx_ok tx" "events_nonzero succ fail"
    "RollbackOrdersStatus now tx status th bh bn bt succ fail s = (r, s')"
  shows "well T s'"
proof -
  obtain r1 s1 where c: "rollbackStatusTx now tx status th bh bn bt succ fail s = (r1, s1)" by fastforce
  with gives_rollbackStatusTx [OF assms(2,3)] assms(1) have "well T s1" by (rule givesD)
  with assms(4) c show ?thesis by (auto simp: RollbackOrdersStatus_def split: sum.splits)
qed

text \<open>The matching run itself only reads the book, so what is left is its transaction.\<close>

lemma well_matchOrders:
  assumes "well T s" "matchOrders L env cf perp uuid s = Some s'"
  shows "well T s'"
proof -
  obtain r1 s1 where q: "QueryOrder [] (ppLiquidityPoolAddress perp) (ppPerpetualIndex perp) [OrderPending] 0 0 0 s = (r1, s1)"
    by fastforce
  from gives_QueryOrder assms(1) q have w: "well T s1" by (rule givesD)
  show ?thesis
  proof (cases "isl r1 \<or> projr r1 = []")
    case True
    with assms(2) q w show ?thesis by (auto simp: matchOrders_def split: sum.splits)
  next
    case False
    then obtain o1 orders where r1: "r1 = Inr (o1 # orders)" by (cases r1) (auto simp: neq_Nil_conv)
    with assms(2) q obtain items pools where
      m: "MatchOrderSideBySide L env cf perp (msBook s1) (msPools s1) = Some (items, pools)"
      by (auto simp: matchOrders_def bind_Some_iff)
    let ?s = "s1\<lparr> msPools := pools \<rparr>"
    show ?thesis
    proof (cases "items = [] \<or> uuid = None")
      case True
      with assms(2) q r1 m w show ?thesis
        by (auto simp: matchOrders_def Let_def split: if_splits option.splits)
    next
      case False
      then obtain u where u: "uuid = Some u" by blast
      obtain r2 s2 where t: "matchTx cf perp u (envNow env) items ?s = (r2, s2)" by fastforce
      have nz: "\<forall>item \<in> set items. mitMatchedAmount item \<noteq> 0"
        using MatchOrderSideBySide_run(1) [OF m] by (auto simp: item_ok_def)
      have "well T s2" by (rule givesD [OF gives_matchTx [OF nz] _ t]) (use w in simp)
      with assms(2) q r1 m u t False show ?thesis
        by (auto simp: matchOrders_def Let_def split: sum.splits)
    qed
  qed
qed

end

text \<open>The laws hold for the tables with a fixed list of rows.\<close>

lemma ID_ident:
  assumes "orders_ok t" "ident row \<in> ident ` set (tOrders t)" "r \<in> set (tOrders t)" "ID r = ID row"
  shows "ident r = ident row"
proof -
  from assms(2) obtain r0 where r0: "r0 \<in> set (tOrders t)" "ident r0 = ident row" by force
  then have "ID r0 = ID r" using identD(1) assms(4) by metis
  with assms(1,3) r0(1) have "r0 = r" by (auto simp: orders_ok_def distinct_map dest: inj_onD)
  with r0(2) show ?thesis by simp
qed

lemma tables_ok_rows:
  assumes "distinct (map ID rows)" "distinct (map OrderHash rows)" "map ident rows = K" "0 < n"
    "\<And>r. r \<in> set rows \<Longrightarrow> 0 < ID r \<and> ID r < n \<and> row_ok r" "\<forall>tx \<in> set (tMatchTxs t). tx_ok tx"
  shows "tables_ok K (t\<lparr> tOrders := rows, tNextID := n \<rparr>)"
  using assms by (simp add: tables_ok_def orders_ok_def)

lemma saveOrder_tables_ok:
  assumes "tables_ok K (dbTables s)" "ident row \<in> set K" "row_ok row"
  shows "tables_ok K (dbTables (snd (saveOrder row s)))"
proof -
  let ?t = "dbTables s"
  from assms(1,2) have row: "ident row \<in> ident ` set (tOrders ?t)" by (auto simp: tables_ok_def)
  let ?rows = "map (\<lambda>r. if ID r = ID row then row else r) (tOrders ?t)"
  have i: "ident r = ident row" if "r \<in> set (tOrders ?t)" "ID r = ID row" for r
    using ID_ident [OF _ row that] assms(1) by (simp add: tables_ok_def)
  then have same: "map ident ?rows = map ident (tOrders ?t)" by auto
  have "map ID ?rows = map ID (tOrders ?t)" by auto
  moreover have "map OrderHash ?rows = map OrderHash (tOrders ?t)"
    using identD(2) [OF i] by auto
  ultimately have d: "distinct (map ID ?rows)" "distinct (map OrderHash ?rows)"
    using assms(1) by (simp_all only: tables_ok_def orders_ok_def)
  from row obtain r0 where r0: "r0 \<in> set (tOrders ?t)" "ident r0 = ident row" by (metis imageE)
  then have r0': "ID r0 = ID row" "OrderHash r0 = OrderHash row" using identD(1,2) by blast+
  have "0 < ID r0" "ID r0 < tNextID ?t" using assms(1) r0(1) by (simp_all add: tables_ok_def orders_ok_def)
  then have id: "0 < ID row" "ID row < tNextID ?t" by (simp_all add: r0')
  have rows: "0 < ID r \<and> ID r < tNextID ?t \<and> row_ok r" if "r \<in> set ?rows" for r
  proof -
    from that have "r = row \<or> r \<in> set (tOrders ?t)" by auto
    then show ?thesis using assms(1,3) id by (auto simp: tables_ok_def orders_ok_def)
  qed
  have "0 < tNextID ?t" "\<forall>tx \<in> set (tMatchTxs ?t). tx_ok tx" "map ident (tOrders ?t) = K"
    using assms(1) by (simp_all add: tables_ok_def orders_ok_def)
  with same have "tables_ok K (?t\<lparr> tOrders := ?rows, tNextID := tNextID ?t \<rparr>)"
    by (intro tables_ok_rows d rows) simp_all
  then have upd: "tables_ok K (?t\<lparr> tOrders := ?rows \<rparr>)" by simp
  have "snd (saveOrder row s) = s \<or> snd (saveOrder row s) = s\<lparr> dbTables := ?t\<lparr> tOrders := ?rows \<rparr> \<rparr>"
    using r0(1) r0' id(1) by (auto simp: saveOrder_def Let_def)
  then show ?thesis using assms(1) upd by auto
qed

interpretation matcher: order_dao "tables_ok K" "\<lambda>r. ident r \<in> set K" for K
proof
  fix t r assume "tables_ok K t" "r \<in> set (tOrders t)"
  then show "ident r \<in> set K \<and> conserved r" by (auto simp: tables_ok_def orders_ok_def row_ok_def)
next
  fix s :: mstate and row assume "tables_ok K (dbTables s)" "ident row \<in> set K" "row_ok row"
  then show "tables_ok K (dbTables (snd (saveOrder row s)))" by (rule saveOrder_tables_ok)
qed (auto simp: tables_ok_def orders_ok_def)

section \<open>New orders and new matchers\<close>

text \<open>An order as the API hands it over.\<close>

definition fresh_order :: "Order \<Rightarrow> bool" where
  "fresh_order ord \<longleftrightarrow> ID ord = 0 \<and> Amount ord \<noteq> 0 \<and> AvailableAmount ord = Amount ord \<and>
     PendingAmount ord = 0 \<and> ConfirmedAmount ord = 0 \<and> CanceledAmount ord = 0"

text \<open>The rows \<open>K\<close> are still there, in front, and there may be more.\<close>

definition grown :: "(OrderParam \<times> int \<times> string \<times> string) list \<Rightarrow> tables \<Rightarrow> bool" where
  "grown K t \<longleftrightarrow> (\<exists>K'. tables_ok (K @ K') t)"

lemma grown_self: "tables_ok K t \<Longrightarrow> grown K t"
  unfolding grown_def by (metis append_Nil2)

lemma grown_trans: "grown K t \<Longrightarrow> (\<And>K. tables_ok K t \<Longrightarrow> grown K t') \<Longrightarrow> grown K t'"
  unfolding grown_def by (metis append_assoc)

lemma insert_row:
  assumes "tables_ok K t" "row_ok row" "OrderHash row \<notin> OrderHash ` set (tOrders t)"
  shows "grown K (t\<lparr> tOrders := tOrders t @ [row\<lparr> ID := tNextID t \<rparr>], tNextID := tNextID t + 1 \<rparr>)"
proof -
  let ?row = "row\<lparr> ID := tNextID t \<rparr>"
  have row: "row_ok ?row" using assms(2) by (simp add: row_ok_def conserved_def setStatusByAmounts_def)
  have old: "0 < ID r \<and> ID r < tNextID t \<and> row_ok r" if "r \<in> set (tOrders t)" for r
    using assms(1) that by (simp add: tables_ok_def orders_ok_def)
  have n: "0 < tNextID t" using assms(1) by (simp add: tables_ok_def orders_ok_def)
  have "tables_ok (K @ [ident ?row]) (t\<lparr> tOrders := tOrders t @ [?row], tNextID := tNextID t + 1 \<rparr>)"
  proof (rule tables_ok_rows)
    show "distinct (map ID (tOrders t @ [?row]))" using assms(1) old by (fastforce simp: tables_ok_def orders_ok_def)
    show "distinct (map OrderHash (tOrders t @ [?row]))" using assms by (simp add: tables_ok_def orders_ok_def)
    show "0 < ID r \<and> ID r < tNextID t + 1 \<and> row_ok r" if "r \<in> set (tOrders t @ [?row])" for r
    proof (cases "r = ?row")
      case False
      with that have "r \<in> set (tOrders t)" by simp
      with old show ?thesis by fastforce
    qed (use row n in simp)
  qed (use assms(1) n in \<open>simp_all add: tables_ok_def\<close>)
  then show ?thesis unfolding grown_def by blast
qed

lemma gives_CreateOrder:
  assumes "fresh_order ord"
  shows "gives (well (grown K)) (CreateOrder now ord) (\<lambda>ord'. amounts ord' = amounts ord)"
proof -
  let ?t = "setStatusByAmounts ((marshalCancelReason ord)\<lparr> CreatedAt := now \<rparr>)"
  let ?row = "dbRow ?t"
  have row: "row_ok ?row" "ID ?row = 0"
    using assms by (simp_all add: row_ok_def conserved_def dbRow_def setStatusByAmounts_def
        marshalCancelReason_def fresh_order_def)
  have "gives (well (grown K)) (saveOrder ?row) (\<lambda>_. True)"
    unfolding gives_def
  proof (intro allI impI)
    fix s :: mstate and r s'
    assume s: "well (grown K) s" "saveOrder ?row s = (r, s')"
    show "well (grown K) s' \<and> (\<forall>x. r = Inr x \<longrightarrow> True)"
    proof (cases "OrderHash ?row \<in> OrderHash ` set (tOrders (dbTables s))")
      case True
      with s row(2) show ?thesis by (auto simp: saveOrder_def Let_def image_iff split: if_splits)
    next
      case False
      let ?t' = "(dbTables s)\<lparr> tOrders := tOrders (dbTables s) @ [?row\<lparr> ID := tNextID (dbTables s) \<rparr>],
                     tNextID := tNextID (dbTables s) + 1 \<rparr>"
      have s': "s' = s\<lparr> dbTables := ?t' \<rparr>"
        using s(2) row(2) False by (auto simp: saveOrder_def Let_def image_iff split: if_splits)
      from s(1) have "grown K (dbTables s)" by (simp add: well_def)
      then have "grown K ?t'" by (rule grown_trans) (rule insert_row [OF _ row(1) False])
      with s(1) s' show ?thesis by (simp add: well_def)
    qed
  qed
  then show ?thesis
    unfolding CreateOrder_def Let_def
    by (intro gives_bind [OF gives_dbCall] gives_ret) (auto simp: marshalCancelReason_def amounts_def)
qed

lemma gives_newOrderTx:
  assumes "fresh_order ord"
  shows "gives (well (grown K)) (newOrderTx now ord) (\<lambda>_. True)"
  unfolding newOrderTx_def
  by (rule gives_Transaction, rule gives_bind [OF gives_CreateOrder [OF assms]],
      rule gives_bind [OF gives_bookInsert], use assms in \<open>simp add: amounts_def getMemoryOrder_def fresh_order_def\<close>,
      rule gives_bind [OF gives_setExpirationTimer]) (rule gives_ret, simp)

text \<open>What a call of \<^verbatim>\<open>NewOrder\<close> may do to the database and the book: nothing, or its transaction.\<close>

definition same_core :: "mstate \<Rightarrow> mstate \<Rightarrow> bool" where
  "same_core s s' \<longleftrightarrow> dbTables s' = dbTables s \<and> msBook s' = msBook s"

lemma same_core_well: "same_core s s' \<Longrightarrow> well T s' = well T s"
  by (simp add: same_core_def well_def)

lemma QueryOrder_core: "QueryOrder a b c d e f g s = (r, s') \<Longrightarrow> same_core s s' \<and> msPools s' = msPools s"
  by (auto simp: QueryOrder_def dbCall_def Let_def same_core_def split: list.splits if_splits)

lemma availableLoop_code:
  "availableLoop L env perp a tr vs w = Some (Inl code) \<Longrightarrow> code \<noteq> MatchOK"
  by (induction vs arbitrary: w) (auto simp: bind_Some_iff split: option.split_asm if_split_asm)

lemma gasCheck_code: "gasCheck env cf ord n = Some code \<Longrightarrow> code \<noteq> MatchOK"
  by (auto simp: gasCheck_def Let_def split: option.split_asm if_split_asm)

lemma checkNewOrder_core:
  assumes "checkNewOrder L env cf perp visit ord s = Some (r, s')"
  shows "same_core s s'" "r = Inr ord' \<Longrightarrow> \<exists>g. ord' = ord\<lparr> GasFeeLimit := g \<rparr>" "r \<noteq> Inl MatchOK"
    "dbFaults s = [] \<Longrightarrow> dbFaults s' = []"
proof -
  obtain r1 s1 where q: "QueryOrder (TraderAddress ord) [] 0 [OrderPending] 0 0 0 s = (r1, s1)" by fastforce
  note core = QueryOrder_core [OF q]
  have f: "dbFaults s = [] \<Longrightarrow> dbFaults s1 = []" using q by (auto simp: QueryOrder_def dbCall_def)
  have pools: "same_core s (s1\<lparr> msPools := ps \<rparr>)" for ps using core by (simp add: same_core_def)
  note codes = availableLoop_code gasCheck_code
  have "same_core s s' \<and> (\<forall>ord'. r = Inr ord' \<longrightarrow> (\<exists>g. ord' = ord\<lparr> GasFeeLimit := g \<rparr>)) \<and> r \<noteq> Inl MatchOK \<and>
     (dbFaults s = [] \<longrightarrow> dbFaults s' = [])"
  proof (cases r1)
    case (Inl e)
    with assms q core f show ?thesis by (auto simp: checkNewOrder_def)
  next
    case (Inr active)
    from assms [unfolded checkNewOrder_def q Inr prod.case sum.case Let_def] core pools f show ?thesis
      by (clarsimp simp: bind_Some_iff split_sum_ex split: if_split_asm option.split_asm prod.split_asm)
        (auto simp: bind_Some_iff split_sum_ex split: sum.split_asm dest: codes)
  qed
  then show "same_core s s'" "r = Inr ord' \<Longrightarrow> \<exists>g. ord' = ord\<lparr> GasFeeLimit := g \<rparr>" "r \<noteq> Inl MatchOK"
    "dbFaults s = [] \<Longrightarrow> dbFaults s' = []" by auto
qed

lemma fresh_GasFeeLimit [simp]: "fresh_order (ord\<lparr> GasFeeLimit := g \<rparr>) = fresh_order ord"
  by (simp add: fresh_order_def)

lemma well_NewOrder:
  assumes "well (tables_ok K) s" "fresh_order ord" "NewOrder L env cf perp visit ord s = Some (code, s')"
  shows "well (grown K) s'"
proof -
  from assms(3) obtain r1 s1 where c: "checkNewOrder L env cf perp visit ord s = Some (r1, s1)"
    by (auto simp: NewOrder_def bind_Some_iff)
  have "well (grown K) s" using assms(1) by (auto simp: well_def grown_self)
  then have w: "well (grown K) s1" using same_core_well [OF checkNewOrder_core(1) [OF c]] by blast
  show ?thesis
  proof (cases r1)
    case (Inl e)
    with assms(3) c w show ?thesis by (simp add: NewOrder_def)
  next
    case (Inr ord')
    obtain r2 s2 where t: "newOrderTx (envNow env) ord' s1 = (r2, s2)" by fastforce
    from checkNewOrder_core(2) [OF c Inr] assms(2) have "fresh_order ord'" by auto
    from givesD [OF gives_newOrderTx [OF this] w t] have "well (grown K) s2" .
    with assms(3) c Inr t show ?thesis
      by (auto simp: NewOrder_def Let_def split: sum.splits if_splits)
  qed
qed

lemma gives_reloadLoop: "gives (well T) (reloadLoop now orders) (\<lambda>_. True)"
proof (induction orders)
  case (Cons ord orders)
  show ?case
    unfolding reloadLoop.simps
    by (rule gives_if, rule gives_bind [OF gives_bookInsert], simp add: getMemoryOrder_def,
        rule gives_bind [OF gives_setExpirationTimer]) (rule Cons.IH)+
qed (simp add: gives_def)

lemma well_newMatch:
  assumes "well (tables_ok K) s" "newMatch now perp s = (r, s')"
  shows "well (tables_ok K) s'"
proof -
  have "gives (well (tables_ok K)) (reloadActiveOrders now perp) (\<lambda>_. True)"
    unfolding reloadActiveOrders_def by (rule gives_bind [OF matcher.gives_QueryOrder gives_reloadLoop])
  moreover have "well (tables_ok K) (s\<lparr> msBook := NewOrderbook, msTimers := [], msExpired := [], msTrgr := 0 \<rparr>)"
    using assms(1) by (simp add: well_def)
  ultimately show ?thesis using assms(2) unfolding newMatch_def by (rule givesD)
qed

section \<open>The steps of a matcher\<close>

text \<open>
  One rule per handler, for every answer of the chain, clock and identifier, and one per thing
  that happens around the handlers: the database may fail at any statement, the pool cache is
  refreshed, a token of the trigger channel is consumed, the matcher is started again. A timer
  fires when its time has come; an order that had expired when its timer was set is in
  \<open>msExpired\<close>. The transaction of a rollback is a row of the table, read by the server.
\<close>

inductive step :: "decimal_lib \<Rightarrow> conf \<Rightarrow> Perpetual \<Rightarrow> mstate \<Rightarrow> mstate \<Rightarrow> bool" for L cf perp where
  matching: "matchOrders L env cf perp uuid s = Some s' \<Longrightarrow> step L cf perp s s'"
| new_order: "fresh_order ord \<Longrightarrow> NewOrder L env cf perp visit ord s = Some (code, s') \<Longrightarrow> step L cf perp s s'"
| cancel: "cancelOrderWithoutLock now h reason cancelAll amount s = (r, s') \<Longrightarrow> step L cf perp s s'"
| timer: "map_of (msTimers s) h = Some due \<Longrightarrow> due \<le> now \<Longrightarrow> step L cf perp s (onOrderExpired now h s)"
| expired: "h \<in> set (msExpired s) \<Longrightarrow>
     step L cf perp s (onOrderExpired now h (s\<lparr> msExpired := remove1 h (msExpired s) \<rparr>))"
| mined: "events_nonzero succ fail \<Longrightarrow>
     UpdateOrdersStatus now txID status th bh bn bt succ fail s = (r, s') \<Longrightarrow> step L cf perp s s'"
| reorganised: "events_nonzero succ fail \<Longrightarrow> tx \<in> set (tMatchTxs (dbTables s)) \<Longrightarrow>
     RollbackOrdersStatus now tx status th bh bn bt succ fail s = (r, s') \<Longrightarrow> step L cf perp s s'"
| restart: "newMatch now perp s = (Inr (), s') \<Longrightarrow> step L cf perp s s'"
| faults: "step L cf perp s (s\<lparr> dbFaults := fs \<rparr>)"
| refresh: "step L cf perp s (s\<lparr> msPools := ps \<rparr>)"
| consume: "step L cf perp s (s\<lparr> msTrgr := msTrgr s - 1 \<rparr>)"

definition initial :: "mstate \<Rightarrow> bool" where
  "initial s \<longleftrightarrow> tOrders (dbTables s) = [] \<and> tMatchTxs (dbTables s) = [] \<and> tNextID (dbTables s) = 1 \<and>
     msBook s = NewOrderbook"

inductive reachable :: "decimal_lib \<Rightarrow> conf \<Rightarrow> Perpetual \<Rightarrow> mstate \<Rightarrow> bool" for L cf perp where
  start: "initial s \<Longrightarrow> reachable L cf perp s"
| step: "reachable L cf perp s \<Longrightarrow> step L cf perp s s' \<Longrightarrow> reachable L cf perp s'"

lemma step_grown:
  assumes "step L cf perp s s'" "well (tables_ok K) s"
  shows "well (grown K) s'"
proof -
  have keep: "well (grown K) s2" if "well (tables_ok K) s2" for s2
    using that by (auto simp: well_def grown_self)
  show ?thesis
    using assms
  proof (cases rule: step.cases)
    case (matching env uuid)
    then show ?thesis using assms(2) matcher.well_matchOrders keep by blast
  next
    case (new_order ord env visit code)
    then show ?thesis using assms(2) well_NewOrder by blast
  next
    case (cancel now h reason cancelAll amount r)
    then show ?thesis using assms(2) matcher.well_cancelOrderWithoutLock keep by blast
  next
    case (timer h due now)
    have "well (tables_ok K) (deleteOrderTimer h s)" using assms(2) by simp
    then show ?thesis
      unfolding timer(1) onOrderExpired_def
      by (intro keep matcher.well_cancelOrderWithoutLock [OF _ surjective_pairing])
  next
    case (expired h now)
    have "well (tables_ok K) (deleteOrderTimer h (s\<lparr> msExpired := remove1 h (msExpired s) \<rparr>))" using assms(2) by simp
    then show ?thesis
      unfolding expired(1) onOrderExpired_def
      by (intro keep matcher.well_cancelOrderWithoutLock [OF _ surjective_pairing])
  next
    case (mined succ fail now txID status th bh bn bt r)
    then show ?thesis using assms(2) matcher.well_UpdateOrdersStatus keep by blast
  next
    case (reorganised succ fail tx now status th bh bn bt r)
    have "tx_ok tx" using assms(2) reorganised(2) by (auto simp: well_def tables_ok_def)
    then show ?thesis using assms(2) reorganised matcher.well_RollbackOrdersStatus keep by blast
  next
    case (restart now)
    then show ?thesis using assms(2) well_newMatch keep by blast
  qed (use assms(2) keep in simp_all)
qed

lemma reachable_well:
  assumes "reachable L cf perp s"
  shows "well (tables_ok (map ident (tOrders (dbTables s)))) s"
  using assms
proof (induction rule: reachable.induct)
  case (start s)
  then show ?case by (simp add: initial_def well_def tables_ok_def orders_ok_def)
next
  case (step s s')
  from step_grown [OF step(2,3)] have "well (grown (map ident (tOrders (dbTables s)))) s'" .
  then show ?case by (auto simp: well_def grown_def tables_ok_def)
qed

section \<open>A run on concrete data\<close>

definition start_state :: mstate where
  "start_state = \<lparr> dbTables = \<lparr> tOrders = [], tMatchTxs = [], tPerpetuals = [], tNextID = 1 \<rparr>, dbFaults = [],
     msBook = NewOrderbook, msTimers = [], msExpired = [], msPools = match_syncer, msWs = [], msTrgr = 0 \<rparr>"

definition start_order :: Order where
  "start_order = match_db_order\<lparr> ID := 0, Amount := -1, AvailableAmount := -1, Status := OrderStatusUnset \<rparr>"

lemma start_available:
  "ComputeOrderAvailable lib18 sample_pool 0 ((sample_account 10 1)\<lparr> WalletBalance := 100 \<rparr>) [start_order\<lparr> GasFeeLimit := g \<rparr>] =
   Some ([], 100)"
  by (simp add: ComputeOrderAvailable_def splitActiveOrders_def Let_def start_order_def match_db_order_def
      sideAvailable_def closeStep_def SplitAmount_def HasTheSameSign_def sample_account_def sample_amm_defs
      ComputeAccount_def DivD_def lib18_quo_int)

lemma start_fresh: "fresh_order start_order"
  by (simp add: fresh_order_def start_order_def match_db_order_def)

lemma start_initial: "initial start_state"
  by (simp add: initial_def start_state_def)

definition start_gas :: int where
  "start_gas = GetGasFeeLimit (Suc 0) True"

lemma start_check:
  "checkNewOrder lib18 match_env match_conf match_perp id start_order start_state =
   Some (Inr (start_order\<lparr> GasFeeLimit := start_gas \<rparr>), start_state)"
proof -
  have q: "QueryOrder (TraderAddress start_order) [] 0 [OrderPending] 0 0 0 start_state = (Inr [], start_state)"
    by (simp add: QueryOrder_def dbCall_def start_state_def limitDesc_def)
  have g: "GetPoolStorage match_env ''0xa'' match_syncer = (Some (sample_pool, True), match_syncer)"
    by (simp add: GetPoolStorage_def match_syncer_def)
  have p: "ppLiquidityPoolAddress match_perp = ''0xa''" "ppPerpetualIndex match_perp = 0"
    "msPools start_state = match_syncer" "start_state\<lparr> msPools := match_syncer \<rparr> = start_state"
    by (simp_all add: match_perp_def start_state_def)
  have ord: "LiquidityPoolAddress start_order = ''0xa''" "PerpetualIndex start_order = 0" "IsCloseOnly start_order"
    by (simp_all add: start_order_def match_db_order_def)
  have c: "CheckCloseOnly (sample_account 10 1) start_order = 0"
    by (simp add: CheckCloseOnly_def start_order_def match_db_order_def sample_account_def HasTheSameSign_def)
  have e: "envAccount match_env i a tr = Some (sample_account 10 1)" "envBalance match_env a tr d = Some 100"
    "envAllowance match_env a tr b d = Some 100" for i a tr b d
    by (simp_all add: match_env_def)
  have s: "map_of (Perpetuals sample_pool) 0 = Some sample_perp" "IsNormal sample_perp"
    "length (Perpetuals sample_pool) = 1" "cfMaxOrderNum match_conf = 10"
    by (simp_all add: sample_amm_defs match_conf_def)
  have gas: "gasCheck match_env match_conf ord n = None" for ord n by (simp add: gasCheck_def match_conf_def)
  show ?thesis
    using start_available [of start_gas]
    by (simp add: checkNewOrder_def q g p ord c e s gas Let_def start_gas_def [symmetric])
qed

definition start_row :: Order where
  "start_row = start_order\<lparr> ID := 1, GasFeeLimit := start_gas, OldStatus := OrderStatusUnset, Status := OrderPending \<rparr>"

lemma InsertOrder_free:
  assumes "orders_of b (order_key ord) = None"
  obtains b' where "InsertOrder b ord = (Inr (), b')"
  using assms InsertOrder_fails_iff [of b ord] that
  by (cases "InsertOrder b ord"; cases "fst (InsertOrder b ord)") auto

lemma orders_of_NewOrderbook [simp]: "orders_of NewOrderbook = Map.empty"
  by (auto simp: orders_of_def NewOrderbook_def GetOrder_def sideTree_def)

definition start_saved :: mstate where
  "start_saved = start_state\<lparr> dbTables := \<lparr> tOrders = [start_row], tMatchTxs = [], tPerpetuals = [], tNextID = 2 \<rparr> \<rparr>"

lemma start_create:
  "CreateOrder 0 (start_order\<lparr> GasFeeLimit := start_gas \<rparr>) start_state =
   (Inr (start_order\<lparr> GasFeeLimit := start_gas, OldStatus := OrderStatusUnset, Status := OrderPending \<rparr>), start_saved)"
  by (simp add: CreateOrder_def dbCall_def saveOrder_def start_state_def start_saved_def start_row_def
      marshalCancelReason_def setStatusByAmounts_def dbRow_def start_order_def match_db_order_def bindE_def)

lemma start_new_order:
  obtains s where "NewOrder lib18 match_env match_conf match_perp id start_order start_state = Some (MatchOK, s)"
    "dbTables s = dbTables start_saved" "dbFaults s = []" "msTimers s = [(''h'', 1000)]"
    "InsertOrder NewOrderbook (getMemoryOrder start_row) = (Inr (), msBook s)"
proof -
  let ?o = "start_order\<lparr> GasFeeLimit := start_gas, OldStatus := OrderStatusUnset, Status := OrderPending \<rparr>"
  have m: "getMemoryOrder ?o = getMemoryOrder start_row" by (simp add: getMemoryOrder_def start_row_def)
  obtain b where b: "InsertOrder NewOrderbook (getMemoryOrder start_row) = (Inr (), b)"
    by (rule InsertOrder_free [of NewOrderbook "getMemoryOrder start_row"]) simp
  let ?s = "start_saved\<lparr> msBook := b, msTimers := [(''h'', 1000)] \<rparr>"
  have f: "dbFaults start_saved = []" "msTrgr start_saved = 0" "msWs start_saved = []" "envNow match_env = 0"
    by (simp_all add: start_saved_def start_state_def match_env_def)
  have ins: "bookInsert (getMemoryOrder ?o) start_saved = (Inr (), start_saved\<lparr> msBook := b \<rparr>)"
    using b by (simp add: bookInsert_def m start_saved_def start_state_def)
  have tm: "setExpirationTimer 0 (OrderHash ?o) (ExpiresAt ?o) (start_saved\<lparr> msBook := b \<rparr>) = (Inr (), ?s)"
    by (simp add: setExpirationTimer_def start_order_def match_db_order_def start_saved_def start_state_def)
  have "newOrderTx 0 (start_order\<lparr> GasFeeLimit := start_gas \<rparr>) start_state = (Inr ?o, ?s)"
    using ins tm by (simp add: newOrderTx_def Transaction_def bindE_def start_create dbCall_def f)
  then have "NewOrder lib18 match_env match_conf match_perp id start_order start_state =
      Some (MatchOK, (notifyAll [?o] ?s)\<lparr> msTrgr := 1 \<rparr>)"
    by (simp add: NewOrder_def start_check Let_def notifyAll_def ChannelHWM_def f)
  from that [OF this] b show ?thesis by (simp add: notifyAll_def f)
qed

lemma start_reachable:
  obtains s where "reachable lib18 match_conf match_perp s" "tOrders (dbTables s) = [start_row]"
    "NewOrder lib18 match_env match_conf match_perp id start_order start_state = Some (MatchOK, s)"
proof -
  obtain s where s: "NewOrder lib18 match_env match_conf match_perp id start_order start_state = Some (MatchOK, s)"
    "dbTables s = dbTables start_saved" by (rule start_new_order)
  have "reachable lib18 match_conf match_perp s"
    using reachable.start [OF start_initial] step.new_order [OF start_fresh s(1)] by (rule reachable.step)
  from that [OF this] s show ?thesis by (simp add: start_saved_def)
qed

section \<open>Properties\<close>



text \<open>
  the order book of a matcher is well-formed in every reachable state: levels sorted by
  price without empty ones, every order at its own price and side with a nonzero amount, the level
  totals the sums of their orders. No failing transaction, rollback or reload breaks it.
\<close>

theorem reachable_book_wf:
  assumes "reachable L cf perp s"
  shows "book_wf (msBook s)"
  using reachable_well [OF assms] by (simp add: well_def)

theorem reachable_book_wf_witness:
  "\<exists>s. reachable lib18 match_conf match_perp s \<and> tOrders (dbTables s) \<noteq> [] \<and> book_wf (msBook s)"
proof -
  obtain s where s: "reachable lib18 match_conf match_perp s" "tOrders (dbTables s) = [start_row]"
    by (rule start_reachable)
  with reachable_book_wf [OF s(1)] show ?thesis by auto
qed

text \<open>
  C15: the order rows are only ever appended. A step of a matcher keeps every row at its place with
  its signed parameters, id, hash and collateral; only the amounts, the status, the cancel reasons
  and the time stamps may change.
\<close>

theorem step_keeps_rows:
  assumes "reachable L cf perp s" "step L cf perp s s'"
  shows "\<exists>new. map ident (tOrders (dbTables s')) = map ident (tOrders (dbTables s)) @ new"
  using step_grown [OF assms(2) reachable_well [OF assms(1)]]
  by (auto simp: well_def grown_def tables_ok_def)

theorem step_keeps_rows_witness:
  "\<exists>s. reachable lib18 match_conf match_perp start_state \<and> step lib18 match_conf match_perp start_state s \<and>
     map ident (tOrders (dbTables s)) = map ident (tOrders (dbTables start_state)) @ [ident start_row]"
proof -
  obtain s where s: "tOrders (dbTables s) = [start_row]"
    "NewOrder lib18 match_env match_conf match_perp id start_order start_state = Some (MatchOK, s)"
    by (rule start_reachable)
  have st: "step lib18 match_conf match_perp start_state s" using start_fresh s(2) by (rule step.new_order)
  from step_keeps_rows [OF reachable.start [OF start_initial] st] s(1) st reachable.start [OF start_initial]
  show ?thesis by (auto simp: start_state_def)
qed

end
