(* ===== verification/Match_Sync.thy ===== *)
theory Match_Sync
  imports Match_Invariant
begin

text \<open>
  The order book and the database tell the same: while no statement of the database fails, the
  book of a matcher holds exactly the orders of its perpetual that have an available amount, with
  this amount. The handlers change the book inside their transactions, so a transaction that is
  rolled back breaks the agreement; a matcher that is started again restores it.
\<close>

section \<open>The agreement\<close>

definition in_perp :: "Perpetual \<Rightarrow> Order \<Rightarrow> bool" where
  "in_perp perp r \<longleftrightarrow> LiquidityPoolAddress r = ppLiquidityPoolAddress perp \<and>
     PerpetualIndex r = ppPerpetualIndex perp"

definition active :: "Perpetual \<Rightarrow> tables \<Rightarrow> Order set" where
  "active perp t = {r \<in> set (tOrders t). in_perp perp r \<and> AvailableAmount r \<noteq> 0}"

definition book_orders :: "Orderbook \<Rightarrow> MemoryOrder set" where
  "book_orders b = ran (orders_of b)"

text \<open>What is available of an order has the sign of the order.\<close>

definition sided :: "Order \<Rightarrow> bool" where
  "sided r \<longleftrightarrow> Amount r \<noteq> 0 \<and> HasTheSameSign (AvailableAmount r) (Amount r)"

definition synced :: "Perpetual \<Rightarrow> tables \<Rightarrow> Orderbook \<Rightarrow> bool" where
  "synced perp t b \<longleftrightarrow> tables_ok (map ident (tOrders t)) t \<and> book_wf b \<and>
     (\<forall>r \<in> set (tOrders t). sided r) \<and> book_orders b = getMemoryOrder ` active perp t"

section \<open>The book as a set of orders\<close>

lemma book_orders_key:
  assumes "book_wf b" "ord \<in> book_orders b"
  shows "orders_of b (order_key ord) = Some ord"
proof -
  from assms(2) obtain k where k: "orders_of b k = Some ord" by (auto simp: book_orders_def ran_def)
  with orders_of_wf(1) [OF assms(1) k] show ?thesis by simp
qed

lemma orders_of_book: "orders_of b k = Some ord \<Longrightarrow> ord \<in> book_orders b"
  by (simp add: book_orders_def ranI)

lemma ran_upd:
  assumes "\<And>k x. m k = Some x \<Longrightarrow> key x = k"
  shows "ran (m(k := v)) = {x \<in> ran m. key x \<noteq> k} \<union> set_option v"
  using assms by (cases v) (auto simp: ran_def split: if_splits)

lemma book_orders_upd:
  assumes "book_wf b" "orders_of b' = (orders_of b)(order_key ord := v)"
  shows "book_orders b' = {x \<in> book_orders b. order_key x \<noteq> order_key ord} \<union> set_option v"
  unfolding book_orders_def assms(2) by (rule ran_upd) (rule orders_of_wf(1) [OF assms(1)])

lemma InsertOrder_book:
  assumes "book_wf b" "moAmount ord \<noteq> 0" "orders_of b (order_key ord) = None"
  obtains b' where "InsertOrder b ord = (Inr (), b')" "book_wf b'" "book_orders b' = insert ord (book_orders b)"
proof -
  obtain b' where b': "InsertOrder b ord = (Inr (), b')" using assms(3) by (rule InsertOrder_free)
  have "orders_of b' = (orders_of b)(order_key ord := Some ord)"
    by (auto simp: orders_of_def order_key_def InsertOrder_GetOrder(2) [OF b'])
  from book_orders_upd [OF assms(1) this] assms(1,3) book_orders_key
  have "book_orders b' = insert ord (book_orders b)" by fastforce
  with that b' InsertOrder_wf [OF b' assms(1,2)] show ?thesis by blast
qed

lemma ChangeOrder_book:
  assumes "book_wf b" "orders_of b (order_key ord) = Some cur"
    "moAmount cur + x = 0 \<or> HasTheSameSign (moAmount cur + x) (moAmount cur)"
  obtains b' where "ChangeOrder b ord x = (Inr (), b')" "book_wf b'"
    "book_orders b' = book_orders b - {cur} \<union>
       (if moAmount cur + x = 0 then {} else {cur\<lparr> moAmount := moAmount cur + x \<rparr>})"
proof -
  obtain r b' where r: "ChangeOrder b ord x = (r, b')" by fastforce
  with assms(2,3) ChangeOrder_fails_iff [of b ord x] have ok: "ChangeOrder b ord x = (Inr (), b')"
    by (cases r) auto
  then obtain cur' where c: "GetOrder b (moID ord) (moAmount ord < 0) (moPrice ord) = Some cur'"
    "moAmount cur' + x = 0 \<or> HasTheSameSign (moAmount cur' + x) (moAmount cur')"
    "\<And>i c price. GetOrder b' i c price =
       (if i = moID ord \<and> c = (moAmount ord < 0) \<and> price = moPrice ord
        then (if moAmount cur' + x = 0 then None else Some (cur'\<lparr> moAmount := moAmount cur' + x \<rparr>))
        else GetOrder b i c price)"
    using assms(1) by (rule ChangeOrder_GetOrder) blast
  have cur: "cur' = cur" using c(1) assms(2) by (simp add: orders_of_def order_key_def)
  have k: "order_key cur = order_key ord" using orders_of_wf(1) [OF assms(1,2)] .
  have "orders_of b' = (orders_of b)(order_key ord :=
      (if moAmount cur + x = 0 then None else Some (cur\<lparr> moAmount := moAmount cur + x \<rparr>)))"
    by (auto simp: orders_of_def order_key_def c(3) cur)
  note u = book_orders_upd [OF assms(1) this]
  have "{y \<in> book_orders b. order_key y \<noteq> order_key ord} = book_orders b - {cur}"
    using book_orders_key [OF assms(1)] k assms(2) by fastforce
  with that [OF ok ChangeOrder_wf [OF ok assms(1)]] u show ?thesis by (auto split: if_splits)
qed

section \<open>Rows and their entries in the book\<close>

lemma memory_simps [simp]:
  "moID (getMemoryOrder r) = OrderHash r" "moPrice (getMemoryOrder r) = Price r"
  "moAmount (getMemoryOrder r) = AvailableAmount r"
  by (simp_all add: getMemoryOrder_def)

lemma sided_key:
  assumes "sided r" "AvailableAmount r \<noteq> 0"
  shows "order_key (getMemoryOrder r) = (Amount r < 0, Price r, OrderHash r)"
  using assms same_sign_neq_0 [of "AvailableAmount r" "Amount r"] by (simp add: sided_def order_key_def)

lemma synced_rows:
  assumes "synced perp t b" "r \<in> set (tOrders t)" "r' \<in> set (tOrders t)" "OrderHash r = OrderHash r'"
  shows "r = r'"
  using assms by (auto simp: synced_def tables_ok_def orders_ok_def distinct_map dest: inj_onD)

text \<open>Looking a row up in the book finds its entry exactly when it has an available amount.\<close>

lemma synced_lookup:
  assumes "synced perp t b" "r \<in> set (tOrders t)"
  shows "GetOrder b (OrderHash r) (Amount r < 0) (Price r) =
     (if r \<in> active perp t then Some (getMemoryOrder r) else None)"
proof (cases "r \<in> active perp t")
  case True
  then have m: "getMemoryOrder r \<in> book_orders b" "AvailableAmount r \<noteq> 0"
    using assms(1) by (auto simp: synced_def active_def)
  have "book_wf b" "sided r" using assms by (auto simp: synced_def)
  from book_orders_key [OF this(1) m(1)] sided_key [OF this(2) m(2)] True show ?thesis
    by (simp add: orders_of_def)
next
  case False
  have "GetOrder b (OrderHash r) (Amount r < 0) (Price r) \<noteq> Some ord" for ord
  proof
    assume g: "GetOrder b (OrderHash r) (Amount r < 0) (Price r) = Some ord"
    then have o: "orders_of b (Amount r < 0, Price r, OrderHash r) = Some ord" by (simp add: orders_of_def)
    from orders_of_book [OF o] assms(1) obtain r' where r': "r' \<in> active perp t" "ord = getMemoryOrder r'"
      by (auto simp: synced_def)
    have "book_wf b" using assms(1) by (simp add: synced_def)
    from orders_of_wf(1) [OF this o] r'(2) have "OrderHash r' = OrderHash r" by (simp add: order_key_def)
    with r'(1) synced_rows [OF assms(1), of r' r] assms(2) False show False by (auto simp: active_def)
  qed
  with False show ?thesis by (cases "GetOrder b (OrderHash r) (Amount r < 0) (Price r)") auto
qed

lemma synced_book:
  assumes "synced perp t b" "ord \<in> book_orders b"
  obtains r where "r \<in> active perp t" "ord = getMemoryOrder r" "sided r"
  using assms by (auto simp: synced_def active_def)

text \<open>Replacing one row: the table of \<^verbatim>\<open>Save\<close>.\<close>

definition replaceRow :: "Order \<Rightarrow> tables \<Rightarrow> tables" where
  "replaceRow row t = t\<lparr> tOrders := map (\<lambda>r. if ID r = ID row then row else r) (tOrders t) \<rparr>"

lemma synced_tables: "synced perp t b \<Longrightarrow> tables_ok (map ident (tOrders t)) t"
  by (simp add: synced_def)

lemma replaceRow_save:
  assumes "tables_ok K (dbTables s)" "r \<in> set (tOrders (dbTables s))" "ident row = ident r"
  shows "saveOrder row s = (Inr (), s\<lparr> dbTables := replaceRow row (dbTables s) \<rparr>)"
proof -
  let ?t = "dbTables s"
  have id: "ID row = ID r" "OrderHash row = OrderHash r" using assms(3) identD(1,2) by blast+
  have d: "0 < ID r" "inj_on OrderHash (set (tOrders ?t))"
    using assms(1,2) by (simp_all add: tables_ok_def orders_ok_def distinct_map)
  have "\<not> (\<exists>x \<in> set (tOrders ?t). OrderHash x = OrderHash row \<and> (ID row = 0 \<or> ID x \<noteq> ID row))"
    using d assms(2) id by (metis inj_onD less_irrefl)
  moreover have "ID row \<noteq> 0" "\<exists>x \<in> set (tOrders ?t). ID x = ID row" using d id assms(2) by auto
  ultimately show ?thesis unfolding saveOrder_def Let_def replaceRow_def by simp
qed

lemma replaceRow_tables_ok:
  assumes "tables_ok K t" "r \<in> set (tOrders t)" "ident row = ident r" "row_ok row"
  shows "tables_ok K (replaceRow row t)"
proof -
  define s :: mstate where "s = start_state\<lparr> dbTables := t \<rparr>"
  have t: "dbTables s = t" by (simp add: s_def)
  have "ident row \<in> set K" using assms(1-3) by (auto simp: tables_ok_def)
  with saveOrder_tables_ok [of K s row] replaceRow_save [of K s r row] assms t show ?thesis by simp
qed

lemma replaceRow_set:
  assumes "tables_ok K t" "r \<in> set (tOrders t)" "ID row = ID r"
  shows "set (tOrders (replaceRow row t)) = insert row (set (tOrders t) - {r})"
  using assms by (auto simp: replaceRow_def tables_ok_def orders_ok_def distinct_map dest: inj_onD)

lemma memory_inj:
  assumes "synced perp t b"
  shows "inj_on getMemoryOrder (set (tOrders t))"
  using synced_rows [OF assms] by (intro inj_onI) (metis memory_simps(1))

text \<open>
  The agreement after one row and its entry have been replaced: \<open>old\<close> is the entry of the row
  before, \<open>new\<close> the one after.
\<close>

definition entry :: "Perpetual \<Rightarrow> Order \<Rightarrow> MemoryOrder set" where
  "entry perp r = (if in_perp perp r \<and> AvailableAmount r \<noteq> 0 then {getMemoryOrder r} else {})"

lemma synced_replace:
  assumes "synced perp t b" "r \<in> set (tOrders t)" "ident row = ident r" "row_ok row" "sided row"
    "book_wf b'" "book_orders b' = book_orders b - entry perp r \<union> entry perp row"
  shows "synced perp (replaceRow row t) b'"
proof -
  let ?t = "replaceRow row t"
  have rows: "set (tOrders ?t) = insert row (set (tOrders t) - {r})"
    using replaceRow_set [OF synced_tables [OF assms(1)] assms(2)] assms(3) identD(1) by blast
  have ok: "tables_ok (map ident (tOrders t)) ?t"
    using assms(1-4) synced_tables replaceRow_tables_ok by blast
  then have ok': "tables_ok (map ident (tOrders ?t)) ?t" by (simp add: tables_ok_def)
  have "active perp ?t = active perp t - {r} \<union> (if in_perp perp row \<and> AvailableAmount row \<noteq> 0 then {row} else {})"
    unfolding active_def rows by auto
  then have "getMemoryOrder ` active perp ?t = getMemoryOrder ` (active perp t - {r}) \<union> entry perp row"
    by (auto simp: entry_def)
  moreover have "getMemoryOrder ` (active perp t - {r}) = book_orders b - entry perp r"
  proof -
    have "active perp t \<subseteq> set (tOrders t)" by (auto simp: active_def)
    then have "getMemoryOrder ` (active perp t - {r}) = getMemoryOrder ` active perp t - getMemoryOrder ` {r}"
      using assms(2) by (intro inj_on_image_set_diff [OF memory_inj [OF assms(1)]]) auto
    also have "\<dots> = getMemoryOrder ` active perp t - entry perp r"
      using memory_inj [OF assms(1)] assms(2) by (auto simp: entry_def active_def dest: inj_onD)
    finally show ?thesis using assms(1) by (simp add: synced_def)
  qed
  moreover have "\<forall>x \<in> set (tOrders ?t). sided x" using assms(1,5) unfolding rows synced_def by auto
  ultimately show ?thesis using assms(6,7) ok' by (simp add: synced_def)
qed

section \<open>Statements that do not fail\<close>

text \<open>The row \<^verbatim>\<open>UpdateOrder\<close> writes.\<close>

definition savedRow :: "time \<Rightarrow> Order \<Rightarrow> Order" where
  "savedRow now ord = dbRow (setStatusByAmounts ((marshalCancelReason ord)\<lparr> UpdatedAt := now \<rparr>))"

lemma savedRow_simps [simp]:
  "ident (savedRow now ord) = ident ord" "amounts (savedRow now ord) = amounts ord"
  "AvailableAmount (savedRow now ord) = AvailableAmount ord" "Amount (savedRow now ord) = Amount ord"
  "CanceledAmount (savedRow now ord) = CanceledAmount ord" "PendingAmount (savedRow now ord) = PendingAmount ord"
  "ConfirmedAmount (savedRow now ord) = ConfirmedAmount ord" "OrderHash (savedRow now ord) = OrderHash ord"
  "ID (savedRow now ord) = ID ord"
  "getMemoryOrder (savedRow now ord) = getMemoryOrder ord" "sided (savedRow now ord) = sided ord"
  "in_perp perp (savedRow now ord) = in_perp perp ord" "entry perp (savedRow now ord) = entry perp ord"
  by (simp_all add: savedRow_def dbRow_def setStatusByAmounts_def marshalCancelReason_def amounts_def
      getMemoryOrder_def sided_def in_perp_def entry_def)

lemma savedRow_ok: "conserved ord \<Longrightarrow> row_ok (savedRow now ord)"
  using conserved_cong [of "savedRow now ord" ord]
  by (simp add: row_ok_def) (simp add: savedRow_def dbRow_def setStatusByAmounts_def marshalCancelReason_def)

lemma run_UpdateOrder:
  assumes "dbFaults s = []" "tables_ok K (dbTables s)" "r \<in> set (tOrders (dbTables s))" "ident ord = ident r"
  obtains ord' where "UpdateOrder now ord s = (Inr ord', s\<lparr> dbTables := replaceRow (savedRow now ord) (dbTables s) \<rparr>)"
    "ident ord' = ident ord" "amounts ord' = amounts ord" "getMemoryOrder ord' = getMemoryOrder ord"
proof -
  let ?o = "(marshalCancelReason ord)\<lparr> OldStatus := Status ord,
      Status := Status (setStatusByAmounts ((marshalCancelReason ord)\<lparr> UpdatedAt := now \<rparr>)) \<rparr>"
  have "saveOrder (savedRow now ord) s = (Inr (), s\<lparr> dbTables := replaceRow (savedRow now ord) (dbTables s) \<rparr>)"
    using assms(2-4) by (intro replaceRow_save) simp_all
  then have "UpdateOrder now ord s = (Inr ?o, s\<lparr> dbTables := replaceRow (savedRow now ord) (dbTables s) \<rparr>)"
    using assms(1) by (simp add: UpdateOrder_def Let_def dbCall_def savedRow_def bindE_def)
  from that [OF this] show ?thesis by (simp add: marshalCancelReason_def amounts_def getMemoryOrder_def)
qed

lemma run_Get_row:
  assumes "dbFaults s = []" "tables_ok K (dbTables s)" "r \<in> set (tOrders (dbTables s))" "OrderHash r = h"
  shows "GetOrderByHash h s = (Inr r, s)"
proof -
  have inj: "inj_on OrderHash (set (tOrders (dbTables s)))"
    using assms(2) by (simp add: tables_ok_def orders_ok_def distinct_map)
  have "find (\<lambda>r. OrderHash r = h) (tOrders (dbTables s)) \<noteq> None"
    using assms(3,4) by (auto simp: find_None_iff)
  then obtain r' where f: "find (\<lambda>r. OrderHash r = h) (tOrders (dbTables s)) = Some r'" by blast
  then have "r' \<in> set (tOrders (dbTables s))" "OrderHash r' = h" by (auto simp: find_Some_iff)
  with assms(3,4) have "r' = r" by (intro inj_onD [OF inj]) simp_all
  with f assms(1) show ?thesis by (simp add: GetOrderByHash_def dbCall_def)
qed

lemma run_Get_none:
  assumes "dbFaults s = []" "h \<notin> OrderHash ` set (tOrders (dbTables s))"
  shows "GetOrderByHash h s = (Inl ''GetOrder:record not found'', s)"
proof -
  have "find (\<lambda>r. OrderHash r = h) (tOrders (dbTables s)) = None" using assms(2) by (auto simp: find_None_iff)
  with assms(1) show ?thesis by (simp add: GetOrderByHash_def dbCall_def)
qed

lemma run_Transaction:
  assumes "dbFaults s = []" "body s = (Inr x, s')" "dbFaults s' = []"
  shows "Transaction body s = (Inr x, s')"
  using assms by (simp add: Transaction_def dbCall_def)

section \<open>Cancelling\<close>

text \<open>The amount a cancellation takes: all, or what is asked for up to what is available.\<close>

definition cancelledAmount :: "Order \<Rightarrow> bool \<Rightarrow> decimal \<Rightarrow> decimal" where
  "cancelledAmount r cancelAll amount =
     (if cancelAll \<or> \<bar>AvailableAmount r\<bar> < \<bar>amount\<bar> then AvailableAmount r else amount)"

lemma CancelOrder_ok:
  assumes "reason \<noteq> CancelReasonEmpty" "d \<noteq> 0" "HasTheSameSign d (Amount r)" "\<bar>d\<bar> \<le> \<bar>AvailableAmount r\<bar>"
  obtains r' where "CancelOrder now r reason d = Inr r'" "ident r' = ident r"
    "amounts r' = (AvailableAmount r - d, PendingAmount r, ConfirmedAmount r, CanceledAmount r + d)"
    "getMemoryOrder r' = (getMemoryOrder r)\<lparr> moAmount := AvailableAmount r - d \<rparr>"
  using assms by (auto simp: CancelOrder_def Let_def addCancelReason_def amounts_def getMemoryOrder_def)

lemma same_sign_minus:
  assumes "HasTheSameSign d a" "HasTheSameSign x a" "a \<noteq> 0" "\<bar>d\<bar> \<le> \<bar>x\<bar>"
  shows "HasTheSameSign (x - d) a" "HasTheSameSign (x - d) x"
  using assms by (auto simp: HasTheSameSign_iff zero_le_mult_iff abs_if split: if_splits)

lemma synced_conserved: "synced perp t b \<Longrightarrow> r \<in> set (tOrders t) \<Longrightarrow> conserved r \<and> sided r"
  by (auto simp: synced_def tables_ok_def orders_ok_def row_ok_def)

text \<open>What a cancellation amounts to when the book and the database agree.\<close>

lemma synced_cancelAmounts:
  assumes "synced perp t b" "r \<in> set (tOrders t)"
  shows "cancelAmounts r (GetOrder b (OrderHash r) (Amount r < 0) (Price r)) all amount =
     (if r \<in> active perp t then Some (cancelledAmount r all amount, cancelledAmount r all amount)
      else if AvailableAmount r = 0 then None else Some (AvailableAmount r, 0))"
  unfolding synced_lookup [OF assms] by (auto simp: cancelAmounts_def cancelledAmount_def Let_def)

lemma cancelledAmount_bounds:
  assumes "sided r" "all \<or> HasTheSameSign amount (Amount r)"
  shows "HasTheSameSign (cancelledAmount r all amount) (Amount r)"
    "\<bar>cancelledAmount r all amount\<bar> \<le> \<bar>AvailableAmount r\<bar>"
  using assms by (auto simp: cancelledAmount_def sided_def)

text \<open>The row and its entry after \<open>d\<close> of it has been cancelled.\<close>

lemma cancelFound_run:
  assumes "synced perp (dbTables s) (msBook s)" "dbFaults s = []" "reason \<noteq> CancelReasonEmpty"
    "r \<in> set (tOrders (dbTables s))" "all \<or> HasTheSameSign amount (Amount r)"
    "in_perp perp r" "cancelledAmount r all amount \<noteq> 0"
  defines "d \<equiv> cancelledAmount r all amount"
  obtains row b' ord where
    "cancelFound now h reason all amount r (GetOrder (msBook s) (OrderHash r) (Amount r < 0) (Price r)) s =
       (Inr (Some ord), deleteOrderTimer h (s\<lparr> msBook := b', dbTables := replaceRow row (dbTables s) \<rparr>))"
    "synced perp (replaceRow row (dbTables s)) b'" "ident row = ident r"
    "amounts row = (AvailableAmount r - d, PendingAmount r, ConfirmedAmount r, CanceledAmount r + d)"
proof -
  let ?b = "msBook s" and ?t = "dbTables s"
  have c: "conserved r" "sided r" using synced_conserved [OF assms(1,4)] by auto
  note bounds = cancelledAmount_bounds [OF c(2) assms(5), folded d_def]
  have d: "d \<noteq> 0" using assms(7) by (simp add: d_def)
  then have av: "AvailableAmount r \<noteq> 0" using bounds(2) by auto
  with assms(4,6) have act: "r \<in> active perp ?t" by (simp add: active_def)
  have wf: "book_wf ?b" and cur: "orders_of ?b (order_key (getMemoryOrder r)) = Some (getMemoryOrder r)"
    using assms(1) act book_orders_key by (auto simp: synced_def)
  have sign: "HasTheSameSign (AvailableAmount r - d) (Amount r)"
    "HasTheSameSign (AvailableAmount r - d) (AvailableAmount r)"
    using same_sign_minus [OF bounds(1)] bounds(2) c(2) by (auto simp: sided_def)
  obtain b' where b': "ChangeOrder ?b (getMemoryOrder r) (- d) = (Inr (), b')" "book_wf b'"
    "book_orders b' = book_orders ?b - {getMemoryOrder r} \<union> (if moAmount (getMemoryOrder r) + - d = 0 then {}
       else {(getMemoryOrder r)\<lparr> moAmount := moAmount (getMemoryOrder r) + - d \<rparr>})"
    by (rule ChangeOrder_book [OF wf cur, of "- d"]) (use sign(2) in simp)
  obtain r' where r': "CancelOrder now r reason d = Inr r'" "ident r' = ident r"
    "amounts r' = (AvailableAmount r - d, PendingAmount r, ConfirmedAmount r, CanceledAmount r + d)"
    "getMemoryOrder r' = (getMemoryOrder r)\<lparr> moAmount := AvailableAmount r - d \<rparr>"
    using assms(3) d bounds by (rule CancelOrder_ok)
  let ?s = "s\<lparr> msBook := b' \<rparr>" and ?row = "savedRow now r'"
  obtain ord where u: "UpdateOrder now r' ?s = (Inr ord, ?s\<lparr> dbTables := replaceRow ?row (dbTables ?s) \<rparr>)"
    using run_UpdateOrder [of ?s _ r r' now] assms(2,4) synced_tables [OF assms(1)] r'(2) by auto
  have lookup: "GetOrder ?b (OrderHash r) (Amount r < 0) (Price r) = Some (getMemoryOrder r)"
    using synced_lookup [OF assms(1,4)] act by simp
  have run: "cancelFound now h reason all amount r (GetOrder ?b (OrderHash r) (Amount r < 0) (Price r)) s =
       (Inr (Some ord), deleteOrderTimer h (s\<lparr> msBook := b', dbTables := replaceRow ?row ?t \<rparr>))"
    unfolding cancelFound_def synced_cancelAmounts [OF assms(1,4)]
    using act d b'(1) r'(1) u by (simp add: d_def [symmetric] lookup bookChange_def bindE_def)
  have am: "Amount r' = Amount r" "in_perp perp r'" "AvailableAmount r' = AvailableAmount r - d"
    using r'(2,3) assms(6) identD(3,5,6) [of r' r] by (auto simp: amounts_def in_perp_def)
  have "conserved r'" using r'(2,3) c(1) am(1) by (simp add: conserved_iff amounts_def conserved_def)
  moreover have "sided r'" using sign(1) c(2) am by (simp add: sided_def)
  moreover have "book_orders b' = book_orders ?b - entry perp r \<union> entry perp ?row"
    unfolding b'(3) using av assms(6) am r'(4) by (auto simp: entry_def)
  ultimately have "synced perp (replaceRow ?row ?t) b'"
    using assms(1,4) r'(2) b'(2) by (intro synced_replace [where r = r and b = ?b]) (auto intro: savedRow_ok)
  from that [OF run this] r' show ?thesis by (simp add: amounts_def)
qed

lemma deleteOrderTimer_simps [simp]:
  "dbTables (deleteOrderTimer h s) = dbTables s" "msBook (deleteOrderTimer h s) = msBook s"
  "dbFaults (deleteOrderTimer h s) = dbFaults s"
  by (simp_all add: deleteOrderTimer_def)

lemma notifyAll_simps [simp]:
  "dbTables (notifyAll ords s) = dbTables s" "msBook (notifyAll ords s) = msBook s"
  "dbFaults (notifyAll ords s) = dbFaults s" "msTimers (notifyAll ords s) = msTimers s"
  by (simp_all add: notifyAll_def)

lemma cancel_nothing:
  assumes "synced perp (dbTables s) (msBook s)" "dbFaults s = []" "r \<in> set (tOrders (dbTables s))"
    "in_perp perp r" "cancelledAmount r all amount = 0"
  obtains s1 where
    "cancelFound now h reason all amount r (GetOrder (msBook s) (OrderHash r) (Amount r < 0) (Price r)) s = (Inr None, s1)"
    "dbTables s1 = dbTables s" "msBook s1 = msBook s" "dbFaults s1 = []"
proof (cases "AvailableAmount r = 0")
  case True
  then have "r \<notin> active perp (dbTables s)" by (simp add: active_def)
  with True assms(2) that [of s] show ?thesis
    unfolding cancelFound_def synced_cancelAmounts [OF assms(1,3)] by simp
next
  case False
  with assms(3,4) have "r \<in> active perp (dbTables s)" by (simp add: active_def)
  with assms(2,5) that [of "deleteOrderTimer h s"] show ?thesis
    unfolding cancelFound_def synced_cancelAmounts [OF assms(1,3)] by (simp add: bindE_def)
qed

lemma replaceRow_same:
  assumes "tables_ok K t" "r \<in> set (tOrders t)"
  shows "replaceRow r t = t"
proof -
  have "map (\<lambda>x. if ID x = ID r then r else x) (tOrders t) = tOrders t"
    using assms by (auto simp: tables_ok_def orders_ok_def distinct_map dest: inj_onD intro!: map_idI)
  then show ?thesis by (simp add: replaceRow_def)
qed

text \<open>A cancellation replaces the row of the order, and its entry.\<close>

lemma cancel_run:
  assumes "synced perp (dbTables s) (msBook s)" "dbFaults s = []" "reason \<noteq> CancelReasonEmpty"
    "r \<in> set (tOrders (dbTables s))" "in_perp perp r" "all \<or> HasTheSameSign amount (Amount r)"
  defines "d \<equiv> cancelledAmount r all amount"
  obtains s' row where "cancelOrderWithoutLock now (OrderHash r) reason all amount s = (Inr (), s')" "dbFaults s' = []"
    "dbTables s' = replaceRow row (dbTables s)" "synced perp (dbTables s') (msBook s')" "ident row = ident r"
    "amounts row = (AvailableAmount r - d, PendingAmount r, ConfirmedAmount r, CanceledAmount r + d)"
proof -
  let ?h = "OrderHash r"
  note tok = synced_tables [OF assms(1)]
  have get: "GetOrderByHash ?h s = (Inr r, s)" using assms(2,4) tok by (intro run_Get_row) simp_all
  have body: "cancelBody now ?h reason all amount s =
      cancelFound now ?h reason all amount r (GetOrder (msBook s) ?h (Amount r < 0) (Price r)) s"
    using get by (simp add: cancelBody_def bindE_def)
  show ?thesis
  proof (cases "d = 0")
    case True
    with assms obtain s1 where s1: "cancelBody now ?h reason all amount s = (Inr None, s1)"
      "dbTables s1 = dbTables s" "msBook s1 = msBook s" "dbFaults s1 = []"
      using cancel_nothing [of perp s r all amount now ?h reason] body by auto
    have "Transaction (cancelBody now ?h reason all amount) s = (Inr None, s1)"
      using assms(2) s1(1,4) by (rule run_Transaction)
    then have "cancelOrderWithoutLock now ?h reason all amount s = (Inr (), s1)"
      by (simp add: cancelOrderWithoutLock_def)
    from that [OF this s1(4), of r] s1 True assms(1,4) replaceRow_same [OF tok assms(4)] show ?thesis
      by (simp add: amounts_def)
  next
    case False
    with assms obtain row b' ord where
      run: "cancelBody now ?h reason all amount s =
        (Inr (Some ord), deleteOrderTimer ?h (s\<lparr> msBook := b', dbTables := replaceRow row (dbTables s) \<rparr>))"
      and row: "synced perp (replaceRow row (dbTables s)) b'" "ident row = ident r"
        "amounts row = (AvailableAmount r - d, PendingAmount r, ConfirmedAmount r, CanceledAmount r + d)"
      using cancelFound_run [of perp s reason r all amount now ?h] body by metis
    let ?s = "deleteOrderTimer ?h (s\<lparr> msBook := b', dbTables := replaceRow row (dbTables s) \<rparr>)"
    have "Transaction (cancelBody now ?h reason all amount) s = (Inr (Some ord), ?s)"
      by (rule run_Transaction) (use assms(2) run in simp_all)
    then have c: "cancelOrderWithoutLock now ?h reason all amount s = (Inr (), notifyAll [ord] ?s)"
      by (simp add: cancelOrderWithoutLock_def)
    from that [OF this _ _ _ row(2,3)] row(1) assms(2) show ?thesis by simp
  qed
qed

section \<open>New orders\<close>

text \<open>The row \<^verbatim>\<open>CreateOrder\<close> writes.\<close>

definition createdRow :: "time \<Rightarrow> Order \<Rightarrow> Order" where
  "createdRow now ord = dbRow (setStatusByAmounts ((marshalCancelReason ord)\<lparr> CreatedAt := now \<rparr>))"

definition appendRow :: "Order \<Rightarrow> tables \<Rightarrow> tables" where
  "appendRow row t = t\<lparr> tOrders := tOrders t @ [row\<lparr> ID := tNextID t \<rparr>], tNextID := tNextID t + 1 \<rparr>"

lemma synced_append:
  assumes "synced perp t b" "row_ok row" "sided row" "in_perp perp row" "AvailableAmount row \<noteq> 0"
    "OrderHash row \<notin> OrderHash ` set (tOrders t)"
  obtains b' where "InsertOrder b (getMemoryOrder row) = (Inr (), b')" "synced perp (appendRow row t) b'"
proof -
  let ?row = "row\<lparr> ID := tNextID t \<rparr>"
  have m: "getMemoryOrder ?row = getMemoryOrder row" by (simp add: getMemoryOrder_def)
  have "orders_of b (order_key (getMemoryOrder row)) \<noteq> Some ord" for ord
  proof
    assume o: "orders_of b (order_key (getMemoryOrder row)) = Some ord"
    from synced_book [OF assms(1) orders_of_book [OF o]] obtain r where
      r: "r \<in> active perp t" "ord = getMemoryOrder r" by blast
    have "book_wf b" using assms(1) by (simp add: synced_def)
    from orders_of_wf(1) [OF this o] r(2) have "OrderHash r = OrderHash row" by (simp add: order_key_def)
    then have "OrderHash row \<in> OrderHash ` set (tOrders t)"
      using r(1) by (intro image_eqI [of _ _ r]) (simp_all add: active_def)
    with assms(6) show False by contradiction
  qed
  then have "orders_of b (order_key (getMemoryOrder row)) = None"
    by (cases "orders_of b (order_key (getMemoryOrder row))") auto
  with assms(1,5) obtain b' where b': "InsertOrder b (getMemoryOrder row) = (Inr (), b')" "book_wf b'"
    "book_orders b' = insert (getMemoryOrder row) (book_orders b)"
    by (metis InsertOrder_book memory_simps(3) synced_def)
  have "grown (map ident (tOrders t)) (appendRow row t)"
    unfolding appendRow_def by (rule insert_row [OF synced_tables [OF assms(1)] assms(2,6)])
  then have ok: "tables_ok (map ident (tOrders (appendRow row t))) (appendRow row t)"
    by (auto simp: grown_def tables_ok_def)
  have "active perp (appendRow row t) = insert ?row (active perp t)"
    using assms(4,5) by (auto simp: active_def appendRow_def in_perp_def)
  then have "book_orders b' = getMemoryOrder ` active perp (appendRow row t)"
    using assms(1) b'(3) m by (simp add: synced_def)
  moreover have "\<forall>r \<in> set (tOrders (appendRow row t)). sided r"
    using assms(1,3) by (auto simp: synced_def appendRow_def sided_def)
  ultimately show ?thesis using that [OF b'(1)] b'(2) ok by (simp add: synced_def)
qed

lemma setExpirationTimer_core:
  obtains s' where "setExpirationTimer now h due s = (Inr (), s')" "dbTables s' = dbTables s"
    "msBook s' = msBook s" "dbFaults s' = dbFaults s"
  by (cases "now < due") (auto simp: setExpirationTimer_def)

lemma newOrderTx_run:
  assumes "synced perp (dbTables s) (msBook s)" "dbFaults s = []" "fresh_order ord" "in_perp perp ord"
    "newOrderTx now ord s = (res, s')"
  shows "synced perp (dbTables s') (msBook s') \<and> dbFaults s' = [] \<and>
     (if OrderHash ord \<in> OrderHash ` set (tOrders (dbTables s))
      then isl res \<and> dbTables s' = dbTables s \<and> msBook s' = msBook s
      else \<not> isl res \<and> dbTables s' = appendRow (createdRow now ord) (dbTables s))"
proof -
  let ?row = "createdRow now ord" and ?t = "dbTables s"
  let ?ord = "(marshalCancelReason ord)\<lparr> OldStatus := Status ord, Status := Status ?row \<rparr>"
  have row: "row_ok ?row" "sided ?row" "in_perp perp ?row" "AvailableAmount ?row \<noteq> 0" "OrderHash ?row = OrderHash ord" "ID ?row = 0"
    "getMemoryOrder ?ord = getMemoryOrder ?row"
    using assms(3,4) by (simp_all add: createdRow_def row_ok_def conserved_def dbRow_def setStatusByAmounts_def
        marshalCancelReason_def fresh_order_def sided_def in_perp_def getMemoryOrder_def)
  show ?thesis
  proof (cases "OrderHash ord \<in> OrderHash ` set (tOrders ?t)")
    case True
    then have "\<exists>r \<in> set (tOrders ?t). OrderHash r = OrderHash ?row \<and> (ID ?row = 0 \<or> ID r \<noteq> ID ?row)"
      using row(5,6) by force
    then have "saveOrder ?row s = (Inl ''duplicate key value violates unique constraint'', s)"
      unfolding saveOrder_def Let_def by simp
    then have "CreateOrder now ord s = (Inl ''duplicate key value violates unique constraint'', s)"
      using assms(2) by (simp add: CreateOrder_def createdRow_def dbCall_def bindE_def Let_def)
    with assms(1,2,5) True show ?thesis by (auto simp: newOrderTx_def Transaction_def bindE_def)
  next
    case False
    then obtain b' where b': "InsertOrder (msBook s) (getMemoryOrder ?row) = (Inr (), b')"
      "synced perp (appendRow ?row ?t) b'"
      using synced_append [OF assms(1) row(1-4)] row(5) by metis
    let ?s = "s\<lparr> dbTables := appendRow ?row ?t \<rparr>"
    have "\<not> (\<exists>r \<in> set (tOrders ?t). OrderHash r = OrderHash ?row \<and> (ID ?row = 0 \<or> ID r \<noteq> ID ?row))"
      using False row(5) by (metis image_eqI)
    then have "saveOrder ?row s = (Inr (), ?s)"
      unfolding saveOrder_def Let_def appendRow_def using row(6) by simp
    then have c: "CreateOrder now ord s = (Inr ?ord, ?s)"
      using assms(2) by (simp add: CreateOrder_def createdRow_def dbCall_def bindE_def Let_def dbRow_def)
    have i: "bookInsert (getMemoryOrder ?ord) ?s = (Inr (), ?s\<lparr> msBook := b' \<rparr>)"
      unfolding row(7) bookInsert_def using b'(1) by simp
    obtain s2 where s2: "setExpirationTimer now (OrderHash ?ord) (ExpiresAt ?ord) (?s\<lparr> msBook := b' \<rparr>) = (Inr (), s2)"
      "dbTables s2 = appendRow ?row ?t" "msBook s2 = b'" "dbFaults s2 = []"
      by (rule setExpirationTimer_core [of now "OrderHash ?ord" "ExpiresAt ?ord" "?s\<lparr> msBook := b' \<rparr>"])
        (use assms(2) in auto)
    have "newOrderTx now ord s = (Inr ?ord, s2)"
      unfolding newOrderTx_def
      by (rule run_Transaction) (use assms(2) c i s2 in \<open>simp_all add: bindE_def\<close>)
    with assms(5) s2 b'(2) False show ?thesis by auto
  qed
qed

text \<open>A new order appends one row, or nothing changes.\<close>

lemma NewOrder_run:
  assumes "synced perp (dbTables s) (msBook s)" "dbFaults s = []" "fresh_order ord" "in_perp perp ord"
    "NewOrder L env cf perp visit ord s = Some (code, s')"
  obtains row where "synced perp (dbTables s') (msBook s')" "dbFaults s' = []"
    "code = MatchOK \<longrightarrow> OrderHash ord \<notin> OrderHash ` set (tOrders (dbTables s)) \<and> dbTables s' = appendRow row (dbTables s)"
    "code \<noteq> MatchOK \<longrightarrow> dbTables s' = dbTables s \<and> msBook s' = msBook s"
    "OrderHash row = OrderHash ord" "AvailableAmount row = Amount ord" "Amount row = Amount ord"
    "Price row = Price ord" "Status row = OrderPending" "in_perp perp row" "AvailableAmount row \<noteq> 0"
proof -
  from assms(5) obtain r1 s1 where c: "checkNewOrder L env cf perp visit ord s = Some (r1, s1)"
    by (auto simp: NewOrder_def bind_Some_iff)
  note core = checkNewOrder_core [OF c]
  have s1: "dbTables s1 = dbTables s" "msBook s1 = msBook s" "dbFaults s1 = []"
    using core(1,4) assms(2) by (simp_all add: same_core_def)
  have row: "OrderHash (createdRow now o1) = OrderHash ord" "AvailableAmount (createdRow now o1) = Amount ord"
    "Amount (createdRow now o1) = Amount ord" "Price (createdRow now o1) = Price ord" "Status (createdRow now o1) = OrderPending"
    "in_perp perp (createdRow now o1)" "AvailableAmount (createdRow now o1) \<noteq> 0" if "o1 = ord\<lparr> GasFeeLimit := g \<rparr>" for o1 g now
    using assms(3,4) that by (simp_all add: createdRow_def dbRow_def setStatusByAmounts_def marshalCancelReason_def
            fresh_order_def in_perp_def)
  show ?thesis
  proof (cases r1)
    case (Inl e)
    have "ord = ord\<lparr> GasFeeLimit := GasFeeLimit ord \<rparr>" by simp
    from that [OF _ _ _ _ row [OF this]] Inl core(3) assms(1,5) c s1 show ?thesis by (auto simp: NewOrder_def)
  next
    case (Inr ord1)
    with core(2) obtain g where g: "ord1 = ord\<lparr> GasFeeLimit := g \<rparr>" by blast
    obtain res s2 where tx: "newOrderTx (envNow env) ord1 s1 = (res, s2)" by fastforce
    have "fresh_order ord1" "in_perp perp ord1" using assms(3,4) g by (simp_all add: in_perp_def)
    from newOrderTx_run [OF _ s1(3) this tx] assms(1) s1
    have run: "synced perp (dbTables s2) (msBook s2)" "dbFaults s2 = []"
      "if OrderHash ord \<in> OrderHash ` set (tOrders (dbTables s))
       then isl res \<and> dbTables s2 = dbTables s \<and> msBook s2 = msBook s
       else \<not> isl res \<and> dbTables s2 = appendRow (createdRow (envNow env) ord1) (dbTables s)"
      by (simp_all add: g)
    have code: "code = MatchOK \<longleftrightarrow> \<not> isl res" "dbTables s' = dbTables s2" "msBook s' = msBook s2" "dbFaults s' = dbFaults s2"
      using assms(5) c Inr tx by (auto simp: NewOrder_def Let_def split: sum.splits if_splits)
    show ?thesis
      by (rule that [OF _ _ _ _ row [OF g]]) (use run code in \<open>auto split: if_splits\<close>)
  qed
qed

section \<open>A run on concrete data\<close>

lemma start_synced: "synced match_perp (dbTables start_state) (msBook start_state)"
  by (simp add: synced_def start_state_def tables_ok_def orders_ok_def active_def book_orders_def)

lemma start_row_simps [simp]:
  "OrderHash start_row = ''h''" "Amount start_row = -1" "AvailableAmount start_row = -1" "PendingAmount start_row = 0"
  "ConfirmedAmount start_row = 0" "CanceledAmount start_row = 0" "Price start_row = Price start_order"
  "in_perp match_perp start_row" "sided start_row" "row_ok start_row" "in_perp match_perp start_order"
  by (simp_all add: start_row_def start_order_def match_db_order_def in_perp_def match_perp_def sided_def
      HasTheSameSign_def row_ok_def conserved_def setStatusByAmounts_def)

text \<open>The state after the first order: it is in the table and in the book.\<close>

lemma start_saved_synced:
  obtains s where "NewOrder lib18 match_env match_conf match_perp id start_order start_state = Some (MatchOK, s)"
    "tOrders (dbTables s) = [start_row]" "dbFaults s = []" "synced match_perp (dbTables s) (msBook s)"
proof -
  obtain s where s: "NewOrder lib18 match_env match_conf match_perp id start_order start_state = Some (MatchOK, s)"
    "dbTables s = dbTables start_saved" "dbFaults s = []"
    "InsertOrder NewOrderbook (getMemoryOrder start_row) = (Inr (), msBook s)"
    by (rule start_new_order)
  have t: "appendRow start_row (dbTables start_state) = dbTables s" "tOrders (dbTables start_state) = []"
    "msBook start_state = NewOrderbook"
    unfolding s(2) by (simp_all add: appendRow_def start_state_def start_saved_def start_row_def)
  obtain b' where "InsertOrder NewOrderbook (getMemoryOrder start_row) = (Inr (), b')"
    "synced match_perp (dbTables s) b'"
    using synced_append [OF start_synced, of start_row] t by auto
  with s(4) have "synced match_perp (dbTables s) (msBook s)" by simp
  from that [OF s(1) _ s(3) this] show ?thesis unfolding s(2) by (simp add: start_saved_def)
qed

section \<open>Properties\<close>

text \<open>
  C4: cancelling keeps the database and the book in agreement. For an order of the perpetual, with
  nothing failing in the database, a cancellation of everything or of an amount on the order's
  side succeeds; exactly that amount, or all that is available if it is less, moves from available
  to cancelled in the row and leaves the book, and pending and confirmed amounts stay.
\<close>

theorem cancel_keeps_agreement:
  assumes "synced perp (dbTables s) (msBook s)" "dbFaults s = []" "reason \<noteq> CancelReasonEmpty"
    "r \<in> set (tOrders (dbTables s))" "in_perp perp r" "all \<or> HasTheSameSign amount (Amount r)"
  shows "\<exists>s' r'. cancelOrderWithoutLock now (OrderHash r) reason all amount s = (Inr (), s') \<and>
     synced perp (dbTables s') (msBook s') \<and> r' \<in> set (tOrders (dbTables s')) \<and> ident r' = ident r \<and>
     (let d = (if all \<or> \<bar>AvailableAmount r\<bar> < \<bar>amount\<bar> then AvailableAmount r else amount) in
      amounts r' = (AvailableAmount r - d, PendingAmount r, ConfirmedAmount r, CanceledAmount r + d) \<and>
      GetOrder (msBook s') (OrderHash r) (Amount r < 0) (Price r) =
        (if AvailableAmount r - d = 0 then None else Some (getMemoryOrder r')))"
proof -
  obtain s' row where run: "cancelOrderWithoutLock now (OrderHash r) reason all amount s = (Inr (), s')" "dbFaults s' = []"
    "dbTables s' = replaceRow row (dbTables s)" "synced perp (dbTables s') (msBook s')" "ident row = ident r"
    "amounts row = (AvailableAmount r - cancelledAmount r all amount, PendingAmount r, ConfirmedAmount r,
       CanceledAmount r + cancelledAmount r all amount)"
    using assms by (rule cancel_run)
  have m: "row \<in> set (tOrders (dbTables s'))"
    unfolding run(3) replaceRow_set [OF synced_tables [OF assms(1)] assms(4) identD(1) [OF run(5)]] by simp
  have id: "OrderHash row = OrderHash r" "Amount row = Amount r" "Price row = Price r" "in_perp perp row"
    using identD [OF run(5)] assms(5) by (simp_all add: in_perp_def)
  have "GetOrder (msBook s') (OrderHash r) (Amount r < 0) (Price r) =
      (if AvailableAmount row = 0 then None else Some (getMemoryOrder row))"
    using synced_lookup [OF run(4) m] m id by (simp add: active_def)
  moreover have "AvailableAmount row = AvailableAmount r - cancelledAmount r all amount"
    using run(6) by (simp add: amounts_def)
  ultimately show ?thesis
    using run(1,4-6) m unfolding cancelledAmount_def Let_def by (intro exI [of _ s'] exI [of _ row]) simp
qed

theorem cancel_keeps_agreement_witness:
  "\<exists>s s' r'. synced match_perp (dbTables s) (msBook s) \<and> start_row \<in> set (tOrders (dbTables s)) \<and>
     cancelOrderWithoutLock 5 ''h'' CancelReasonUserCancel False (- (1/4)) s = (Inr (), s') \<and>
     synced match_perp (dbTables s') (msBook s') \<and> r' \<in> set (tOrders (dbTables s')) \<and>
     amounts r' = (- (3/4), 0, 0, - (1/4)) \<and>
     GetOrder (msBook s') ''h'' True (Price start_order) = Some (getMemoryOrder r')"
proof -
  obtain s where "NewOrder lib18 match_env match_conf match_perp id start_order start_state = Some (MatchOK, s)"
    and s: "tOrders (dbTables s) = [start_row]" "dbFaults s = []" "synced match_perp (dbTables s) (msBook s)"
    by (rule start_saved_synced)
  have "HasTheSameSign (- (1/4)) (Amount start_row)" by (simp add: HasTheSameSign_def)
  with cancel_keeps_agreement [of match_perp s CancelReasonUserCancel start_row False "- (1/4)" 5] s
  obtain s' r' where "cancelOrderWithoutLock 5 ''h'' CancelReasonUserCancel False (- (1/4)) s = (Inr (), s')"
    "synced match_perp (dbTables s') (msBook s')" "r' \<in> set (tOrders (dbTables s'))"
    "amounts r' = (- (3/4), 0, 0, - (1/4))" "GetOrder (msBook s') ''h'' True (Price start_order) = Some (getMemoryOrder r')"
    by (auto simp: Let_def)
  with s show ?thesis by (intro exI conjI) auto
qed



end
