(* ===== verification/Match_Settle.thy ===== *)
theory Match_Settle
  imports Match_Sync
begin

text \<open>
  The agreement of the order book and the database through the matching itself, through the
  settlement of a mined match transaction and through a restart of the matcher.
\<close>

section \<open>Matching\<close>

text \<open>The amount that the items of a match transaction take of an order.\<close>

definition itemsAmount :: "MatchItemRow list \<Rightarrow> string \<Rightarrow> decimal" where
  "itemsAmount rows h = sum_list (map miAmount (filter (\<lambda>i. miOrderHash i = h) rows))"

lemma itemsAmount_simps [simp]:
  "itemsAmount [] h = 0"
  "itemsAmount (i # rows) h = (if miOrderHash i = h then miAmount i else 0) + itemsAmount rows h"
  by (simp_all add: itemsAmount_def)

text \<open>A row before and after a match: what is matched of it becomes pending; rows of other perpetuals
  stay as they are.\<close>

definition matched_row :: "Perpetual \<Rightarrow> MatchItemRow list \<Rightarrow> Order \<Rightarrow> Order \<Rightarrow> bool" where
  "matched_row perp rows r r' \<longleftrightarrow> ident r' = ident r \<and> (in_perp perp r \<or> r' = r) \<and> ConfirmedAmount r' = ConfirmedAmount r \<and>
     PendingAmount r' = PendingAmount r + itemsAmount rows (OrderHash r)"

lemma matched_row_refl: "list_all2 (matched_row perp []) rs rs"
  by (simp add: list_all2_same matched_row_def)

text \<open>The row after an item: of its entry the matched and the cancelled amount are gone.\<close>

lemma matchedOrder_row:
  assumes "item_ok item" "mitOrder item = getMemoryOrder r" "conserved r" "sided r" "AvailableAmount r \<noteq> 0"
    "HasTheSameSign (AvailableAmount r - mitMatchedAmount item) (AvailableAmount r)"
    and o'_def: "o' = matchedOrder now item r"
  shows "ident o' = ident r" "conserved o'" "sided o'" "ConfirmedAmount o' = ConfirmedAmount r"
    "PendingAmount o' = PendingAmount r + mitMatchedAmount item"
    "AvailableAmount o' = AvailableAmount r - (mitMatchedAmount item + mitOrderTotalCancel item)"
    "getMemoryOrder o' = (getMemoryOrder r)\<lparr> moAmount := AvailableAmount o' \<rparr>"
    "AvailableAmount o' = 0 \<or> HasTheSameSign (AvailableAmount o') (AvailableAmount r)"
proof -
  show "ident o' = ident r" "ConfirmedAmount o' = ConfirmedAmount r"
    "PendingAmount o' = PendingAmount r + mitMatchedAmount item"
    and av: "AvailableAmount o' = AvailableAmount r - (mitMatchedAmount item + mitOrderTotalCancel item)"
    and "getMemoryOrder o' = (getMemoryOrder r)\<lparr> moAmount := AvailableAmount o' \<rparr>"
    by (simp_all add: o'_def matchedOrder_def Let_def getMemoryOrder_def)
  show "conserved o'" using assms(3) by (simp add: o'_def matchedOrder_def conserved_def Let_def)
  show sign: "AvailableAmount o' = 0 \<or> HasTheSameSign (AvailableAmount o') (AvailableAmount r)"
    using assms(1,2,6) av by (auto simp: item_ok_def)
  have "Amount o' = Amount r" by (simp add: o'_def matchedOrder_def Let_def)
  with assms(4,5) sign show "sided o'"
    by (auto simp: sided_def HasTheSameSign_iff zero_le_mult_iff)
qed

lemma replaceRow_list:
  assumes "tables_ok K t" "r \<in> set (tOrders t)" "ID row = ID r" "P r row"
    "\<And>x. x \<in> set (tOrders t) \<Longrightarrow> OrderHash x \<noteq> OrderHash r \<Longrightarrow> P x x"
  shows "list_all2 P (tOrders t) (tOrders (replaceRow row t))"
proof -
  have d: "inj_on ID (set (tOrders t))" "inj_on OrderHash (set (tOrders t))"
    using assms(1) by (simp_all add: tables_ok_def orders_ok_def distinct_map)
  have "P x (if ID x = ID row then row else x)" if "x \<in> set (tOrders t)" for x
  proof (cases "x = r")
    case False
    with d that assms(2,3,5) show ?thesis by (metis inj_onD)
  qed (use assms(3,4) in simp)
  then show ?thesis by (simp add: replaceRow_def list.rel_map list_all2_same)
qed

text \<open>
  The two loops of a match. If the first one accepts all items, the second one removes the same
  amounts from a book that agreed with the tables before, without failing.
\<close>

lemma matchItemsLoop_run:
  assumes "synced perp (dbTables s) b" "dbFaults s = []"
    "\<forall>item \<in> set items. item_ok item \<and> mitOrder item \<in> book_orders b"
    "distinct (map (\<lambda>i. moID (mitOrder i)) items)" "matchItemsLoop now items s = (Inr (rows, ords), s')"
  shows "\<exists>b'. (\<forall>s1. msBook s1 = b \<longrightarrow> changeBookLoop items s1 = (Inr (), s1\<lparr> msBook := b' \<rparr>)) \<and>
     synced perp (dbTables s') b' \<and> dbFaults s' = [] \<and> msBook s' = msBook s \<and>
     tMatchTxs (dbTables s') = tMatchTxs (dbTables s) \<and> (\<forall>i \<in> set rows. miAmount i \<noteq> 0) \<and>
     list_all2 (matched_row perp rows) (tOrders (dbTables s)) (tOrders (dbTables s'))"
  using assms
proof (induction items arbitrary: s b rows ords)
  case Nil
  then show ?case using matched_row_refl by (auto intro!: exI [of _ b])
next
  case (Cons item items)
  let ?x = "mitMatchedAmount item" and ?y = "mitMatchedAmount item + mitOrderTotalCancel item"
  have item: "item_ok item" "mitOrder item \<in> book_orders b" using Cons.prems(3) by auto
  from synced_book [OF Cons.prems(1) item(2)] obtain r where
    r: "r \<in> active perp (dbTables s)" "mitOrder item = getMemoryOrder r" "sided r" by blast
  then have mem: "r \<in> set (tOrders (dbTables s))" "in_perp perp r" "AvailableAmount r \<noteq> 0" "moID (mitOrder item) = OrderHash r"
    by (auto simp: active_def)
  note tok = synced_tables [OF Cons.prems(1)]
  have get: "GetOrderByHash (moID (mitOrder item)) s = (Inr r, s)"
    using run_Get_row [OF Cons.prems(2) tok mem(1)] mem(4) by simp
  define o1 where "o1 = matchedOrder now item r"
  from Cons.prems(5) get obtain ord1 s1 rows1 ords1 where
    same: "HasTheSameSign (AvailableAmount r - ?x) (AvailableAmount r)" and
    upd: "UpdateOrder now o1 s = (Inr ord1, s1)" and
    rest: "matchItemsLoop now items s1 = (Inr (rows1, ords1), s')"
      "rows = \<lparr> miOrderHash = OrderHash r, miAmount = ?x \<rparr> # rows1"
    by (auto simp: bindE_Inr o1_def split: if_splits)
  have cr: "conserved r" using synced_conserved [OF Cons.prems(1) mem(1)] by simp
  note o1 = matchedOrder_row [OF item(1) r(2) cr r(3) mem(3) same o1_def]
  have s1: "s1 = s\<lparr> dbTables := replaceRow (savedRow now o1) (dbTables s) \<rparr>"
    using run_UpdateOrder [OF Cons.prems(2) tok mem(1) o1(1), of now] upd by auto
  have wf: "book_wf b" and cur: "orders_of b (order_key (mitOrder item)) = Some (getMemoryOrder r)"
    using Cons.prems(1) book_orders_key [OF _ item(2)] r(2) by (simp_all add: synced_def)
  have e: "moAmount (getMemoryOrder r) + - ?y = AvailableAmount o1" using o1(6) by simp
  have sgn: "moAmount (getMemoryOrder r) + - ?y = 0 \<or>
      HasTheSameSign (moAmount (getMemoryOrder r) + - ?y) (moAmount (getMemoryOrder r))"
    unfolding e using o1(8) by simp
  obtain b1 where b1: "ChangeOrder b (mitOrder item) (- ?y) = (Inr (), b1)" "book_wf b1"
    "book_orders b1 = book_orders b - {getMemoryOrder r} \<union> (if moAmount (getMemoryOrder r) + - ?y = 0 then {}
       else {(getMemoryOrder r)\<lparr> moAmount := moAmount (getMemoryOrder r) + - ?y \<rparr>})"
    using wf cur sgn by (rule ChangeOrder_book)
  have ip: "in_perp perp o1" using mem(2) identD(5,6) [OF o1(1)] by (simp add: in_perp_def)
  have "book_orders b1 = book_orders b - entry perp r \<union> entry perp (savedRow now o1)"
    unfolding b1(3) e using mem ip o1(7) by (auto simp: entry_def)
  then have sync1: "synced perp (dbTables s1) b1"
    unfolding s1 using Cons.prems(1) mem(1) o1(1-3) b1(2) savedRow_ok
    by (auto intro!: synced_replace [where r = r and b = b])
  have later: "\<forall>i \<in> set items. item_ok i \<and> mitOrder i \<in> book_orders b1"
    using Cons.prems(3,4) r(2) mem(4) unfolding b1(3) by (auto simp: image_iff)
  have d: "distinct (map (\<lambda>i. moID (mitOrder i)) items)" using Cons.prems(4) by simp
  from Cons.IH [OF sync1 _ later d rest(1)] obtain b' where
    b': "\<forall>s1. msBook s1 = b1 \<longrightarrow> changeBookLoop items s1 = (Inr (), s1\<lparr> msBook := b' \<rparr>)"
      "synced perp (dbTables s') b'" "dbFaults s' = []" "msBook s' = msBook s1"
      "tMatchTxs (dbTables s') = tMatchTxs (dbTables s1)" "\<forall>i \<in> set rows1. miAmount i \<noteq> 0"
      "list_all2 (matched_row perp rows1) (tOrders (dbTables s1)) (tOrders (dbTables s'))"
    using Cons.prems(2) by (auto simp: s1)
  have "changeBookLoop (item # items) s2 = (Inr (), s2\<lparr> msBook := b' \<rparr>)" if "msBook s2 = b" for s2
    using that b1(1) b'(1) by (simp add: bookChange_def bindE_def)
  moreover have "list_all2 (matched_row perp [\<lparr> miOrderHash = OrderHash r, miAmount = ?x \<rparr>])
      (tOrders (dbTables s)) (tOrders (dbTables s1))"
    unfolding s1 using tok mem(1,2) o1(1,4,5) identD(1) [OF o1(1)]
    by (auto intro!: replaceRow_list simp: matched_row_def)
  then have "list_all2 (matched_row perp rows) (tOrders (dbTables s)) (tOrders (dbTables s'))"
    using b'(7) by (rule list_all2_trans [rotated])
      (auto simp: matched_row_def rest(2) dest: identD(2))
  ultimately show ?case
    using b' item(1) by (auto simp: s1 rest(2) item_ok_def replaceRow_def intro!: exI [of _ b'])
qed

text \<open>A statement of the database leaves the book alone, and a database that does not fail stays so.\<close>

definition memory_kept :: "(mstate, 'a) dbm \<Rightarrow> bool" where
  "memory_kept m \<longleftrightarrow> (\<forall>s. msBook (snd (m s)) = msBook s \<and> (dbFaults s = [] \<longrightarrow> dbFaults (snd (m s)) = []))"

lemma memory_kept_bind:
  assumes "memory_kept m" "\<And>x. memory_kept (f x)"
  shows "memory_kept (bindE m f)"
  unfolding memory_kept_def
proof
  fix s
  obtain r s1 where m: "m s = (r, s1)" by fastforce
  with assms(1) have "msBook s1 = msBook s \<and> (dbFaults s = [] \<longrightarrow> dbFaults s1 = [])"
    unfolding memory_kept_def by (metis snd_conv)
  with m assms(2) show "msBook (snd (bindE m f s)) = msBook s \<and>
      (dbFaults s = [] \<longrightarrow> dbFaults (snd (bindE m f s)) = [])"
    by (cases r) (auto simp: memory_kept_def)
qed

lemma memory_kept_dbCall:
  assumes "\<And>s. msBook (snd (stmt s)) = msBook s" "\<And>s. dbFaults (snd (stmt s)) = dbFaults s"
  shows "memory_kept (dbCall stmt)"
  using assms by (auto simp: memory_kept_def dbCall_def Let_def split: list.split)

lemma memory_kept_UpdateOrder: "memory_kept (UpdateOrder now ord)"
  unfolding UpdateOrder_def Let_def
  by (intro memory_kept_bind memory_kept_dbCall)
    (simp_all add: memory_kept_def saveOrder_def Let_def)

lemma memory_kept_matchItemsLoop: "memory_kept (matchItemsLoop now items)"
proof (induction items)
  case (Cons item items)
  have get: "memory_kept (GetOrderByHash h)" for h
    unfolding GetOrderByHash_def by (rule memory_kept_dbCall) (simp_all split: option.split)
  have ret: "memory_kept (retE x)" "memory_kept (throwE e)" for x e
    by (simp_all add: memory_kept_def)
  show ?case
    unfolding matchItemsLoop.simps
    by (intro memory_kept_bind get) (auto intro!: memory_kept_bind memory_kept_UpdateOrder Cons ret split: prod.split)
qed (simp add: memory_kept_def)

lemma synced_txs:
  assumes "synced perp t b" "tOrders t' = tOrders t" "tNextID t' = tNextID t" "\<forall>tx \<in> set (tMatchTxs t'). tx_ok tx"
  shows "synced perp t' b"
  using assms by (simp add: synced_def tables_ok_def orders_ok_def active_def)

lemma matchTx_run:
  assumes "synced perp (dbTables s) (msBook s)" "dbFaults s = []"
    "\<forall>item \<in> set items. item_ok item \<and> mitOrder item \<in> book_orders (msBook s)"
    "distinct (map (\<lambda>i. moID (mitOrder i)) items)" "matchTx cf perp u now items s = (res, s')"
  shows "synced perp (dbTables s') (msBook s') \<and> dbFaults s' = [] \<and>
     (if isl res then dbTables s' = dbTables s \<and> msBook s' = msBook s
      else \<exists>rows. tMatchTxs (dbTables s') = tMatchTxs (dbTables s) @ [newMatchTransaction cf perp u rows] \<and>
             list_all2 (matched_row perp rows) (tOrders (dbTables s)) (tOrders (dbTables s')))"
proof -
  obtain r1 s1 where l: "matchItemsLoop now items s = (r1, s1)" by fastforce
  have k: "msBook s1 = msBook s" "dbFaults s1 = []"
    using memory_kept_matchItemsLoop [of now items] l assms(2) unfolding memory_kept_def by (metis snd_conv)+
  show ?thesis
  proof (cases r1)
    case (Inl e)
    with l k assms(1,5) show ?thesis by (auto simp: matchTx_def Transaction_def)
  next
    case (Inr x)
    then obtain rows ords where x: "r1 = Inr (rows, ords)" by (cases x) auto
    from matchItemsLoop_run [OF assms(1-4)] l x obtain b' where
      b': "\<forall>s1. msBook s1 = msBook s \<longrightarrow> changeBookLoop items s1 = (Inr (), s1\<lparr> msBook := b' \<rparr>)"
        "synced perp (dbTables s1) b'" "tMatchTxs (dbTables s1) = tMatchTxs (dbTables s)" "\<forall>i \<in> set rows. miAmount i \<noteq> 0"
        "list_all2 (matched_row perp rows) (tOrders (dbTables s)) (tOrders (dbTables s1))"
      by metis
    let ?tx = "newMatchTransaction cf perp u rows"
    let ?t = "(dbTables s1)\<lparr> tMatchTxs := tMatchTxs (dbTables s1) @ [?tx] \<rparr>"
    show ?thesis
    proof (cases "\<exists>r \<in> set (tMatchTxs (dbTables s1)). mtID r = mtID ?tx")
      case True
      then have "CreateMatchTransaction ?tx s1 = (Inl ''duplicate key value'', s1)"
        using k(2) by (simp add: CreateMatchTransaction_def dbCall_def)
      with l x k assms(1,5) show ?thesis by (auto simp: matchTx_def Transaction_def)
    next
      case False
      then have c: "CreateMatchTransaction ?tx s1 = (Inr (), s1\<lparr> dbTables := ?t \<rparr>)"
        using k(2) by (simp add: CreateMatchTransaction_def dbCall_def Let_def)
      let ?s = "s1\<lparr> dbTables := ?t, msBook := b' \<rparr>"
      have "changeBookLoop items (s1\<lparr> dbTables := ?t \<rparr>) = (Inr (), ?s)" using b'(1) k(1) by simp
      with l x c have "matchTx cf perp u now items s = (Inr ords, ?s)"
        unfolding matchTx_def by (intro run_Transaction) (use assms(2) k in \<open>simp_all add: bindE_def\<close>)
      moreover have "tx_ok ?tx" using b'(4) by (simp add: tx_ok_def items_of_def newMatchTransaction_def)
      then have "synced perp ?t b'"
        using b'(2) synced_tables [OF b'(2)] by (intro synced_txs [OF b'(2)]) (auto simp: tables_ok_def)
      ultimately show ?thesis using assms(5) k b'(3,5) by auto
    qed
  qed
qed

text \<open>The items of a run over the book of the state are what the transaction needs.\<close>

lemma synced_items:
  assumes "synced perp t book" "MatchOrderSideBySide L env cf perp book ps = Some (items, ps')"
  shows "\<forall>item \<in> set items. item_ok item \<and> mitOrder item \<in> book_orders book"
    "distinct (map (\<lambda>i. moID (mitOrder i)) items)"
proof -
  have wf: "book_wf book" using assms(1) by (simp add: synced_def)
  show items: "\<forall>item \<in> set items. item_ok item \<and> mitOrder item \<in> book_orders book"
    using MatchOrderSideBySide_run [OF assms(2)] book_level_orders(1) [OF wf] orders_of_book by blast
  have "order_key x = order_key y" if xy: "x \<in> book_orders book" "y \<in> book_orders book" "moID x = moID y" for x y
  proof -
    obtain r where r: "r \<in> active perp t" "x = getMemoryOrder r" using synced_book [OF assms(1) xy(1)] by blast
    obtain r' where r': "r' \<in> active perp t" "y = getMemoryOrder r'" using synced_book [OF assms(1) xy(2)] by blast
    have "r = r'" by (rule synced_rows [OF assms(1)]) (use r r' xy(3) in \<open>simp_all add: active_def\<close>)
    with r r' show ?thesis by simp
  qed
  with items MatchOrderSideBySide_distinct [OF assms(2) wf]
  show "distinct (map (\<lambda>i. moID (mitOrder i)) items)"
    unfolding distinct_map item_key_def inj_on_def by (metis (no_types, lifting))
qed

lemma matchOrders_run:
  assumes "synced perp (dbTables s) (msBook s)" "dbFaults s = []" "matchOrders L env cf perp uuid s = Some s'"
  shows "synced perp (dbTables s') (msBook s') \<and> dbFaults s' = [] \<and>
     (dbTables s' = dbTables s \<and> msBook s' = msBook s \<or>
      (\<exists>u rows. tMatchTxs (dbTables s') = tMatchTxs (dbTables s) @ [newMatchTransaction cf perp u rows] \<and>
         list_all2 (matched_row perp rows) (tOrders (dbTables s)) (tOrders (dbTables s'))))"
proof -
  let ?q = "QueryOrder [] (ppLiquidityPoolAddress perp) (ppPerpetualIndex perp) [OrderPending] 0 0 0 s"
  obtain orders where q: "?q = (Inr orders, s)" using assms(2) by (simp add: QueryOrder_def dbCall_def)
  show ?thesis
  proof (cases "s' = s \<or> (\<exists>ps. s' = s\<lparr> msPools := ps \<rparr>)")
    case False
    with assms(3) q obtain items ps where items: "MatchOrderSideBySide L env cf perp (msBook s) (msPools s) = Some (items, ps)"
      "items \<noteq> []" by (auto simp: matchOrders_def Let_def bind_Some_iff split: if_splits)
    let ?s = "s\<lparr> msPools := ps \<rparr>"
    from False assms(3) q items obtain u res s2 where
      tx: "matchTx cf perp u (envNow env) items ?s = (res, s2)"
        "s' = s2 \<or> (\<exists>ords. s' = notifyAll ords s2)"
      by (auto simp: matchOrders_def Let_def split: if_splits option.splits prod.splits sum.splits)
    have s': "dbTables s' = dbTables s2" "msBook s' = msBook s2" "dbFaults s' = dbFaults s2" using tx(2) by auto
    from matchTx_run [of perp ?s items cf u "envNow env", OF _ _ _ _ tx(1)] synced_items [OF assms(1) items(1)] assms s'
    show ?thesis by (auto split: if_splits)
  qed (use assms(1,2) in auto)
qed

section \<open>Starting again\<close>

text \<open>The timer of an order, or its place in the queue of expired orders.\<close>

definition armed :: "time \<Rightarrow> mstate \<Rightarrow> Order \<Rightarrow> bool" where
  "armed now s r \<longleftrightarrow> (if now < ExpiresAt r then map_of (msTimers s) (OrderHash r) = Some (ExpiresAt r)
     else OrderHash r \<in> set (msExpired s))"

definition reloaded :: "time \<Rightarrow> Order list \<Rightarrow> mstate \<Rightarrow> mstate \<Rightarrow> bool" where
  "reloaded now orders s s' \<longleftrightarrow> dbTables s' = dbTables s \<and> dbFaults s' = dbFaults s \<and> book_wf (msBook s') \<and>
     book_orders (msBook s') = book_orders (msBook s) \<union> getMemoryOrder ` {r \<in> set orders. AvailableAmount r \<noteq> 0} \<and>
     set (msExpired s) \<subseteq> set (msExpired s') \<and>
     (\<forall>h. h \<notin> OrderHash ` set orders \<longrightarrow> map_of (msTimers s') h = map_of (msTimers s) h) \<and>
     (\<forall>r \<in> set orders. AvailableAmount r \<noteq> 0 \<longrightarrow> armed now s' r)"

lemma reloadLoop_run:
  assumes "book_wf (msBook s)" "distinct (map OrderHash orders)"
    "\<forall>r \<in> set orders. \<forall>ord \<in> book_orders (msBook s). moID ord \<noteq> OrderHash r"
  shows "\<exists>s'. reloadLoop now orders s = (Inr (), s') \<and> reloaded now orders s s'"
  using assms
proof (induction orders arbitrary: s)
  case Nil
  then show ?case by (simp add: reloaded_def)
next
  case (Cons r orders)
  show ?case
  proof (cases "AvailableAmount r = 0")
    case True
    from Cons.IH [of s] Cons.prems obtain s' where "reloadLoop now orders s = (Inr (), s')" "reloaded now orders s s'"
      by auto
    with True show ?thesis by (auto simp: reloaded_def)
  next
    case False
    have "orders_of (msBook s) (order_key (getMemoryOrder r)) \<noteq> Some ord" for ord
      using Cons.prems(1,3) orders_of_book orders_of_wf(1) by (fastforce simp: order_key_def)
    then have none: "orders_of (msBook s) (order_key (getMemoryOrder r)) = None" by (meson not_Some_eq)
    obtain b where b: "InsertOrder (msBook s) (getMemoryOrder r) = (Inr (), b)" "book_wf b"
      "book_orders b = insert (getMemoryOrder r) (book_orders (msBook s))"
      using Cons.prems(1) _ none by (rule InsertOrder_book) (use False in simp)
    obtain s1 where s1: "setExpirationTimer now (OrderHash r) (ExpiresAt r) (s\<lparr> msBook := b \<rparr>) = (Inr (), s1)"
      by (cases "now < ExpiresAt r") (auto simp: setExpirationTimer_def)
    then have core: "dbTables s1 = dbTables s" "dbFaults s1 = dbFaults s" "msBook s1 = b"
      "set (msExpired s) \<subseteq> set (msExpired s1)" "armed now s1 r"
      "\<And>h. h \<noteq> OrderHash r \<Longrightarrow> map_of (msTimers s1) h = map_of (msTimers s) h"
      by (auto simp: setExpirationTimer_def armed_def update_conv split: if_splits)
    have "\<forall>r \<in> set orders. \<forall>ord \<in> book_orders (msBook s1). moID ord \<noteq> OrderHash r"
      using Cons.prems(2,3) b(3) core(3) by (auto simp: image_iff)
    with Cons.IH [of s1] Cons.prems(2) b(2) core(3) obtain s' where
      s': "reloadLoop now orders s1 = (Inr (), s')" "reloaded now orders s1 s'" by auto
    have run: "reloadLoop now (r # orders) s = (Inr (), s')"
      using False b(1) s1 s'(1) by (simp add: bookInsert_def bindE_def)
    have "armed now s' r"
      using s'(2) core(5) Cons.prems(2) by (auto simp: reloaded_def armed_def split: if_splits)
    with s'(2) core b(3) False have "reloaded now (r # orders) s s'"
      by (auto simp: reloaded_def)
    with run show ?thesis by blast
  qed
qed

text \<open>All four parts of an order have its sign.\<close>

definition columns_sided :: "Order \<Rightarrow> bool" where
  "columns_sided r \<longleftrightarrow> Amount r \<noteq> 0 \<and> HasTheSameSign (AvailableAmount r) (Amount r) \<and>
     HasTheSameSign (PendingAmount r) (Amount r) \<and> HasTheSameSign (ConfirmedAmount r) (Amount r) \<and>
     HasTheSameSign (CanceledAmount r) (Amount r)"

lemma columns_pending:
  assumes "row_ok r" "columns_sided r" "AvailableAmount r \<noteq> 0"
  shows "Status r = OrderPending"
proof -
  have c: "Amount r = AvailableAmount r + PendingAmount r + ConfirmedAmount r + CanceledAmount r"
    using assms(1) by (simp add: row_ok_def conserved_def)
  have "ConfirmedAmount r \<noteq> Amount r" "CanceledAmount r \<noteq> Amount r" "AvailableAmount r + PendingAmount r \<noteq> 0"
    using c assms(2,3) by (auto simp: columns_sided_def HasTheSameSign_iff zero_le_mult_iff)
  then show ?thesis using assms(1) by (simp add: row_ok_def setStatusByAmounts_def)
qed

lemma reload_query:
  assumes "tables_ok K (dbTables s)" "dbFaults s = []" "ppLiquidityPoolAddress perp \<noteq> []"
  obtains orders where
    "QueryOrder [] (ppLiquidityPoolAddress perp) (ppPerpetualIndex perp) [OrderPending] 0 0 0 s = (Inr orders, s)"
    "distinct (map OrderHash orders)" "set orders = {r \<in> set (tOrders (dbTables s)). in_perp perp r \<and> Status r = OrderPending}"
proof -
  let ?f = "orderWhere [] (ppLiquidityPoolAddress perp) (ppPerpetualIndex perp) [OrderPending] 0 0"
  have "QueryOrder [] (ppLiquidityPoolAddress perp) (ppPerpetualIndex perp) [OrderPending] 0 0 0 s =
      (Inr (filter ?f (tOrders (dbTables s))), s)"
    using assms(2) by (simp add: QueryOrder_def dbCall_def limitDesc_def)
  moreover have "distinct (map OrderHash (filter ?f (tOrders (dbTables s))))"
    using assms(1) by (simp add: tables_ok_def orders_ok_def distinct_map_filter)
  ultimately show ?thesis
    using that assms(3) by (auto simp: orderWhere_def in_perp_def)
qed

lemma newMatch_run:
  assumes "tables_ok K (dbTables s)" "dbFaults s = []" "ppLiquidityPoolAddress perp \<noteq> []"
    "\<forall>r \<in> set (tOrders (dbTables s)). sided r" "\<forall>r \<in> active perp (dbTables s). Status r = OrderPending"
  shows "\<exists>s'. newMatch now perp s = (Inr (), s') \<and> synced perp (dbTables s') (msBook s') \<and> dbTables s' = dbTables s \<and>
     dbFaults s' = [] \<and> (\<forall>r \<in> active perp (dbTables s). armed now s' r)"
proof -
  let ?s = "s\<lparr> msBook := NewOrderbook, msTimers := [], msExpired := [], msTrgr := 0 \<rparr>"
  obtain orders where q:
    "QueryOrder [] (ppLiquidityPoolAddress perp) (ppPerpetualIndex perp) [OrderPending] 0 0 0 ?s = (Inr orders, ?s)"
    "distinct (map OrderHash orders)" "set orders = {r \<in> set (tOrders (dbTables s)). in_perp perp r \<and> Status r = OrderPending}"
    using reload_query [of _ ?s perp] assms(1-3) by auto
  have e: "book_wf (msBook ?s)" "book_orders (msBook ?s) = {}" by (simp_all add: book_orders_def)
  from reloadLoop_run [OF e(1) q(2), of now] e(2) obtain s' where
    s': "reloadLoop now orders ?s = (Inr (), s')" "reloaded now orders ?s s'" by auto
  have run: "newMatch now perp s = (Inr (), s')" using q(1) s'(1) by (simp add: newMatch_def reloadActiveOrders_def)
  have act: "active perp (dbTables s) = {r \<in> set orders. AvailableAmount r \<noteq> 0}"
    using assms(5) unfolding q(3) by (auto simp: active_def)
  have s'': "dbTables s' = dbTables s" "book_wf (msBook s')" "book_orders (msBook s') = getMemoryOrder ` active perp (dbTables s)"
    "\<forall>r \<in> active perp (dbTables s). armed now s' r" "dbFaults s' = []"
    using s'(2) e(2) assms(2) unfolding reloaded_def act by auto
  moreover have "tables_ok (map ident (tOrders (dbTables s))) (dbTables s)" using assms(1) by (simp add: tables_ok_def)
  ultimately have "synced perp (dbTables s') (msBook s')" using assms(4) by (simp add: synced_def)
  with run s'' show ?thesis by blast
qed

section \<open>Settling a mined transaction\<close>

text \<open>
  The amounts of an order after the transaction is settled: the traded part of the match is
  confirmed and the rest available again, a failed trade is cancelled, and a trade that was not
  executed is available again.
\<close>

definition settledAmounts ::
  "(string \<times> decimal) list \<Rightarrow> (string \<times> decimal) list \<Rightarrow> (string \<times> decimal) list \<Rightarrow> Order \<Rightarrow>
   decimal \<times> decimal \<times> decimal \<times> decimal" where
  "settledAmounts succ fail matched r =
     (case amounts r of (avail, pend, conf, canc) \<Rightarrow>
      let m = matchAmountOf matched r in
      case map_of succ (OrderHash r) of
        Some a \<Rightarrow> (avail + (m - a), pend - m, conf + a, canc)
      | None \<Rightarrow>
          (case map_of fail (OrderHash r) of
             Some a \<Rightarrow> (avail, pend - a, conf, canc + a)
           | None \<Rightarrow> (avail + m, pend - m, conf, canc)))"

text \<open>The events fit an order when a trade is on its side and not larger than its match.\<close>

definition fits :: "(string \<times> decimal) list \<Rightarrow> (string \<times> decimal) list \<Rightarrow> Order \<Rightarrow> bool" where
  "fits succ matched r \<longleftrightarrow> matchAmountOf matched r \<noteq> 0 \<and>
     (case map_of succ (OrderHash r) of
        Some a \<Rightarrow> HasTheSameSign (matchAmountOf matched r - a) (Amount r)
      | None \<Rightarrow> HasTheSameSign (matchAmountOf matched r) (Amount r))"

lemma settledAmounts_cong:
  assumes "OrderHash r' = OrderHash r" "amounts r' = amounts r"
  shows "settledAmounts succ fail matched r' = settledAmounts succ fail matched r"
  unfolding settledAmounts_def matchAmountOf_def assms ..

lemma memory_ident:
  "ident r' = ident r \<Longrightarrow> getMemoryOrder r' = (getMemoryOrder r)\<lparr> moAmount := AvailableAmount r' \<rparr>"
  using identD [of r' r] by (simp add: getMemoryOrder_def)

text \<open>The book takes back \<open>delta\<close> of an order: its entry is the one of the changed order.\<close>

lemma rollbackOrderbook_run:
  assumes "synced perp t (msBook s)" "r \<in> set (tOrders t)" "in_perp perp r" "ident ord = ident r"
    "AvailableAmount ord = AvailableAmount r + delta" "delta \<noteq> 0" "sided ord"
  obtains b where "rollbackOrderbook (AvailableAmount r) delta ord s = (Inr (), s\<lparr> msBook := b \<rparr>)" "book_wf b"
    "book_orders b = book_orders (msBook s) - entry perp r \<union> entry perp ord"
proof -
  have wf: "book_wf (msBook s)" and sd: "sided r" using assms(1,2) by (auto simp: synced_def)
  have id: "OrderHash ord = OrderHash r" "Amount ord = Amount r" "Price ord = Price r" "in_perp perp ord"
    using identD [OF assms(4)] assms(3) by (auto simp: in_perp_def)
  show ?thesis
  proof (cases "AvailableAmount r = 0")
    case True
    then have "GetOrder (msBook s) (OrderHash r) (Amount r < 0) (Price r) = None"
      using synced_lookup [OF assms(1,2)] by (simp add: active_def)
    moreover have "order_key (getMemoryOrder ord) = (Amount r < 0, Price r, OrderHash r)"
      using sided_key [OF assms(7)] True assms(5,6) id by simp
    ultimately have none: "orders_of (msBook s) (order_key (getMemoryOrder ord)) = None"
      by (simp add: orders_of_def)
    obtain b where b: "InsertOrder (msBook s) (getMemoryOrder ord) = (Inr (), b)" "book_wf b"
      "book_orders b = insert (getMemoryOrder ord) (book_orders (msBook s))"
      using wf _ none by (rule InsertOrder_book) (use True assms(5,6) in simp)
    have "rollbackOrderbook (AvailableAmount r) delta ord s = (Inr (), s\<lparr> msBook := b \<rparr>)"
      using True b(1) by (simp add: rollbackOrderbook_def bookInsert_def)
    from that [OF this b(2)] b(3) True assms(5,6) id(4) show ?thesis by (simp add: entry_def)
  next
    case False
    then have act: "r \<in> active perp t" using assms(2,3) by (simp add: active_def)
    have g: "GetOrder (msBook s) (OrderHash r) (Amount r < 0) (Price r) = Some (getMemoryOrder r)"
      using synced_lookup [OF assms(1,2)] act by simp
    have cur: "orders_of (msBook s) (order_key (getMemoryOrder r)) = Some (getMemoryOrder r)"
      using g sided_key [OF sd False] by (simp add: orders_of_def)
    have sgn: "moAmount (getMemoryOrder r) + delta = 0 \<or>
        HasTheSameSign (moAmount (getMemoryOrder r) + delta) (moAmount (getMemoryOrder r))"
      using sd assms(5,7) id(2) False by (auto simp: sided_def HasTheSameSign_iff zero_le_mult_iff)
    obtain b where b: "ChangeOrder (msBook s) (getMemoryOrder r) delta = (Inr (), b)" "book_wf b"
      "book_orders b = book_orders (msBook s) - {getMemoryOrder r} \<union> (if moAmount (getMemoryOrder r) + delta = 0 then {}
         else {(getMemoryOrder r)\<lparr> moAmount := moAmount (getMemoryOrder r) + delta \<rparr>})"
      using wf cur sgn by (rule ChangeOrder_book)
    have "rollbackOrderbook (AvailableAmount r) delta ord s = (Inr (), s\<lparr> msBook := b \<rparr>)"
      using False b(1) g id by (simp add: rollbackOrderbook_def bookChange_def)
    from that [OF this b(2)] b(3) False assms(3,5) id(4) memory_ident [OF assms(4)]
    show ?thesis by (auto simp: entry_def)
  qed
qed

text \<open>
  One order of the loop runs without an error: \<open>o1\<close> is the order it saves and \<open>b\<close> the book it
  leaves.
\<close>

definition settles ::
  "Perpetual \<Rightarrow> time \<Rightarrow> MatchTransaction \<Rightarrow> (string \<times> decimal) list \<Rightarrow> (string \<times> decimal) list \<Rightarrow>
   (string \<times> decimal) list \<Rightarrow> Order \<Rightarrow> mstate \<Rightarrow> Order \<Rightarrow> Orderbook \<Rightarrow> bool" where
  "settles perp now tx succ fail matched r s o1 b \<longleftrightarrow>
     (\<exists>ord. updateOneOrder now tx succ fail matched r s =
        (Inr ord, s\<lparr> dbTables := replaceRow (savedRow now o1) (dbTables s), msBook := b \<rparr>)) \<and>
     ident o1 = ident r \<and> amounts o1 = settledAmounts succ fail matched r \<and> sided o1 \<and>
     book_wf b \<and> book_orders b = book_orders (msBook s) - entry perp r \<union> entry perp o1"

lemma entry_kept:
  assumes "synced perp t b" "r \<in> set (tOrders t)" "ident o1 = ident r" "AvailableAmount o1 = AvailableAmount r"
  shows "book_orders b = book_orders b - entry perp r \<union> entry perp o1"
proof -
  have "entry perp o1 = entry perp r"
    using assms(4) memory_ident [OF assms(3)] identD(5,6) [OF assms(3)] by (simp add: entry_def in_perp_def)
  moreover have "entry perp r \<subseteq> book_orders b"
    using assms(1,2) by (auto simp: entry_def synced_def active_def)
  ultimately show ?thesis by blast
qed

lemma settles_success:
  assumes "synced perp (dbTables s) (msBook s)" "dbFaults s = []" "r \<in> set (tOrders (dbTables s))" "in_perp perp r"
    "map_of succ (OrderHash r) = Some a" "HasTheSameSign (matchAmountOf matched r - a) (Amount r)"
  obtains o1 b where "settles perp now tx succ fail matched r s o1 b"
proof -
  let ?m = "matchAmountOf matched r" and ?t = "dbTables s"
  note tok = synced_tables [OF assms(1)]
  have r: "sided r" "book_wf (msBook s)" using assms(1,3) by (auto simp: synced_def)
  define o1 where "o1 = r\<lparr> AvailableAmount := AvailableAmount r + (?m - a),
      PendingAmount := PendingAmount r - ?m, ConfirmedAmount := ConfirmedAmount r + a \<rparr>"
  have o1: "ident o1 = ident r" "amounts o1 = settledAmounts succ fail matched r" "Amount o1 = Amount r"
      "AvailableAmount o1 = AvailableAmount r + (?m - a)"
    using assms(5) by (simp_all add: o1_def settledAmounts_def amounts_def Let_def)
  have sd: "sided o1" using r(1) assms(6) o1(3,4) by (auto simp: sided_def HasTheSameSign_iff zero_le_mult_iff)
  have upd: "\<exists>ord. UpdateOrder now o1 (s\<lparr> msBook := b \<rparr>) =
      (Inr ord, s\<lparr> dbTables := replaceRow (savedRow now o1) ?t, msBook := b \<rparr>)" for b
  proof -
    have f: "dbFaults (s\<lparr> msBook := b \<rparr>) = []" "tables_ok (map ident (tOrders ?t)) (dbTables (s\<lparr> msBook := b \<rparr>))"
      "r \<in> set (tOrders (dbTables (s\<lparr> msBook := b \<rparr>)))" using assms(2,3) tok by simp_all
    obtain ord where "UpdateOrder now o1 (s\<lparr> msBook := b \<rparr>) =
        (Inr ord, s\<lparr> msBook := b, dbTables := replaceRow (savedRow now o1) (dbTables (s\<lparr> msBook := b \<rparr>)) \<rparr>)"
      using run_UpdateOrder [OF f o1(1)] by blast
    then show ?thesis by simp
  qed
  show ?thesis
  proof (cases "a = ?m")
    case True
    then have "o1 = r\<lparr> PendingAmount := PendingAmount r - ?m, ConfirmedAmount := ConfirmedAmount r + a \<rparr>"
      by (simp add: o1_def)
    then have "updateOneOrder now tx succ fail matched r s = UpdateOrder now o1 s"
      using assms(5) True by (simp add: updateOneOrder_def Let_def)
    with upd [of "msBook s"] True o1(1,2,4) sd r(2) entry_kept [OF assms(1,3) o1(1)]
    have "settles perp now tx succ fail matched r s o1 (msBook s)" by (simp add: settles_def)
    then show ?thesis by (rule that)
  next
    case False
    let ?o = "r\<lparr> AvailableAmount := AvailableAmount r + (?m - a) \<rparr>"
    obtain b where b: "rollbackOrderbook (AvailableAmount r) (?m - a) ?o s = (Inr (), s\<lparr> msBook := b \<rparr>)"
      "book_wf b" "book_orders b = book_orders (msBook s) - entry perp r \<union> entry perp ?o"
      by (rule rollbackOrderbook_run [OF assms(1,3,4), of ?o "?m - a"])
        (use False sd in \<open>auto simp: sided_def o1_def\<close>)
    have "updateOneOrder now tx succ fail matched r s = UpdateOrder now o1 (s\<lparr> msBook := b \<rparr>)"
      using assms(5) False b(1) by (simp add: updateOneOrder_def Let_def bindE_def o1_def)
    moreover have "entry perp ?o = entry perp o1" by (simp add: entry_def o1_def in_perp_def getMemoryOrder_def)
    ultimately have "settles perp now tx succ fail matched r s o1 b"
      using upd [of b] b o1(1,2) sd by (simp add: settles_def)
    then show ?thesis by (rule that)
  qed
qed

lemma settles_failed:
  assumes "synced perp (dbTables s) (msBook s)" "dbFaults s = []" "r \<in> set (tOrders (dbTables s))"
    "map_of succ (OrderHash r) = None" "map_of fail (OrderHash r) = Some a"
  obtains o1 b where "settles perp now tx succ fail matched r s o1 b"
proof -
  have r: "sided r" "book_wf (msBook s)" using assms(1,3) by (auto simp: synced_def)
  define o1 where "o1 = r\<lparr> PendingAmount := PendingAmount r - a, CanceledAmount := CanceledAmount r + a,
      CancelReasons := CancelReasons r @ [transactionFailReason tx a] \<rparr>"
  have o1: "ident o1 = ident r" "amounts o1 = settledAmounts succ fail matched r" "sided o1"
    "AvailableAmount o1 = AvailableAmount r"
    using r(1) assms(4,5) by (simp_all add: o1_def settledAmounts_def amounts_def sided_def)
  obtain ord where "UpdateOrder now o1 s = (Inr ord, s\<lparr> dbTables := replaceRow (savedRow now o1) (dbTables s) \<rparr>)"
    using run_UpdateOrder [OF assms(2) synced_tables [OF assms(1)] assms(3) o1(1)] by blast
  then have "updateOneOrder now tx succ fail matched r s =
      (Inr ord, s\<lparr> dbTables := replaceRow (savedRow now o1) (dbTables s), msBook := msBook s \<rparr>)"
    using assms(4,5) by (simp add: updateOneOrder_def Let_def o1_def)
  with o1 r(2) entry_kept [OF assms(1,3) o1(1,4)]
  have "settles perp now tx succ fail matched r s o1 (msBook s)" by (simp add: settles_def)
  then show ?thesis by (rule that)
qed

lemma settles_unexecuted:
  assumes "synced perp (dbTables s) (msBook s)" "dbFaults s = []" "r \<in> set (tOrders (dbTables s))" "in_perp perp r"
    "map_of succ (OrderHash r) = None" "map_of fail (OrderHash r) = None"
    "matchAmountOf matched r \<noteq> 0" "HasTheSameSign (matchAmountOf matched r) (Amount r)"
  obtains o1 b where "settles perp now tx succ fail matched r s o1 b"
proof -
  let ?m = "matchAmountOf matched r"
  have r: "sided r" using assms(1,3) by (auto simp: synced_def)
  define o1 where "o1 = r\<lparr> PendingAmount := PendingAmount r - ?m, AvailableAmount := AvailableAmount r + ?m \<rparr>"
  have o1: "ident o1 = ident r" "amounts o1 = settledAmounts succ fail matched r" "Amount o1 = Amount r"
    "AvailableAmount o1 = AvailableAmount r + ?m"
    using assms(5,6) by (simp_all add: o1_def settledAmounts_def amounts_def Let_def)
  have sd: "sided o1" using r assms(8) o1(3,4) by (auto simp: sided_def HasTheSameSign_iff zero_le_mult_iff)
  let ?s = "s\<lparr> dbTables := replaceRow (savedRow now o1) (dbTables s) \<rparr>"
  obtain ord where u: "UpdateOrder now o1 s = (Inr ord, ?s)"
    "ident ord = ident o1" "amounts ord = amounts o1" "getMemoryOrder ord = getMemoryOrder o1"
    using run_UpdateOrder [OF assms(2) synced_tables [OF assms(1)] assms(3) o1(1)] by blast
  have ord: "ident ord = ident r" "AvailableAmount ord = AvailableAmount r + ?m" "sided ord" "entry perp ord = entry perp o1"
    using u(2-4) o1(1,4) sd identD(3,5,6) [OF u(2)] by (auto simp: amounts_def sided_def entry_def in_perp_def)
  obtain b where b: "rollbackOrderbook (AvailableAmount r) ?m ord ?s = (Inr (), ?s\<lparr> msBook := b \<rparr>)"
    "book_wf b" "book_orders b = book_orders (msBook s) - entry perp r \<union> entry perp ord"
    using rollbackOrderbook_run [of perp "dbTables s" ?s r ord ?m] assms(1,3,4,7) ord by auto
  have "updateOneOrder now tx succ fail matched r s =
      (Inr ord, s\<lparr> dbTables := replaceRow (savedRow now o1) (dbTables s), msBook := b \<rparr>)"
    using assms(5,6) u(1) b(1) by (simp add: updateOneOrder_def Let_def bindE_def o1_def)
  with o1(1,2) sd b(2,3) ord(4) have "settles perp now tx succ fail matched r s o1 b" by (simp add: settles_def)
  then show ?thesis by (rule that)
qed

lemma settledAmounts_conserved:
  assumes "conserved r" "ident o1 = ident r" "amounts o1 = settledAmounts succ fail matched r"
  shows "conserved o1"
  using assms identD(3) [OF assms(2)]
  by (auto simp: conserved_iff settledAmounts_def amounts_def Let_def split: option.splits)

lemma updateOneOrder_run:
  assumes "synced perp (dbTables s) (msBook s)" "dbFaults s = []" "r \<in> set (tOrders (dbTables s))" "in_perp perp r"
    "fits succ matched r"
  obtains ord row b where
    "updateOneOrder now tx succ fail matched r s =
       (Inr ord, s\<lparr> dbTables := replaceRow row (dbTables s), msBook := b \<rparr>)"
    "synced perp (replaceRow row (dbTables s)) b" "ident row = ident r"
    "amounts row = settledAmounts succ fail matched r"
proof -
  obtain o1 b where s: "settles perp now tx succ fail matched r s o1 b"
  proof (cases "map_of succ (OrderHash r)")
    case (Some a)
    with assms(5) have "HasTheSameSign (matchAmountOf matched r - a) (Amount r)" by (simp add: fits_def)
    with assms(1-4) Some show ?thesis by (rule settles_success) (rule that)
  next
    case none: None
    show ?thesis
    proof (cases "map_of fail (OrderHash r)")
      case (Some a)
      with assms(1-3) none show ?thesis by (rule settles_failed) (rule that)
    next
      case None
      with none assms(5) have "matchAmountOf matched r \<noteq> 0" "HasTheSameSign (matchAmountOf matched r) (Amount r)"
        by (simp_all add: fits_def)
      with assms(1-4) none None show ?thesis by (rule settles_unexecuted) (rule that)
    qed
  qed
  then obtain ord where run: "updateOneOrder now tx succ fail matched r s =
      (Inr ord, s\<lparr> dbTables := replaceRow (savedRow now o1) (dbTables s), msBook := b \<rparr>)"
    unfolding settles_def by blast
  have "conserved o1"
    using s synced_conserved [OF assms(1,3)] settledAmounts_conserved by (auto simp: settles_def)
  with s have "synced perp (replaceRow (savedRow now o1) (dbTables s)) b"
    using assms(1,3) by (intro synced_replace [where r = r and b = "msBook s"]) (auto simp: settles_def intro: savedRow_ok)
  from that [OF run this] s show ?thesis by (simp add: settles_def)
qed

text \<open>The loop settles exactly the orders it is given.\<close>

definition settled_row ::
  "Perpetual \<Rightarrow> (string \<times> decimal) list \<Rightarrow> (string \<times> decimal) list \<Rightarrow> (string \<times> decimal) list \<Rightarrow> string set \<Rightarrow>
   Order \<Rightarrow> Order \<Rightarrow> bool" where
  "settled_row perp succ fail matched H r r' \<longleftrightarrow> ident r' = ident r \<and> (in_perp perp r \<or> r' = r) \<and>
     amounts r' = (if OrderHash r \<in> H then settledAmounts succ fail matched r else amounts r)"

lemma settled_row_trans:
  assumes "settled_row perp succ fail matched H r r'" "settled_row perp succ fail matched H' r' r''" "H \<inter> H' = {}"
  shows "settled_row perp succ fail matched (H \<union> H') r r''"
  using assms identD(2) [of r' r] settledAmounts_cong [of r' r succ fail matched]
  by (auto simp: settled_row_def split: if_splits)

lemma updateOrdersLoop_run:
  assumes "synced perp (dbTables s) (msBook s)" "dbFaults s = []" "set orders \<subseteq> set (tOrders (dbTables s))"
    "distinct (map OrderHash orders)" "\<forall>r \<in> set orders. in_perp perp r \<and> fits succ matched r"
  shows "\<exists>ords s'. updateOrdersLoop now tx succ fail matched orders s = (Inr ords, s') \<and>
     synced perp (dbTables s') (msBook s') \<and> dbFaults s' = [] \<and> tMatchTxs (dbTables s') = tMatchTxs (dbTables s) \<and>
     list_all2 (settled_row perp succ fail matched (OrderHash ` set orders)) (tOrders (dbTables s)) (tOrders (dbTables s'))"
  using assms
proof (induction orders arbitrary: s)
  case Nil
  then show ?case by (simp add: settled_row_def list_all2_same)
next
  case (Cons r orders)
  have mem: "r \<in> set (tOrders (dbTables s))" "in_perp perp r" "fits succ matched r" using Cons.prems by simp_all
  from updateOneOrder_run [OF Cons.prems(1,2) mem] obtain ord row b where
    run: "updateOneOrder now tx succ fail matched r s =
       (Inr ord, s\<lparr> dbTables := replaceRow row (dbTables s), msBook := b \<rparr>)" and
    row: "synced perp (replaceRow row (dbTables s)) b" "ident row = ident r"
      "amounts row = settledAmounts succ fail matched r" by blast
  let ?s = "s\<lparr> dbTables := replaceRow row (dbTables s), msBook := b \<rparr>"
  note tok = synced_tables [OF Cons.prems(1)]
  have s: "dbTables ?s = replaceRow row (dbTables s)" "msBook ?s = b" "dbFaults ?s = []" using Cons.prems(2) by simp_all
  have "set orders \<subseteq> set (tOrders (dbTables ?s))"
    using Cons.prems(3,4) replaceRow_set [OF tok mem(1) identD(1) [OF row(2)]] by auto
  moreover have "synced perp (dbTables ?s) (msBook ?s)" using row(1) s by simp
  moreover have "distinct (map OrderHash orders)" "\<forall>r \<in> set orders. in_perp perp r \<and> fits succ matched r"
    using Cons.prems(4,5) by simp_all
  ultimately obtain ords s' where
    rest: "updateOrdersLoop now tx succ fail matched orders ?s = (Inr ords, s')"
      "synced perp (dbTables s') (msBook s')" "dbFaults s' = []" "tMatchTxs (dbTables s') = tMatchTxs (dbTables ?s)"
      "list_all2 (settled_row perp succ fail matched (OrderHash ` set orders)) (tOrders (dbTables ?s)) (tOrders (dbTables s'))"
    using Cons.IH [OF _ s(3)] by blast
  have first: "list_all2 (settled_row perp succ fail matched {OrderHash r}) (tOrders (dbTables s)) (tOrders (dbTables ?s))"
    unfolding s(1)
    by (rule replaceRow_list [OF tok mem(1) identD(1) [OF row(2)]]) (simp_all add: settled_row_def row(2,3) mem(2))
  have "{OrderHash r} \<inter> OrderHash ` set orders = {}" using Cons.prems(4) by simp
  then have "list_all2 (settled_row perp succ fail matched ({OrderHash r} \<union> OrderHash ` set orders))
      (tOrders (dbTables s)) (tOrders (dbTables s'))"
    by (intro list_all2_trans [OF _ first rest(5)] settled_row_trans) assumption+
  moreover have "updateOrdersLoop now tx succ fail matched (r # orders) s = (Inr (ord # ords), s')"
    using run rest(1) by (simp add: bindE_def)
  moreover have "tMatchTxs (dbTables s') = tMatchTxs (dbTables s)" using rest(4) by (simp add: replaceRow_def)
  ultimately show ?case using rest(2,3) by (intro exI [of _ "ord # ords"] exI [of _ s']) simp
qed

lemma run_GetMatchTransaction:
  assumes "dbFaults s = []" "tx \<in> set (tMatchTxs (dbTables s))" "distinct (map mtID (tMatchTxs (dbTables s)))"
  shows "GetMatchTransaction (mtID tx) s = (Inr tx, s)"
proof -
  have "find (\<lambda>x. mtID x = mtID tx) (tMatchTxs (dbTables s)) \<noteq> None" using assms(2) by (auto simp: find_None_iff)
  then obtain x where f: "find (\<lambda>x. mtID x = mtID tx) (tMatchTxs (dbTables s)) = Some x" by blast
  then have "x \<in> set (tMatchTxs (dbTables s))" "mtID x = mtID tx" by (auto simp: find_Some_iff)
  with assms(2,3) have "x = tx" by (simp add: distinct_map inj_on_def)
  with f assms(1) show ?thesis by (simp add: GetMatchTransaction_def dbCall_def)
qed

lemma run_GetOrderByHashs:
  assumes "dbFaults s = []"
  shows "GetOrderByHashs hs s = (Inr (filter (\<lambda>r. OrderHash r \<in> set hs) (tOrders (dbTables s))), s)"
  using assms by (simp add: GetOrderByHashs_def dbCall_def)

text \<open>The maps that \<^verbatim>\<open>updateOrdersByTradeEvent\<close> builds from the events of a mined transaction.\<close>

definition succMap :: "TransactionStatus \<Rightarrow> TradeSuccessEvent list \<Rightarrow> (string \<times> decimal) list" where
  "succMap status evs = (if status = TransactionStatusSuccess then amountMap (successItems evs) else [])"

definition failMap :: "TransactionStatus \<Rightarrow> TradeFailedEvent list \<Rightarrow> (string \<times> decimal) list" where
  "failMap status evs = (if status = TransactionStatusSuccess then amountMap (failedItems evs) else [])"

lemma updateOrdersByTradeEvent_run:
  assumes "synced perp (dbTables s) (msBook s)" "dbFaults s = []"
    "H = set (map miOrderHash (MatchItems (mtMatchResult tx)))"
    "succ = succMap (mtStatus tx) successEvents" "fail = failMap (mtStatus tx) failedEvents"
    "matched = amountMap (MatchItems (mtMatchResult tx))"
    "\<forall>r \<in> set (tOrders (dbTables s)). OrderHash r \<in> H \<longrightarrow> in_perp perp r \<and> fits succ matched r"
  shows "\<exists>ords s'. updateOrdersByTradeEvent now tx successEvents failedEvents s =
       (Inr (recordTradeEvents tx successEvents failedEvents, ords), s') \<and>
     synced perp (dbTables s') (msBook s') \<and> dbFaults s' = [] \<and> tMatchTxs (dbTables s') = tMatchTxs (dbTables s) \<and>
     list_all2 (settled_row perp succ fail matched H) (tOrders (dbTables s)) (tOrders (dbTables s'))"
proof -
  let ?tx = "recordTradeEvents tx successEvents failedEvents"
  let ?orders = "filter (\<lambda>r. OrderHash r \<in> H) (tOrders (dbTables s))"
  have get: "GetOrderByHashs (map miOrderHash (MatchItems (mtMatchResult tx))) s = (Inr ?orders, s)"
    using run_GetOrderByHashs [OF assms(2)] assms(3) by simp
  have d: "distinct (map OrderHash ?orders)"
    using synced_tables [OF assms(1)] by (simp add: tables_ok_def orders_ok_def distinct_map_filter)
  have "\<forall>r \<in> set ?orders. in_perp perp r \<and> fits succ matched r" "set ?orders \<subseteq> set (tOrders (dbTables s))"
    using assms(7) by auto
  from updateOrdersLoop_run [OF assms(1,2) this(2) d this(1), of now ?tx fail] obtain ords s' where
    l: "updateOrdersLoop now ?tx succ fail matched ?orders s = (Inr ords, s')"
    "synced perp (dbTables s') (msBook s')" "dbFaults s' = []" "tMatchTxs (dbTables s') = tMatchTxs (dbTables s)"
    "list_all2 (settled_row perp succ fail matched (OrderHash ` set ?orders)) (tOrders (dbTables s)) (tOrders (dbTables s'))"
    by blast
  have "list_all2 (settled_row perp succ fail matched H) (tOrders (dbTables s)) (tOrders (dbTables s'))"
    using l(5) by (rule list.rel_mono_strong) (auto simp: settled_row_def)
  moreover have "updateOrdersByTradeEvent now tx successEvents failedEvents s = (Inr (?tx, ords), s')"
    using get l(1) unfolding assms(4-6) updateOrdersByTradeEvent_def succMap_def failMap_def Let_def
    by (simp add: bindE_def)
  ultimately show ?thesis using l(2-4) by blast
qed

lemma UpdateOrdersStatus_run:
  assumes "synced perp (dbTables s) (msBook s)" "dbFaults s = []"
    "tx \<in> set (tMatchTxs (dbTables s))" "distinct (map mtID (tMatchTxs (dbTables s)))"
    "H = set (map miOrderHash (MatchItems (mtMatchResult tx)))" "matched = amountMap (MatchItems (mtMatchResult tx))"
    "succ = succMap status successEvents" "fail = failMap status failedEvents"
    "\<forall>r \<in> set (tOrders (dbTables s)). OrderHash r \<in> H \<longrightarrow> in_perp perp r \<and> fits succ matched r"
    "events_nonzero successEvents failedEvents"
  shows "\<exists>s' tx'. UpdateOrdersStatus now (mtID tx) status transactionHash blockHash blockNumber blockTime
        successEvents failedEvents s = (Inr (), s') \<and>
     synced perp (dbTables s') (msBook s') \<and> dbFaults s' = [] \<and>
     tx' \<in> set (tMatchTxs (dbTables s')) \<and> mtID tx' = mtID tx \<and> mtBlockConfirmed tx' \<and> mtStatus tx' = status \<and>
     list_all2 (settled_row perp succ fail matched H) (tOrders (dbTables s)) (tOrders (dbTables s'))"
proof -
  let ?t0 = "tx\<lparr> mtBlockConfirmed := True, mtStatus := status \<rparr>"
  define tx1 where "tx1 = (if (status = TransactionStatusFail \<or> status = TransactionStatusSuccess) \<and> 0 < blockNumber
      then executedTx ?t0 status transactionHash blockHash blockNumber blockTime else ?t0)"
  have tx1: "mtStatus tx1 = status" "mtBlockConfirmed tx1" "mtID tx1 = mtID tx" "mtMatchResult tx1 = mtMatchResult tx"
    by (simp_all add: tx1_def executedTx_def)
  let ?tx = "recordTradeEvents tx1 successEvents failedEvents"
  have tx: "mtID ?tx = mtID tx" "mtStatus ?tx = status" "mtBlockConfirmed ?tx"
    using tx1 by (simp_all add: recordTradeEvents_def)
  from updateOrdersByTradeEvent_run [OF assms(1,2), of H tx1 succ successEvents fail failedEvents matched now] assms(5-9) tx1
  obtain ords s1 where u: "updateOrdersByTradeEvent now tx1 successEvents failedEvents s = (Inr (?tx, ords), s1)"
    "synced perp (dbTables s1) (msBook s1)" "dbFaults s1 = []" "tMatchTxs (dbTables s1) = tMatchTxs (dbTables s)"
    "list_all2 (settled_row perp succ fail matched H) (tOrders (dbTables s)) (tOrders (dbTables s1))"
    by auto
  let ?t = "(dbTables s1)\<lparr> tMatchTxs := map (\<lambda>r. if mtID r = mtID ?tx then ?tx else r) (tMatchTxs (dbTables s1)) \<rparr>"
  have "\<exists>r \<in> set (tMatchTxs (dbTables s1)). mtID r = mtID ?tx" using assms(3) u(4) tx(1) by auto
  then have upd: "UpdateMatchTransaction ?tx s1 = (Inr (), s1\<lparr> dbTables := ?t \<rparr>)"
    using u(3) unfolding UpdateMatchTransaction_def dbCall_def Let_def by simp
  have "updateStatusTx now (mtID tx) status transactionHash blockHash blockNumber blockTime successEvents failedEvents s =
      (Inr ords, s1\<lparr> dbTables := ?t \<rparr>)"
    unfolding updateStatusTx_def
    by (rule run_Transaction)
      (use assms(2) u upd run_GetMatchTransaction [OF assms(2-4)] in \<open>simp_all add: bindE_def tx1_def [symmetric]\<close>)
  then have run: "UpdateOrdersStatus now (mtID tx) status transactionHash blockHash blockNumber blockTime
        successEvents failedEvents s = (Inr (), notifyAll ords (s1\<lparr> dbTables := ?t \<rparr>))"
    by (simp add: UpdateOrdersStatus_def)
  have ok: "\<forall>x \<in> set (tMatchTxs (dbTables s1)). tx_ok x" using synced_tables [OF u(2)] by (simp add: tables_ok_def)
  then have "tx_ok tx1" using assms(3) u(4) tx1(4) by (auto simp: tx_ok_def items_of_def)
  then have "tx_ok ?tx" using assms(10) by (rule tx_ok_recordTradeEvents)
  with ok have "synced perp ?t (msBook s1)" by (intro synced_txs [OF u(2)]) auto
  moreover have "?tx \<in> set (tMatchTxs ?t)" using assms(3) u(4) tx(1) by force
  ultimately show ?thesis using run tx u(3,5)
    by (intro exI [of _ "notifyAll ords (s1\<lparr> dbTables := ?t \<rparr>)"] exI [of _ ?tx]) simp
qed

section \<open>A match on concrete data\<close>

definition match_row :: Order where
  "match_row = match_db_order\<lparr> OrderHash := ''x'', Price := 1 / 2, TriggerPrice := 1, Amount := - (1 / 4),
     AvailableAmount := - (1 / 4), MinTradeAmount := 1 / 8, Type := StopLimitOrder, OldStatus := OrderStatusUnset \<rparr>"

definition match_state :: mstate where
  "match_state = start_state\<lparr>
     dbTables := \<lparr> tOrders = [match_row], tMatchTxs = [], tPerpetuals = [], tNextID = 2 \<rparr>, msBook := match_book \<rparr>"

lemma match_row_simps [simp]:
  "OrderHash match_row = ''x''" "Amount match_row = - (1 / 4)" "AvailableAmount match_row = - (1 / 4)"
  "PendingAmount match_row = 0" "ConfirmedAmount match_row = 0" "CanceledAmount match_row = 0" "Price match_row = 1 / 2"
  "in_perp match_perp match_row" "sided match_row" "row_ok match_row" "ID match_row = 1" "Status match_row = OrderPending"
  "getMemoryOrder match_row = match_order" "dbFaults match_state = []" "msBook match_state = match_book"
  "dbTables match_state = \<lparr> tOrders = [match_row], tMatchTxs = [], tPerpetuals = [], tNextID = 2 \<rparr>"
  by (simp_all add: match_row_def match_db_order_def in_perp_def match_perp_def sided_def HasTheSameSign_def row_ok_def
      conserved_def setStatusByAmounts_def getMemoryOrder_def match_order_def match_state_def start_state_def)

lemma match_book_from_empty: "InsertOrder NewOrderbook match_order = (Inr (), match_book)"
proof -
  have m: "moAmount match_order = - (1 / 4)" "moPrice match_order = 1 / 2" "moID match_order = ''x''"
    by (simp_all add: match_order_def)
  show ?thesis
    by (simp add: InsertOrder_def NewOrderbook_def match_book_def plInsertOrder_def newPriceLevel_def sideTree_def
        setSideTree_def sidePrices_def setSidePrices_def m Let_def)
qed

lemma match_synced: "synced match_perp (dbTables match_state) (msBook match_state)"
proof -
  let ?t = "dbTables start_state"
  have t: "appendRow match_row ?t = dbTables match_state" "tOrders ?t = []" "msBook start_state = NewOrderbook"
    by (simp_all add: appendRow_def start_state_def match_row_def match_db_order_def)
  obtain b' where "InsertOrder NewOrderbook (getMemoryOrder match_row) = (Inr (), b')"
    "synced match_perp (appendRow match_row ?t) b'"
    using synced_append [OF start_synced, of match_row] t by auto
  with match_book_from_empty show ?thesis unfolding t by simp
qed

lemma match_state_run:
  obtains s' where "matchOrders lib18 match_env match_conf match_perp (Some ''u'') match_state = Some s'"
    "tMatchTxs (dbTables s') = [newMatchTransaction match_conf match_perp ''u'' [\<lparr> miOrderHash = ''x'', miAmount = - (1 / 4) \<rparr>]]"
proof -
  let ?item = "\<lparr> mitOrder = match_order, mitOrderCancelAmounts = [], mitOrderCancelReasons = [],
              mitOrderTotalCancel = 0, mitMatchedAmount = - (1 / 4) \<rparr>"
  from match_run obtain ps where r:
    "MatchOrderSideBySide lib18 match_env match_conf match_perp match_book match_syncer = Some ([?item], ps)" by blast
  let ?s = "match_state\<lparr> msPools := ps \<rparr>" and ?row = "savedRow 0 (matchedOrder 0 ?item match_row)"
  have q: "QueryOrder [] (ppLiquidityPoolAddress match_perp) (ppPerpetualIndex match_perp) [OrderPending] 0 0 0 match_state =
      (Inr [match_row], match_state)"
    using match_row_simps(8) by (simp add: QueryOrder_def dbCall_def limitDesc_def orderWhere_def in_perp_def match_perp_def)
  have h: "moID match_order = ''x''" by (simp add: match_order_def)
  have tok: "tables_ok [ident match_row] (dbTables ?s)" using synced_tables [OF match_synced] by simp
  have get: "GetOrderByHash ''x'' ?s = (Inr match_row, ?s)"
    by (rule run_Get_row [OF _ tok]) simp_all
  obtain ord where upd: "UpdateOrder 0 (matchedOrder 0 ?item match_row) ?s =
      (Inr ord, ?s\<lparr> dbTables := replaceRow ?row (dbTables ?s) \<rparr>)"
    using run_UpdateOrder [OF _ tok, of match_row "matchedOrder 0 ?item match_row" 0]
    by (auto simp: matchedOrder_def)
  let ?s1 = "?s\<lparr> dbTables := replaceRow ?row (dbTables ?s) \<rparr>"
  let ?rows = "[\<lparr> miOrderHash = ''x'', miAmount = - (1 / 4) \<rparr>]"
  let ?tx = "newMatchTransaction match_conf match_perp ''u'' ?rows"
  have l: "matchItemsLoop 0 [?item] ?s = (Inr (?rows, [ord]), ?s1)"
    using get upd by (simp add: h HasTheSameSign_def bindE_def)
  have c: "CreateMatchTransaction ?tx ?s1 = (Inr (), ?s1\<lparr> dbTables := (dbTables ?s1)\<lparr> tMatchTxs := [?tx] \<rparr> \<rparr>)"
    by (simp add: CreateMatchTransaction_def dbCall_def replaceRow_def)
  obtain b where b: "ChangeOrder match_book match_order (1 / 4) = (Inr (), b)"
  proof (rule ChangeOrder_book [of match_book match_order match_order "1 / 4"])
    show "book_wf match_book" using match_synced by (simp add: synced_def)
    show "orders_of match_book (order_key match_order) = Some match_order"
      by (simp add: orders_of_def order_key_def GetOrder_def sideTree_def match_book_def match_order_def plGetOrder_def)
  qed (simp_all add: match_order_def)
  have "matchTx match_conf match_perp ''u'' 0 [?item] ?s =
      (Inr [ord], ?s1\<lparr> dbTables := (dbTables ?s1)\<lparr> tMatchTxs := [?tx] \<rparr>, msBook := b \<rparr>)"
    unfolding matchTx_def by (rule run_Transaction) (use l c b in \<open>simp_all add: bindE_def bookChange_def replaceRow_def\<close>)
  moreover have "msPools match_state = match_syncer" "envNow match_env = 0"
    by (simp_all add: match_state_def start_state_def match_env_def)
  ultimately have "matchOrders lib18 match_env match_conf match_perp (Some ''u'') match_state =
      Some (notifyAll [ord] (?s1\<lparr> dbTables := (dbTables ?s1)\<lparr> tMatchTxs := [?tx] \<rparr>, msBook := b \<rparr>))"
    using q r by (simp add: matchOrders_def)
  from that [OF this] show ?thesis by simp
qed

text \<open>The order matched in full, and its transaction not mined yet.\<close>

definition pending_row :: Order where
  "pending_row = match_row\<lparr> AvailableAmount := 0, PendingAmount := - (1 / 4) \<rparr>"

definition pending_tx :: MatchTransaction where
  "pending_tx = newMatchTransaction match_conf match_perp ''u'' [\<lparr> miOrderHash = ''x'', miAmount = - (1 / 4) \<rparr>]"

definition pending_state :: mstate where
  "pending_state = start_state\<lparr>
     dbTables := \<lparr> tOrders = [pending_row], tMatchTxs = [pending_tx], tPerpetuals = [], tNextID = 2 \<rparr> \<rparr>"

definition pending_event :: TradeSuccessEvent where
  "pending_event = \<lparr> sePerpetualAddress = ''0xp'', seBlockNumber = 10, seTransactionSeq = 0, seTransactionHash = ''0x1'',
     seTraderAddress = ''t'', seOrderHash = ''x'', seAmount = - (1 / 8), seGas = 0 \<rparr>"

lemma pending_event_simps [simp]:
  "seOrderHash pending_event = ''x''" "seAmount pending_event = - (1 / 8)"
  by (simp_all add: pending_event_def)

lemma pending_simps [simp]:
  "OrderHash pending_row = ''x''" "Amount pending_row = - (1 / 4)" "AvailableAmount pending_row = 0"
  "PendingAmount pending_row = - (1 / 4)" "ConfirmedAmount pending_row = 0" "CanceledAmount pending_row = 0"
  "in_perp match_perp pending_row" "sided pending_row" "row_ok pending_row" "ID pending_row = 1" "Price pending_row = 1 / 2"
  "mtID pending_tx = ''u''" "MatchItems (mtMatchResult pending_tx) = [\<lparr> miOrderHash = ''x'', miAmount = - (1 / 4) \<rparr>]"
  "tx_ok pending_tx" "dbFaults pending_state = []" "msBook pending_state = NewOrderbook"
  "dbTables pending_state = \<lparr> tOrders = [pending_row], tMatchTxs = [pending_tx], tPerpetuals = [], tNextID = 2 \<rparr>"
  using match_row_simps(8)
  by (simp_all add: pending_row_def in_perp_def sided_def row_ok_def conserved_def setStatusByAmounts_def
      pending_tx_def newMatchTransaction_def tx_ok_def items_of_def pending_state_def start_state_def HasTheSameSign_def)

lemma pending_synced: "synced match_perp (dbTables pending_state) (msBook pending_state)"
  by (simp add: synced_def tables_ok_def orders_ok_def active_def book_orders_def)

section \<open>Properties\<close>



text \<open>
  C8: a matcher that is started again has exactly the open orders. Whatever the book and the timers
  were before, after a start without database errors the book agrees with the tables, every order
  in it has its timer or is queued to expire, and the tables are unchanged.
\<close>

theorem newMatch_rebuilds:
  assumes "tables_ok (map ident (tOrders (dbTables s))) (dbTables s)" "dbFaults s = []" "ppLiquidityPoolAddress perp \<noteq> []"
    "\<forall>r \<in> set (tOrders (dbTables s)). columns_sided r"
  shows "\<exists>s'. newMatch now perp s = (Inr (), s') \<and> synced perp (dbTables s') (msBook s') \<and> dbTables s' = dbTables s \<and>
     (\<forall>r \<in> active perp (dbTables s). armed now s' r)"
proof -
  have "\<forall>r \<in> set (tOrders (dbTables s)). row_ok r" using assms(1) by (simp add: tables_ok_def orders_ok_def)
  with assms(4) have "\<forall>r \<in> active perp (dbTables s). Status r = OrderPending"
    using columns_pending by (auto simp: active_def)
  moreover have "\<forall>r \<in> set (tOrders (dbTables s)). sided r" using assms(4) by (simp add: columns_sided_def sided_def)
  ultimately show ?thesis using newMatch_run [OF assms(1-3)] by blast
qed

theorem newMatch_rebuilds_witness:
  "\<exists>s'. newMatch 5 match_perp (match_state\<lparr> msBook := NewOrderbook \<rparr>) = (Inr (), s') \<and>
     synced match_perp (dbTables s') (msBook s') \<and> tOrders (dbTables s') = [match_row] \<and> armed 5 s' match_row"
proof -
  let ?s = "match_state\<lparr> msBook := NewOrderbook \<rparr>"
  have t: "tables_ok (map ident (tOrders (dbTables ?s))) (dbTables ?s)" using synced_tables [OF match_synced] by simp
  have p: "ppLiquidityPoolAddress match_perp \<noteq> []" by (simp add: match_perp_def)
  have c: "\<forall>r \<in> set (tOrders (dbTables ?s)). columns_sided r" by (simp add: columns_sided_def HasTheSameSign_def)
  have f: "dbFaults ?s = []" "match_row \<in> active match_perp (dbTables ?s)" by (simp_all add: active_def)
  with newMatch_rebuilds [OF t _ p c, of 5] show ?thesis by auto
qed




end
