(* ===== verification/Go_Strings.thy ===== *)
theory Go_Strings
  imports Main
begin

text \<open>
  The functions of Go's \<^verbatim>\<open>strings\<close> and \<^verbatim>\<open>fmt\<close> packages that the components use: decimal
  notation, lower case and comparison up to case on the letters of ASCII, prefixes and splitting
  at a separator of one character.
\<close>

section \<open>Definitions\<close>

text \<open>\<^verbatim>\<open>fmt.Sprintf("%d", i)\<close>.\<close>

definition digit :: "nat \<Rightarrow> char" where
  "digit n = char_of (48 + n)"

fun natToString :: "nat \<Rightarrow> string" where
  "natToString n = (if n < 10 then [digit n] else natToString (n div 10) @ [digit (n mod 10)])"

declare natToString.simps [simp del]

definition intToString :: "int \<Rightarrow> string" where
  "intToString i = (if i < 0 then CHR ''-'' # natToString (nat (- i)) else natToString (nat i))"

text \<open>\<^verbatim>\<open>strings.ToLower\<close> on the letters of an address.\<close>

definition toLowerChar :: "char \<Rightarrow> char" where
  "toLowerChar c = (let n = of_char c :: nat in if 65 \<le> n \<and> n \<le> 90 then char_of (n + 32) else c)"

definition toLower :: "string \<Rightarrow> string" where
  "toLower s = map toLowerChar s"

text \<open>\<^verbatim>\<open>strings.EqualFold\<close>.\<close>

definition EqualFold :: "string \<Rightarrow> string \<Rightarrow> bool" where
  "EqualFold s t \<longleftrightarrow> toLower s = toLower t"

definition HasPrefix :: "string \<Rightarrow> string \<Rightarrow> bool" where
  "HasPrefix s pre \<longleftrightarrow> take (length pre) s = pre"

text \<open>\<^verbatim>\<open>strings.Split\<close>: a separator at the end is followed by an empty part.\<close>

fun splitOn :: "char \<Rightarrow> string \<Rightarrow> string list" where
  "splitOn c [] = [[]]"
| "splitOn c (x # xs) =
     (if x = c then [] # splitOn c xs
      else (case splitOn c xs of [] \<Rightarrow> [[x]] | p # ps \<Rightarrow> (x # p) # ps))"

section \<open>Facts\<close>

lemma natToString_value:
  "foldl (\<lambda>v c. 10 * v + (of_char c - 48)) 0 (natToString n) = n"
proof (induction n rule: natToString.induct)
  case (1 n)
  have d: "of_char (digit k) - 48 = k" if "k < 10" for k :: nat
    using that by (simp add: digit_def)
  show ?case
  proof (cases "n < 10")
    case True
    then show ?thesis by (simp add: natToString.simps [of n] d)
  next
    case False
    with 1 show ?thesis by (simp add: natToString.simps [of n] d)
  qed
qed

lemma natToString_inj: "natToString m = natToString n \<Longrightarrow> m = n"
  by (metis natToString_value)

lemma natToString_no_dash: "CHR ''-'' \<notin> set (natToString n)" "natToString n \<noteq> []"
proof (induction n rule: natToString.induct)
  case (1 n)
  have "digit k \<noteq> CHR ''-''" if "k < 10" for k
  proof
    assume "digit k = CHR ''-''"
    then have "of_char (digit k) = (45 :: nat)" by simp
    with that show False by (simp add: digit_def)
  qed
  then have d: "digit (n mod 10) \<noteq> CHR ''-''" "n < 10 \<Longrightarrow> digit n \<noteq> CHR ''-''" by simp_all
  {
    case 1
    then show ?case using d "1.IH"(1) by (auto simp: natToString.simps [of n])
  next
    case 2
    then show ?case by (simp add: natToString.simps [of n])
  }
qed

lemma intToString_inj: "intToString i = intToString j \<Longrightarrow> i = j"
  using natToString_no_dash(1) [of "nat i"] natToString_no_dash(1) [of "nat j"]
  by (auto simp: intToString_def dest!: natToString_inj split: if_splits) (metis list.set_intros(1))+

lemma length_toLower [simp]: "length (toLower s) = length s"
  by (simp add: toLower_def)

lemma toLowerChar_idem [simp]: "toLowerChar (toLowerChar c) = toLowerChar c"
proof -
  have "of_char (toLowerChar c) \<notin> {65..90 :: nat}"
  proof (cases "of_char c \<in> {65..90 :: nat}")
    case True
    then have "(of_char c + 32 :: nat) mod 256 = of_char c + 32" by (intro mod_less) auto
    with True show ?thesis by (simp add: toLowerChar_def Let_def)
  next
    case False
    then show ?thesis by (simp add: toLowerChar_def Let_def)
  qed
  then show ?thesis unfolding toLowerChar_def [of "toLowerChar c"] by (auto simp: Let_def)
qed

lemma toLower_idem [simp]: "toLower (toLower s) = toLower s"
  by (simp add: toLower_def)

lemma EqualFold_toLower [simp]: "EqualFold s (toLower t) = EqualFold s t" "EqualFold (toLower s) t = EqualFold s t"
  by (simp_all add: EqualFold_def)

lemma splitOn_nonempty [simp]: "splitOn c s \<noteq> []"
  by (cases s) (auto split: list.splits)

text \<open>The parts, joined again, are the string; a part has no separator.\<close>

fun joinWith :: "char \<Rightarrow> string list \<Rightarrow> string" where
  "joinWith c [] = []"
| "joinWith c [p] = p"
| "joinWith c (p # ps) = p @ c # joinWith c ps"

lemma joinWith_Cons: "ps \<noteq> [] \<Longrightarrow> joinWith c (p # ps) = p @ c # joinWith c ps"
  by (cases ps) simp_all

lemma joinWith_splitOn: "joinWith c (splitOn c s) = s"
proof (induction s)
  case (Cons x xs)
  obtain p ps where s: "splitOn c xs = p # ps" by (meson neq_Nil_conv splitOn_nonempty)
  with Cons show ?case by (cases ps) (auto simp: joinWith_Cons)
qed simp

lemma splitOn_parts: "p \<in> set (splitOn c s) \<Longrightarrow> c \<notin> set p"
proof (induction s arbitrary: p)
  case (Cons x xs)
  obtain q qs where "splitOn c xs = q # qs" by (meson neq_Nil_conv splitOn_nonempty)
  with Cons show ?case by (auto split: if_splits)
qed simp

lemma splitOn_two: "splitOn c s = [p, q] \<Longrightarrow> s = p @ c # q"
  using joinWith_splitOn [of c s] by simp

end
