(* ===== verification/Match_Server.thy ===== *)
theory Match_Server
  imports Match_Settle Go_Strings
begin

text \<open>
  \<^verbatim>\<open>src/match/server.go\<close>: the matchers of all perpetuals. A handler has its own book, timers
  and trigger channel; the database, the pool cache and the websocket channel are shared. A
  function of the server looks its handler up under the mutex of the server and then runs an
  operation of the handler under the mutex of the handler; here it is one step, and no other
  operation on the same perpetual comes between the two.
\<close>

section \<open>Keys\<close>

definition getPerpetualKey :: "string \<Rightarrow> int \<Rightarrow> string" where
  "getPerpetualKey liquidityPoolAddress perpIndex = liquidityPoolAddress @ ''-'' @ intToString perpIndex"

definition perpetualKey :: "Perpetual \<Rightarrow> string" where
  "perpetualKey perp = getPerpetualKey (ppLiquidityPoolAddress perp) (ppPerpetualIndex perp)"

section \<open>State\<close>

record handler =
  hPerp :: Perpetual
  hBook :: Orderbook
  hTimers :: "(string \<times> time) list"
  hExpired :: "string list"
  hTrgr :: nat

record server = dbstate +
  svHandlers :: "(string \<times> handler) list"
  svPools :: poolSyncer
  svWs :: "Order list"

text \<open>The state a handler works on, and its parts after the handler has run.\<close>

definition enter :: "handler \<Rightarrow> server \<Rightarrow> mstate" where
  "enter h sv = \<lparr> dbTables = dbTables sv, dbFaults = dbFaults sv, msBook = hBook h, msTimers = hTimers h,
     msExpired = hExpired h, msPools = svPools sv, msWs = svWs sv, msTrgr = hTrgr h \<rparr>"

definition shared :: "mstate \<Rightarrow> server \<Rightarrow> server" where
  "shared s sv = sv\<lparr> dbTables := dbTables s, dbFaults := dbFaults s, svPools := msPools s, svWs := msWs s \<rparr>"

definition handlerOf :: "Perpetual \<Rightarrow> mstate \<Rightarrow> handler" where
  "handlerOf perp s = \<lparr> hPerp = perp, hBook = msBook s, hTimers = msTimers s, hExpired = msExpired s, hTrgr = msTrgr s \<rparr>"

definition leave :: "string \<Rightarrow> Perpetual \<Rightarrow> mstate \<Rightarrow> server \<Rightarrow> server" where
  "leave key perp s sv = (shared s sv)\<lparr> svHandlers := AList.update key (handlerOf perp s) (svHandlers sv) \<rparr>"

definition onHandler :: "string \<Rightarrow> handler \<Rightarrow> (mstate, 'a) dbm \<Rightarrow> (server, 'a) dbm" where
  "onHandler key h m sv = (case m (enter h sv) of (r, s) \<Rightarrow> (r, leave key (hPerp h) s sv))"

section \<open>The map of handlers\<close>

definition getMatchHandler :: "string \<Rightarrow> int \<Rightarrow> server \<Rightarrow> handler option" where
  "getMatchHandler pool perpIndex sv = map_of (svHandlers sv) (getPerpetualKey pool perpIndex)"

definition setMatchHandler :: "string \<Rightarrow> int \<Rightarrow> handler \<Rightarrow> (server, unit) dbm" where
  "setMatchHandler pool perpIndex h sv =
     (case map_of (svHandlers sv) (getPerpetualKey pool perpIndex) of
        Some _ \<Rightarrow> (Inl ''setMatchHandler error: exists'', sv)
      | None \<Rightarrow> (Inr (), sv\<lparr> svHandlers := AList.update (getPerpetualKey pool perpIndex) h (svHandlers sv) \<rparr>))"

definition deleteMatchHandler :: "string \<Rightarrow> int \<Rightarrow> (server, unit) dbm" where
  "deleteMatchHandler pool perpIndex sv =
     (case map_of (svHandlers sv) (getPerpetualKey pool perpIndex) of
        Some _ \<Rightarrow> (Inr (), sv\<lparr> svHandlers := AList.delete (getPerpetualKey pool perpIndex) (svHandlers sv) \<rparr>)
      | None \<Rightarrow> (Inl ''deleteMatchHandler: do not exists'', sv))"

section \<open>Operations\<close>

definition newHandler :: "Perpetual \<Rightarrow> handler" where
  "newHandler perp = \<lparr> hPerp = perp, hBook = NewOrderbook, hTimers = [], hExpired = [], hTrgr = 0 \<rparr>"

definition serverNewMatch :: "chain_env \<Rightarrow> Perpetual \<Rightarrow> (server, handler) dbm" where
  "serverNewMatch env perp sv =
     (let sv = sv\<lparr> svPools := AddPool env (ppLiquidityPoolAddress perp) (svPools sv) \<rparr> in
      case newMatch (envNow env) perp (enter (newHandler perp) sv) of
        (Inl e, s) \<Rightarrow> (Inl e, shared s sv)
      | (Inr _, s) \<Rightarrow>
          bindE (setMatchHandler (ppLiquidityPoolAddress perp) (ppPerpetualIndex perp) (handlerOf perp s))
            (\<lambda>_. retE (handlerOf perp s)) (shared s sv))"

text \<open>The loop of \<^verbatim>\<open>Start\<close> over the published perpetuals; a matcher that does not start is skipped.\<close>

fun startLoop :: "chain_env \<Rightarrow> Perpetual list \<Rightarrow> server \<Rightarrow> server" where
  "startLoop env [] sv = sv"
| "startLoop env (perpetual # perpetuals) sv = startLoop env perpetuals (snd (serverNewMatch env perpetual sv))"

definition serverStart :: "chain_env \<Rightarrow> (server, unit) dbm" where
  "serverStart env =
     bindE (QueryPerpetuals True) (\<lambda>perpetuals sv.
       (Inr (), startLoop env perpetuals (sv\<lparr> svPools := newPoolSyncer \<rparr>)))"

text \<open>The handler of an order; a published perpetual without one is opened.\<close>

definition openHandler :: "chain_env \<Rightarrow> string \<Rightarrow> int \<Rightarrow> (server, handler) dbm" where
  "openHandler env pool perpIndex sv =
     (case getMatchHandler pool perpIndex sv of
        Some h \<Rightarrow> (Inr h, sv)
      | None \<Rightarrow> bindE (GetPerpetualByPoolAddressAndIndex pool perpIndex True) (serverNewMatch env) sv)"

definition serverNewOrder ::
  "decimal_lib \<Rightarrow> chain_env \<Rightarrow> conf \<Rightarrow> (OrdersEachPerp list \<Rightarrow> OrdersEachPerp list) \<Rightarrow> Order \<Rightarrow> server \<Rightarrow>
   (MatchCode \<times> server) option" where
  "serverNewOrder L env cf visit order sv =
     (case openHandler env (LiquidityPoolAddress order) (PerpetualIndex order) sv of
        (Inl _, sv) \<Rightarrow> Some (MatchInternalErrorID, sv)
      | (Inr h, sv) \<Rightarrow> do {
          (code, s) \<leftarrow> NewOrder L env cf (hPerp h) visit order (enter h sv);
          Some (code, leave (getPerpetualKey (LiquidityPoolAddress order) (PerpetualIndex order)) (hPerp h) s sv)
        })"

definition serverCancelOrder :: "time \<Rightarrow> string \<Rightarrow> int \<Rightarrow> string \<Rightarrow> (server, unit) dbm" where
  "serverCancelOrder now pool perpIndex orderHash sv =
     (case getMatchHandler pool perpIndex sv of
        None \<Rightarrow> (Inl ''CancelOrder error: perpetual is not open'', sv)
      | Some h \<Rightarrow> onHandler (getPerpetualKey pool perpIndex) h
          (cancelOrderWithoutLock now orderHash CancelReasonUserCancel True 0) sv)"

text \<open>
  \<open>save\<close> is what \<^verbatim>\<open>Save\<close> of gorm does with a \<^verbatim>\<open>dbPerpetual\<close>, a struct without a primary key.
\<close>

definition UpdatePerpetual ::
  "(Perpetual \<Rightarrow> tables \<Rightarrow> tables result) \<Rightarrow> Perpetual \<Rightarrow> ('a dbstate_scheme, unit) dbm" where
  "UpdatePerpetual save perpetual =
     dbCall (\<lambda>s. case save perpetual (dbTables s) of
        Inl e \<Rightarrow> (Inl (''UpdatePerpetual:'' @ e), s)
      | Inr t \<Rightarrow> (Inr (), s\<lparr> dbTables := t \<rparr>))"

definition closeHandler :: "handler \<Rightarrow> handler" where
  "closeHandler h = h\<lparr> hTimers := [] \<rparr>"

definition ClosePerpetual ::
  "(Perpetual \<Rightarrow> tables \<Rightarrow> tables result) \<Rightarrow> string \<Rightarrow> int \<Rightarrow> (server, unit) dbm" where
  "ClosePerpetual save pool perpIndex sv =
     (case getMatchHandler pool perpIndex sv of
        None \<Rightarrow> (Inl ''ClosePerpetual error: perpetual is not open'', sv)
      | Some h \<Rightarrow>
          bindE (GetPerpetualByPoolAddressAndIndex pool perpIndex True) (\<lambda>perpetual.
          bindE (UpdatePerpetual save (perpetual\<lparr> ppIsPublished := False \<rparr>)) (\<lambda>_ sv.
          deleteMatchHandler pool perpIndex
            (sv\<lparr> svHandlers := AList.update (getPerpetualKey pool perpIndex) (closeHandler h) (svHandlers sv) \<rparr>))) sv)"

definition serverUpdateOrdersStatus ::
  "time \<Rightarrow> string \<Rightarrow> TransactionStatus \<Rightarrow> string \<Rightarrow> string \<Rightarrow> 64 word \<Rightarrow> 64 word \<Rightarrow>
   TradeSuccessEvent list \<Rightarrow> TradeFailedEvent list \<Rightarrow> (server, unit) dbm" where
  "serverUpdateOrdersStatus now txID status transactionHash blockHash blockNumber blockTime successEvents failedEvents =
     bindE (GetMatchTransaction txID) (\<lambda>mtx sv.
       case getMatchHandler (mtLiquidityPoolAddress mtx) (mtPerpetualIndex mtx) sv of
         None \<Rightarrow> (Inl ''UpdateOrdersStatus error: perpetual is not open'', sv)
       | Some h \<Rightarrow> onHandler (getPerpetualKey (mtLiquidityPoolAddress mtx) (mtPerpetualIndex mtx)) h
           (UpdateOrdersStatus now txID status transactionHash blockHash blockNumber blockTime
              successEvents failedEvents) sv)"

definition serverSetPoolStorageDirty :: "string \<Rightarrow> server \<Rightarrow> server" where
  "serverSetPoolStorageDirty txID sv =
     (case GetMatchTransaction txID sv of
        (Inl _, sv) \<Rightarrow> sv
      | (Inr mtx, sv) \<Rightarrow> sv\<lparr> svPools := SetPoolStorageDirty (mtLiquidityPoolAddress mtx) (svPools sv) \<rparr>)"

definition serverRollbackOrdersStatus ::
  "time \<Rightarrow> string \<Rightarrow> TransactionStatus \<Rightarrow> string \<Rightarrow> string \<Rightarrow> 64 word \<Rightarrow> 64 word \<Rightarrow>
   TradeSuccessEvent list \<Rightarrow> TradeFailedEvent list \<Rightarrow> (server, unit) dbm" where
  "serverRollbackOrdersStatus now txID status transactionHash blockHash blockNumber blockTime successEvents failedEvents =
     bindE (GetMatchTransaction txID) (\<lambda>mtx sv.
       case getMatchHandler (mtLiquidityPoolAddress mtx) (mtPerpetualIndex mtx) sv of
         None \<Rightarrow> (Inl ''RollBackOrdersStatus error: perpetual is not open'', sv)
       | Some h \<Rightarrow> onHandler (getPerpetualKey (mtLiquidityPoolAddress mtx) (mtPerpetualIndex mtx)) h
           (RollbackOrdersStatus now mtx status transactionHash blockHash blockNumber blockTime
              successEvents failedEvents) sv)"

text \<open>The goroutines of the handlers: a round of \<^verbatim>\<open>RunMatch\<close>, and an expired order.\<close>

definition serverMatchOrders ::
  "decimal_lib \<Rightarrow> chain_env \<Rightarrow> conf \<Rightarrow> string option \<Rightarrow> string \<Rightarrow> server \<Rightarrow> server option" where
  "serverMatchOrders L env cf uuid key sv =
     (case map_of (svHandlers sv) key of
        None \<Rightarrow> Some sv
      | Some h \<Rightarrow> do {
          s \<leftarrow> matchOrders L env cf (hPerp h) uuid (enter h sv);
          Some (leave key (hPerp h) s sv)
        })"

definition serverExpired :: "time \<Rightarrow> string \<Rightarrow> string \<Rightarrow> server \<Rightarrow> server" where
  "serverExpired now key orderID sv =
     (case map_of (svHandlers sv) key of
        None \<Rightarrow> sv
      | Some h \<Rightarrow> leave key (hPerp h) (onOrderExpired now orderID (enter h sv)) sv)"

section \<open>Keys are unique\<close>

text \<open>Two perpetuals have the same key only if they are the same, for addresses without a dash.\<close>

lemma getPerpetualKey_inj:
  assumes "getPerpetualKey p i = getPerpetualKey q j" "CHR ''-'' \<notin> set p" "CHR ''-'' \<notin> set q"
  shows "p = q \<and> i = j"
proof -
  have t: "takeWhile (\<lambda>c. c \<noteq> CHR ''-'') (x @ CHR ''-'' # y) = x" if "CHR ''-'' \<notin> set x" for x y :: string
    using that by (induction x) auto
  have e: "p @ CHR ''-'' # intToString i = q @ CHR ''-'' # intToString j"
    using assms(1) by (simp add: getPerpetualKey_def)
  from arg_cong [OF e, of "takeWhile (\<lambda>c. c \<noteq> CHR ''-'')"] assms(2,3) have "p = q" by (simp add: t)
  with e show ?thesis using intToString_inj by simp
qed

section \<open>The agreement of all books with the database\<close>

text \<open>An address: a nonempty string without a dash.\<close>

definition address :: "string \<Rightarrow> bool" where
  "address p \<longleftrightarrow> p \<noteq> [] \<and> CHR ''-'' \<notin> set p"

definition agreed :: "server \<Rightarrow> bool" where
  "agreed sv \<longleftrightarrow> tables_ok (map ident (tOrders (dbTables sv))) (dbTables sv) \<and>
     (\<forall>r \<in> set (tOrders (dbTables sv)). sided r \<and> address (LiquidityPoolAddress r)) \<and>
     distinct (map fst (svHandlers sv)) \<and>
     (\<forall>(k, h) \<in> set (svHandlers sv). k = perpetualKey (hPerp h) \<and> address (ppLiquidityPoolAddress (hPerp h)) \<and>
        synced (hPerp h) (dbTables sv) (hBook h))"

text \<open>Only rows of one perpetual have changed.\<close>

definition frame :: "Perpetual \<Rightarrow> tables \<Rightarrow> tables \<Rightarrow> bool" where
  "frame perp t t' \<longleftrightarrow> {r \<in> set (tOrders t'). \<not> in_perp perp r} = {r \<in> set (tOrders t). \<not> in_perp perp r}"

lemma frame_refl: "tOrders t' = tOrders t \<Longrightarrow> frame perp t t'"
  by (simp add: frame_def)

lemma frame_trans: "frame perp t t' \<Longrightarrow> frame perp t' t'' \<Longrightarrow> frame perp t t''"
  by (simp add: frame_def)

lemma in_perp_ident: "ident r = ident r' \<Longrightarrow> in_perp perp r = in_perp perp r'"
  using identD(5,6) [of r r'] by (simp add: in_perp_def)

lemma frame_replaceRow:
  assumes "tables_ok K t" "r \<in> set (tOrders t)" "in_perp perp r" "ident row = ident r"
  shows "frame perp t (replaceRow row t)"
  using assms(3) in_perp_ident [OF assms(4), of perp]
  unfolding frame_def replaceRow_set [OF assms(1,2) identD(1) [OF assms(4)]] by auto

lemma frame_appendRow: "in_perp perp row \<Longrightarrow> frame perp t (appendRow row t)"
  by (auto simp: frame_def appendRow_def in_perp_def)

lemma frame_rows:
  assumes "list_all2 P (tOrders t) (tOrders t')" "\<And>r r'. P r r' \<Longrightarrow> ident r' = ident r \<and> (in_perp perp r \<or> r' = r)"
  shows "frame perp t t'"
proof -
  have l: "length (tOrders t) = length (tOrders t')" and
    p: "\<And>i. i < length (tOrders t) \<Longrightarrow> P (tOrders t ! i) (tOrders t' ! i)"
    using assms(1) by (auto simp: list_all2_conv_all_nth)
  have "tOrders t' ! i = tOrders t ! i"
    if "i < length (tOrders t)" "\<not> in_perp perp (tOrders t ! i) \<or> \<not> in_perp perp (tOrders t' ! i)" for i
    using assms(2) [OF p [OF that(1)]] that(2) in_perp_ident by blast
  then show ?thesis using l unfolding frame_def by (auto simp: in_set_conv_nth) metis+
qed

lemma synced_frame:
  assumes "synced perp' t b" "frame perp t t'" "perpetualKey perp' \<noteq> perpetualKey perp" "synced perp t' b'"
  shows "synced perp' t' b"
proof -
  have "\<not> in_perp perp r" if "in_perp perp' r" for r
    using assms(3) that by (auto simp: in_perp_def perpetualKey_def)
  then have "active perp' t' = active perp' t" using assms(2) by (auto simp: active_def frame_def)
  with assms(1,4) show ?thesis by (simp add: synced_def)
qed

text \<open>The server agrees again after a handler has kept its own agreement and its frame.\<close>

lemma agreed_leave:
  assumes "agreed sv" "map_of (svHandlers sv) k = Some h" "synced (hPerp h) (dbTables s) (msBook s)"
    "frame (hPerp h) (dbTables sv) (dbTables s)"
  shows "agreed (leave k (hPerp h) s sv)"
proof -
  have k: "k = perpetualKey (hPerp h)" "address (ppLiquidityPoolAddress (hPerp h))"
    using assms(1,2) map_of_SomeD by (fastforce simp: agreed_def)+
  have a: "address (LiquidityPoolAddress r)" if r: "r \<in> set (tOrders (dbTables s))" for r
  proof (cases "in_perp (hPerp h) r")
    case True
    with k(2) show ?thesis by (simp add: in_perp_def)
  next
    case False
    with r assms(4) have "r \<in> set (tOrders (dbTables sv))" by (auto simp: frame_def)
    with assms(1) show ?thesis by (simp add: agreed_def)
  qed
  have d: "distinct (map fst (svHandlers sv))" using assms(1) by (simp add: agreed_def)
  have "k' = perpetualKey (hPerp h') \<and> address (ppLiquidityPoolAddress (hPerp h')) \<and> synced (hPerp h') (dbTables s) (hBook h')"
    if kh: "(k', h') \<in> set (AList.update k (handlerOf (hPerp h) s) (svHandlers sv))" for k' h'
  proof (cases "k' = k")
    case True
    with kh d have "h' = handlerOf (hPerp h) s" by (simp add: set_update_alist)
    with assms(3) True k show ?thesis by (simp add: handlerOf_def)
  next
    case False
    with kh d have "(k', h') \<in> set (svHandlers sv)" by (simp add: set_update_alist)
    with assms(1) have h': "k' = perpetualKey (hPerp h')" "address (ppLiquidityPoolAddress (hPerp h'))"
      "synced (hPerp h') (dbTables sv) (hBook h')"
      by (auto simp: agreed_def)
    with False k assms(3,4) synced_frame [OF h'(3) assms(4) _ assms(3)] show ?thesis by simp
  qed
  with assms(1,3) a show ?thesis
    by (auto simp: agreed_def leave_def shared_def synced_def distinct_update)
qed

lemma agreed_handler:
  assumes "agreed sv" "map_of (svHandlers sv) k = Some h"
  shows "synced (hPerp h) (dbTables (enter h sv)) (msBook (enter h sv))" "k = perpetualKey (hPerp h)"
  using assms map_of_SomeD by (fastforce simp: agreed_def enter_def)+

lemma enter_simps [simp]:
  "dbTables (enter h sv) = dbTables sv" "dbFaults (enter h sv) = dbFaults sv" "msBook (enter h sv) = hBook h"
  by (simp_all add: enter_def)

lemma leave_simps [simp]:
  "dbTables (leave k perp s sv) = dbTables s" "dbFaults (leave k perp s sv) = dbFaults s"
  by (simp_all add: leave_def shared_def)

text \<open>A handler found under the key of an order is the one of its perpetual.\<close>

lemma routed:
  assumes "agreed sv" "getMatchHandler pool i sv = Some h" "address pool"
  shows "ppLiquidityPoolAddress (hPerp h) = pool" "ppPerpetualIndex (hPerp h) = i"
    "map_of (svHandlers sv) (getPerpetualKey pool i) = Some h"
proof -
  show m: "map_of (svHandlers sv) (getPerpetualKey pool i) = Some h" using assms(2) by (simp add: getMatchHandler_def)
  then have "getPerpetualKey pool i = perpetualKey (hPerp h)" "address (ppLiquidityPoolAddress (hPerp h))"
    using assms(1) map_of_SomeD by (fastforce simp: agreed_def)+
  with assms(3) getPerpetualKey_inj show "ppLiquidityPoolAddress (hPerp h) = pool" "ppPerpetualIndex (hPerp h) = i"
    unfolding perpetualKey_def address_def by metis+
qed

section \<open>Every operation keeps the agreement\<close>

text \<open>What a cancellation does to the rows.\<close>

definition cancelled_row :: "Order \<Rightarrow> Order \<Rightarrow> bool" where
  "cancelled_row r r' \<longleftrightarrow> ident r' = ident r \<and> PendingAmount r' = PendingAmount r \<and>
     ConfirmedAmount r' = ConfirmedAmount r \<and> \<bar>AvailableAmount r'\<bar> \<le> \<bar>AvailableAmount r\<bar>"

lemma cancelled_row_refl: "list_all2 cancelled_row rs rs"
  by (simp add: list_all2_same cancelled_row_def)

lemma cancelled_row_trans: "cancelled_row r r' \<Longrightarrow> cancelled_row r' r'' \<Longrightarrow> cancelled_row r r''"
  by (auto simp: cancelled_row_def)

lemma cancel_missing:
  assumes "dbFaults s = []" "h \<notin> OrderHash ` set (tOrders (dbTables s))"
  shows "cancelOrderWithoutLock now h reason all amount s = (Inl ''GetOrder:record not found'', s)"
  using run_Get_none [OF assms] by (simp add: cancelOrderWithoutLock_def Transaction_def cancelBody_def bindE_def)

lemma handler_cancel_agreed:
  assumes "agreed sv" "dbFaults sv = []" "map_of (svHandlers sv) k = Some h" "reason \<noteq> CancelReasonEmpty"
    "\<forall>r \<in> set (tOrders (dbTables sv)). OrderHash r = hash \<longrightarrow>
       in_perp (hPerp h) r \<and> (all \<or> HasTheSameSign amount (Amount r))"
    "cancelOrderWithoutLock now hash reason all amount (enter h sv) = (res, s)"
  shows "agreed (leave k (hPerp h) s sv) \<and> dbFaults s = [] \<and>
     list_all2 cancelled_row (tOrders (dbTables sv)) (tOrders (dbTables s))"
proof (cases "hash \<in> OrderHash ` set (tOrders (dbTables sv))")
  case True
  then obtain r where r: "r \<in> set (tOrders (dbTables sv))" "OrderHash r = hash" by auto
  note sync = agreed_handler(1) [OF assms(1,3)]
  have c: "in_perp (hPerp h) r" "all \<or> HasTheSameSign amount (Amount r)" using assms(5) r by auto
  have f: "dbFaults (enter h sv) = []" "r \<in> set (tOrders (dbTables (enter h sv)))" using assms(2) r by simp_all
  obtain s' row where run: "cancelOrderWithoutLock now (OrderHash r) reason all amount (enter h sv) = (Inr (), s')"
    "dbFaults s' = []" "dbTables s' = replaceRow row (dbTables (enter h sv))"
    "synced (hPerp h) (dbTables s') (msBook s')" "ident row = ident r"
    "amounts row = (AvailableAmount r - cancelledAmount r all amount, PendingAmount r, ConfirmedAmount r,
       CanceledAmount r + cancelledAmount r all amount)"
    using sync f(1) assms(4) f(2) c by (rule cancel_run)
  have s: "s' = s" using run(1) assms(6) r(2) by simp
  have tok: "tables_ok (map ident (tOrders (dbTables sv))) (dbTables sv)" using assms(1) by (simp add: agreed_def)
  have sd: "sided r" using assms(1) r(1) by (simp add: agreed_def)
  note bounds = cancelledAmount_bounds [OF sd c(2)]
  have "\<bar>AvailableAmount row\<bar> \<le> \<bar>AvailableAmount r\<bar>"
    using bounds run(6) sd by (auto simp: amounts_def sided_def HasTheSameSign_iff zero_le_mult_iff)
  then have "list_all2 cancelled_row (tOrders (dbTables sv)) (tOrders (dbTables s'))"
    unfolding run(3) enter_simps
    by (intro replaceRow_list [OF tok r(1) identD(1) [OF run(5)]])
      (use run(5,6) in \<open>auto simp: cancelled_row_def amounts_def\<close>)
  moreover have "frame (hPerp h) (dbTables sv) (dbTables s')"
    unfolding run(3) enter_simps by (rule frame_replaceRow [OF tok r(1) c(1) run(5)])
  ultimately show ?thesis using agreed_leave [OF assms(1,3) run(4)] run(2) s by simp
next
  case False
  then have "s = enter h sv" using cancel_missing [of "enter h sv" hash] assms(2,6) by simp
  then show ?thesis
    using assms(2) agreed_leave [OF assms(1,3) agreed_handler(1) [OF assms(1,3)]] frame_refl cancelled_row_refl by simp
qed

lemma handler_match_agreed:
  assumes "agreed sv" "dbFaults sv = []" "map_of (svHandlers sv) k = Some h"
    "matchOrders L env cf (hPerp h) uuid (enter h sv) = Some s"
  shows "agreed (leave k (hPerp h) s sv) \<and> dbFaults s = []"
proof -
  have f: "dbFaults (enter h sv) = []" using assms(2) by simp
  note run = matchOrders_run [OF agreed_handler(1) [OF assms(1,3)] f assms(4)]
  have "frame (hPerp h) (dbTables sv) (dbTables s)"
  proof (cases "dbTables s = dbTables sv")
    case False
    with run obtain rows where "list_all2 (matched_row (hPerp h) rows) (tOrders (dbTables sv)) (tOrders (dbTables s))" by auto
    then show ?thesis by (rule frame_rows) (auto simp: matched_row_def)
  qed (simp add: frame_refl)
  with run agreed_leave [OF assms(1,3)] show ?thesis by blast
qed

lemma handler_new_order_agreed:
  assumes "agreed sv" "dbFaults sv = []" "map_of (svHandlers sv) k = Some h" "fresh_order ord" "in_perp (hPerp h) ord"
    "NewOrder L env cf (hPerp h) visit ord (enter h sv) = Some (code, s)"
  shows "agreed (leave k (hPerp h) s sv) \<and> dbFaults s = []"
proof -
  have f: "dbFaults (enter h sv) = []" using assms(2) by simp
  obtain row where run: "synced (hPerp h) (dbTables s) (msBook s)" "dbFaults s = []"
    "code = MatchOK \<longrightarrow> OrderHash ord \<notin> OrderHash ` set (tOrders (dbTables (enter h sv))) \<and>
       dbTables s = appendRow row (dbTables (enter h sv))"
    "code \<noteq> MatchOK \<longrightarrow> dbTables s = dbTables (enter h sv) \<and> msBook s = msBook (enter h sv)"
    "OrderHash row = OrderHash ord" "AvailableAmount row = Amount ord" "Amount row = Amount ord"
    "Price row = Price ord" "Status row = OrderPending" "in_perp (hPerp h) row" "AvailableAmount row \<noteq> 0"
    using agreed_handler(1) [OF assms(1,3)] f assms(4-6) by (rule NewOrder_run)
  have "frame (hPerp h) (dbTables sv) (dbTables s)"
    using run(3,4,10) frame_appendRow frame_refl by (cases "code = MatchOK") simp_all
  with run(1,2) agreed_leave [OF assms(1,3)] show ?thesis by blast
qed

lemma handler_settle_agreed:
  assumes "agreed sv" "dbFaults sv = []" "map_of (svHandlers sv) k = Some h"
    "tx \<in> set (tMatchTxs (dbTables sv))" "distinct (map mtID (tMatchTxs (dbTables sv)))"
    "H = set (map miOrderHash (MatchItems (mtMatchResult tx)))" "matched = amountMap (MatchItems (mtMatchResult tx))"
    "succ = succMap status successEvents" "fail = failMap status failedEvents"
    "\<forall>r \<in> set (tOrders (dbTables sv)). OrderHash r \<in> H \<longrightarrow> in_perp (hPerp h) r \<and> fits succ matched r"
    "events_nonzero successEvents failedEvents"
    "UpdateOrdersStatus now (mtID tx) status transactionHash blockHash blockNumber blockTime
        successEvents failedEvents (enter h sv) = (res, s)"
  shows "agreed (leave k (hPerp h) s sv) \<and> dbFaults s = []"
proof -
  have f: "dbFaults (enter h sv) = []" "tx \<in> set (tMatchTxs (dbTables (enter h sv)))"
    "distinct (map mtID (tMatchTxs (dbTables (enter h sv))))"
    "\<forall>r \<in> set (tOrders (dbTables (enter h sv))). OrderHash r \<in> H \<longrightarrow> in_perp (hPerp h) r \<and> fits succ matched r"
    using assms(2,4,5,10) by simp_all
  from UpdateOrdersStatus_run [OF agreed_handler(1) [OF assms(1,3)] f(1-3) assms(6-9) f(4) assms(11), of now transactionHash blockHash blockNumber blockTime] assms(12)
  have run: "synced (hPerp h) (dbTables s) (msBook s)" "dbFaults s = []"
    "list_all2 (settled_row (hPerp h) succ fail matched H) (tOrders (dbTables sv)) (tOrders (dbTables s))" by auto
  have "frame (hPerp h) (dbTables sv) (dbTables s)" using run(3) by (rule frame_rows) (auto simp: settled_row_def)
  with run(1,2) agreed_leave [OF assms(1,3)] show ?thesis by blast
qed

text \<open>Opening a perpetual: the open orders of the table fill the book of the new handler.\<close>

definition open_pending :: "tables \<Rightarrow> bool" where
  "open_pending t \<longleftrightarrow> (\<forall>r \<in> set (tOrders t). AvailableAmount r \<noteq> 0 \<longrightarrow> Status r = OrderPending)"

lemma agreed_pools [simp]: "agreed (sv\<lparr> svPools := ps \<rparr>) = agreed sv"
  by (simp add: agreed_def)

lemma serverNewMatch_agreed:
  assumes "agreed sv" "dbFaults sv = []" "address (ppLiquidityPoolAddress perp)" "open_pending (dbTables sv)"
    "serverNewMatch env perp sv = (res, sv')"
  shows "agreed sv' \<and> dbFaults sv' = [] \<and> dbTables sv' = dbTables sv \<and>
     (\<forall>h. res = Inr h \<longrightarrow> hPerp h = perp \<and> map_of (svHandlers sv') (perpetualKey perp) = Some h) \<and>
     (map_of (svHandlers sv) (perpetualKey perp) = None \<longrightarrow> \<not> isl res)"
proof -
  let ?sv = "sv\<lparr> svPools := AddPool env (ppLiquidityPoolAddress perp) (svPools sv) \<rparr>"
  let ?s = "enter (newHandler perp) ?sv"
  have t: "tables_ok (map ident (tOrders (dbTables sv))) (dbTables ?s)" "\<forall>r \<in> set (tOrders (dbTables ?s)). sided r"
    "\<forall>r \<in> active perp (dbTables ?s). Status r = OrderPending" "dbFaults ?s = []" "ppLiquidityPoolAddress perp \<noteq> []"
    using assms(1-4) by (simp_all add: agreed_def open_pending_def active_def address_def)
  from newMatch_run [OF t(1,4,5,2,3), of "envNow env"] obtain s' where
    s': "newMatch (envNow env) perp ?s = (Inr (), s')" "synced perp (dbTables s') (msBook s')" "dbTables s' = dbTables sv"
      "dbFaults s' = []"
    by auto
  have sh: "agreed (shared s' ?sv)" "svHandlers (shared s' ?sv) = svHandlers sv" "dbTables (shared s' ?sv) = dbTables sv"
    "dbFaults (shared s' ?sv) = []"
    using assms(1) s'(3,4) by (simp_all add: agreed_def shared_def)
  have calc: "serverNewMatch env perp sv = bindE (setMatchHandler (ppLiquidityPoolAddress perp) (ppPerpetualIndex perp)
      (handlerOf perp s')) (\<lambda>_. retE (handlerOf perp s')) (shared s' ?sv)"
    unfolding serverNewMatch_def Let_def s'(1) by simp
  show ?thesis
  proof (cases "map_of (svHandlers sv) (perpetualKey perp)")
    case (Some h)
    then have "(res, sv') = (Inl ''setMatchHandler error: exists'', shared s' ?sv)"
      using calc assms(5) sh(2) by (simp add: bindE_def setMatchHandler_def perpetualKey_def)
    with sh Some show ?thesis by simp
  next
    case None
    let ?h = "handlerOf perp s'"
    have d: "distinct (map fst (svHandlers sv))" using assms(1) by (simp add: agreed_def)
    have e: "sv' = (shared s' ?sv)\<lparr> svHandlers := AList.update (perpetualKey perp) ?h (svHandlers sv) \<rparr>" "res = Inr ?h"
      using calc assms(5) sh(2) None by (simp_all add: bindE_def setMatchHandler_def perpetualKey_def)
    have "agreed sv'"
      using sh(1,3) s'(2,3) assms(3) d unfolding e(1)
      by (simp add: agreed_def sh(2) distinct_update) (auto simp: set_update_alist handlerOf_def split: if_splits)
    then show ?thesis using e sh(3,4) by (simp add: handlerOf_def update_conv)
  qed
qed

lemma run_GetPerpetual:
  assumes "dbFaults sv = []" "GetPerpetualByPoolAddressAndIndex pool i pub sv = (res, sv')"
  shows "sv' = sv \<and> (\<forall>p. res = Inr p \<longrightarrow> ppLiquidityPoolAddress p = pool \<and> ppPerpetualIndex p = i)"
  using assms by (auto simp: GetPerpetualByPoolAddressAndIndex_def dbCall_def perpKey_def find_Some_iff split: option.splits)

lemma openHandler_agreed:
  assumes "agreed sv" "dbFaults sv = []" "address pool" "getMatchHandler pool i sv = None \<longrightarrow> open_pending (dbTables sv)"
    "openHandler env pool i sv = (res, sv')"
  shows "agreed sv' \<and> dbFaults sv' = [] \<and> (\<forall>h. res = Inr h \<longrightarrow> getMatchHandler pool i sv' = Some h)"
proof (cases "getMatchHandler pool i sv")
  case (Some h)
  with assms(1,2,5) show ?thesis by (auto simp: openHandler_def)
next
  case None
  obtain res' sv2 where g: "GetPerpetualByPoolAddressAndIndex pool i True sv = (res', sv2)" by fastforce
  from run_GetPerpetual [OF assms(2) g] have sv2: "sv2 = sv" by simp
  show ?thesis
  proof (cases res')
    case (Inl e)
    with None g sv2 assms(1,2,5) show ?thesis by (auto simp: openHandler_def)
  next
    case (Inr perp)
    with run_GetPerpetual [OF assms(2) g] have p: "ppLiquidityPoolAddress perp = pool" "ppPerpetualIndex perp = i" by simp_all
    have m: "serverNewMatch env perp sv = (res, sv')" using assms(5) None g Inr sv2 by (simp add: openHandler_def)
    have "address (ppLiquidityPoolAddress perp)" "open_pending (dbTables sv)" using assms(3,4) p None by simp_all
    moreover have "perpetualKey perp = getPerpetualKey pool i" using p by (simp add: perpetualKey_def)
    ultimately show ?thesis using serverNewMatch_agreed [OF assms(1,2) _ _ m] unfolding getMatchHandler_def by metis
  qed
qed

lemma serverNewOrder_agreed:
  assumes "agreed sv" "dbFaults sv = []" "fresh_order ord" "address (LiquidityPoolAddress ord)"
    "getMatchHandler (LiquidityPoolAddress ord) (PerpetualIndex ord) sv = None \<longrightarrow> open_pending (dbTables sv)"
    "serverNewOrder L env cf visit ord sv = Some (code, sv')"
  shows "agreed sv' \<and> dbFaults sv' = []"
proof -
  obtain res sv1 where o: "openHandler env (LiquidityPoolAddress ord) (PerpetualIndex ord) sv = (res, sv1)" by fastforce
  note a = openHandler_agreed [OF assms(1,2,4,5) o]
  show ?thesis
  proof (cases res)
    case (Inl e)
    with assms(6) o a show ?thesis by (simp add: serverNewOrder_def)
  next
    case (Inr h)
    with a have a1: "agreed sv1" "dbFaults sv1 = []" "getMatchHandler (LiquidityPoolAddress ord) (PerpetualIndex ord) sv1 = Some h"
      by simp_all
    from Inr assms(6) o obtain s where s: "NewOrder L env cf (hPerp h) visit ord (enter h sv1) = Some (code, s)"
      "sv' = leave (getPerpetualKey (LiquidityPoolAddress ord) (PerpetualIndex ord)) (hPerp h) s sv1"
      by (auto simp: serverNewOrder_def bind_Some_iff)
    note rt = routed [OF a1(1,3) assms(4)]
    have "in_perp (hPerp h) ord" using rt(1,2) by (simp add: in_perp_def)
    from handler_new_order_agreed [OF a1(1,2) rt(3) assms(3) this s(1)] s(2) show ?thesis by simp
  qed
qed

lemma startLoop_agreed:
  assumes "agreed sv" "dbFaults sv = []" "\<forall>p \<in> set perps. address (ppLiquidityPoolAddress p)" "open_pending (dbTables sv)"
  shows "agreed (startLoop env perps sv) \<and> dbFaults (startLoop env perps sv) = [] \<and>
     dbTables (startLoop env perps sv) = dbTables sv"
  using assms
proof (induction perps arbitrary: sv)
  case (Cons perp perps)
  obtain res sv1 where m: "serverNewMatch env perp sv = (res, sv1)" by fastforce
  have "address (ppLiquidityPoolAddress perp)" using Cons.prems(3) by simp
  from serverNewMatch_agreed [OF Cons.prems(1,2) this Cons.prems(4) m]
  have "agreed sv1" "dbFaults sv1 = []" "dbTables sv1 = dbTables sv" by auto
  with Cons.IH [of sv1] Cons.prems(3,4) m show ?case by simp
qed simp

lemma closeHandler_simps [simp]: "hPerp (closeHandler h) = hPerp h" "hBook (closeHandler h) = hBook h"
  by (simp_all add: closeHandler_def)

text \<open>What closing relies on of \<^verbatim>\<open>Save\<close>: it only writes the table of perpetuals.\<close>

definition saves_perpetuals :: "(Perpetual \<Rightarrow> tables \<Rightarrow> tables result) \<Rightarrow> bool" where
  "saves_perpetuals save \<longleftrightarrow> (\<forall>p t t'. save p t = Inr t' \<longrightarrow>
     tOrders t' = tOrders t \<and> tMatchTxs t' = tMatchTxs t \<and> tNextID t' = tNextID t)"

lemma agreed_tables:
  assumes "agreed sv" "tOrders t = tOrders (dbTables sv)" "tMatchTxs t = tMatchTxs (dbTables sv)" "tNextID t = tNextID (dbTables sv)"
  shows "agreed (sv\<lparr> dbTables := t \<rparr>)"
proof -
  have "tables_ok K t = tables_ok K (dbTables sv)" "synced perp t b = synced perp (dbTables sv) b" for K perp b
    using assms(2-4) by (simp_all add: synced_def tables_ok_def orders_ok_def active_def)
  with assms(1,2) show ?thesis by (simp add: agreed_def)
qed

lemma ClosePerpetual_agreed:
  assumes "agreed sv" "dbFaults sv = []" "saves_perpetuals save" "ClosePerpetual save pool i sv = (res, sv')"
  shows "agreed sv' \<and> dbFaults sv' = [] \<and> tOrders (dbTables sv') = tOrders (dbTables sv) \<and>
     (\<not> isl res \<longrightarrow> getMatchHandler pool i sv' = None)"
proof (cases "getMatchHandler pool i sv")
  case None
  with assms show ?thesis by (auto simp: ClosePerpetual_def)
next
  case (Some h)
  obtain res1 sv1 where g: "GetPerpetualByPoolAddressAndIndex pool i True sv = (res1, sv1)" by fastforce
  from run_GetPerpetual [OF assms(2) g] have sv1: "sv1 = sv" by simp
  show ?thesis
  proof (cases res1)
    case (Inl e)
    with g sv1 Some assms show ?thesis by (auto simp: ClosePerpetual_def bindE_def)
  next
    case (Inr p)
    let ?p = "p\<lparr> ppIsPublished := False \<rparr>"
    show ?thesis
    proof (cases "save ?p (dbTables sv)")
      case e: (Inl e)
      with g sv1 Inr Some assms show ?thesis by (auto simp: ClosePerpetual_def bindE_def UpdatePerpetual_def dbCall_def)
    next
      case t: (Inr t)
      let ?k = "getPerpetualKey pool i"
      let ?sv = "sv\<lparr> dbTables := t \<rparr>"
      have tt: "tOrders t = tOrders (dbTables sv)" "tMatchTxs t = tMatchTxs (dbTables sv)" "tNextID t = tNextID (dbTables sv)"
        using assms(3) t by (auto simp: saves_perpetuals_def)
      have r: "res = Inr ()" "sv' = ?sv\<lparr> svHandlers := AList.delete ?k (AList.update ?k (closeHandler h) (svHandlers sv)) \<rparr>"
        using assms(4) g sv1 Inr Some t assms(2)
        by (auto simp: ClosePerpetual_def bindE_def UpdatePerpetual_def dbCall_def deleteMatchHandler_def update_conv)
      have d: "distinct (map fst (svHandlers sv))" using assms(1) by (simp add: agreed_def)
      have "set (svHandlers sv') \<subseteq> set (svHandlers sv)" "distinct (map fst (svHandlers sv'))"
        unfolding r(2) using d by (auto simp: set_delete_alist set_update_alist distinct_update distinct_delete)
      with agreed_tables [OF assms(1) tt] have "agreed sv'" unfolding r(2) agreed_def by auto
      with r tt assms(2) show ?thesis by (simp add: getMatchHandler_def delete_conv)
    qed
  qed
qed

end
