(* ===== verification/Launch_Dao.thy ===== *)
theory Launch_Dao
  imports Match_Server
begin

text \<open>
  The tables of the launcher and the operations on them: \<^verbatim>\<open>src/dao/launch_transaction.go\<close>,
  \<^verbatim>\<open>src/dao/nonce.go\<close> and \<^verbatim>\<open>src/dao/kv.go\<close>, with the structs of
  \<^verbatim>\<open>src/common/model/launch_transaction.go\<close> and \<^verbatim>\<open>src/common/model/kv.go\<close>. The state of the
  launcher extends the state of the match server: both share the database and its faults. Rows
  that an \<^verbatim>\<open>ORDER BY\<close> does not separate come in the order of the table.
\<close>

section \<open>Data\<close>

datatype TransactionType = TxNormal | TxCancel | TxAccelerated

record LaunchTransaction =
  ltID :: int
  ltTxID :: string
  ltFromAddress :: string
  ltToAddress :: string
  ltType :: TransactionType
  ltInputs :: "byte list"
  ltBlockNumber :: "64 word option"
  ltBlockHash :: "string option"
  ltBlockTime :: "64 word option"
  ltTransactionHash :: "string option"
  ltNonce :: "64 word option"
  ltGasPrice :: "64 word option"
  ltGasLimit :: "64 word option"
  ltGasUsed :: "64 word option"
  ltStatus :: LaunchTransactionStatus
  ltValue :: decimal
  ltCommitTime :: time
  ltUpdateTime :: time

definition MustString :: "string option \<Rightarrow> string" where
  "MustString s = (case s of Some v \<Rightarrow> v | None \<Rightarrow> [])"

definition MustUint64 :: "64 word option \<Rightarrow> 64 word" where
  "MustUint64 n = (case n of Some v \<Rightarrow> v | None \<Rightarrow> 0)"

record KVStore =
  kvKey :: string
  kvCategory :: string
  kvValue :: "byte list"
  kvUpdateTime :: time

text \<open>
  A row of \<^verbatim>\<open>broker_nonces\<close> is an address with its next nonce, which may be null. \<open>lsNextTx\<close> is
  the sequence of the primary key of the launch transactions; a rollback does not reset it.
\<close>

record lstate = server +
  lsTxs :: "LaunchTransaction list"
  lsNextTx :: int
  lsNonces :: "(string \<times> 64 word option) list"
  lsKVs :: "KVStore list"

section \<open>Transactions\<close>

text \<open>
  \<^verbatim>\<open>beginTx\<close> of \<^verbatim>\<open>dao.go\<close>, with what a rollback undoes: the writes made through the connection
  of this transaction. The match server has a connection of its own, so what it commits inside
  the body of a transaction of the launcher stays. A panic in the body is an error of the body.
\<close>

definition beginTx ::
  "('a dbstate_scheme \<Rightarrow> 'a dbstate_scheme \<Rightarrow> 'a dbstate_scheme) \<Rightarrow> ('a dbstate_scheme, 'r) dbm \<Rightarrow>
   ('a dbstate_scheme, 'r) dbm" where
  "beginTx rollback body s =
     (case body s of
        (Inl e, s') \<Rightarrow> (Inl e, rollback s s')
      | (Inr x, s') \<Rightarrow>
          (case dbCall (retE x) s' of
             (Inl e, s'') \<Rightarrow> (Inl (''transaction commit failed:'' @ e), rollback s s'')
           | (Inr x, s'') \<Rightarrow> (Inr x, s'')))"

lemma Transaction_beginTx: "Transaction = beginTx (\<lambda>s s'. s'\<lparr> dbTables := dbTables s \<rparr>)"
  by (intro ext) (simp add: Transaction_def beginTx_def)

definition undoLaunch :: "lstate \<Rightarrow> lstate \<Rightarrow> lstate" where
  "undoLaunch s s' = s'\<lparr> lsTxs := lsTxs s, lsNonces := lsNonces s, lsKVs := lsKVs s \<rparr>"

definition undoAll :: "lstate \<Rightarrow> lstate \<Rightarrow> lstate" where
  "undoAll s s' = (undoLaunch s s')\<lparr> dbTables := dbTables s \<rparr>"

definition launchTx :: "(lstate, 'r) dbm \<Rightarrow> (lstate, 'r) dbm" where
  "launchTx body s = beginTx undoLaunch body s"

section \<open>launch\_transaction.go\<close>

definition statusFilter :: "LaunchTransactionStatus list \<Rightarrow> LaunchTransaction \<Rightarrow> bool" where
  "statusFilter status t \<longleftrightarrow> (status \<noteq> [] \<longrightarrow> ltStatus t \<in> set status)"

definition findTxs :: "(LaunchTransaction \<Rightarrow> bool) \<Rightarrow> lstate \<Rightarrow> LaunchTransaction list" where
  "findTxs P s = filter P (lsTxs s)"

text \<open>\<^verbatim>\<open>First\<close>: the first row, or the error \<^verbatim>\<open>ErrRecordNotFound\<close>.\<close>

definition ErrRecordNotFound :: error where
  "ErrRecordNotFound = ''record not found''"

definition firstRow :: "string \<Rightarrow> LaunchTransaction list \<Rightarrow> LaunchTransaction result" where
  "firstRow context rows = (case rows of [] \<Rightarrow> Inl (context @ ErrRecordNotFound) | t # _ \<Rightarrow> Inr t)"

definition FirstTx :: "LaunchTransactionStatus list \<Rightarrow> (lstate, LaunchTransaction) dbm" where
  "FirstTx status =
     dbCall (\<lambda>s. (firstRow ''get pending transaction failed: ''
        (sort_key ltCommitTime (sort_key ltID (findTxs (statusFilter status) s))), s))"

definition FirstTxByUser :: "string \<Rightarrow> LaunchTransactionStatus list \<Rightarrow> (lstate, LaunchTransaction) dbm" where
  "FirstTxByUser addr status =
     dbCall (\<lambda>s. (firstRow ''check pending transactions failed: ''
        (sort_key ltID (findTxs (\<lambda>t. statusFilter status t \<and> ltFromAddress t = addr) s)), s))"

text \<open>
  A null sorts behind every number. The code calls \<^verbatim>\<open>GetTxsByUser\<close> with a nil block number only,
  which is no condition.
\<close>

definition nonceKey :: "LaunchTransaction \<Rightarrow> nat" where
  "nonceKey t = (case ltNonce t of Some n \<Rightarrow> unat n | None \<Rightarrow> 2 ^ 64)"

definition GetTxsByUser :: "string \<Rightarrow> LaunchTransactionStatus list \<Rightarrow> (lstate, LaunchTransaction list) dbm" where
  "GetTxsByUser addr status =
     dbCall (\<lambda>s. (Inr (sort_key nonceKey
        (findTxs (\<lambda>t. statusFilter status t \<and> ltFromAddress t = addr) s)), s))"

text \<open>\<^verbatim>\<open>find\<close> and \<^verbatim>\<open>findAll\<close> by an optional transaction ID and an optional hash.\<close>

definition txWhere ::
  "string option \<Rightarrow> string option \<Rightarrow> LaunchTransactionStatus list \<Rightarrow> LaunchTransaction \<Rightarrow> bool" where
  "txWhere txID txHash status t \<longleftrightarrow> statusFilter status t \<and>
     (case txID of None \<Rightarrow> True | Some i \<Rightarrow> ltTxID t = i) \<and>
     (case txHash of None \<Rightarrow> True | Some h \<Rightarrow> ltTransactionHash t = Some h)"

definition findTx ::
  "string option \<Rightarrow> string option \<Rightarrow> LaunchTransactionStatus list \<Rightarrow> (lstate, LaunchTransaction) dbm" where
  "findTx txID txHash status =
     (if txID = None \<and> txHash = None then throwE ''txID, txHash cannot be nil''
      else dbCall (\<lambda>s. (firstRow ''get transaction failed: ''
        (sort_key ltID (findTxs (txWhere txID txHash status) s)), s)))"

definition findAll ::
  "string option \<Rightarrow> string option \<Rightarrow> LaunchTransactionStatus list \<Rightarrow> (lstate, LaunchTransaction list) dbm" where
  "findAll txID txHash status =
     (if txID = None \<and> txHash = None then throwE ''txID, txHash cannot be nil''
      else dbCall (\<lambda>s. (Inr (sort_key ltCommitTime (findTxs (txWhere txID txHash status) s)), s)))"

definition GetTxByID :: "string \<Rightarrow> (lstate, LaunchTransaction) dbm" where
  "GetTxByID txID =
     bindE (findAll (Some txID) None []) (\<lambda>txs.
       case txs of
         [] \<Rightarrow> throwE ErrRecordNotFound
       | t # _ \<Rightarrow> retE (case find (\<lambda>tx. ltStatus tx = TxSuccess) txs of Some tx \<Rightarrow> tx | None \<Rightarrow> t))"

definition GetTxByHash :: "string \<Rightarrow> (lstate, LaunchTransaction) dbm" where
  "GetTxByHash txHash = findTx None (Some txHash) []"

definition GetTxsByNonce ::
  "string \<Rightarrow> 64 word option \<Rightarrow> LaunchTransactionStatus list \<Rightarrow> (lstate, LaunchTransaction list) dbm" where
  "GetTxsByNonce addr nonce status =
     (case nonce of
        None \<Rightarrow> throwE ''Missing nonce''
      | Some n \<Rightarrow> dbCall (\<lambda>s. (Inr (findTxs (\<lambda>t. statusFilter status t \<and> ltFromAddress t = addr \<and>
                                       ltNonce t = Some n) s), s)))"

definition GetTxsByTime :: "time \<Rightarrow> LaunchTransactionStatus list \<Rightarrow> (lstate, LaunchTransaction list) dbm" where
  "GetTxsByTime unmatureTime status =
     dbCall (\<lambda>s. (Inr (sort_key ltID (findTxs (\<lambda>t. statusFilter status t \<and> unmatureTime \<le> ltCommitTime t) s)), s))"

definition GetUsersWithStatus :: "LaunchTransactionStatus list \<Rightarrow> (lstate, string list) dbm" where
  "GetUsersWithStatus status =
     dbCall (\<lambda>s. (Inr (remdups (map ltFromAddress (findTxs (statusFilter status) s))), s))"

text \<open>\<^verbatim>\<open>Create\<close> inserts a row, under the next value of the sequence when its key is zero.\<close>

definition insertTx :: "LaunchTransaction \<Rightarrow> (lstate, LaunchTransaction) dbm" where
  "insertTx row s =
     (if ltID row = 0
      then let row = row\<lparr> ltID := lsNextTx s \<rparr> in
        (Inr row, s\<lparr> lsTxs := lsTxs s @ [row], lsNextTx := lsNextTx s + 1 \<rparr>)
      else if \<exists>r \<in> set (lsTxs s). ltID r = ltID row
      then (Inl ''duplicate key value violates unique constraint'', s)
      else (Inr row, s\<lparr> lsTxs := lsTxs s @ [row] \<rparr>))"

definition CreateTx :: "time \<Rightarrow> LaunchTransaction \<Rightarrow> (lstate, LaunchTransaction) dbm" where
  "CreateTx now tx = dbCall (insertTx (tx\<lparr> ltUpdateTime := now \<rparr>))"

text \<open>\<^verbatim>\<open>Save\<close> replaces the row with the key, and inserts when there is none.\<close>

definition saveTx :: "LaunchTransaction \<Rightarrow> (lstate, LaunchTransaction) dbm" where
  "saveTx row s =
     (if ltID row \<noteq> 0 \<and> (\<exists>r \<in> set (lsTxs s). ltID r = ltID row)
      then (Inr row, s\<lparr> lsTxs := map (\<lambda>r. if ltID r = ltID row then row else r) (lsTxs s) \<rparr>)
      else insertTx row s)"

definition UpdateTx :: "time \<Rightarrow> LaunchTransaction \<Rightarrow> (lstate, LaunchTransaction) dbm" where
  "UpdateTx now tx = dbCall (saveTx (tx\<lparr> ltUpdateTime := now \<rparr>))"

section \<open>nonce.go\<close>

text \<open>An error of the database reads as an address without a nonce.\<close>

definition GetNextNonce :: "string \<Rightarrow> lstate \<Rightarrow> 64 word option \<times> lstate" where
  "GetNextNonce addr s =
     (case dbCall (\<lambda>s. (case map_of (lsNonces s) addr of
                Some n \<Rightarrow> Inr n | None \<Rightarrow> Inl ErrRecordNotFound, s)) s of
        (Inl _, s') \<Rightarrow> (None, s')
      | (Inr n, s') \<Rightarrow> (n, s'))"

definition UpdateNonce :: "string \<Rightarrow> 64 word option \<Rightarrow> (lstate, unit) dbm" where
  "UpdateNonce addr nonce =
     dbCall (\<lambda>s. (Inr (), s\<lparr> lsNonces := AList.update addr nonce (lsNonces s) \<rparr>))"

section \<open>kv.go\<close>

definition kvGet :: "string \<Rightarrow> string \<Rightarrow> (lstate, KVStore) dbm" where
  "kvGet key category =
     dbCall (\<lambda>s. case find (\<lambda>kv. kvKey kv = key \<and> kvCategory kv = category) (lsKVs s) of
        None \<Rightarrow> (Inl (''get kvstore entry failed: '' @ ErrRecordNotFound), s)
      | Some kv \<Rightarrow> (Inr kv, s))"

definition kvPut :: "time \<Rightarrow> KVStore \<Rightarrow> (lstate, unit) dbm" where
  "kvPut now value =
     dbCall (\<lambda>s. let row = value\<lparr> kvUpdateTime := now \<rparr>;
         same = (\<lambda>kv. kvKey kv = kvKey row \<and> kvCategory kv = kvCategory row)
       in (Inr (), s\<lparr> lsKVs := (if \<exists>kv \<in> set (lsKVs s). same kv
             then map (\<lambda>kv. if same kv then row else kv) (lsKVs s) else lsKVs s @ [row]) \<rparr>))"

definition kvDel :: "string \<Rightarrow> (lstate, unit) dbm" where
  "kvDel key = dbCall (\<lambda>s. (Inr (), s\<lparr> lsKVs := filter (\<lambda>kv. kvKey kv \<noteq> key) (lsKVs s) \<rparr>))"

definition kvList :: "string list \<Rightarrow> (lstate, KVStore list) dbm" where
  "kvList category = dbCall (\<lambda>s. (Inr (filter (\<lambda>kv. kvCategory kv \<in> set category) (lsKVs s)), s))"

end
