(* ===== verification/Chain_Client.thy ===== *)
theory Chain_Client
  imports Launch_Dao
begin

text \<open>
  The client of the chain: \<^verbatim>\<open>src/common/chain/ethereum/client.go\<close>, \<^verbatim>\<open>account.go\<close> and
  \<^verbatim>\<open>address.go\<close>. The packages of go-ethereum (the RPC connection, keys, signatures, the keystore)
  are the records \<open>eth_node\<close> and \<open>eth_lib\<close>. A node answers at one moment as its record says; a
  function that asks several times takes one view of the nodes for each time it asks. The random
  choice of the first node, or of an account, is a number given by the caller.
\<close>

section \<open>address.go\<close>

definition AddressLength :: nat where
  "AddressLength = 20"

definition has0xPrefix :: "string \<Rightarrow> bool" where
  "has0xPrefix str \<longleftrightarrow> 2 \<le> length str \<and> str ! 0 = CHR ''0'' \<and> (str ! 1 = CHR ''x'' \<or> str ! 1 = CHR ''X'')"

definition fromHex :: "string \<Rightarrow> byte list result" where
  "fromHex s =
     (let s = (if has0xPrefix s then drop 2 s else s);
          s = (if length s mod 2 = 1 then ''0'' @ s else s)
      in hex_decode s)"

definition HexToAddress :: "string \<Rightarrow> byte list result" where
  "HexToAddress str =
     (case fromHex str of
        Inl e \<Rightarrow> Inl e
      | Inr b \<Rightarrow> if length b \<noteq> AddressLength then Inl (''invalid eth address:'' @ str) else Inr b)"

text \<open>\<open>None\<close> is a panic.\<close>

definition MustHexToAddress :: "string \<Rightarrow> byte list option" where
  "MustHexToAddress str = (case HexToAddress str of Inl _ \<Rightarrow> None | Inr addr \<Rightarrow> Some addr)"

fun HexArrayToAddresses :: "string list \<Rightarrow> byte list list result" where
  "HexArrayToAddresses [] = Inr []"
| "HexArrayToAddresses (addrStr # addresses) =
     (case HexToAddress addrStr of
        Inl e \<Rightarrow> Inl e
      | Inr addr \<Rightarrow> (case HexArrayToAddresses addresses of Inl e \<Rightarrow> Inl e | Inr ret \<Rightarrow> Inr (addr # ret)))"

definition ethHexToHash :: "string \<Rightarrow> byte list result" where
  "ethHexToHash str =
     (case fromHex str of
        Inl e \<Rightarrow> Inl e
      | Inr b \<Rightarrow> if length b \<noteq> HashLength then Inl (''invalid eth hash:'' @ str) else Inr b)"

definition MustHexToHash :: "string \<Rightarrow> byte list option" where
  "MustHexToHash str = (case ethHexToHash str of Inl _ \<Rightarrow> None | Inr hash \<Rightarrow> Some hash)"

definition StringToBytes32 :: "string \<Rightarrow> byte list" where
  "StringToBytes32 str =
     (let forceConvert = take 32 (map of_char str) in forceConvert @ replicate (32 - length forceConvert) 0)"

section \<open>The packages of go-ethereum\<close>

datatype rpc_error = DeadlineExceeded | NotFound | OtherError string

record raw_tx =
  rtNonce :: "64 word"
  rtTo :: "byte list"
  rtValue :: int
  rtGasLimit :: "64 word"
  rtGasPrice :: int
  rtInputs :: "byte list"

record signed_tx =
  sgRaw :: raw_tx
  sgSignature :: "byte list"

record eth_log =
  lgAddress :: "byte list"
  lgTopics :: "byte list list"
  lgData :: "byte list"
  lgBlockNumber :: "64 word"
  lgTxHash :: "byte list"
  lgTxIndex :: nat

record eth_receipt =
  erBlockNumber :: "int option"
  erBlockHash :: "byte list"
  erGasUsed :: "64 word"
  erStatus :: "64 word"
  erLogs :: "eth_log list"

record eth_block =
  ebNumber :: "64 word"
  ebTime :: "64 word"

record eth_node =
  ndPendingNonceAt :: "byte list \<Rightarrow> rpc_error + 64 word"
  ndBlockByNumber :: "int option \<Rightarrow> rpc_error + eth_block"
  ndTransactionByHash :: "byte list \<Rightarrow> rpc_error + bool"
  ndSendTransaction :: "signed_tx \<Rightarrow> rpc_error + unit"
  ndTransactionReceipt :: "byte list \<Rightarrow> rpc_error + eth_receipt"

type_synonym private_key = "byte list"
type_synonym signer = "byte list \<Rightarrow> raw_tx \<Rightarrow> signed_tx result"

record eth_lib =
  elHexToAddress :: "string \<Rightarrow> byte list"
  elHexToHash :: "string \<Rightarrow> byte list"
  elAddressHex :: "byte list \<Rightarrow> string"
  elHashHex :: "byte list \<Rightarrow> string"
  elTxHash :: "signed_tx \<Rightarrow> byte list"
  elPubkeyToAddress :: "private_key \<Rightarrow> byte list"
  elNewKeyedTransactor :: "private_key \<Rightarrow> int \<Rightarrow> signer result"
  elSign :: "byte list \<Rightarrow> private_key \<Rightarrow> byte list result"
  elHexToECDSA :: "string \<Rightarrow> private_key result"
  elEncryptKey :: "private_key \<Rightarrow> string \<Rightarrow> byte list result"
  elDecryptKey :: "byte list \<Rightarrow> string \<Rightarrow> private_key result"

section \<open>account.go\<close>

record account =
  acAddress :: "byte list"
  acSigner :: signer
  acPrivate :: private_key

definition accountString :: "eth_lib \<Rightarrow> account \<Rightarrow> string" where
  "accountString E acc = elAddressHex E (acAddress acc)"

definition PrivateToAccount :: "eth_lib \<Rightarrow> private_key \<Rightarrow> int \<Rightarrow> account result" where
  "PrivateToAccount E p chainID =
     (let addr = elAddressHex E (elPubkeyToAddress E p) in
      case elNewKeyedTransactor E p chainID of
        Inl e \<Rightarrow> Inl e
      | Inr sg \<Rightarrow> Inr \<lparr> acAddress = elHexToAddress E addr, acSigner = sg, acPrivate = p \<rparr>)"

definition wrapMessage :: "keccak \<Rightarrow> byte list \<Rightarrow> byte list" where
  "wrapMessage K data =
     K ([25] @ ascii ''Ethereum Signed Message:'' @ [10] @ ascii (natToString (length data)) @ data)"

text \<open>The recovery byte of the signature is raised to 27 or 28; a shorter signature would panic.\<close>

definition PersonalSign :: "eth_lib \<Rightarrow> keccak \<Rightarrow> account \<Rightarrow> byte list \<Rightarrow> byte list go" where
  "PersonalSign E K acc msg =
     (case elSign E (wrapMessage K msg) (acPrivate acc) of
        Inl e \<Rightarrow> Some (Inl (''sign failed: '' @ e))
      | Inr sigBytes \<Rightarrow>
          if length sigBytes \<le> 64 then None
          else Some (Inr (if sigBytes ! 64 < 27 then sigBytes[64 := sigBytes ! 64 + 27] else sigBytes)))"

definition HexToPrivate :: "eth_lib \<Rightarrow> string \<Rightarrow> (private_key \<times> string) result" where
  "HexToPrivate E pk =
     (case elHexToECDSA E pk of
        Inl e \<Rightarrow> Inl e
      | Inr private \<Rightarrow> Inr (private, elAddressHex E (elPubkeyToAddress E private)))"

text \<open>\<open>uuidOK\<close> says whether a random identifier for the key file could be made.\<close>

definition EncryptKey :: "eth_lib \<Rightarrow> bool \<Rightarrow> private_key \<Rightarrow> string \<Rightarrow> byte list result" where
  "EncryptKey E uuidOK pk password = (if uuidOK then elEncryptKey E pk password else Inl ''uuid'')"

definition DecryptKey :: "eth_lib \<Rightarrow> byte list \<Rightarrow> string \<Rightarrow> private_key result" where
  "DecryptKey E cipher password = elDecryptKey E cipher password"

section \<open>client.go\<close>

record client =
  clAccounts :: "(byte list \<times> account) list"
  clAliases :: "string list"
  clTryTimes :: nat

text \<open>\<open>dial\<close> is \<^verbatim>\<open>rpc.Dial\<close>; the client comes with the nodes it is connected to.\<close>

fun dialAll :: "(string \<Rightarrow> 'n result) \<Rightarrow> string list \<Rightarrow> 'n list result" where
  "dialAll dial [] = Inr []"
| "dialAll dial (provider # providers) =
     (case dial provider of
        Inl e \<Rightarrow> Inl e
      | Inr node \<Rightarrow> (case dialAll dial providers of Inl e \<Rightarrow> Inl e | Inr nodes \<Rightarrow> Inr (node # nodes)))"

definition NewClient :: "(string \<Rightarrow> 'n result) \<Rightarrow> string list \<Rightarrow> nat \<Rightarrow> ('n list \<times> client) result" where
  "NewClient dial providers tryTimes =
     (case dialAll dial providers of
        Inl e \<Rightarrow> Inl e
      | Inr ethClis \<Rightarrow> Inr (ethClis, \<lparr> clAccounts = [], clAliases = [],
          clTryTimes = (if length ethClis < tryTimes then length ethClis else tryTimes) \<rparr>))"

definition IsNotFoundError :: "rpc_error \<Rightarrow> bool" where
  "IsNotFoundError err \<longleftrightarrow> err = NotFound"

text \<open>A view: the nodes as they are and the index of the first one to ask.\<close>

type_synonym view = "eth_node list \<times> nat"

definition GetEthClient :: "view \<Rightarrow> eth_node option" where
  "GetEthClient v = (if fst v = [] then None else Some (fst v ! (snd v mod length (fst v))))"

text \<open>
  The loop of \<^verbatim>\<open>call\<close>: a node that does not answer in time is left for the next one, any other
  error ends the loop. \<open>Inr None\<close> is the pair of a nil result and a nil error, which is what is
  left when the loop is not entered.
\<close>

fun callLoop ::
  "('n \<Rightarrow> rpc_error + 'a) \<Rightarrow> 'n list \<Rightarrow> nat \<Rightarrow> nat \<Rightarrow> rpc_error option \<Rightarrow> rpc_error + 'a option" where
  "callLoop method ethClis 0 idx loopErr = (case loopErr of Some e \<Rightarrow> Inl e | None \<Rightarrow> Inr None)"
| "callLoop method ethClis (Suc n) idx loopErr =
     (case method (ethClis ! idx) of
        Inr x \<Rightarrow> Inr (Some x)
      | Inl e \<Rightarrow>
          if e \<noteq> DeadlineExceeded then Inl e
          else callLoop method ethClis n (if idx + 1 = length ethClis then 0 else idx + 1) (Some e))"

definition call :: "client \<Rightarrow> ('n \<Rightarrow> rpc_error + 'a) \<Rightarrow> 'n list \<times> nat \<Rightarrow> rpc_error + 'a option" where
  "call c method v =
     (if fst v = [] then Inl (OtherError ''no client for call'')
      else callLoop method (fst v) (clTryTimes c) (snd v mod length (fst v)) None)"

text \<open>The type assertion on the result of a call: a panic when it is nil.\<close>

definition asserted :: "rpc_error + 'a option \<Rightarrow> (rpc_error + 'a) option" where
  "asserted r = (case r of Inl e \<Rightarrow> Some (Inl e) | Inr (Some x) \<Rightarrow> Some (Inr x) | Inr None \<Rightarrow> None)"

definition GetSignAccount :: "nat \<Rightarrow> client \<Rightarrow> string result" where
  "GetSignAccount idx c =
     (if clAliases c = [] then Inl ''no account added'' else Inr (clAliases c ! (idx mod length (clAliases c))))"

definition GetRelayerAccounts :: "client \<Rightarrow> string list" where
  "GetRelayerAccounts c = clAliases c"

definition AddAccount :: "eth_lib \<Rightarrow> int \<Rightarrow> private_key \<Rightarrow> client \<Rightarrow> unit result \<times> client" where
  "AddAccount E chainID private c =
     (case PrivateToAccount E private chainID of
        Inl e \<Rightarrow> (Inl e, c)
      | Inr account \<Rightarrow>
          if map_of (clAccounts c) (acAddress account) \<noteq> None then (Inl ''account duplicated'', c)
          else (Inr (), c\<lparr> clAccounts := AList.update (acAddress account) account (clAccounts c),
                           clAliases := clAliases c @ [accountString E account] \<rparr>))"

definition GetAccount :: "eth_lib \<Rightarrow> client \<Rightarrow> string \<Rightarrow> account result" where
  "GetAccount E c account =
     (case map_of (clAccounts c) (elHexToAddress E account) of
        None \<Rightarrow> Inl ''account not exists''
      | Some acc \<Rightarrow> Inr acc)"

definition GetLatestBlockNumber :: "client \<Rightarrow> view \<Rightarrow> (rpc_error + 64 word) option" where
  "GetLatestBlockNumber c v =
     map_option (map_sum id ebNumber) (asserted (call c (\<lambda>n. ndBlockByNumber n None) v))"

definition PendingNonceAt :: "eth_lib \<Rightarrow> client \<Rightarrow> view \<Rightarrow> string \<Rightarrow> (rpc_error + 64 word) option" where
  "PendingNonceAt E c v account = asserted (call c (\<lambda>n. ndPendingNonceAt n (elHexToAddress E account)) v)"

definition TransactionByHash :: "eth_lib \<Rightarrow> client \<Rightarrow> view \<Rightarrow> string \<Rightarrow> (rpc_error + bool) option" where
  "TransactionByHash E c v txHash = asserted (call c (\<lambda>n. ndTransactionByHash n (elHexToHash E txHash)) v)"

text \<open>
  A missing nonce, gas limit or gas price is a nil pointer. The gas price passes through
  \<^verbatim>\<open>int64\<close>. The result of the call is not used, so a nil one is no panic here.
\<close>

definition SendTransaction ::
  "eth_lib \<Rightarrow> client \<Rightarrow> view \<Rightarrow> LaunchTransaction \<Rightarrow> (rpc_error + string) option" where
  "SendTransaction E c v tx = do {
     nonce \<leftarrow> ltNonce tx;
     gasLimit \<leftarrow> ltGasLimit tx;
     gasPrice \<leftarrow> ltGasPrice tx;
     let rawTx = \<lparr> rtNonce = nonce, rtTo = elHexToAddress E (ltToAddress tx), rtValue = MustDecimalToBigInt (ltValue tx),
                   rtGasLimit = gasLimit, rtGasPrice = sint gasPrice, rtInputs = ltInputs tx \<rparr>;
     Some (case GetAccount E c (ltFromAddress tx) of
        Inl e \<Rightarrow> Inl (OtherError e)
      | Inr acc \<Rightarrow>
          (case acSigner acc (acAddress acc) rawTx of
             Inl e \<Rightarrow> Inl (OtherError e)
           | Inr signedTx \<Rightarrow>
               (case call c (\<lambda>n. ndSendTransaction n signedTx) v of
                  Inl e \<Rightarrow> Inl e
                | Inr _ \<Rightarrow> Inr (elHashHex E (elTxHash E signedTx)))))
   }"

record Receipt =
  rcBlockNumber :: "64 word"
  rcBlockHash :: string
  rcGasUsed :: "64 word"
  rcStatus :: LaunchTransactionStatus
  rcBlockTime :: "64 word"
  rcLogs :: "eth_log list"

text \<open>Ten attempts, while the receipt is not found; \<open>ask i\<close> is the answer to attempt \<open>i\<close>.\<close>

fun receiptLoop :: "(nat \<Rightarrow> rpc_error + 'a) \<Rightarrow> nat \<Rightarrow> nat \<Rightarrow> rpc_error + 'a \<Rightarrow> rpc_error + 'a" where
  "receiptLoop ask 0 i res = res"
| "receiptLoop ask (Suc n) i res = (if ask i = Inl NotFound then receiptLoop ask n (i + 1) (ask i) else ask i)"

definition ReceiptStatusSuccessful :: "64 word" where
  "ReceiptStatusSuccessful = 1"

definition WaitTransactionReceipt ::
  "eth_lib \<Rightarrow> client \<Rightarrow> (nat \<Rightarrow> view) \<Rightarrow> string \<Rightarrow> (rpc_error + Receipt) option" where
  "WaitTransactionReceipt E c views txHash =
     (case receiptLoop (\<lambda>i. call c (\<lambda>n. ndTransactionReceipt n (elHexToHash E txHash)) (views i)) 10 0 (Inr None) of
        Inl e \<Rightarrow> Some (Inl e)
      | Inr None \<Rightarrow> None
      | Inr (Some rcpt) \<Rightarrow>
          (case erBlockNumber rcpt of
             None \<Rightarrow> Some (Inl (OtherError ''empty block number''))
           | Some number \<Rightarrow>
               (case call c (\<lambda>n. ndBlockByNumber n (Some number)) (views 10) of
                  Inl e \<Rightarrow> Some (Inl e)
                | Inr None \<Rightarrow> None
                | Inr (Some block) \<Rightarrow> Some (Inr
                    \<lparr> rcBlockNumber = word_of_int number, rcBlockHash = elHashHex E (erBlockHash rcpt),
                      rcGasUsed = erGasUsed rcpt,
                      rcStatus = (if erStatus rcpt = ReceiptStatusSuccessful then TxSuccess else TxFailed),
                      rcBlockTime = ebTime block, rcLogs = erLogs rcpt \<rparr>))))"

end
