(* ===== verification/Launcher.thy ===== *)
theory Launcher
  imports Chain_Client
begin

text \<open>
  \<^verbatim>\<open>src/launcher\<close>: the launcher makes a launch transaction for every new match transaction
  (\<^verbatim>\<open>launcher.go\<close>), the executor gives it a nonce and sends it (\<^verbatim>\<open>executor.go\<close>), the syncer
  waits for its receipt and settles the orders (\<^verbatim>\<open>syncer.go\<close>), the monitor watches for
  reorganisations of the chain (\<^verbatim>\<open>monitor.go\<close>). Each of the four is a round that a timer repeats.
  The chain client is the record \<open>chain_cli\<close>, one snapshot per round; logging, metrics
  and the trigger that wakes the executor early are left out, and so is the text that
  \<^verbatim>\<open>errors.Wrap\<close> puts before an error.
\<close>

section \<open>The environment\<close>

record chain_cli =
  ccPendingNonceAt :: "string \<Rightarrow> rpc_error + 64 word"
  ccTransactionByHash :: "string \<Rightarrow> rpc_error + bool"
  ccSendTransaction :: "LaunchTransaction \<Rightarrow> rpc_error + string"
  ccWaitTransactionReceipt :: "string \<Rightarrow> rpc_error + Receipt"
  ccParseLogs :: "string \<Rightarrow> eth_log list \<Rightarrow> TradeSuccessEvent list \<times> TradeFailedEvent list"
  ccBatchTradeDataPack :: "byte list list \<Rightarrow> decimal list \<Rightarrow> int list \<Rightarrow> byte list result"
  ccGetSignAccount :: "string result"

record OrderSignature =
  osSignType :: string
  osV :: string
  osR :: string
  osS :: string

text \<open>\<open>leUnmarshal\<close> is \<^verbatim>\<open>json.Unmarshal\<close> into an \<^verbatim>\<open>OrderSignature\<close>.\<close>

record launch_env =
  leNow :: time
  leChain :: chain_cli
  leGasPriceInWei :: decimal
  leUnmatureDuration :: time
  leUnmarshal :: "string \<Rightarrow> OrderSignature result"

definition withServer :: "server \<Rightarrow> lstate \<Rightarrow> lstate" where
  "withServer sv s = s\<lparr> dbTables := dbTables sv, dbFaults := dbFaults sv, svHandlers := svHandlers sv,
     svPools := svPools sv, svWs := svWs sv \<rparr>"

definition onServer :: "(server, 'a) dbm \<Rightarrow> (lstate, 'a) dbm" where
  "onServer m s = (case m (server.truncate s) of (r, sv) \<Rightarrow> (r, withServer sv s))"

text \<open>A pointer that is read inside a transaction: a nil one panics, which \<^verbatim>\<open>beginTx\<close> recovers.\<close>

definition deref :: "'a option \<Rightarrow> ('s, 'a) dbm" where
  "deref p = (case p of None \<Rightarrow> throwE ''transaction commit panic'' | Some x \<Rightarrow> retE x)"

section \<open>launcher.go\<close>

definition GetCompressOrderData :: "(string \<Rightarrow> OrderSignature result) \<Rightarrow> Order option \<Rightarrow> byte list result" where
  "GetCompressOrderData unmarshal order =
     (case order of
        None \<Rightarrow> Inl ''GetCompressOrderData:nil order''
      | Some ord \<Rightarrow>
          (let flags = GenerateOrderFlags (Type ord) (IsCloseOnly ord) in
           case unmarshal (Signature ord) of
             Inl e \<Rightarrow> Inl (''GetCompressOrderData:'' @ e)
           | Inr orderSig \<Rightarrow>
               (case Hex2Bytes (GenerateOrderData (TraderAddress ord) (BrokerAddress ord) (RelayerAddress ord)
                       (ReferrerAddress ord) (LiquidityPoolAddress ord) (MinTradeAmount ord) (Amount ord) (Price ord)
                       (TriggerPrice ord) (ChainID ord) (ExpiresAt ord) (PerpetualIndex ord) (BrokerFeeLimit ord)
                       flags (Salt ord) (osSignType orderSig) (osV orderSig) (osR orderSig) (osS orderSig)) of
                  Inl e \<Rightarrow> Inl (''GetCompressOrderData:'' @ e)
                | Inr bytes \<Rightarrow> Inr bytes)))"

text \<open>The loop of \<^verbatim>\<open>createLaunchTransaction\<close> over the items of the match, with their orders.\<close>

definition gasRewardOf :: "conf \<Rightarrow> decimal \<Rightarrow> Order \<Rightarrow> int" where
  "gasRewardOf cf gasPrice ord =
     (if cfGasEnable cf then MustDecimalToBigInt (gasPrice * of_int (GasFeeLimit ord)) else 0)"

fun packItems ::
  "launch_env \<Rightarrow> conf \<Rightarrow> (MatchItemRow \<times> Order) list \<Rightarrow> (byte list list \<times> decimal list \<times> int list) result" where
  "packItems env cf [] = Inr ([], [], [])"
| "packItems env cf ((item, ord) # items) =
     (case GetCompressOrderData (leUnmarshal env) (Some ord) of
        Inl e \<Rightarrow> Inl e
      | Inr data \<Rightarrow>
          (case packItems env cf items of
             Inl e \<Rightarrow> Inl e
           | Inr (orders, matchAmounts, gasRewards) \<Rightarrow>
               Inr (data # orders, miAmount item # matchAmounts,
                    gasRewardOf cf (leGasPriceInWei env) ord # gasRewards)))"

definition newLaunchTransaction :: "time \<Rightarrow> MatchTransaction \<Rightarrow> string \<Rightarrow> byte list \<Rightarrow> LaunchTransaction" where
  "newLaunchTransaction now mtx signAccount inputs =
     \<lparr> ltID = 0, ltTxID = mtID mtx, ltFromAddress = signAccount, ltToAddress = mtBrokerAddress mtx,
       ltType = TxNormal, ltInputs = inputs, ltBlockNumber = None, ltBlockHash = None, ltBlockTime = None,
       ltTransactionHash = None, ltNonce = None, ltGasPrice = None, ltGasLimit = None, ltGasUsed = None,
       ltStatus = TxInitial, ltValue = 0, ltCommitTime = now, ltUpdateTime = now \<rparr>"

definition IsRecordNotFound :: "error \<Rightarrow> bool" where
  "IsRecordNotFound err \<longleftrightarrow> drop (length err - length ErrRecordNotFound) err = ErrRecordNotFound"

definition notLaunched :: "'a result \<Rightarrow> bool" where
  "notLaunched r \<longleftrightarrow> (case r of Inl e \<Rightarrow> IsRecordNotFound e | Inr _ \<Rightarrow> False)"

definition storeLaunch :: "time \<Rightarrow> MatchTransaction \<Rightarrow> LaunchTransaction \<Rightarrow> (lstate, unit) dbm" where
  "storeLaunch now mtx tx =
     beginTx undoAll (bindE (CreateTx now tx) (\<lambda>_.
       UpdateMatchTransaction (mtx\<lparr> mtStatus := TransactionStatusPending \<rparr>)))"

definition createLaunchTransaction ::
  "launch_env \<Rightarrow> conf \<Rightarrow> MatchTransaction \<Rightarrow> Order list \<Rightarrow> (lstate, unit) dbm" where
  "createLaunchTransaction env cf mtx orders s =
     (case GetTxByID (mtID mtx) s of (found, s) \<Rightarrow>
        if \<not> notLaunched found then (Inl (''Transaction already launched ID: '' @ mtID mtx), s)
        else
          (case packItems env cf (zip (MatchItems (mtMatchResult mtx)) orders) of
             Inl e \<Rightarrow> (Inl e, s)
           | Inr (datas, matchAmounts, gasRewards) \<Rightarrow>
               (case ccBatchTradeDataPack (leChain env) datas matchAmounts gasRewards of
                  Inl e \<Rightarrow> (Inl e, s)
                | Inr inputs \<Rightarrow>
                    (case ccGetSignAccount (leChain env) of
                       Inl e \<Rightarrow> (Inl e, s)
                     | Inr signAccount \<Rightarrow>
                         storeLaunch (leNow env) mtx
                           (newLaunchTransaction (leNow env) mtx signAccount inputs) s))))"

text \<open>The two loops of \<^verbatim>\<open>checkMatchTransaction\<close>; both end at the first error.\<close>

fun loadAllOrders :: "MatchTransaction list \<Rightarrow> (lstate, Order list list) dbm" where
  "loadAllOrders [] = retE []"
| "loadAllOrders (transaction # transactions) =
     bindE (LoadMatchOrders (MatchItems (mtMatchResult transaction))) (\<lambda>orders.
     bindE (loadAllOrders transactions) (\<lambda>rest. retE (orders # rest)))"

fun createAll :: "launch_env \<Rightarrow> conf \<Rightarrow> (MatchTransaction \<times> Order list) list \<Rightarrow> (lstate, unit) dbm" where
  "createAll env cf [] = retE ()"
| "createAll env cf ((transaction, orders) # transactions) =
     bindE (createLaunchTransaction env cf transaction orders) (\<lambda>_. createAll env cf transactions)"

definition checkMatchTransaction :: "launch_env \<Rightarrow> conf \<Rightarrow> lstate \<Rightarrow> lstate" where
  "checkMatchTransaction env cf s =
     snd (bindE (QueryMatchTransaction [] 0 [TransactionStatusInit]) (\<lambda>transactions.
          bindE (loadAllOrders transactions) (\<lambda>orders. createAll env cf (zip transactions orders))) s)"

text \<open>The accounts: the keystore of the database and the accounts of the client.\<close>

fun addAccounts :: "eth_lib \<Rightarrow> int \<Rightarrow> string \<Rightarrow> KVStore list \<Rightarrow> client \<Rightarrow> unit result \<times> client" where
  "addAccounts E chainID password [] c = (Inr (), c)"
| "addAccounts E chainID password (st # stores) c =
     (case DecryptKey E (kvValue st) password of
        Inl e \<Rightarrow> (Inl e, c)
      | Inr p \<Rightarrow>
          (case AddAccount E chainID p c of
             (Inl e, c) \<Rightarrow> (Inl e, c)
           | (Inr _, c) \<Rightarrow> addAccounts E chainID password stores c))"

definition reloadAccount :: "eth_lib \<Rightarrow> int \<Rightarrow> string \<Rightarrow> client \<Rightarrow> lstate \<Rightarrow> (unit result \<times> client) \<times> lstate" where
  "reloadAccount E chainID password c s =
     (case kvList [''keystore''] s of
        (Inl e, s) \<Rightarrow> ((Inl e, c), s)
      | (Inr stores, s) \<Rightarrow> (addAccounts E chainID password stores c, s))"

definition ImportPrivateKey ::
  "eth_lib \<Rightarrow> bool \<Rightarrow> int \<Rightarrow> string \<Rightarrow> time \<Rightarrow> string \<Rightarrow> client \<Rightarrow> lstate \<Rightarrow> (string result \<times> client) \<times> lstate" where
  "ImportPrivateKey E uuidOK chainID password now pk c s =
     (case HexToPrivate E pk of
        Inl e \<Rightarrow> ((Inl e, c), s)
      | Inr (p, addr) \<Rightarrow>
          (case EncryptKey E uuidOK p password of
             Inl e \<Rightarrow> ((Inl (''fail to encrypt key '' @ e), c), s)
           | Inr b \<Rightarrow>
               (case kvPut now \<lparr> kvKey = addr, kvCategory = ''keystore'', kvValue = b, kvUpdateTime = now \<rparr> s of
                  (Inl e, s) \<Rightarrow> ((Inl e, c), s)
                | (Inr _, s) \<Rightarrow>
                    (case AddAccount E chainID p c of
                       (Inl e, c) \<Rightarrow> ((Inl e, c), s)
                     | (Inr _, c) \<Rightarrow> ((Inr addr, c), s)))))"

section \<open>executor.go\<close>

text \<open>\<^verbatim>\<open>BigInt\<close> of a decimal drops the fraction; \<^verbatim>\<open>Uint64\<close> keeps the low 64 bits.\<close>

definition decimalBigInt :: "decimal \<Rightarrow> int" where
  "decimalBigInt d = (if d < 0 then - \<lfloor>- d\<rfloor> else \<lfloor>d\<rfloor>)"

definition prepare :: "launch_env \<Rightarrow> conf \<Rightarrow> LaunchTransaction \<Rightarrow> LaunchTransaction result" where
  "prepare env cf tx =
     (if ltNonce tx = None then Inl ''missing nonce''
      else Inr (tx\<lparr> ltGasLimit := Some (of_nat (cfGasLimit cf)),
                    ltGasPrice := Some (word_of_int (decimalBigInt (leGasPriceInWei env))) \<rparr>))"

definition send :: "launch_env \<Rightarrow> conf \<Rightarrow> LaunchTransaction \<Rightarrow> (lstate, unit) dbm" where
  "send env cf tx = launchTx
     (let prevHash = ltTransactionHash tx in
      case prepare env cf tx of
        Inl e \<Rightarrow> throwE e
      | Inr tx \<Rightarrow>
          (case ccSendTransaction (leChain env) tx of
             Inl _ \<Rightarrow> throwE ''send transaction failed''
           | Inr currHash \<Rightarrow>
               (let tx = tx\<lparr> ltStatus := TxPending, ltTransactionHash := Some currHash \<rparr> in
                if prevHash \<noteq> None \<and> MustString prevHash \<noteq> currHash
                then bindE (CreateTx (leNow env) (tx\<lparr> ltID := 0 \<rparr>)) (\<lambda>_. retE ())
                else bindE (UpdateTx (leNow env) tx) (\<lambda>_. retE ()))))"

definition reset :: "launch_env \<Rightarrow> LaunchTransaction \<Rightarrow> (lstate, unit) dbm" where
  "reset env tx =
     (let status = (case ltTransactionHash tx of
                      None \<Rightarrow> TxCanceled
                    | Some h \<Rightarrow> (case ccTransactionByHash (leChain env) h of Inl _ \<Rightarrow> TxCanceled | Inr _ \<Rightarrow> TxPending));
          tx = tx\<lparr> ltStatus := status \<rparr>
      in launchTx (bindE (UpdateTx (leNow env) tx) (\<lambda>_.
           onServer (serverUpdateOrdersStatus (leNow env) (ltTxID tx) (LaunchStatus_TransactionStatus status)
             [] [] 0 0 [] []))))"

text \<open>A transaction that cannot be sent again is only logged.\<close>

fun resendAll :: "launch_env \<Rightarrow> conf \<Rightarrow> LaunchTransaction list \<Rightarrow> lstate \<Rightarrow> lstate" where
  "resendAll env cf [] s = s"
| "resendAll env cf (tx # txs) s = resendAll env cf txs (snd (send env cf tx s))"

text \<open>The loop \<^verbatim>\<open>for i := start; i < end; i++\<close> over the nonces of an interval.\<close>

fun fastForwardLoop :: "launch_env \<Rightarrow> conf \<Rightarrow> string \<Rightarrow> 64 word list \<Rightarrow> (lstate, unit) dbm" where
  "fastForwardLoop env cf addr [] = retE ()"
| "fastForwardLoop env cf addr (i # is) =
     bindE (GetTxsByNonce addr (Some i) []) (\<lambda>prevs s. fastForwardLoop env cf addr is (resendAll env cf prevs s))"

definition nonceRange :: "64 word \<Rightarrow> 64 word \<Rightarrow> 64 word list" where
  "nonceRange start stop = map of_nat [unat start..<unat stop]"

definition fastForward :: "launch_env \<Rightarrow> conf \<Rightarrow> string \<Rightarrow> 64 word \<Rightarrow> 64 word \<Rightarrow> (lstate, unit) dbm" where
  "fastForward env cf addr start stop = fastForwardLoop env cf addr (nonceRange start stop)"

definition allocateNonce :: "time \<Rightarrow> LaunchTransaction \<Rightarrow> 64 word \<Rightarrow> (lstate, LaunchTransaction) dbm" where
  "allocateNonce now tx expNonce = launchTx
     (bindE (UpdateTx now (tx\<lparr> ltNonce := Some expNonce \<rparr>)) (\<lambda>tx.
      bindE (UpdateNonce (ltFromAddress tx) (Some (expNonce + 1))) (\<lambda>_. retE tx)))"

definition sendTransaction :: "launch_env \<Rightarrow> conf \<Rightarrow> LaunchTransaction \<Rightarrow> (lstate, unit) dbm" where
  "sendTransaction env cf tx s =
     (case ccPendingNonceAt (leChain env) (ltFromAddress tx) of
        Inl _ \<Rightarrow> (Inl ''access node rpc failed'', s)
      | Inr expNonce \<Rightarrow>
          if (case ltNonce tx of Some n \<Rightarrow> n < expNonce | None \<Rightarrow> False) then reset env tx s
          else
            (case GetNextNonce (ltFromAddress tx) s of (minNonce, s) \<Rightarrow>
              (case (case ltNonce tx of Some n \<Rightarrow> Some n | None \<Rightarrow> minNonce) of
                 Some target \<Rightarrow>
                   if expNonce < target
                   then (Inr (), snd (fastForward env cf (ltFromAddress tx) expNonce target s))
                   else bindE (allocateNonce (leNow env) tx expNonce) (send env cf) s
               | None \<Rightarrow> bindE (allocateNonce (leNow env) tx expNonce) (send env cf) s)))"

fun executeUsers :: "launch_env \<Rightarrow> conf \<Rightarrow> string list \<Rightarrow> lstate \<Rightarrow> lstate" where
  "executeUsers env cf [] s = s"
| "executeUsers env cf (user # users) s =
     executeUsers env cf users (snd (bindE (FirstTxByUser user [TxInitial]) (sendTransaction env cf) s))"

definition executeTransaction :: "launch_env \<Rightarrow> conf \<Rightarrow> lstate \<Rightarrow> lstate" where
  "executeTransaction env cf s =
     snd (bindE (GetUsersWithStatus [TxInitial]) (\<lambda>users s. (Inr (), executeUsers env cf users s)) s)"

section \<open>syncer.go\<close>

definition resetTransaction :: "time \<Rightarrow> LaunchTransaction \<Rightarrow> (lstate, unit) dbm" where
  "resetTransaction now tx = launchTx
     (bindE (UpdateTx now (tx\<lparr> ltNonce := None, ltTransactionHash := None, ltStatus := TxInitial \<rparr>)) (\<lambda>_. retE ()))"

text \<open>The other transactions with the nonce of a mined one; an error of the update is ignored.\<close>

fun cancelCandidates :: "time \<Rightarrow> string \<Rightarrow> LaunchTransaction list \<Rightarrow> (lstate, unit) dbm" where
  "cancelCandidates now txHash [] = retE ()"
| "cancelCandidates now txHash (candidate # candidates) =
     bindE (deref (ltTransactionHash candidate)) (\<lambda>h s.
       cancelCandidates now txHash candidates
         (if h \<noteq> txHash then snd (UpdateTx now (candidate\<lparr> ltStatus := TxCanceled \<rparr>) s) else s))"

definition mined :: "LaunchTransaction \<Rightarrow> Receipt \<Rightarrow> LaunchTransaction" where
  "mined tx receipt = tx\<lparr> ltBlockNumber := Some (rcBlockNumber receipt), ltBlockHash := Some (rcBlockHash receipt),
     ltBlockTime := Some (rcBlockTime receipt), ltStatus := rcStatus receipt, ltGasUsed := Some (rcGasUsed receipt) \<rparr>"

definition confirmTransaction ::
  "time \<Rightarrow> LaunchTransaction \<Rightarrow> string \<Rightarrow> Receipt \<Rightarrow> TradeSuccessEvent list \<Rightarrow> TradeFailedEvent list \<Rightarrow>
   (lstate, unit) dbm" where
  "confirmTransaction now tx txHash receipt successEvents failedEvents = launchTx
     (bindE (UpdateTx now (mined tx receipt)) (\<lambda>tx.
      bindE (GetTxsByNonce (ltFromAddress tx) (ltNonce tx) []) (\<lambda>candidates.
      bindE (cancelCandidates now txHash candidates) (\<lambda>_.
      onServer (serverUpdateOrdersStatus now (ltTxID tx) (LaunchStatus_TransactionStatus (rcStatus receipt))
        txHash (rcBlockHash receipt) (rcBlockNumber receipt) (rcBlockTime receipt) successEvents failedEvents)))))"

definition noEvents :: "Receipt \<Rightarrow> TradeSuccessEvent list \<Rightarrow> TradeFailedEvent list \<Rightarrow> bool" where
  "noEvents receipt successEvents failedEvents \<longleftrightarrow>
     rcStatus receipt = TxSuccess \<and> successEvents = [] \<and> failedEvents = []"

definition setDirty :: "string \<Rightarrow> lstate \<Rightarrow> lstate" where
  "setDirty txID s = snd (onServer (\<lambda>sv. (Inr (), serverSetPoolStorageDirty txID sv)) s)"

text \<open>
  The loop of \<^verbatim>\<open>updateStatusByUser\<close>, over the rows as they were read. \<open>None\<close> is a panic: the
  comparison of the nonces of a transaction and its successor reads two pointers.
\<close>

fun syncLoop :: "launch_env \<Rightarrow> conf \<Rightarrow> LaunchTransaction list \<Rightarrow> lstate \<Rightarrow> lstate option" where
  "syncLoop env cf [] s = Some s"
| "syncLoop env cf (tx # txs) s =
     (case ltTransactionHash tx of
        None \<Rightarrow> Some s
      | Some txHash \<Rightarrow>
          (case ccWaitTransactionReceipt (leChain env) txHash of
             Inl err \<Rightarrow>
               if IsNotFoundError err then
                 (case txs of
                    [] \<Rightarrow> syncLoop env cf txs (snd (resetTransaction (leNow env) tx s))
                  | next # _ \<Rightarrow>
                      (case (ltNonce tx, ltNonce next) of
                         (Some n, Some m) \<Rightarrow>
                           if n = m then syncLoop env cf txs s
                           else syncLoop env cf txs (snd (resetTransaction (leNow env) tx s))
                       | _ \<Rightarrow> None))
               else syncLoop env cf txs s
           | Inr receipt \<Rightarrow>
               (case ccParseLogs (leChain env) (cfBrokerAddress cf) (rcLogs receipt) of (successEvents, failedEvents) \<Rightarrow>
                  if noEvents receipt successEvents failedEvents then syncLoop env cf txs s
                  else syncLoop env cf txs (snd (confirmTransaction (leNow env) tx txHash receipt
                         successEvents failedEvents (setDirty (ltTxID tx) s))))))"

definition updateStatusByUser :: "launch_env \<Rightarrow> conf \<Rightarrow> string \<Rightarrow> lstate \<Rightarrow> lstate option" where
  "updateStatusByUser env cf user s =
     (case GetTxsByUser user [TxPending] s of
        (Inl _, s) \<Rightarrow> Some s
      | (Inr txs, s) \<Rightarrow> syncLoop env cf txs s)"

text \<open>The users are served by one goroutine each; their rows are disjoint, here they come in turn.\<close>

fun syncUsers :: "launch_env \<Rightarrow> conf \<Rightarrow> string list \<Rightarrow> lstate \<Rightarrow> lstate option" where
  "syncUsers env cf [] s = Some s"
| "syncUsers env cf (user # users) s = Option.bind (updateStatusByUser env cf user s) (syncUsers env cf users)"

definition syncTransaction :: "launch_env \<Rightarrow> conf \<Rightarrow> lstate \<Rightarrow> lstate option" where
  "syncTransaction env cf s =
     (case GetUsersWithStatus [TxPending] s of
        (Inl _, s) \<Rightarrow> Some s
      | (Inr users, s) \<Rightarrow> syncUsers env cf users s)"

section \<open>monitor.go\<close>

definition rollbackOrders ::
  "time \<Rightarrow> LaunchTransaction \<Rightarrow> TradeSuccessEvent list \<Rightarrow> TradeFailedEvent list \<Rightarrow> (lstate, unit) dbm" where
  "rollbackOrders now tx successEvents failedEvents =
     bindE (deref (ltTransactionHash tx)) (\<lambda>txHash.
     bindE (deref (ltBlockHash tx)) (\<lambda>blockHash.
     bindE (deref (ltBlockNumber tx)) (\<lambda>blockNumber.
     bindE (deref (ltBlockTime tx)) (\<lambda>blockTime.
     onServer (serverRollbackOrdersStatus now (ltTxID tx) (LaunchStatus_TransactionStatus (ltStatus tx))
       txHash blockHash blockNumber blockTime successEvents failedEvents)))))"

text \<open>A transaction that has left the chain.\<close>

definition dropMined :: "time \<Rightarrow> LaunchTransaction \<Rightarrow> (lstate, unit) dbm" where
  "dropMined now tx =
     launchTx (bindE (UpdateTx now (tx\<lparr> ltStatus := TxFailed \<rparr>)) (\<lambda>tx. rollbackOrders now tx [] []))"

text \<open>
  The block hash is read only when the block number has not changed, so a nil one panics only then.
\<close>

definition checkMined ::
  "time \<Rightarrow> LaunchTransaction \<Rightarrow> Receipt \<Rightarrow> TradeSuccessEvent list \<Rightarrow> TradeFailedEvent list \<Rightarrow> (lstate, unit) dbm" where
  "checkMined now tx receipt successEvents failedEvents = launchTx
     (bindE (deref (ltBlockNumber tx)) (\<lambda>blockNumber.
      bindE (if blockNumber \<noteq> rcBlockNumber receipt then retE True
             else bindE (deref (ltBlockHash tx)) (\<lambda>blockHash.
               retE (blockHash \<noteq> rcBlockHash receipt \<or> ltStatus tx \<noteq> rcStatus receipt))) (\<lambda>changed.
      bindE (if changed then UpdateTx now (mined tx receipt) else retE tx) (\<lambda>tx.
      rollbackOrders now tx successEvents failedEvents))))"

fun unmatureLoop :: "launch_env \<Rightarrow> conf \<Rightarrow> LaunchTransaction list \<Rightarrow> lstate \<Rightarrow> lstate" where
  "unmatureLoop env cf [] s = s"
| "unmatureLoop env cf (tx # txs) s = unmatureLoop env cf txs
     (case (ltTransactionHash tx, ltBlockNumber tx) of
        (Some txHash, Some _) \<Rightarrow>
          (case ccWaitTransactionReceipt (leChain env) txHash of
             Inl err \<Rightarrow>
               if IsNotFoundError err \<and> ltStatus tx = TxSuccess then snd (dropMined (leNow env) tx s) else s
           | Inr receipt \<Rightarrow>
               (case ccParseLogs (leChain env) (cfBrokerAddress cf) (rcLogs receipt) of (successEvents, failedEvents) \<Rightarrow>
                  if noEvents receipt successEvents failedEvents then s
                  else snd (checkMined (leNow env) tx receipt successEvents failedEvents s)))
      | _ \<Rightarrow> s)"

definition checkUnmatureTransactionStatus :: "launch_env \<Rightarrow> conf \<Rightarrow> lstate \<Rightarrow> lstate" where
  "checkUnmatureTransactionStatus env cf s =
     (case GetTxsByTime (leNow env - leUnmatureDuration env) [TxSuccess, TxFailed] s of
        (Inl _, s) \<Rightarrow> s
      | (Inr txs, s) \<Rightarrow> unmatureLoop env cf txs s)"

end
