(* ===== verification/Match_Monitor.thy ===== *)
theory Match_Monitor
  imports Match_Server
begin

text \<open>
  \<^verbatim>\<open>src/match/monitor.go\<close>: the periodic check of the open orders of every user. Orders for
  another broker, of a perpetual that is not normal, that break the close-only rule or that the
  margin does not cover are cancelled through the handlers of the server. The loop of
  \<^verbatim>\<open>checkActiveOrders\<close> is the sequence of its rounds.
\<close>

section \<open>Grouping the orders of a user\<close>

record OrdersPerpMap =
  opLiquidityPoolAddress :: string
  opPerpetualIndex :: int
  opAccount :: AccountStorage
  opPoolStorage :: LiquidityPoolStorage
  opOrders :: "Order list"

record OrdersCollateral =
  ocdWalletBalance :: decimal
  ocdOrderMap :: "(string \<times> OrdersPerpMap) list"

definition cancelItem :: "Order \<Rightarrow> decimal \<Rightarrow> CancelReasonType \<Rightarrow> OrderCancelItem" where
  "cancelItem order toCancel reason =
     \<lparr> ocLiquidityPoolAddress = LiquidityPoolAddress order, ocPerpetualIndex = PerpetualIndex order,
       ocOrderHash = OrderHash order, ocStatus = Status order, ocToCancel = toCancel, ocReason = reason \<rparr>"

definition singleOrderCheck ::
  "conf \<Rightarrow> Order \<Rightarrow> LiquidityPoolStorage \<Rightarrow> AccountStorage \<Rightarrow> OrderCancelItem option" where
  "singleOrderCheck cf order poolStorage account =
     (if BrokerAddress order \<noteq> toLower (cfBrokerAddress cf)
      then Some (cancelItem order (AvailableAmount order) CancelReasonTransactionFail)
      else if (case map_of (Perpetuals poolStorage) (PerpetualIndex order) of
                 None \<Rightarrow> True | Some perpetual \<Rightarrow> \<not> IsNormal perpetual)
      then Some (cancelItem order (AvailableAmount order) CancelReasonContractSettled)
      else let cancelAmount = CheckCloseOnly account order in
        if cancelAmount \<noteq> 0 then Some (cancelItem order cancelAmount CancelReasonCloseOnly) else None)"

text \<open>
  \<^verbatim>\<open>splitActiveOrdersInEachPerpetual\<close>: by collateral and then by perpetual. The first order of a
  perpetual under a known collateral keeps its pending amount, the other ones lose it.
\<close>

definition newPerpMap :: "Order \<Rightarrow> AccountStorage \<Rightarrow> LiquidityPoolStorage \<Rightarrow> OrdersPerpMap" where
  "newPerpMap order account poolStorage =
     \<lparr> opLiquidityPoolAddress = LiquidityPoolAddress order, opPerpetualIndex = PerpetualIndex order,
       opAccount = account, opPoolStorage = poolStorage, opOrders = [order] \<rparr>"

type_synonym collateralMap = "(string \<times> OrdersCollateral) list"

definition loadPoolAccount ::
  "chain_env \<Rightarrow> Order \<Rightarrow> (server, LiquidityPoolStorage \<times> AccountStorage) dbm" where
  "loadPoolAccount env order sv =
     (case GetPoolStorage env (LiquidityPoolAddress order) (svPools sv) of
        (None, ps) \<Rightarrow> (Inl ''get pool storage error'', sv\<lparr> svPools := ps \<rparr>)
      | (Some (poolStorage, _), ps) \<Rightarrow>
          (case envAccount env (PerpetualIndex order) (LiquidityPoolAddress order) (TraderAddress order) of
             None \<Rightarrow> (Inl ''get account storage error'', sv\<lparr> svPools := ps \<rparr>)
           | Some account \<Rightarrow> (Inr (poolStorage, account), sv\<lparr> svPools := ps \<rparr>)))"

definition walletOf :: "chain_env \<Rightarrow> Order \<Rightarrow> (server, decimal) dbm" where
  "walletOf env order sv =
     (case getMatchHandler (LiquidityPoolAddress order) (PerpetualIndex order) sv of
        None \<Rightarrow> (Inl ''perp not start'', sv)
      | Some h \<Rightarrow>
          (case envBalance env (CollateralAddress order) (TraderAddress order) (ppCollateralDecimals (hPerp h)) of
             None \<Rightarrow> (Inl ''balance error'', sv)
           | Some balance \<Rightarrow>
               (case envAllowance env (CollateralAddress order) (TraderAddress order) (LiquidityPoolAddress order)
                       (ppCollateralDecimals (hPerp h)) of
                  None \<Rightarrow> (Inl ''allowance error'', sv)
                | Some allowance \<Rightarrow> (Inr (min balance allowance), sv))))"

text \<open>One order: the collateral map and the cancellations after it.\<close>

definition splitOne ::
  "chain_env \<Rightarrow> conf \<Rightarrow> Order \<Rightarrow> collateralMap \<times> OrderCancelItem list \<Rightarrow>
   (server, collateralMap \<times> OrderCancelItem list) dbm" where
  "splitOne env cf order = (\<lambda>(res, cancels).
     let perpetualID = getPerpetualKey (LiquidityPoolAddress order) (PerpetualIndex order) in
     case map_of res (CollateralAddress order) of
       Some cm \<Rightarrow>
         (case map_of (ocdOrderMap cm) perpetualID of
            Some op \<Rightarrow>
              (case singleOrderCheck cf order (opPoolStorage op) (opAccount op) of
                 Some cancel \<Rightarrow> retE (res, cancels @ [cancel])
               | None \<Rightarrow> retE (AList.update (CollateralAddress order)
                   (cm\<lparr> ocdOrderMap := AList.update perpetualID
                          (op\<lparr> opOrders := opOrders op @ [order\<lparr> PendingAmount := 0 \<rparr>] \<rparr>) (ocdOrderMap cm) \<rparr>) res, cancels))
          | None \<Rightarrow>
              bindE (loadPoolAccount env order) (\<lambda>(poolStorage, account).
                case singleOrderCheck cf order poolStorage account of
                  Some cancel \<Rightarrow> retE (res, cancels @ [cancel])
                | None \<Rightarrow> retE (AList.update (CollateralAddress order)
                    (cm\<lparr> ocdOrderMap := AList.update perpetualID (newPerpMap order account poolStorage) (ocdOrderMap cm) \<rparr>) res,
                    cancels)))
     | None \<Rightarrow>
         bindE (loadPoolAccount env order) (\<lambda>(poolStorage, account).
           case singleOrderCheck cf order poolStorage account of
             Some cancel \<Rightarrow> retE (res, cancels @ [cancel])
           | None \<Rightarrow>
               bindE (walletOf env order) (\<lambda>walletBalance.
                 retE (AList.update (CollateralAddress order)
                   \<lparr> ocdWalletBalance = walletBalance,
                     ocdOrderMap = [(perpetualID, newPerpMap (order\<lparr> PendingAmount := 0 \<rparr>) account poolStorage)] \<rparr> res,
                   cancels))))"

fun splitActiveOrdersInEachPerpetual ::
  "chain_env \<Rightarrow> conf \<Rightarrow> Order list \<Rightarrow> collateralMap \<times> OrderCancelItem list \<Rightarrow>
   (server, collateralMap \<times> OrderCancelItem list) dbm" where
  "splitActiveOrdersInEachPerpetual env cf [] acc = retE acc"
| "splitActiveOrdersInEachPerpetual env cf (order # orders) acc =
     bindE (splitOne env cf order acc) (splitActiveOrdersInEachPerpetual env cf orders)"

section \<open>The margin of the remaining orders\<close>

text \<open>
  The two \<^verbatim>\<open>range\<close> loops; \<open>visit\<close> is the order in which they visit the maps. What one perpetual
  leaves of the wallet is what the next one of the same collateral has.
\<close>

fun marginPerps ::
  "decimal_lib \<Rightarrow> OrdersPerpMap list \<Rightarrow> decimal \<Rightarrow> OrderCancelItem list option" where
  "marginPerps L [] walletBalance = Some []"
| "marginPerps L (v # vs) walletBalance = do {
     (cancelsInsufficientFunds, available) \<leftarrow> ComputeOrderAvailable L (opPoolStorage v) (opPerpetualIndex v)
        ((opAccount v)\<lparr> WalletBalance := walletBalance \<rparr>) (opOrders v);
     rest \<leftarrow> marginPerps L vs available;
     Some (cancelsInsufficientFunds @ rest)
   }"

fun marginCollaterals ::
  "decimal_lib \<Rightarrow> (OrdersPerpMap list \<Rightarrow> OrdersPerpMap list) \<Rightarrow> OrdersCollateral list \<Rightarrow>
   OrderCancelItem list option" where
  "marginCollaterals L visit [] = Some []"
| "marginCollaterals L visit (cm # cms) = do {
     cancels \<leftarrow> marginPerps L (visit (map snd (ocdOrderMap cm))) (ocdWalletBalance cm);
     rest \<leftarrow> marginCollaterals L visit cms;
     Some (cancels @ rest)
   }"

record visits =
  vsCollaterals :: "OrdersCollateral list \<Rightarrow> OrdersCollateral list"
  vsPerps :: "OrdersPerpMap list \<Rightarrow> OrdersPerpMap list"

definition checkUserPendingOrders ::
  "decimal_lib \<Rightarrow> chain_env \<Rightarrow> conf \<Rightarrow> visits \<Rightarrow> string \<Rightarrow> server \<Rightarrow>
   (OrderCancelItem list \<times> server) option" where
  "checkUserPendingOrders L env cf visit user sv =
     (case QueryOrder user [] 0 [OrderPending] 0 0 0 sv of
        (Inl _, sv) \<Rightarrow> Some ([], sv)
      | (Inr orders, sv) \<Rightarrow>
          (case splitActiveOrdersInEachPerpetual env cf orders ([], []) sv of
             (Inl _, sv) \<Rightarrow> Some ([], sv)
           | (Inr (orderMap, orderCancels), sv) \<Rightarrow> do {
               cancels \<leftarrow> marginCollaterals L (vsPerps visit) (vsCollaterals visit (map snd orderMap));
               Some (orderCancels @ cancels, sv)
             }))"

section \<open>The round of the monitor\<close>

fun monitorCancels :: "time \<Rightarrow> OrderCancelItem list \<Rightarrow> server \<Rightarrow> server" where
  "monitorCancels now [] sv = sv"
| "monitorCancels now (cancel # cancels) sv =
     monitorCancels now cancels
       (case getMatchHandler (ocLiquidityPoolAddress cancel) (ocPerpetualIndex cancel) sv of
          None \<Rightarrow> sv
        | Some h \<Rightarrow> snd (onHandler (getPerpetualKey (ocLiquidityPoolAddress cancel) (ocPerpetualIndex cancel)) h
            (cancelOrderWithoutLock now (ocOrderHash cancel) (ocReason cancel) False (ocToCancel cancel)) sv))"

fun monitorUsers ::
  "decimal_lib \<Rightarrow> chain_env \<Rightarrow> conf \<Rightarrow> visits \<Rightarrow> string list \<Rightarrow> server \<Rightarrow> server option" where
  "monitorUsers L env cf visit [] sv = Some sv"
| "monitorUsers L env cf visit (user # users) sv = do {
     (cancels, sv) \<leftarrow> checkUserPendingOrders L env cf visit user sv;
     monitorUsers L env cf visit users (monitorCancels (envNow env) cancels sv)
   }"

definition checkPerpUserOrders ::
  "decimal_lib \<Rightarrow> chain_env \<Rightarrow> conf \<Rightarrow> visits \<Rightarrow> server \<Rightarrow> server option" where
  "checkPerpUserOrders L env cf visit sv =
     (case GetPendingOrderUsers [] 0 [OrderPending] sv of
        (Inl _, sv) \<Rightarrow> Some sv
      | (Inr users, sv) \<Rightarrow> monitorUsers L env cf visit users sv)"

section \<open>What the monitor cancels\<close>

text \<open>An order that stands for a row: the same up to its pending and check amounts.\<close>

definition alike :: "Order \<Rightarrow> Order \<Rightarrow> bool" where
  "alike ord r \<longleftrightarrow> OrderHash ord = OrderHash r \<and> LiquidityPoolAddress ord = LiquidityPoolAddress r \<and>
     PerpetualIndex ord = PerpetualIndex r \<and> AvailableAmount ord = AvailableAmount r"

text \<open>A cancellation that fits a row: on its side and not more than is available.\<close>

definition cancels_row :: "OrderCancelItem \<Rightarrow> Order \<Rightarrow> bool" where
  "cancels_row c r \<longleftrightarrow> ocOrderHash c = OrderHash r \<and> ocLiquidityPoolAddress c = LiquidityPoolAddress r \<and>
     ocPerpetualIndex c = PerpetualIndex r \<and> HasTheSameSign (ocToCancel c) (Amount r) \<and>
     \<bar>ocToCancel c\<bar> \<le> \<bar>AvailableAmount r\<bar> \<and> ocReason c \<noteq> CancelReasonEmpty"

lemma alike_refl [simp]: "alike r r"
  by (simp add: alike_def)

lemma openLoop_step:
  assumes "openLoop L pool i perp lev (ord # orders) position margin wallet cancels = Some r"
  obtains position' margin' wallet' where
    "openLoop L pool i perp lev orders position' margin' wallet' (if wallet' < 0
      then cancels @ [cancelItem ord (AvailableAmount ord) CancelReasonInsufficientFunds] else cancels) = Some r"
proof -
  from assms obtain cost fee loss where c: "openOrderCost L pool i ord lev = Some (cost, fee, loss)"
    by (cases "openOrderCost L pool i ord lev") auto
  have "\<exists>p m w. openLoop L pool i perp lev (ord # orders) position margin wallet cancels =
      openLoop L pool i perp lev orders p m w (if w < 0
        then cancels @ [cancelItem ord (AvailableAmount ord) CancelReasonInsufficientFunds] else cancels)"
    unfolding openLoop.simps c bind.bind_lunit prod.case Let_def cancelItem_def by (intro exI) (rule refl)
  with assms that show ?thesis by metis
qed

lemma openLoop_from:
  assumes "openLoop L pool i perp lev orders position margin wallet cancels = Some (cs, w)"
    "\<forall>c \<in> set cancels. \<exists>ord \<in> set all. c = cancelItem ord (AvailableAmount ord) CancelReasonInsufficientFunds"
    "set orders \<subseteq> set all"
  shows "\<forall>c \<in> set cs. \<exists>ord \<in> set all. c = cancelItem ord (AvailableAmount ord) CancelReasonInsufficientFunds"
  using assms
proof (induction orders arbitrary: position margin wallet cancels)
  case (Cons ord orders)
  from Cons.prems(1) obtain position' margin' wallet' where
    l: "openLoop L pool i perp lev orders position' margin' wallet' (if wallet' < 0
      then cancels @ [cancelItem ord (AvailableAmount ord) CancelReasonInsufficientFunds] else cancels) = Some (cs, w)"
    by (rule openLoop_step)
  show ?case by (rule Cons.IH [OF l]) (use Cons.prems(2,3) in auto)
qed simp

text \<open>Taking a computation apart without looking at its values.\<close>

lemma Let_Some: "Let a f = Some y \<Longrightarrow> (\<And>x. f x = Some y \<Longrightarrow> P) \<Longrightarrow> P"
  by (simp add: Let_def)

lemma if_Some: "(if b then m else n) = Some y \<Longrightarrow> (m = Some y \<Longrightarrow> P) \<Longrightarrow> (n = Some y \<Longrightarrow> P) \<Longrightarrow> P"
  by (auto split: if_splits)

lemma bind_Some: "Option.bind m f = Some y \<Longrightarrow> (\<And>x. f x = Some y \<Longrightarrow> P) \<Longrightarrow> P"
  by (auto simp: bind_Some_iff)

lemma Some_Some: "Some a = Some y \<Longrightarrow> (y = a \<Longrightarrow> P) \<Longrightarrow> P"
  by simp

lemma closeStep_orders:
  assumes "closeStep L perp feeRate st ord = Some st'"
  shows "\<exists>xs. ssOrders st' = ssOrders st @ xs \<and> (\<forall>x \<in> set xs. alike x ord)"
proof -
  have a: "alike (ord\<lparr> CheckAmount := x \<rparr>) ord" for x by (simp add: alike_def)
  from assms show ?thesis
    unfolding closeStep_def
    by (elim Let_Some if_Some bind_Some Some_Some) (simp_all add: a)
qed

lemma closeLoop_from:
  "closeLoop L perp feeRate orders st = Some st' \<Longrightarrow>
   \<exists>xs. ssOrders st' = ssOrders st @ xs \<and> (\<forall>x \<in> set xs. \<exists>r \<in> set orders. alike x r)"
proof (induction orders arbitrary: st)
  case (Cons ord orders)
  from Cons.prems obtain st1 where s: "closeStep L perp feeRate st ord = Some st1"
    "closeLoop L perp feeRate orders st1 = Some st'" by (auto simp: bind_Some_iff)
  from closeStep_orders [OF s(1)] obtain xs where x: "ssOrders st1 = ssOrders st @ xs" "\<forall>x \<in> set xs. alike x ord" by blast
  from Cons.IH [OF s(2)] obtain ys where y: "ssOrders st' = ssOrders st1 @ ys" "\<forall>x \<in> set ys. \<exists>r \<in> set orders. alike x r"
    by blast
  have "\<forall>z \<in> set (xs @ ys). \<exists>r \<in> set (ord # orders). alike z r" using x(2) y(2) by force
  with x(1) y(1) show ?case by (intro exI [of _ "xs @ ys"]) simp
qed simp

text \<open>The margin check cancels orders it was given, for all that is available.\<close>

definition from_orders :: "Order list \<Rightarrow> OrderCancelItem \<Rightarrow> bool" where
  "from_orders orders c \<longleftrightarrow> (\<exists>ord r. r \<in> set orders \<and> alike ord r \<and>
     c = cancelItem ord (AvailableAmount ord) CancelReasonInsufficientFunds)"

lemma sideAvailable_from:
  assumes "sideAvailable L pool i margin position lev wallet orders = Some (cs, a)" "c \<in> set cs"
  shows "from_orders orders c"
proof -
  have "orders \<noteq> []" using assms by (auto simp: sideAvailable_def)
  with assms obtain perp st where l: "closeLoop L perp (VaultFeeRate pool + LpFeeRate perp + OperatorFeeRate perp) orders
      \<lparr> ssPosition = position, ssMargin = margin, ssWallet = wallet, ssOrders = [] \<rparr> = Some st"
    "openLoop L pool i perp lev (ssOrders (if ssPosition st = 0
       then st\<lparr> ssWallet := ssWallet st + ssMargin st, ssMargin := 0 \<rparr> else st))
      (ssPosition (if ssPosition st = 0 then st\<lparr> ssWallet := ssWallet st + ssMargin st, ssMargin := 0 \<rparr> else st))
      (ssMargin (if ssPosition st = 0 then st\<lparr> ssWallet := ssWallet st + ssMargin st, ssMargin := 0 \<rparr> else st))
      (ssWallet (if ssPosition st = 0 then st\<lparr> ssWallet := ssWallet st + ssMargin st, ssMargin := 0 \<rparr> else st)) [] = Some (cs, a)"
    by (auto simp: sideAvailable_def Let_def bind_Some_iff split: option.split_asm simp del: if_split)
  have "ssOrders (if ssPosition st = 0 then st\<lparr> ssWallet := ssWallet st + ssMargin st, ssMargin := 0 \<rparr> else st) = ssOrders st"
    by simp
  from openLoop_from [OF l(2), of "ssOrders st"] this assms(2) obtain ord where
    o: "ord \<in> set (ssOrders st)" "c = cancelItem ord (AvailableAmount ord) CancelReasonInsufficientFunds" by auto
  from closeLoop_from [OF l(1)] o(1) obtain r where "r \<in> set orders" "alike ord r" by auto
  with o(2) show ?thesis unfolding from_orders_def by blast
qed

lemma ComputeOrderAvailable_from:
  assumes "ComputeOrderAvailable L pool i account orders = Some (cs, a)" "c \<in> set cs"
  shows "from_orders orders c"
proof -
  let ?ck = "\<lambda>ord. ord\<lparr> CheckAmount := AvailableAmount ord + PendingAmount ord \<rparr>"
  obtain buys sells where sp: "splitActiveOrders orders = (buys, sells)" by fastforce
  then have k: "set buys \<subseteq> ?ck ` set orders" "set sells \<subseteq> ?ck ` set orders"
    by (auto simp: splitActiveOrders_def Let_def)
  have up: "from_orders orders c" if f: "from_orders xs c" "set xs \<subseteq> ?ck ` set orders" for xs
  proof -
    from f obtain ord r where r: "r \<in> set orders" "alike ord (?ck r)"
      "c = cancelItem ord (AvailableAmount ord) CancelReasonInsufficientFunds"
      unfolding from_orders_def by blast
    then have "alike ord r" by (simp add: alike_def)
    with r show ?thesis unfolding from_orders_def by blast
  qed
  from assms sp obtain m bc ba sc sa where
    "sideAvailable L pool i m (PositionAmount account) (TargetLeverage account) (WalletBalance account) buys = Some (bc, ba)"
    "sideAvailable L pool i m (PositionAmount account) (TargetLeverage account) (WalletBalance account) sells = Some (sc, sa)"
    "cs = bc @ sc"
    by (cases "ComputeAccount L pool i account"; cases "the (ComputeAccount L pool i account)")
      (auto simp: ComputeOrderAvailable_def Let_def bind_Some_iff)
  with assms(2) sideAvailable_from up k show ?thesis by fastforce
qed

lemma CheckCloseOnly_row:
  assumes "sided ord"
  shows "HasTheSameSign (CheckCloseOnly a ord) (Amount ord)" "\<bar>CheckCloseOnly a ord\<bar> \<le> \<bar>AvailableAmount ord\<bar>"
  using assms
  by (auto simp: CheckCloseOnly_def sided_def HasTheSameSign_iff zero_le_mult_iff not_le mult_less_0_iff abs_if split: if_splits)

lemma singleOrderCheck_row:
  assumes "singleOrderCheck cf ord pool account = Some c" "sided ord"
  shows "cancels_row c ord"
  using assms CheckCloseOnly_row [OF assms(2), of account]
  by (auto simp: singleOrderCheck_def cancels_row_def cancelItem_def Let_def sided_def split: if_splits)

lemma set_update_sub: "set (AList.update k v m) \<subseteq> insert (k, v) (set m)"
  by (induction m) auto

text \<open>The groups hold orders they were made from, and the cancellations fit theirs.\<close>

definition groups_from :: "Order list \<Rightarrow> collateralMap \<Rightarrow> bool" where
  "groups_from orders res \<longleftrightarrow> (\<forall>(c, cm) \<in> set res. \<forall>(k, op) \<in> set (ocdOrderMap cm). \<forall>ord \<in> set (opOrders op).
     \<exists>r \<in> set orders. alike ord r)"

definition split_ok :: "Order list \<Rightarrow> collateralMap \<times> OrderCancelItem list \<Rightarrow> bool" where
  "split_ok orders acc \<longleftrightarrow> groups_from orders (fst acc) \<and> (\<forall>c \<in> set (snd acc). \<exists>r \<in> set orders. cancels_row c r)"

lemma groups_from_update:
  assumes "groups_from orders res" "\<forall>(k, op) \<in> set (ocdOrderMap cm). \<forall>ord \<in> set (opOrders op). \<exists>r \<in> set orders. alike ord r"
  shows "groups_from orders (AList.update c cm res)"
  using assms set_update_sub [of c cm res] unfolding groups_from_def by blast

lemma groups_from_add:
  assumes "groups_from orders res" "map_of res c = Some cm" "\<forall>ord \<in> set (opOrders op). \<exists>r \<in> set orders. alike ord r"
  shows "groups_from orders (AList.update c (cm\<lparr> ocdOrderMap := AList.update k op (ocdOrderMap cm) \<rparr>) res)"
proof (rule groups_from_update [OF assms(1)])
  have "\<forall>(k, op) \<in> set (ocdOrderMap cm). \<forall>ord \<in> set (opOrders op). \<exists>r \<in> set orders. alike ord r"
    using assms(1) map_of_SomeD [OF assms(2)] unfolding groups_from_def by blast
  with assms(3) set_update_sub [of k op "ocdOrderMap cm"]
  show "\<forall>(k', op') \<in> set (ocdOrderMap (cm\<lparr> ocdOrderMap := AList.update k op (ocdOrderMap cm) \<rparr>)).
      \<forall>ord \<in> set (opOrders op'). \<exists>r \<in> set orders. alike ord r" by fastforce
qed

text \<open>Nothing but the pool cache changes while the orders are grouped.\<close>

definition pools_only :: "(server, 'a) dbm \<Rightarrow> bool" where
  "pools_only m \<longleftrightarrow> (\<forall>sv r sv'. m sv = (r, sv') \<longrightarrow> (\<exists>ps. sv' = sv\<lparr> svPools := ps \<rparr>))"

lemma pools_only_ret: "pools_only (retE x)"
  unfolding pools_only_def
proof (intro allI impI)
  fix sv sv' :: server and r
  assume "retE x sv = (r, sv')"
  then have "sv' = sv\<lparr> svPools := svPools sv \<rparr>" by simp
  then show "\<exists>ps. sv' = sv\<lparr> svPools := ps \<rparr>" ..
qed

lemma pools_only_bind:
  assumes "pools_only m" "\<And>x. pools_only (f x)"
  shows "pools_only (bindE m f)"
  unfolding pools_only_def
proof (intro allI impI)
  fix sv sv' :: server and r
  assume b: "bindE m f sv = (r, sv')"
  obtain r1 sv1 where m: "m sv = (r1, sv1)" by fastforce
  with assms(1) obtain ps where ps: "sv1 = sv\<lparr> svPools := ps \<rparr>" unfolding pools_only_def by blast
  show "\<exists>ps. sv' = sv\<lparr> svPools := ps \<rparr>"
  proof (cases r1)
    case (Inl e)
    with b m ps show ?thesis by auto
  next
    case (Inr x)
    with b m have "f x sv1 = (r, sv')" by simp
    with assms(2) obtain ps' where "sv' = sv1\<lparr> svPools := ps' \<rparr>" unfolding pools_only_def by blast
    with ps show ?thesis by auto
  qed
qed

lemma pools_only_load: "pools_only (loadPoolAccount env ord)"
  by (auto simp: pools_only_def loadPoolAccount_def split: prod.splits option.splits)

lemma pools_only_wallet: "pools_only (walletOf env ord)"
  unfolding pools_only_def
proof (intro allI impI)
  fix sv sv' :: server and r
  assume "walletOf env ord sv = (r, sv')"
  then have "sv' = sv\<lparr> svPools := svPools sv \<rparr>" by (auto simp: walletOf_def split: option.splits)
  then show "\<exists>ps. sv' = sv\<lparr> svPools := ps \<rparr>" ..
qed

lemma pools_only_splitOne: "pools_only (splitOne env cf ord acc)"
  unfolding splitOne_def Let_def
  by (auto intro!: pools_only_bind pools_only_load pools_only_wallet pools_only_ret split: prod.split option.split)

lemma pools_only_split: "pools_only (splitActiveOrdersInEachPerpetual env cf orders acc)"
  by (induction orders arbitrary: acc) (auto intro!: pools_only_bind pools_only_splitOne pools_only_ret)

lemma splitOne_ok:
  assumes "splitOne env cf ord acc sv = (Inr acc', sv')" "split_ok orders acc" "ord \<in> set orders" "sided ord"
  shows "split_ok orders acc'"
proof -
  obtain res cancels where acc: "acc = (res, cancels)" by fastforce
  with assms(2) have ok: "groups_from orders res" "\<forall>c \<in> set cancels. \<exists>r \<in> set orders. cancels_row c r"
    by (simp_all add: split_ok_def)
  have one: "split_ok orders (res, cancels @ [c])" if "singleOrderCheck cf ord p a = Some c" for c p a
    using ok singleOrderCheck_row [OF that assms(4)] assms(3) by (auto simp: split_ok_def)
  have al: "alike (ord\<lparr> PendingAmount := 0 \<rparr>) ord" by (simp add: alike_def)
  have new: "\<forall>x \<in> set (opOrders (newPerpMap ord p a)). \<exists>r \<in> set orders. alike x r"
    "\<forall>x \<in> set (opOrders (newPerpMap (ord\<lparr> PendingAmount := 0 \<rparr>) p a)). \<exists>r \<in> set orders. alike x r" for p a
    using assms(3) al alike_refl [of ord] unfolding newPerpMap_def by (simp_all, blast+)
  show ?thesis
  proof (cases "map_of res (CollateralAddress ord)")
    case None
    with assms(1) acc obtain pool account sv1 where
      l: "loadPoolAccount env ord sv = (Inr (pool, account), sv1)" by (auto simp: splitOne_def bindE_Inr)
    show ?thesis
    proof (cases "singleOrderCheck cf ord pool account")
      case (Some c)
      with assms(1) acc None l one [OF Some] show ?thesis by (auto simp: splitOne_def Let_def)
    next
      case check: None
      with assms(1) acc None l obtain w where "acc' = (AList.update (CollateralAddress ord)
          \<lparr> ocdWalletBalance = w, ocdOrderMap = [(getPerpetualKey (LiquidityPoolAddress ord) (PerpetualIndex ord),
             newPerpMap (ord\<lparr> PendingAmount := 0 \<rparr>) account pool)] \<rparr> res, cancels)"
        by (auto simp: splitOne_def Let_def bindE_Inr)
      with ok new(2) [of account pool] show ?thesis by (auto simp: split_ok_def intro!: groups_from_update)
    qed
  next
    case (Some cm)
    show ?thesis
    proof (cases "map_of (ocdOrderMap cm) (getPerpetualKey (LiquidityPoolAddress ord) (PerpetualIndex ord))")
      case none: None
      with assms(1) acc Some obtain pool account sv1 where
        l: "loadPoolAccount env ord sv = (Inr (pool, account), sv1)" by (auto simp: splitOne_def bindE_Inr)
      with assms(1) acc Some none one ok new(1) groups_from_add [OF ok(1) Some] show ?thesis
        by (cases "singleOrderCheck cf ord pool account") (auto simp: splitOne_def Let_def split_ok_def)
    next
      case op: (Some op)
      have "(CollateralAddress ord, cm) \<in> set res"
        "(getPerpetualKey (LiquidityPoolAddress ord) (PerpetualIndex ord), op) \<in> set (ocdOrderMap cm)"
        using map_of_SomeD [OF Some] map_of_SomeD [OF op] by simp_all
      then have "\<forall>x \<in> set (opOrders op). \<exists>r \<in> set orders. alike x r" using ok(1) unfolding groups_from_def by blast
      then have "\<forall>x \<in> set (opOrders (op\<lparr> opOrders := opOrders op @ [ord\<lparr> PendingAmount := 0 \<rparr>] \<rparr>)). \<exists>r \<in> set orders. alike x r"
        using assms(3) al by auto
      from groups_from_add [OF ok(1) Some this] assms(1) acc Some op one ok(2) show ?thesis
        by (cases "singleOrderCheck cf ord (opPoolStorage op) (opAccount op)") (auto simp: splitOne_def Let_def split_ok_def)
    qed
  qed
qed

lemma split_run:
  assumes "splitActiveOrdersInEachPerpetual env cf orders acc sv = (Inr acc', sv')" "split_ok all acc"
    "set orders \<subseteq> set all" "\<forall>r \<in> set orders. sided r"
  shows "split_ok all acc'"
  using assms
proof (induction orders arbitrary: acc sv)
  case (Cons ord orders)
  from Cons.prems(1) obtain acc1 sv1 where s: "splitOne env cf ord acc sv = (Inr acc1, sv1)"
    "splitActiveOrdersInEachPerpetual env cf orders acc1 sv1 = (Inr acc', sv')" by (auto simp: bindE_Inr)
  have "split_ok all acc1" by (rule splitOne_ok [OF s(1) Cons.prems(2)]) (use Cons.prems(3,4) in simp_all)
  then show ?case by (rule Cons.IH [OF s(2)]) (use Cons.prems(3,4) in simp_all)
qed simp

lemma marginPerps_from:
  "marginPerps L vs wallet = Some cs \<Longrightarrow> c \<in> set cs \<Longrightarrow> \<exists>v \<in> set vs. from_orders (opOrders v) c"
proof (induction vs arbitrary: wallet cs)
  case (Cons v vs)
  from Cons.prems(1) obtain c1 a c2 where s: "ComputeOrderAvailable L (opPoolStorage v) (opPerpetualIndex v)
      ((opAccount v)\<lparr> WalletBalance := wallet \<rparr>) (opOrders v) = Some (c1, a)" "marginPerps L vs a = Some c2" "cs = c1 @ c2"
    by (auto simp: bind_Some_iff)
  from s(3) Cons.prems(2) ComputeOrderAvailable_from [OF s(1), of c] Cons.IH [OF s(2)] show ?case by auto
qed simp

text \<open>The iteration visits entries of the map, in whatever order.\<close>

definition visits_ok :: "visits \<Rightarrow> bool" where
  "visits_ok v \<longleftrightarrow> (\<forall>xs. set (vsCollaterals v xs) = set xs) \<and> (\<forall>xs. set (vsPerps v xs) = set xs)"

lemma marginCollaterals_from:
  assumes "marginCollaterals L visit cms = Some cs" "c \<in> set cs" "\<And>xs. set (visit xs) = set xs"
  shows "\<exists>cm \<in> set cms. \<exists>(k, op) \<in> set (ocdOrderMap cm). from_orders (opOrders op) c"
  using assms(1,2)
proof (induction cms arbitrary: cs)
  case (Cons cm cms)
  from Cons.prems(1) obtain c1 c2 where s: "marginPerps L (visit (map snd (ocdOrderMap cm))) (ocdWalletBalance cm) = Some c1"
    "marginCollaterals L visit cms = Some c2" "cs = c1 @ c2" by (auto simp: bind_Some_iff)
  show ?case
  proof (cases "c \<in> set c1")
    case True
    from marginPerps_from [OF s(1) this] obtain k op where "(k, op) \<in> set (ocdOrderMap cm)" "from_orders (opOrders op) c"
      using assms(3) by auto
    then show ?thesis by fastforce
  next
    case False
    with s(3) Cons.prems(2) have "c \<in> set c2" by simp
    from Cons.IH [OF s(2) this] show ?thesis by auto
  qed
qed simp

lemma from_orders_row:
  assumes "from_orders xs c" "\<forall>ord \<in> set xs. \<exists>r \<in> set orders. alike ord r" "\<forall>r \<in> set orders. sided r"
  shows "\<exists>r \<in> set orders. cancels_row c r"
proof -
  from assms(1) obtain ord x where x: "x \<in> set xs" "alike ord x"
    "c = cancelItem ord (AvailableAmount ord) CancelReasonInsufficientFunds" unfolding from_orders_def by blast
  with assms(2) obtain r where r: "r \<in> set orders" "alike x r" by blast
  with assms(3) have "sided r" by simp
  with x r(2) have "cancels_row c r" by (simp add: cancels_row_def cancelItem_def alike_def sided_def)
  with r(1) show ?thesis by blast
qed

text \<open>The cancellations of a user are for open orders of the user.\<close>

lemma checkUserPendingOrders_run:
  assumes "agreed sv" "dbFaults sv = []" "visits_ok visit" "checkUserPendingOrders L env cf visit user sv = Some (cancels, sv')"
  shows "(\<exists>ps. sv' = sv\<lparr> svPools := ps \<rparr>) \<and>
     (\<forall>c \<in> set cancels. \<exists>r \<in> set (tOrders (dbTables sv)). cancels_row c r \<and> Status r = OrderPending \<and>
        (user \<noteq> [] \<longrightarrow> TraderAddress r = user))"
proof -
  define orders where "orders = filter (orderWhere user [] 0 [OrderPending] 0 0) (tOrders (dbTables sv))"
  have q: "QueryOrder user [] 0 [OrderPending] 0 0 0 sv = (Inr orders, sv)"
    using assms(2) by (simp add: QueryOrder_def dbCall_def limitDesc_def orders_def)
  have sub: "\<forall>r \<in> set orders. r \<in> set (tOrders (dbTables sv)) \<and> Status r = OrderPending \<and> (user \<noteq> [] \<longrightarrow> TraderAddress r = user)"
    by (auto simp: orders_def orderWhere_def)
  then have sd: "\<forall>r \<in> set orders. sided r" using assms(1) by (simp add: agreed_def)
  obtain res sv1 where sp: "splitActiveOrdersInEachPerpetual env cf orders ([], []) sv = (res, sv1)" by fastforce
  then obtain ps where ps: "sv1 = sv\<lparr> svPools := ps \<rparr>" using pools_only_split unfolding pools_only_def by blast
  show ?thesis
  proof (cases res)
    case (Inl e)
    with assms(4) q sp ps show ?thesis by (auto simp: checkUserPendingOrders_def)
  next
    case (Inr acc)
    obtain om oc where acc: "acc = (om, oc)" by fastforce
    with assms(4) q sp Inr obtain mc where m: "marginCollaterals L (vsPerps visit) (vsCollaterals visit (map snd om)) = Some mc"
      "cancels = oc @ mc" "sv' = sv1" by (auto simp: checkUserPendingOrders_def bind_Some_iff)
    have ok: "split_ok orders (om, oc)"
      using split_run [of env cf orders "([], [])" sv acc sv1 orders] sp Inr acc sd by (simp add: split_ok_def groups_from_def)
    have "\<exists>r \<in> set orders. cancels_row c r" if c: "c \<in> set mc" for c
    proof -
      from marginCollaterals_from [OF m(1) c] assms(3) obtain cm k op where
        "cm \<in> snd ` set om" "(k, op) \<in> set (ocdOrderMap cm)" "from_orders (opOrders op) c" by (auto simp: visits_ok_def)
      moreover from this(1,2) ok have "\<forall>ord \<in> set (opOrders op). \<exists>r \<in> set orders. alike ord r"
        by (fastforce simp: split_ok_def groups_from_def)
      ultimately show ?thesis using from_orders_row sd by blast
    qed
    with ok m(2) have "\<forall>c \<in> set cancels. \<exists>r \<in> set orders. cancels_row c r" by (auto simp: split_ok_def)
    with sub ps m(3) show ?thesis by blast
  qed
qed

section \<open>The round keeps the agreement\<close>

lemma cancelled_rows_trans:
  assumes "list_all2 cancelled_row xs ys" "list_all2 cancelled_row ys zs"
  shows "list_all2 cancelled_row xs zs"
  using list_all2_trans [OF _ assms] cancelled_row_trans by blast

lemma cancelled_rows_ident:
  assumes "list_all2 cancelled_row xs ys" "x \<in> set xs"
  shows "\<exists>y \<in> set ys. ident y = ident x"
  using assms by (induction rule: list_all2_induct) (auto simp: cancelled_row_def)

lemma monitorCancels_agreed:
  assumes "agreed sv" "dbFaults sv = []" "\<forall>c \<in> set cancels. \<exists>r \<in> set (tOrders (dbTables sv)). ocOrderHash c = OrderHash r \<and>
      ocLiquidityPoolAddress c = LiquidityPoolAddress r \<and> ocPerpetualIndex c = PerpetualIndex r \<and>
      HasTheSameSign (ocToCancel c) (Amount r) \<and> ocReason c \<noteq> CancelReasonEmpty"
  shows "agreed (monitorCancels now cancels sv) \<and> dbFaults (monitorCancels now cancels sv) = [] \<and>
     list_all2 cancelled_row (tOrders (dbTables sv)) (tOrders (dbTables (monitorCancels now cancels sv)))"
  using assms
proof (induction cancels arbitrary: sv)
  case (Cons c cancels)
  let ?pool = "ocLiquidityPoolAddress c" and ?i = "ocPerpetualIndex c" and ?rows = "tOrders (dbTables sv)"
  from Cons.prems(3) obtain r where r: "r \<in> set ?rows" "ocOrderHash c = OrderHash r" "?pool = LiquidityPoolAddress r"
    "?i = PerpetualIndex r" "HasTheSameSign (ocToCancel c) (Amount r)" "ocReason c \<noteq> CancelReasonEmpty" by auto
  define sv1 where "sv1 = (case getMatchHandler ?pool ?i sv of None \<Rightarrow> sv
      | Some h \<Rightarrow> snd (onHandler (getPerpetualKey ?pool ?i) h
          (cancelOrderWithoutLock now (ocOrderHash c) (ocReason c) False (ocToCancel c)) sv))"
  have sv1: "agreed sv1 \<and> dbFaults sv1 = [] \<and> list_all2 cancelled_row ?rows (tOrders (dbTables sv1))"
  proof (cases "getMatchHandler ?pool ?i sv")
    case None
    with Cons.prems(1,2) show ?thesis by (simp add: sv1_def cancelled_row_refl)
  next
    case (Some h)
    have "address ?pool" using Cons.prems(1) r(1,3) by (simp add: agreed_def)
    note rt = routed [OF Cons.prems(1) Some this]
    obtain res s where run: "cancelOrderWithoutLock now (ocOrderHash c) (ocReason c) False (ocToCancel c) (enter h sv) = (res, s)"
      by fastforce
    have "x = r" if "x \<in> set ?rows" "OrderHash x = OrderHash r" for x
      using Cons.prems(1) that r(1) by (auto simp: agreed_def tables_ok_def orders_ok_def distinct_map dest: inj_onD)
    then have "\<forall>x \<in> set ?rows. OrderHash x = ocOrderHash c \<longrightarrow>
        in_perp (hPerp h) x \<and> (False \<or> HasTheSameSign (ocToCancel c) (Amount x))"
      using r rt(1,2) by (auto simp: in_perp_def)
    from handler_cancel_agreed [OF Cons.prems(1,2) rt(3) r(6) this run] run Some show ?thesis
      by (simp add: sv1_def onHandler_def)
  qed
  then have ident: "\<exists>x' \<in> set (tOrders (dbTables sv1)). ident x' = ident x" if "x \<in> set ?rows" for x
    using cancelled_rows_ident that by blast
  have "\<forall>d \<in> set cancels. \<exists>r \<in> set (tOrders (dbTables sv1)). ocOrderHash d = OrderHash r \<and>
      ocLiquidityPoolAddress d = LiquidityPoolAddress r \<and> ocPerpetualIndex d = PerpetualIndex r \<and>
      HasTheSameSign (ocToCancel d) (Amount r) \<and> ocReason d \<noteq> CancelReasonEmpty"
  proof
    fix d
    assume "d \<in> set cancels"
    with Cons.prems(3) obtain x where x: "x \<in> set ?rows" "ocOrderHash d = OrderHash x" "ocLiquidityPoolAddress d = LiquidityPoolAddress x"
      "ocPerpetualIndex d = PerpetualIndex x" "HasTheSameSign (ocToCancel d) (Amount x)" "ocReason d \<noteq> CancelReasonEmpty" by auto
    from ident [OF x(1)] obtain x' where "x' \<in> set (tOrders (dbTables sv1))" "ident x' = ident x" by blast
    with x identD [of x' x] show "\<exists>r \<in> set (tOrders (dbTables sv1)). ocOrderHash d = OrderHash r \<and>
      ocLiquidityPoolAddress d = LiquidityPoolAddress r \<and> ocPerpetualIndex d = PerpetualIndex r \<and>
      HasTheSameSign (ocToCancel d) (Amount r) \<and> ocReason d \<noteq> CancelReasonEmpty" by (intro bexI [of _ x']) simp_all
  qed
  from Cons.IH [OF _ _ this] sv1 have rest: "agreed (monitorCancels now cancels sv1)"
    "dbFaults (monitorCancels now cancels sv1) = []"
    "list_all2 cancelled_row (tOrders (dbTables sv1)) (tOrders (dbTables (monitorCancels now cancels sv1)))" by auto
  have "list_all2 cancelled_row ?rows (tOrders (dbTables (monitorCancels now cancels sv1)))"
    using sv1 rest(3) cancelled_rows_trans by blast
  with rest show ?case by (simp add: sv1_def)
qed (simp add: cancelled_row_refl)

lemma monitorUsers_agreed:
  assumes "agreed sv" "dbFaults sv = []" "visits_ok visit" "monitorUsers L env cf visit users sv = Some sv'"
  shows "agreed sv' \<and> dbFaults sv' = [] \<and> list_all2 cancelled_row (tOrders (dbTables sv)) (tOrders (dbTables sv'))"
  using assms
proof (induction users arbitrary: sv)
  case (Cons user users)
  from Cons.prems(4) obtain cancels sv1 where c: "checkUserPendingOrders L env cf visit user sv = Some (cancels, sv1)"
    "monitorUsers L env cf visit users (monitorCancels (envNow env) cancels sv1) = Some sv'"
    by (auto simp: bind_Some_iff)
  let ?sv = "monitorCancels (envNow env) cancels sv1"
  from checkUserPendingOrders_run [OF Cons.prems(1-3) c(1)] obtain ps where ps: "sv1 = sv\<lparr> svPools := ps \<rparr>"
    and rows: "\<forall>c \<in> set cancels. \<exists>r \<in> set (tOrders (dbTables sv)). cancels_row c r" by blast
  have "agreed sv1" "dbFaults sv1 = []" "dbTables sv1 = dbTables sv" using Cons.prems(1,2) ps by simp_all
  then have m: "agreed ?sv" "dbFaults ?sv = []" "list_all2 cancelled_row (tOrders (dbTables sv)) (tOrders (dbTables ?sv))"
    using monitorCancels_agreed [of sv1 cancels "envNow env"] rows by (auto simp: cancels_row_def)
  from Cons.IH [OF m(1,2) Cons.prems(3) c(2)] m(3) cancelled_rows_trans show ?case by blast
qed (simp add: cancelled_row_refl)

lemma checkPerpUserOrders_run:
  assumes "agreed sv" "dbFaults sv = []" "visits_ok visit" "checkPerpUserOrders L env cf visit sv = Some sv'"
  shows "agreed sv' \<and> dbFaults sv' = [] \<and> list_all2 cancelled_row (tOrders (dbTables sv)) (tOrders (dbTables sv'))"
proof -
  obtain users where "GetPendingOrderUsers [] 0 [OrderPending] sv = (Inr users, sv)"
    using assms(2) by (simp add: GetPendingOrderUsers_def dbCall_def)
  with assms(4) have "monitorUsers L env cf visit users sv = Some sv'" by (simp add: checkPerpUserOrders_def)
  with assms(1-3) show ?thesis by (rule monitorUsers_agreed)
qed

end
