(* ===== verification/Match_Txs.thy ===== *)
theory Match_Txs
  imports Match_Monitor
begin

text \<open>
  What the match server does to the table of match transactions: a matching run appends one new
  transaction under a fresh key, a settlement or a rollback replaces the transaction it is called
  for by one with the same key and the status of the call, and everything else leaves the table
  alone.
\<close>

section \<open>Computations that leave the match transactions alone\<close>

text \<open>The table holds \<open>T\<close>; with the flag set, the database also has no fault ahead.\<close>

definition txs_are :: "bool \<Rightarrow> MatchTransaction list \<Rightarrow> mstate \<Rightarrow> bool" where
  "txs_are b T s \<longleftrightarrow> tMatchTxs (dbTables s) = T \<and> (b \<longrightarrow> dbFaults s = [])"

lemma txs_are_simps [simp]:
  "txs_are b T (s\<lparr> msBook := bk \<rparr>) = txs_are b T s"
  "txs_are b T (s\<lparr> msTimers := ts \<rparr>) = txs_are b T s" "txs_are b T (s\<lparr> msExpired := es \<rparr>) = txs_are b T s"
  "txs_are b T (s\<lparr> msPools := ps \<rparr>) = txs_are b T s" "txs_are b T (s\<lparr> msTrgr := n \<rparr>) = txs_are b T s"
  "txs_are b T (notifyAll ords s) = txs_are b T s" "txs_are b T (deleteOrderTimer i s) = txs_are b T s"
  by (simp_all add: txs_are_def notifyAll_def deleteOrderTimer_def)

lemma txs_dbCall:
  assumes "gives (txs_are b T) m Q"
  shows "gives (txs_are b T) (dbCall m) Q"
  unfolding gives_def
proof (intro allI impI)
  fix s r s'
  assume s: "txs_are b T s" "dbCall m s = (r, s')"
  have g: "txs_are b T s1 \<Longrightarrow> m s1 = (r, s') \<Longrightarrow> txs_are b T s' \<and> (\<forall>x. r = Inr x \<longrightarrow> Q x)" for s1
    using assms unfolding gives_def by blast
  show "txs_are b T s' \<and> (\<forall>x. r = Inr x \<longrightarrow> Q x)"
  proof (cases "dbFaults s")
    case Nil
    with s g [of s] show ?thesis by (simp add: dbCall_def)
  next
    case (Cons f fs)
    with s(1) have f': "txs_are b T (s\<lparr> dbFaults := fs \<rparr>)" by (simp add: txs_are_def)
    with Cons s(2) g [OF f'] show ?thesis by (auto simp: dbCall_def Let_def split: if_splits)
  qed
qed

lemma txs_read: "gives (txs_are b T) (dbCall (\<lambda>s. (f s, s))) (\<lambda>_. True)"
  by (rule txs_dbCall) (simp add: gives_def)

lemma txs_Transaction:
  assumes "gives (txs_are b T) body Q"
  shows "gives (txs_are b T) (Transaction body) Q"
  unfolding gives_def
proof (intro allI impI)
  fix s r s'
  assume s: "txs_are b T s" "Transaction body s = (r, s')"
  obtain r1 s1 where r1: "body s = (r1, s1)" by fastforce
  with assms s(1) have w: "txs_are b T s1" "\<And>x. r1 = Inr x \<Longrightarrow> Q x" unfolding gives_def by blast+
  have undo: "txs_are b T (s2\<lparr> dbTables := dbTables s \<rparr>)" if "txs_are b T s2" for s2
    using s(1) that by (simp add: txs_are_def)
  show "txs_are b T s' \<and> (\<forall>x. r = Inr x \<longrightarrow> Q x)"
  proof (cases r1)
    case (Inl e)
    with s(2) r1 w(1) undo show ?thesis by (auto simp: Transaction_def)
  next
    case (Inr x)
    obtain r2 s2 where c: "dbCall (retE x) s1 = (r2, s2)" by fastforce
    have "gives (txs_are b T) (dbCall (retE x)) Q" by (rule txs_dbCall [OF gives_ret]) (use w(2) Inr in simp)
    with w(1) c have "txs_are b T s2" "\<And>y. r2 = Inr y \<Longrightarrow> Q y" unfolding gives_def by blast+
    with s(2) r1 Inr c undo show ?thesis by (auto simp: Transaction_def split: sum.splits)
  qed
qed

text \<open>The goals of a computation without a result to speak of.\<close>

abbreviation txs_kept :: "bool \<Rightarrow> MatchTransaction list \<Rightarrow> (mstate, 'a) dbm \<Rightarrow> bool" where
  "txs_kept b T m \<equiv> gives (txs_are b T) m (\<lambda>_. True)"

lemma txs_bind: "txs_kept b T m \<Longrightarrow> (\<And>x. gives (txs_are b T) (f x) R) \<Longrightarrow> gives (txs_are b T) (bindE m f) R"
  by (rule gives_bind)

lemma txs_ret: "txs_kept b T (retE x)"
  by (simp add: gives_ret)

lemma txs_saveOrder: "txs_kept b T (saveOrder row)"
  by (auto simp: gives_def saveOrder_def Let_def txs_are_def split: if_splits)

lemma txs_UpdateOrder: "txs_kept b T (UpdateOrder now ord)"
  unfolding UpdateOrder_def Let_def by (intro txs_bind [OF txs_dbCall [OF txs_saveOrder]] txs_ret)

lemma txs_CreateOrder: "txs_kept b T (CreateOrder now ord)"
  unfolding CreateOrder_def Let_def by (intro txs_bind [OF txs_dbCall [OF txs_saveOrder]] txs_ret)

lemma txs_GetOrderByHash: "txs_kept b T (GetOrderByHash h)"
  unfolding GetOrderByHash_def by (rule txs_dbCall) (auto simp: gives_def split: option.splits)

lemma txs_queries:
  "txs_kept b T (GetOrderByHashs hs)" "txs_kept b T (QueryOrder x1 x2 x3 x4 x5 x6 x7)"
  unfolding GetOrderByHashs_def QueryOrder_def by (rule txs_read)+

lemma txs_book: "txs_kept b T (bookChange ord x)" "txs_kept b T (bookInsert ord)" "txs_kept b T (setExpirationTimer now i time)"
  by (auto simp: gives_def bookChange_def bookInsert_def setExpirationTimer_def split: prod.splits if_splits)

lemma txs_rollbackOrderbook: "txs_kept b T (rollbackOrderbook a d ord)"
  unfolding gives_def
proof (intro allI impI)
  fix s r s'
  assume s: "txs_are b T s" "rollbackOrderbook a d ord s = (r, s')"
  then consider "bookInsert (getMemoryOrder ord) s = (r, s')" | bo where "bookChange bo d s = (r, s')" | "s' = s"
    unfolding rollbackOrderbook_def by (cases "a = 0"; cases "GetOrder (msBook s) (OrderHash ord) (Amount ord < 0) (Price ord)") auto
  then have "txs_are b T s'" by cases (use s(1) givesD [OF txs_book(1)] givesD [OF txs_book(2)] in blast)+
  then show "txs_are b T s' \<and> (\<forall>x. r = Inr x \<longrightarrow> True)" by simp
qed

lemma txs_updateOneOrder: "txs_kept b T (updateOneOrder now tx succ fail matched ord)"
  unfolding updateOneOrder_def Let_def
  by (intro gives_case_option txs_bind gives_if txs_UpdateOrder txs_rollbackOrderbook txs_ret)

lemma txs_updateOrdersLoop: "txs_kept b T (updateOrdersLoop now tx succ fail matched ords)"
proof (induction ords)
  case (Cons ord ords)
  show ?case unfolding updateOrdersLoop.simps by (intro txs_bind txs_updateOneOrder Cons.IH txs_ret)
qed (simp add: gives_def)

lemma txs_matchItemsLoop: "txs_kept b T (matchItemsLoop now items)"
proof (induction items)
  case (Cons item items)
  show ?case unfolding matchItemsLoop.simps
    by (rule txs_bind [OF txs_GetOrderByHash], rule gives_if, rule gives_throw, rule txs_bind [OF txs_UpdateOrder],
        rule txs_bind [OF Cons.IH]) (auto intro: txs_ret split: prod.splits)
qed (simp add: gives_def)

lemma txs_changeBookLoop: "txs_kept b T (changeBookLoop items)"
proof (induction items)
  case (Cons item items)
  show ?case unfolding changeBookLoop.simps by (intro txs_bind txs_book Cons.IH)
qed (simp add: gives_def)

text \<open>The transaction that a settlement writes back.\<close>

definition same_tx :: "MatchTransaction \<Rightarrow> MatchTransaction \<Rightarrow> bool" where
  "same_tx tx tx' \<longleftrightarrow> mtID tx' = mtID tx \<and> mtStatus tx' = mtStatus tx"

lemma same_tx_simps [simp]:
  "same_tx tx tx" "same_tx tx (addSuccItem ord a tx)" "same_tx tx (addFailedItem ord a tx)"
  "same_tx tx (clearItems tx)" "same_tx tx (recordTradeEvents tx succ fail)"
  by (simp_all add: same_tx_def addSuccItem_def addFailedItem_def clearItems_def recordTradeEvents_def)

lemma same_tx_trans: "same_tx tx tx' \<Longrightarrow> same_tx tx' tx'' \<Longrightarrow> same_tx tx tx''"
  by (simp add: same_tx_def)

lemma txs_move: "txs_kept b T (moveAmount now ord)" "txs_kept b T (moveWithBook now a d ord)"
  unfolding moveAmount_def moveWithBook_def by (intro txs_bind txs_UpdateOrder txs_rollbackOrderbook txs_ret)+

lemma txs_rollbackOne:
  "gives (txs_are b T) (rollbackConfirmed now succ fail amount ord tx) (\<lambda>(tx', _). same_tx tx tx')"
  "gives (txs_are b T) (rollbackFailed now succ fail amount ord tx) (\<lambda>(tx', _). same_tx tx tx')"
  "gives (txs_are b T) (rollbackUnexecuted now succ fail ord tx) (\<lambda>(tx', _). same_tx tx tx')"
  unfolding rollbackConfirmed_def rollbackFailed_def rollbackUnexecuted_def
  by (intro gives_if gives_case_option gives_bind [OF txs_move(1)] gives_bind [OF txs_move(2)] gives_ret; simp)+

lemma txs_rollbackOrdersLoop:
  "gives (txs_are b T) (rollbackOrdersLoop now sb fb succ fail ords tx) (\<lambda>(tx', _). same_tx tx tx')"
proof (induction ords arbitrary: tx)
  case (Cons ord ords)
  show ?case unfolding rollbackOrdersLoop.simps
  proof (rule gives_bind [where Q = "\<lambda>(tx', _). same_tx tx tx'"])
    show "gives (txs_are b T) (case map_of sb (OrderHash ord) of
              Some amount \<Rightarrow> rollbackConfirmed now succ fail amount ord tx
            | None \<Rightarrow>
                (case map_of fb (OrderHash ord) of
                   Some amount \<Rightarrow> rollbackFailed now succ fail amount ord tx
                 | None \<Rightarrow> rollbackUnexecuted now succ fail ord tx)) (\<lambda>(tx', _). same_tx tx tx')"
      by (intro gives_case_option txs_rollbackOne)
    fix x :: "MatchTransaction \<times> Order list"
    assume x: "case x of (tx', _) \<Rightarrow> same_tx tx tx'"
    obtain tx1 n where x1: "x = (tx1, n)" by fastforce
    have "gives (txs_are b T) (bindE (rollbackOrdersLoop now sb fb succ fail ords tx1) (\<lambda>(tx, rest). retE (tx, n @ rest)))
      (\<lambda>(tx', _). same_tx tx tx')"
      by (rule gives_bind [OF Cons.IH]) (use x x1 same_tx_trans in \<open>auto intro!: gives_ret\<close>)
    then show "gives (txs_are b T) (case x of (tx, notify) \<Rightarrow>
        bindE (rollbackOrdersLoop now sb fb succ fail ords tx) (\<lambda>(tx, rest). retE (tx, notify @ rest)))
      (\<lambda>(tx', _). same_tx tx tx')" by (simp add: x1)
  qed
qed (simp add: gives_def)

section \<open>What settlements and matching runs write\<close>

text \<open>The table with the transaction of a key replaced.\<close>

definition replaced :: "MatchTransaction \<Rightarrow> MatchTransaction list \<Rightarrow> MatchTransaction list" where
  "replaced tx T = map (\<lambda>r. if mtID r = mtID tx then tx else r) T"

text \<open>A write at the end of a transaction: either it is undone, or it is the only change.\<close>

lemma Transaction_cases:
  assumes "Transaction body s = (r, s')"
  obtains (undone) "dbTables s' = dbTables s" | (written) x s1 where "body s = (Inr x, s1)" "dbTables s' = dbTables s1"
  using assms
  by (cases "body s"; cases "fst (body s)")
    (auto simp: Transaction_def dbCall_def Let_def split: list.splits if_splits)

lemma run_GetMatchTransaction_Inr:
  assumes "GetMatchTransaction i s = (Inr tx, s')"
  shows "mtID tx = i" "tx \<in> set (tMatchTxs (dbTables s))" "dbTables s' = dbTables s"
  using assms
  by (auto simp: GetMatchTransaction_def dbCall_def Let_def find_Some_iff split: list.splits if_splits option.splits)

lemma GetMatchTransaction_tables: "GetMatchTransaction i s = (r, s') \<Longrightarrow> dbTables s' = dbTables s"
  by (auto simp: GetMatchTransaction_def dbCall_def Let_def split: list.splits if_splits option.splits)

lemma run_UpdateMatchTransaction_Inr:
  assumes "UpdateMatchTransaction tx s = (Inr u, s')" "mtID tx \<in> mtID ` set (tMatchTxs (dbTables s))"
  shows "tMatchTxs (dbTables s') = replaced tx (tMatchTxs (dbTables s))"
proof -
  have "\<exists>r \<in> set (tMatchTxs (dbTables s)). mtID r = mtID tx" using assms(2) by force
  with assms(1) show ?thesis
    by (auto simp: UpdateMatchTransaction_def dbCall_def Let_def replaced_def split: list.splits if_splits)
qed

lemma bindE_InrE:
  assumes "bindE m f s = (Inr y, s')"
  obtains x s1 where "m s = (Inr x, s1)" "f x s1 = (Inr y, s')"
  using assms unfolding bindE_Inr by blast

text \<open>A computation that settles orders and then writes a transaction like \<open>tx\<close>.\<close>

lemma settle_writes:
  assumes "bindE m (\<lambda>(tx, ords). bindE (UpdateMatchTransaction tx) (\<lambda>_. retE ords)) s = (Inr y, s')"
    "gives (txs_are False (tMatchTxs (dbTables s))) m (\<lambda>(tx', _). same_tx tx tx')"
    "mtID tx \<in> mtID ` set (tMatchTxs (dbTables s))"
  obtains tx' where "same_tx tx tx'" "tMatchTxs (dbTables s') = replaced tx' (tMatchTxs (dbTables s))"
proof -
  from assms(1) obtain x s1 where m: "m s = (Inr x, s1)"
    and f: "(\<lambda>(tx, ords). bindE (UpdateMatchTransaction tx) (\<lambda>_. retE ords)) x s1 = (Inr y, s')" by (rule bindE_InrE)
  obtain tx' ords where x: "x = (tx', ords)" by fastforce
  have "txs_are False (tMatchTxs (dbTables s)) s" by (simp add: txs_are_def)
  from assms(2) [unfolded gives_def, rule_format, OF this m] x
  have s1: "tMatchTxs (dbTables s1) = tMatchTxs (dbTables s)" "same_tx tx tx'" by (simp_all add: txs_are_def)
  from f x have "bindE (UpdateMatchTransaction tx') (\<lambda>_. retE ords) s1 = (Inr y, s')" by simp
  then obtain u s2 where "UpdateMatchTransaction tx' s1 = (Inr u, s2)" "retE ords s2 = (Inr y, s')" by (rule bindE_InrE)
  with run_UpdateMatchTransaction_Inr [of tx' s1 u s2] s1 assms(3) show ?thesis
    using that [OF s1(2)] by (simp add: same_tx_def)
qed

lemma UpdateOrdersStatus_txs:
  assumes "UpdateOrdersStatus now txID status th bh bn bt succ fail s = (r, s')"
  obtains "tMatchTxs (dbTables s') = tMatchTxs (dbTables s)"
  | tx where "mtID tx = txID" "mtStatus tx = status" "tMatchTxs (dbTables s') = replaced tx (tMatchTxs (dbTables s))"
proof -
  obtain r1 s1 where c: "updateStatusTx now txID status th bh bn bt succ fail s = (r1, s1)" by fastforce
  have s': "dbTables s' = dbTables s1"
    using assms c by (auto simp: UpdateOrdersStatus_def notifyAll_def split: sum.splits)
  from c [unfolded updateStatusTx_def] show ?thesis
  proof (cases rule: Transaction_cases)
    case undone
    with that(1) s' show ?thesis by simp
  next
    case (written x s2)
    from written(1) obtain tx s3 where g: "GetMatchTransaction txID s = (Inr tx, s3)" and
      b: "(let tx = tx\<lparr> mtBlockConfirmed := True, mtStatus := status \<rparr>;
           tx = (if (status = TransactionStatusFail \<or> status = TransactionStatusSuccess) \<and> 0 < bn
                 then executedTx tx status th bh bn bt else tx)
       in bindE (updateOrdersByTradeEvent now tx succ fail) (\<lambda>(tx, orders).
          bindE (UpdateMatchTransaction tx) (\<lambda>_. retE orders))) s3 = (Inr x, s2)" by (rule bindE_InrE)
    define tx2 where "tx2 = (let tx = tx\<lparr> mtBlockConfirmed := True, mtStatus := status \<rparr> in
      if (status = TransactionStatusFail \<or> status = TransactionStatusSuccess) \<and> 0 < bn
      then executedTx tx status th bh bn bt else tx)"
    note tx = run_GetMatchTransaction_Inr [OF g]
    have t2: "mtID tx2 = txID" "mtStatus tx2 = status" using tx(1) by (auto simp: tx2_def executedTx_def Let_def)
    have b2: "bindE (updateOrdersByTradeEvent now tx2 succ fail) (\<lambda>(tx, orders).
          bindE (UpdateMatchTransaction tx) (\<lambda>_. retE orders)) s3 = (Inr x, s2)"
      using b by (simp add: tx2_def Let_def)
    have u: "gives (txs_are False (tMatchTxs (dbTables s3))) (updateOrdersByTradeEvent now tx2 succ fail) (\<lambda>(tx', _). same_tx tx2 tx')"
      unfolding updateOrdersByTradeEvent_def Let_def
      by (rule gives_bind [OF txs_queries(1)], rule gives_bind [OF txs_updateOrdersLoop], rule gives_ret) simp
    have "mtID tx2 \<in> mtID ` set (tMatchTxs (dbTables s3))" using tx t2(1) by force
    from settle_writes [OF b2 u this] obtain tx' where "same_tx tx2 tx'"
      "tMatchTxs (dbTables s2) = replaced tx' (tMatchTxs (dbTables s3))" .
    with that(2) [of tx'] t2 tx(3) written(2) s' show ?thesis by (simp add: same_tx_def)
  qed
qed

lemma RollbackOrdersStatus_txs:
  assumes "RollbackOrdersStatus now tx status th bh bn bt succ fail s = (r, s')" "tx \<in> set (tMatchTxs (dbTables s))"
  obtains "tMatchTxs (dbTables s') = tMatchTxs (dbTables s)"
  | tx' where "mtID tx' = mtID tx" "mtStatus tx' = status" "tMatchTxs (dbTables s') = replaced tx' (tMatchTxs (dbTables s))"
proof -
  obtain r1 s1 where c: "rollbackStatusTx now tx status th bh bn bt succ fail s = (r1, s1)" by fastforce
  have s': "dbTables s' = dbTables s1"
    using assms c by (auto simp: RollbackOrdersStatus_def notifyAll_def split: sum.splits)
  define tx2 where "tx2 = (if mtStatus tx \<noteq> status then executedTx tx status th bh bn bt else tx)"
  have t2: "mtID tx2 = mtID tx" "mtStatus tx2 = status" by (simp_all add: tx2_def executedTx_def)
  have u: "gives (txs_are b T) (rollbackOrdersByTradeEvent now tx2 succ fail) (\<lambda>(tx', _). same_tx tx2 tx')" for b T
    unfolding rollbackOrdersByTradeEvent_def
    by (rule gives_bind [OF txs_queries(1)], rule gives_weaken [OF txs_rollbackOrdersLoop]) (auto simp: same_tx_def clearItems_def)
  from c [unfolded rollbackStatusTx_def, folded tx2_def] show ?thesis
  proof (cases rule: Transaction_cases)
    case undone
    with that(1) s' show ?thesis by simp
  next
    case (written x s2)
    have "mtID tx2 \<in> mtID ` set (tMatchTxs (dbTables s))" using assms(2) t2(1) by force
    from settle_writes [OF written(1) u this] obtain tx' where "same_tx tx2 tx'"
      "tMatchTxs (dbTables s2) = replaced tx' (tMatchTxs (dbTables s))" .
    with that(2) [of tx'] t2 written(2) s' show ?thesis by (simp add: same_tx_def)
  qed
qed

lemma matchTx_txs:
  assumes "matchTx cf perp uuid now items s = (r, s')"
  obtains "tMatchTxs (dbTables s') = tMatchTxs (dbTables s)"
  | tx where "mtStatus tx = TransactionStatusInit" "mtID tx \<notin> mtID ` set (tMatchTxs (dbTables s))"
      "tMatchTxs (dbTables s') = tMatchTxs (dbTables s) @ [tx]"
  using assms [unfolded matchTx_def]
proof (cases rule: Transaction_cases)
  case undone
  with that(1) show ?thesis by simp
next
  case (written x s2)
  from written(1) obtain y s3 where m: "matchItemsLoop now items s = (Inr y, s3)" and
    f: "(\<lambda>(rows, ords). bindE (CreateMatchTransaction (newMatchTransaction cf perp uuid rows)) (\<lambda>_.
       bindE (changeBookLoop items) (\<lambda>_. retE ords))) y s3 = (Inr x, s2)" by (rule bindE_InrE)
  obtain rows ords where y: "y = (rows, ords)" by fastforce
  have s3: "tMatchTxs (dbTables s3) = tMatchTxs (dbTables s)"
    using givesD [OF txs_matchItemsLoop _ m, of False "tMatchTxs (dbTables s)"] by (simp add: txs_are_def)
  let ?tx = "newMatchTransaction cf perp uuid rows"
  from f y have "bindE (CreateMatchTransaction ?tx) (\<lambda>_. bindE (changeBookLoop items) (\<lambda>_. retE ords)) s3 = (Inr x, s2)"
    by simp
  then obtain u s4 where c: "CreateMatchTransaction ?tx s3 = (Inr u, s4)" and
    d: "bindE (changeBookLoop items) (\<lambda>_. retE ords) s4 = (Inr x, s2)" by (rule bindE_InrE)
  have "mtID ?tx \<notin> mtID ` set (tMatchTxs (dbTables s3)) \<and> tMatchTxs (dbTables s4) = tMatchTxs (dbTables s3) @ [?tx]"
    using c by (auto simp: CreateMatchTransaction_def dbCall_def Let_def split: list.splits if_splits)
  moreover have "tMatchTxs (dbTables s2) = tMatchTxs (dbTables s4)"
    using givesD [OF txs_bind [OF txs_changeBookLoop txs_ret] _ d, of False "tMatchTxs (dbTables s4)"] by (simp add: txs_are_def)
  ultimately show ?thesis using that(2) [of ?tx] s3 written(2) by (simp add: newMatchTransaction_def)
qed

lemma matchOrders_txs:
  assumes "matchOrders L env cf perp uuid s = Some s'"
  obtains "tMatchTxs (dbTables s') = tMatchTxs (dbTables s)"
  | tx where "mtStatus tx = TransactionStatusInit" "mtID tx \<notin> mtID ` set (tMatchTxs (dbTables s))"
      "tMatchTxs (dbTables s') = tMatchTxs (dbTables s) @ [tx]"
proof -
  obtain r1 s1 where q: "QueryOrder [] (ppLiquidityPoolAddress perp) (ppPerpetualIndex perp) [OrderPending] 0 0 0 s = (r1, s1)"
    by fastforce
  have s1: "tMatchTxs (dbTables s1) = tMatchTxs (dbTables s)"
    using givesD [OF txs_queries(2) _ q, of False "tMatchTxs (dbTables s)"] by (simp add: txs_are_def)
  have "dbTables s' = dbTables s1 \<or> (\<exists>u items pools r2 s2.
      matchTx cf perp u (envNow env) items (s1\<lparr> msPools := pools \<rparr>) = (r2, s2) \<and> dbTables s' = dbTables s2)"
  proof (cases "isl r1 \<or> projr r1 = []")
    case True
    with assms q show ?thesis by (auto simp: matchOrders_def split: sum.splits)
  next
    case False
    then obtain o1 orders where r1: "r1 = Inr (o1 # orders)" by (cases r1) (auto simp: neq_Nil_conv)
    with assms q obtain items pools where
      m: "MatchOrderSideBySide L env cf perp (msBook s1) (msPools s1) = Some (items, pools)"
      by (auto simp: matchOrders_def bind_Some_iff)
    show ?thesis
    proof (cases "items = [] \<or> uuid = None")
      case True
      with assms q r1 m show ?thesis by (auto simp: matchOrders_def Let_def split: if_splits option.splits)
    next
      case False
      then obtain u where u: "uuid = Some u" by blast
      obtain r2 s2 where c: "matchTx cf perp u (envNow env) items (s1\<lparr> msPools := pools \<rparr>) = (r2, s2)" by fastforce
      then have "dbTables s' = dbTables s2"
        using assms q r1 m u False by (auto simp: matchOrders_def Let_def notifyAll_def split: sum.splits)
      with c show ?thesis by blast
    qed
  qed
  then consider "dbTables s' = dbTables s1"
    | u items pools r2 s2 where "matchTx cf perp u (envNow env) items (s1\<lparr> msPools := pools \<rparr>) = (r2, s2)"
        "dbTables s' = dbTables s2" by blast
  then show ?thesis
  proof cases
    case 1
    with s1 that(1) show ?thesis by simp
  next
    case (2 u items pools r2 s2)
    from 2(1) show ?thesis
    proof (cases rule: matchTx_txs)
      case 1
      with 2(2) s1 that(1) show ?thesis by simp
    next
      case (2 tx)
      with \<open>dbTables s' = dbTables s2\<close> s1 that(2) [of tx] show ?thesis by simp
    qed
  qed
qed

section \<open>The server\<close>

text \<open>
  The transactions of the table \<open>T\<close> with the keys \<open>I\<close> may have been replaced, by ones that are no
  longer initial.
\<close>

definition advances :: "string set \<Rightarrow> MatchTransaction list \<Rightarrow> MatchTransaction list \<Rightarrow> bool" where
  "advances I T T' \<longleftrightarrow> list_all2 (\<lambda>r r'. mtID r' = mtID r \<and>
     (r' = r \<or> mtID r \<in> I \<and> mtStatus r' \<noteq> TransactionStatusInit)) T T'"

lemma advances_refl [simp]: "advances I T T"
  by (simp add: advances_def list_all2_same)

lemma advances_trans: "advances I T T' \<Longrightarrow> advances I T' T'' \<Longrightarrow> advances I T T''"
  unfolding advances_def by (erule (1) list_all2_trans [rotated -2]) auto

lemma advances_replaced:
  assumes "mtID tx \<in> I" "mtStatus tx \<noteq> TransactionStatusInit"
  shows "advances I T (replaced tx T)"
  using assms by (auto simp: advances_def replaced_def list_all2_conv_all_nth)

lemma onHandler_tables: "onHandler k h m sv = (r, sv') \<Longrightarrow> \<exists>r s. m (enter h sv) = (r, s) \<and> dbTables sv' = dbTables s"
  by (auto simp: onHandler_def split: prod.splits)

lemma serverUpdateOrdersStatus_txs:
  assumes "serverUpdateOrdersStatus now txID status th bh bn bt succ fail sv = (r, sv')"
    "status \<noteq> TransactionStatusInit" "txID \<in> I"
  shows "advances I (tMatchTxs (dbTables sv)) (tMatchTxs (dbTables sv'))"
proof -
  obtain g sv1 where q: "GetMatchTransaction txID sv = (g, sv1)" by fastforce
  note t = GetMatchTransaction_tables [OF q]
  consider "dbTables sv' = dbTables sv1"
    | h r s where "UpdateOrdersStatus now txID status th bh bn bt succ fail (enter h sv1) = (r, s)" "dbTables sv' = dbTables s"
    using assms(1) q
    by (cases g) (auto simp: serverUpdateOrdersStatus_def split: option.splits dest!: onHandler_tables)
  then show ?thesis
  proof cases
    case 1
    with t show ?thesis by simp
  next
    case (2 h r s)
    from 2(1) have "advances I (tMatchTxs (dbTables (enter h sv1))) (tMatchTxs (dbTables s))"
      by (rule UpdateOrdersStatus_txs) (use assms(2,3) advances_replaced in auto)
    with 2(2) t show ?thesis by simp
  qed
qed

lemma serverRollbackOrdersStatus_txs:
  assumes "serverRollbackOrdersStatus now txID status th bh bn bt succ fail sv = (r, sv')"
    "status \<noteq> TransactionStatusInit" "txID \<in> I"
  shows "advances I (tMatchTxs (dbTables sv)) (tMatchTxs (dbTables sv'))"
proof -
  obtain g sv1 where q: "GetMatchTransaction txID sv = (g, sv1)" by fastforce
  note t = GetMatchTransaction_tables [OF q]
  consider "dbTables sv' = dbTables sv1"
    | tx h r s where "g = Inr tx" "RollbackOrdersStatus now tx status th bh bn bt succ fail (enter h sv1) = (r, s)"
        "dbTables sv' = dbTables s"
    using assms(1) q
    by (cases g) (auto simp: serverRollbackOrdersStatus_def split: option.splits dest!: onHandler_tables)
  then show ?thesis
  proof cases
    case 1
    with t show ?thesis by simp
  next
    case (2 tx h r s)
    note tx = run_GetMatchTransaction_Inr [OF q [unfolded 2(1)]]
    have "tx \<in> set (tMatchTxs (dbTables (enter h sv1)))" using tx(2,3) by simp
    with 2(2) have "advances I (tMatchTxs (dbTables (enter h sv1))) (tMatchTxs (dbTables s))"
      by (rule RollbackOrdersStatus_txs) (use assms(2,3) tx(1) advances_replaced in auto)
    with 2(3) t show ?thesis by simp
  qed
qed

lemma serverMatchOrders_txs:
  assumes "serverMatchOrders L env cf uuid key sv = Some sv'"
  obtains "tMatchTxs (dbTables sv') = tMatchTxs (dbTables sv)"
  | tx where "mtStatus tx = TransactionStatusInit" "mtID tx \<notin> mtID ` set (tMatchTxs (dbTables sv))"
      "tMatchTxs (dbTables sv') = tMatchTxs (dbTables sv) @ [tx]"
proof (cases "map_of (svHandlers sv) key")
  case None
  with assms that(1) show ?thesis by (simp add: serverMatchOrders_def)
next
  case (Some h)
  with assms obtain s where s: "matchOrders L env cf (hPerp h) uuid (enter h sv) = Some s" "sv' = leave key (hPerp h) s sv"
    by (auto simp: serverMatchOrders_def bind_Some_iff)
  from s(1) show ?thesis by (rule matchOrders_txs) (use s(2) that in simp_all)
qed

text \<open>Orders come, are cancelled and expire without a change of the match transactions.\<close>

lemma cancelOrderWithoutLock_txs:
  assumes "cancelOrderWithoutLock now h reason all amount s = (r, s')"
  shows "tMatchTxs (dbTables s') = tMatchTxs (dbTables s)"
proof -
  have del: "txs_kept b T (\<lambda>s. (Inr x, deleteOrderTimer h s))" for b T and x :: "Order option"
    by (simp add: gives_def)
  have upd: "txs_kept b T (case CancelOrder now ord reason a of
      Inl e \<Rightarrow> throwE e | Inr ord \<Rightarrow> bindE (UpdateOrder now ord) (\<lambda>ord. retE (Some ord)))" for b T ord a
    by (cases "CancelOrder now ord reason a") (auto intro: gives_throw txs_bind [OF txs_UpdateOrder txs_ret])
  have found: "txs_kept b T (cancelFound now h reason all amount ord bo)" for b T ord bo
  proof (cases "cancelAmounts ord bo all amount")
    case None
    then show ?thesis by (simp add: cancelFound_def gives_def)
  next
    case (Some ab)
    obtain a b where ab: "ab = (a, b)" by fastforce
    show ?thesis unfolding cancelFound_def Some ab option.case prod.case
      by (intro txs_bind gives_if gives_case_option gives_throw txs_ret txs_book upd del)
  qed
  have "txs_kept b T (cancelBody now h reason all amount)" for b T
    unfolding cancelBody_def by (rule txs_bind [OF txs_GetOrderByHash]) (use found in \<open>auto simp: gives_def\<close>)
  note tx = givesD [OF txs_Transaction [OF this], of False "tMatchTxs (dbTables s)" s]
  obtain r1 s1 where c: "Transaction (cancelBody now h reason all amount) s = (r1, s1)" by fastforce
  with tx have "tMatchTxs (dbTables s1) = tMatchTxs (dbTables s)" by (simp add: txs_are_def)
  with assms c show ?thesis
    by (auto simp: cancelOrderWithoutLock_def notifyAll_def split: sum.splits option.splits)
qed

section \<open>A settlement without faults\<close>

abbreviation calm :: "(mstate, 'a) dbm \<Rightarrow> bool" where
  "calm m \<equiv> gives (\<lambda>s. dbFaults s = []) m (\<lambda>_. True)"

lemma calm_kept: "(\<And>T. txs_kept True T m) \<Longrightarrow> calm m"
  unfolding gives_def txs_are_def by blast

lemma calm_bind: "calm m \<Longrightarrow> (\<And>x. calm (f x)) \<Longrightarrow> calm (bindE m f)"
  by (rule gives_bind)

lemma calm_Transaction: "calm body \<Longrightarrow> calm (Transaction body)"
  unfolding gives_def
proof (intro allI impI)
  fix s :: mstate and r s'
  assume c: "\<forall>s r s'. dbFaults s = [] \<longrightarrow> body s = (r, s') \<longrightarrow> dbFaults s' = [] \<and> (\<forall>x. r = Inr x \<longrightarrow> True)"
    and s: "dbFaults s = []" "Transaction body s = (r, s')"
  obtain r1 s1 where b: "body s = (r1, s1)" by fastforce
  with c s(1) have "dbFaults s1 = []" by blast
  with s(2) b have "dbFaults s' = []" by (cases r1) (auto simp: Transaction_def dbCall_def)
  then show "dbFaults s' = [] \<and> (\<forall>x. r = Inr x \<longrightarrow> True)" by simp
qed

lemma UpdateOrdersStatus_calm:
  assumes "UpdateOrdersStatus now txID status th bh bn bt succ fail s = (r, s')" "dbFaults s = []"
  shows "dbFaults s' = []"
proof -
  have q: "calm (GetMatchTransaction txID)" "calm (UpdateMatchTransaction tx)" for tx
    by (auto simp: gives_def GetMatchTransaction_def UpdateMatchTransaction_def dbCall_def Let_def
        split: option.splits if_splits)
  have u: "calm (updateOrdersByTradeEvent now tx succ fail)" for tx
    unfolding updateOrdersByTradeEvent_def Let_def
    by (intro calm_bind calm_kept txs_queries txs_updateOrdersLoop txs_ret)
  have "calm (\<lambda>s. (case x of (tx, ords) \<Rightarrow> bindE (UpdateMatchTransaction tx) (\<lambda>_. retE ords)) s)"
    for x :: "MatchTransaction \<times> Order list"
  proof (cases x)
    case (Pair tx ords)
    have "calm (bindE (UpdateMatchTransaction tx) (\<lambda>_. retE ords))" by (rule calm_bind [OF q(2)]) (simp add: gives_ret)
    with Pair show ?thesis by simp
  qed
  then have "calm (updateStatusTx now txID status th bh bn bt succ fail)"
    unfolding updateStatusTx_def Let_def by (intro calm_Transaction calm_bind q u) simp
  from givesD [OF this assms(2), of "fst (updateStatusTx now txID status th bh bn bt succ fail s)"]
  have "dbFaults (snd (updateStatusTx now txID status th bh bn bt succ fail s)) = []" by simp
  with assms(1) show ?thesis
    by (auto simp: UpdateOrdersStatus_def notifyAll_def split: prod.splits sum.splits)
qed

lemma serverUpdateOrdersStatus_calm:
  assumes "serverUpdateOrdersStatus now txID status th bh bn bt succ fail sv = (r, sv')" "dbFaults sv = []"
  shows "dbFaults sv' = []"
proof -
  obtain g where g: "GetMatchTransaction txID sv = (g, sv)"
    using assms(2)
    by (cases "find (\<lambda>r. mtID r = txID) (tMatchTxs (dbTables sv))") (simp_all add: GetMatchTransaction_def dbCall_def)
  show ?thesis
  proof (cases g)
    case (Inl e)
    with assms g show ?thesis by (simp add: serverUpdateOrdersStatus_def)
  next
    case (Inr mtx)
    show ?thesis
    proof (cases "getMatchHandler (mtLiquidityPoolAddress mtx) (mtPerpetualIndex mtx) sv")
      case None
      with assms g Inr show ?thesis by (simp add: serverUpdateOrdersStatus_def)
    next
      case (Some h)
      obtain r1 s1 where c: "UpdateOrdersStatus now txID status th bh bn bt succ fail (enter h sv) = (r1, s1)" by fastforce
      with assms(1) g Inr Some have "dbFaults sv' = dbFaults s1"
        by (auto simp: serverUpdateOrdersStatus_def onHandler_def)
      with UpdateOrdersStatus_calm [OF c] assms(2) show ?thesis by simp
    qed
  qed
qed

end
