(* ===== verification/Launch_Invariant.thy ===== *)
theory Launch_Invariant
  imports Launcher Match_Txs
begin

text \<open>
  The rows of \<^verbatim>\<open>launch_transactions\<close> along every operation of the launcher: they keep their key
  and what they were created for, no row disappears, and the status of a row says which of its
  nullable columns are set. The rules for statements and transactions are proved once, for
  computations that may fail at every statement.
\<close>

section \<open>Well-formed rows\<close>

text \<open>What a row was created for; it never changes.\<close>

definition purpose :: "LaunchTransaction \<Rightarrow> string \<times> string \<times> string \<times> TransactionType \<times> byte list \<times> decimal \<times> time" where
  "purpose t = (ltTxID t, ltFromAddress t, ltToAddress t, ltType t, ltInputs t, ltValue t, ltCommitTime t)"

text \<open>The nullable columns that the status of a row calls for.\<close>

definition tx_wf :: "LaunchTransaction \<Rightarrow> bool" where
  "tx_wf t \<longleftrightarrow>
     (ltStatus t = TxInitial \<longrightarrow> ltTransactionHash t = None) \<and>
     (ltStatus t \<in> {TxPending, TxSuccess, TxFailed} \<longrightarrow> ltTransactionHash t \<noteq> None \<and> ltNonce t \<noteq> None) \<and>
     (ltStatus t \<in> {TxSuccess, TxFailed} \<longrightarrow> ltBlockNumber t \<noteq> None \<and> ltBlockHash t \<noteq> None \<and> ltBlockTime t \<noteq> None)"

definition launch_ok :: "lstate \<Rightarrow> bool" where
  "launch_ok s \<longleftrightarrow> distinct (map ltID (lsTxs s)) \<and> 0 < lsNextTx s \<and>
     (\<forall>r \<in> set (lsTxs s). 0 < ltID r \<and> ltID r < lsNextTx s \<and> tx_wf r) \<and>
     (\<forall>r \<in> set (lsTxs s). \<forall>r' \<in> set (lsTxs s). ltTxID r = ltTxID r' \<longrightarrow> purpose r = purpose r')"

lemma launch_okD:
  assumes "launch_ok s"
  shows "distinct (map ltID (lsTxs s))" "0 < lsNextTx s"
    "r \<in> set (lsTxs s) \<Longrightarrow> 0 < ltID r" "r \<in> set (lsTxs s) \<Longrightarrow> ltID r < lsNextTx s" "r \<in> set (lsTxs s) \<Longrightarrow> tx_wf r"
    "r \<in> set (lsTxs s) \<Longrightarrow> r' \<in> set (lsTxs s) \<Longrightarrow> ltTxID r = ltTxID r' \<Longrightarrow> purpose r = purpose r'"
  using assms unfolding launch_ok_def by blast+

lemma launch_okI:
  assumes "distinct (map ltID (lsTxs s))" "0 < lsNextTx s"
    "\<And>r. r \<in> set (lsTxs s) \<Longrightarrow> 0 < ltID r \<and> ltID r < lsNextTx s \<and> tx_wf r"
    "\<And>r r'. r \<in> set (lsTxs s) \<Longrightarrow> r' \<in> set (lsTxs s) \<Longrightarrow> ltTxID r = ltTxID r' \<Longrightarrow> purpose r = purpose r'"
  shows "launch_ok s"
  using assms unfolding launch_ok_def by blast

text \<open>A value read from the table earlier: its row is still there.\<close>

definition known :: "LaunchTransaction \<Rightarrow> lstate \<Rightarrow> bool" where
  "known t s \<longleftrightarrow> (\<exists>r \<in> set (lsTxs s). ltID r = ltID t \<and> purpose r = purpose t)"

definition txIDs :: "lstate \<Rightarrow> string set" where
  "txIDs s = ltTxID ` set (lsTxs s)"

text \<open>
  No row is lost, no row is made for a new purpose, and only match transactions that have been
  launched have moved on.
\<close>

definition grows :: "lstate \<Rightarrow> lstate \<Rightarrow> bool" where
  "grows s s' \<longleftrightarrow> lsNextTx s \<le> lsNextTx s' \<and> (\<forall>r \<in> set (lsTxs s). known r s') \<and>
     purpose ` set (lsTxs s') \<subseteq> purpose ` set (lsTxs s) \<and>
     advances (txIDs s) (tMatchTxs (dbTables s)) (tMatchTxs (dbTables s'))"

lemma growsI:
  "lsNextTx s \<le> lsNextTx s' \<Longrightarrow> (\<And>r. r \<in> set (lsTxs s) \<Longrightarrow> known r s') \<Longrightarrow>
   purpose ` set (lsTxs s') \<subseteq> purpose ` set (lsTxs s) \<Longrightarrow>
   advances (txIDs s) (tMatchTxs (dbTables s)) (tMatchTxs (dbTables s')) \<Longrightarrow> grows s s'"
  by (simp add: grows_def)

lemma known_row: "r \<in> set (lsTxs s) \<Longrightarrow> known r s"
  by (auto simp: known_def)

lemma known_purpose: "known t s \<Longrightarrow> purpose t \<in> purpose ` set (lsTxs s)"
  unfolding known_def by (metis imageI)

lemma known_txID: "known t s \<Longrightarrow> ltTxID t \<in> txIDs s"
  unfolding known_def txIDs_def purpose_def by (metis imageI prod.inject)

lemma grows_same:
  "lsTxs s' = lsTxs s \<Longrightarrow> lsNextTx s \<le> lsNextTx s' \<Longrightarrow>
   advances (txIDs s) (tMatchTxs (dbTables s)) (tMatchTxs (dbTables s')) \<Longrightarrow> grows s s'"
  by (auto simp: grows_def known_def)

lemma grows_refl [simp]: "grows s s"
  by (rule grows_same) simp_all

lemma known_grows: "known t s \<Longrightarrow> grows s s' \<Longrightarrow> known t s'"
  by (fastforce simp: known_def grows_def)

lemma grows_txIDs:
  assumes "grows s s'"
  shows "txIDs s' = txIDs s"
proof
  have f: "txIDs x = fst ` purpose ` set (lsTxs x)" for x by (force simp: txIDs_def purpose_def image_iff)
  show "txIDs s' \<subseteq> txIDs s" using assms unfolding f grows_def by blast
  show "txIDs s \<subseteq> txIDs s'" using assms known_txID unfolding grows_def txIDs_def by blast
qed

lemma grows_trans:
  assumes "grows s s'" "grows s' s''"
  shows "grows s s''"
proof (rule growsI)
  show "lsNextTx s \<le> lsNextTx s''" using assms by (simp add: grows_def)
  show "known r s''" if "r \<in> set (lsTxs s)" for r
    using that assms known_grows known_row by blast
  show "purpose ` set (lsTxs s'') \<subseteq> purpose ` set (lsTxs s)" using assms unfolding grows_def by blast
  show "advances (txIDs s) (tMatchTxs (dbTables s)) (tMatchTxs (dbTables s''))"
    using assms grows_txIDs [OF assms(1)] advances_trans unfolding grows_def by metis
qed

lemma launch_ok_same:
  "lsTxs s' = lsTxs s \<Longrightarrow> lsNextTx s \<le> lsNextTx s' \<Longrightarrow> launch_ok s \<Longrightarrow> launch_ok s'"
  unfolding launch_ok_def by (metis order_less_le_trans)

lemma launch_ok_simps [simp]:
  "launch_ok (s\<lparr> dbFaults := fs \<rparr>) = launch_ok s" "known t (s\<lparr> dbFaults := fs \<rparr>) = known t s"
  by (simp_all add: launch_ok_def known_def)

section \<open>Rules for computations\<close>

text \<open>
  From a state with well-formed rows that satisfies \<open>A\<close>, the computation keeps the rows
  well-formed and loses none, and a result satisfies \<open>Q\<close>.
\<close>

definition runs :: "(lstate \<Rightarrow> bool) \<Rightarrow> (lstate, 'a) dbm \<Rightarrow> ('a \<Rightarrow> lstate \<Rightarrow> bool) \<Rightarrow> bool" where
  "runs A m Q \<longleftrightarrow> (\<forall>s r s'. launch_ok s \<longrightarrow> A s \<longrightarrow> m s = (r, s') \<longrightarrow>
     launch_ok s' \<and> grows s s' \<and> (\<forall>x. r = Inr x \<longrightarrow> Q x s'))"

definition stable :: "(lstate \<Rightarrow> bool) \<Rightarrow> bool" where
  "stable A \<longleftrightarrow> (\<forall>s s'. A s \<longrightarrow> grows s s' \<longrightarrow> A s')"

named_theorems stable_intros

lemma stable_known [stable_intros]: "stable (known t)"
  by (auto simp: stable_def intro: known_grows)

lemma stable_const [stable_intros]: "stable (\<lambda>_. b)"
  by (simp add: stable_def)

lemma stable_conj [stable_intros]: "stable A \<Longrightarrow> stable B \<Longrightarrow> stable (\<lambda>s. A s \<and> B s)"
  by (auto simp: stable_def)

lemma stable_ball [stable_intros]: "(\<And>t. stable (A t)) \<Longrightarrow> stable (\<lambda>s. \<forall>t \<in> T. A t s)"
  by (auto simp: stable_def)

lemma runsD:
  "runs A m Q \<Longrightarrow> launch_ok s \<Longrightarrow> A s \<Longrightarrow> m s = (r, s') \<Longrightarrow> launch_ok s' \<and> grows s s'"
  unfolding runs_def by blast

lemma runs_snd: "runs A m Q \<Longrightarrow> launch_ok s \<Longrightarrow> A s \<Longrightarrow> launch_ok (snd (m s)) \<and> grows s (snd (m s))"
  using runsD [of A m Q s "fst (m s)" "snd (m s)"] by simp

lemma runs_ret: "(\<And>s. A s \<Longrightarrow> Q x s) \<Longrightarrow> runs A (retE x) Q"
  by (auto simp: runs_def)

lemma runs_throw: "runs A (throwE e) Q"
  by (auto simp: runs_def)

lemma runs_weaken:
  "runs A m Q \<Longrightarrow> (\<And>s. B s \<Longrightarrow> A s) \<Longrightarrow> (\<And>x s. Q x s \<Longrightarrow> R x s) \<Longrightarrow> runs B m R"
  unfolding runs_def by blast

lemma runs_frame: "runs A m Q \<Longrightarrow> stable B \<Longrightarrow> runs (\<lambda>s. A s \<and> B s) m (\<lambda>x s. Q x s \<and> B s)"
  unfolding runs_def stable_def by blast

lemma runs_bind:
  assumes "runs A m Q" "\<And>x. runs (Q x) (f x) R"
  shows "runs A (bindE m f) R"
  unfolding runs_def
proof (intro allI impI)
  fix s r s'
  assume s: "launch_ok s" "A s" "bindE m f s = (r, s')"
  obtain r1 s1 where m: "m s = (r1, s1)" by fastforce
  note w = assms(1) [unfolded runs_def, rule_format, OF s(1,2) m]
  show "launch_ok s' \<and> grows s s' \<and> (\<forall>x. r = Inr x \<longrightarrow> R x s')"
  proof (cases r1)
    case (Inl e)
    with m s(3) w show ?thesis by auto
  next
    case (Inr x)
    with m s(3) have f: "f x s1 = (r, s')" by simp
    from w Inr have "launch_ok s1" "Q x s1" "grows s s1" by simp_all
    with assms(2) [of x, unfolded runs_def, rule_format, OF _ _ f] show ?thesis using grows_trans by blast
  qed
qed

text \<open>A fact that later steps need is carried past a step that does not need it.\<close>

lemma runs_bind_frame:
  assumes "runs A m Q" "stable B" "\<And>x. runs (\<lambda>s. Q x s \<and> B s) (f x) R"
  shows "runs (\<lambda>s. A s \<and> B s) (bindE m f) R"
  by (rule runs_bind [OF runs_frame [OF assms(1,2)] assms(3)])

lemma runs_dbCall:
  assumes "runs A m Q" "stable A"
  shows "runs A (dbCall m) Q"
  unfolding runs_def
proof (intro allI impI)
  fix s r s'
  assume s: "launch_ok s" "A s" "dbCall m s = (r, s')"
  have g: "grows s (s\<lparr> dbFaults := fs \<rparr>)" for fs by (rule grows_same) simp_all
  have A: "A (s\<lparr> dbFaults := fs \<rparr>)" for fs using assms(2) s(2) g unfolding stable_def by blast
  show "launch_ok s' \<and> grows s s' \<and> (\<forall>x. r = Inr x \<longrightarrow> Q x s')"
  proof (cases "dbFaults s")
    case Nil
    with s assms(1) show ?thesis unfolding runs_def by (simp add: dbCall_def)
  next
    case (Cons f fs)
    show ?thesis
    proof (cases f)
      case True
      with Cons s g [of fs] show ?thesis by (auto simp: dbCall_def Let_def)
    next
      case False
      with Cons s(3) have "m (s\<lparr> dbFaults := fs \<rparr>) = (r, s')" by (simp add: dbCall_def Let_def)
      with assms(1) A [of fs] s(1) g [of fs] grows_trans show ?thesis
        unfolding runs_def by (metis launch_ok_simps(1))
    qed
  qed
qed

text \<open>A query: the result is computed from the rows.\<close>

lemma runs_read:
  "(\<And>s x. launch_ok s \<Longrightarrow> f s = Inr x \<Longrightarrow> Q x s) \<Longrightarrow> runs (\<lambda>_. True) (dbCall (\<lambda>s. (f s, s))) Q"
  by (rule runs_dbCall) (auto simp: runs_def stable_def)

text \<open>A transaction that is undone leaves the rows of its beginning.\<close>

lemma undo_simps [simp]:
  "lsTxs (undoLaunch s s') = lsTxs s" "lsNextTx (undoLaunch s s') = lsNextTx s'"
  "lsTxs (undoAll s s') = lsTxs s" "lsNextTx (undoAll s s') = lsNextTx s'"
  by (simp_all add: undoLaunch_def undoAll_def)

lemma grows_undo: "grows s s' \<Longrightarrow> grows s (undoLaunch s s')"
  by (rule grows_same) (auto simp: grows_def undoLaunch_def)

lemma runs_launchTx:
  assumes "runs A body Q" "\<And>x. stable (Q x)"
  shows "runs A (launchTx body) Q"
  unfolding runs_def
proof (intro allI impI)
  fix s r s'
  assume s: "launch_ok s" "A s" "launchTx body s = (r, s')"
  obtain r1 s1 where b: "body s = (r1, s1)" by fastforce
  note w = assms(1) [unfolded runs_def, rule_format, OF s(1,2) b]
  have undo: "launch_ok (undoLaunch s s2) \<and> grows s (undoLaunch s s2)" if "grows s s2" for s2
  proof -
    have "lsNextTx s \<le> lsNextTx (undoLaunch s s2)" using that by (simp add: grows_def)
    with s(1) launch_ok_same [of "undoLaunch s s2" s] grows_undo [OF that] show ?thesis by simp
  qed
  show "launch_ok s' \<and> grows s s' \<and> (\<forall>x. r = Inr x \<longrightarrow> Q x s')"
  proof (cases r1)
    case (Inl e)
    with b s(3) w undo [of s1] show ?thesis by (auto simp: launchTx_def beginTx_def)
  next
    case (Inr x)
    obtain r2 s2 where c: "dbCall (retE x) s1 = (r2, s2)" by fastforce
    have "runs (Q x) (dbCall (retE x)) Q" by (rule runs_dbCall [OF runs_ret assms(2)])
    from this [unfolded runs_def, rule_format, OF _ _ c] w Inr
    have q: "launch_ok s2" "grows s s2" "\<And>y. r2 = Inr y \<Longrightarrow> Q y s2" using grows_trans by blast+
    with b Inr c s(3) undo [OF q(2)] show ?thesis by (auto simp: launchTx_def beginTx_def split: sum.splits)
  qed
qed

text \<open>A call of the match server: it moves on match transactions that have been launched.\<close>

lemma truncate_simps [simp]: "dbTables (server.truncate s) = dbTables s"
  by (simp add: server.defs)

lemma runs_onServer:
  assumes "\<And>s r sv'. A s \<Longrightarrow> m (server.truncate s) = (r, sv') \<Longrightarrow>
    advances (txIDs s) (tMatchTxs (dbTables s)) (tMatchTxs (dbTables sv'))"
  shows "runs A (onServer m) (\<lambda>_ _. True)"
  unfolding runs_def
proof (intro allI impI)
  fix s r s'
  assume s: "launch_ok s" "A s" "onServer m s = (r, s')"
  obtain r1 sv' where m: "m (server.truncate s) = (r1, sv')" by fastforce
  with s(3) have s': "lsTxs s' = lsTxs s" "lsNextTx s' = lsNextTx s" "dbTables s' = dbTables sv'"
    by (auto simp: onServer_def withServer_def)
  with assms [OF s(2) m] s(1) launch_ok_same [of s' s] show "launch_ok s' \<and> grows s s' \<and> (\<forall>x. r = Inr x \<longrightarrow> True)"
    by (simp add: grows_same)
qed

text \<open>Settling and rolling back a launched transaction.\<close>

lemma runs_settle:
  assumes "status \<noteq> TransactionStatusInit"
  shows "runs (\<lambda>s. txID \<in> txIDs s) (onServer (serverUpdateOrdersStatus now txID status th bh bn bt succ fail)) (\<lambda>_ _. True)"
  by (rule runs_onServer) (metis serverUpdateOrdersStatus_txs [OF _ assms] truncate_simps)

lemma runs_rollback:
  assumes "status \<noteq> TransactionStatusInit"
  shows "runs (\<lambda>s. txID \<in> txIDs s) (onServer (serverRollbackOrdersStatus now txID status th bh bn bt succ fail)) (\<lambda>_ _. True)"
  by (rule runs_onServer) (metis serverRollbackOrdersStatus_txs [OF _ assms] truncate_simps)

lemma stable_txIDs [stable_intros]: "stable (\<lambda>s. i \<in> txIDs s)"
  using grows_txIDs by (auto simp: stable_def)

lemma runs_deref: "runs (\<lambda>_. True) (deref p) (\<lambda>x _. p = Some x)"
  by (auto simp: runs_def deref_def split: option.splits)

section \<open>Statements\<close>

lemma launch_ok_replace:
  assumes "launch_ok s" "known row s" "tx_wf row"
  defines "s' \<equiv> s\<lparr> lsTxs := map (\<lambda>r. if ltID r = ltID row then row else r) (lsTxs s) \<rparr>"
  shows "launch_ok s'" "grows s s'" "known row s'"
proof -
  note ok = launch_okD [OF assms(1)]
  obtain r0 where r0: "r0 \<in> set (lsTxs s)" "ltID r0 = ltID row" "purpose r0 = purpose row"
    using assms(2) by (auto simp: known_def)
  have u: "r = r0" if "r \<in> set (lsTxs s)" "ltID r = ltID row" for r
    using ok(1) that r0(1,2) by (metis distinct_map inj_onD)
  have l: "lsTxs s' = map (\<lambda>r. if ltID r = ltID row then row else r) (lsTxs s)" "lsNextTx s' = lsNextTx s"
    by (simp_all add: s'_def)
  have ids: "map ltID (lsTxs s') = map ltID (lsTxs s)" by (simp add: l)
  have rows: "r = row \<or> r \<in> set (lsTxs s)" if "r \<in> set (lsTxs s')" for r
    using that by (auto simp: l)
  have old: "\<exists>r' \<in> set (lsTxs s). ltID r' = ltID r \<and> purpose r' = purpose r" if "r \<in> set (lsTxs s')" for r
    using rows [OF that] r0 by blast
  show "launch_ok s'"
  proof (rule launch_okI)
    show "distinct (map ltID (lsTxs s'))" "0 < lsNextTx s'" using ok(1,2) ids l(2) by simp_all
    show "0 < ltID r \<and> ltID r < lsNextTx s' \<and> tx_wf r" if "r \<in> set (lsTxs s')" for r
      using rows [OF that] old [OF that] ok(3-5) assms(3) l(2) by metis
    show "purpose r = purpose r'" if r: "r \<in> set (lsTxs s')" "r' \<in> set (lsTxs s')" "ltTxID r = ltTxID r'" for r r'
    proof -
      obtain q where q: "q \<in> set (lsTxs s)" "purpose q = purpose r" using old [OF r(1)] by blast
      obtain q' where q': "q' \<in> set (lsTxs s)" "purpose q' = purpose r'" using old [OF r(2)] by blast
      have "ltTxID q = ltTxID q'" using r(3) q(2) q'(2) by (simp add: purpose_def)
      with ok(6) [OF q(1) q'(1)] q(2) q'(2) show ?thesis by simp
    qed
  qed
  have "row \<in> set (lsTxs s')" using r0 by (force simp: l)
  then show k: "known row s'" by (rule known_row)
  have "known r s'" if r: "r \<in> set (lsTxs s)" for r
  proof (cases "ltID r = ltID row")
    case True
    with u [OF r] r0 k show ?thesis by (simp add: known_def)
  next
    case False
    with r have "r \<in> set (lsTxs s')" by (force simp: l)
    then show ?thesis by (rule known_row)
  qed
  moreover have "purpose ` set (lsTxs s') \<subseteq> purpose ` set (lsTxs s)"
  proof
    fix p
    assume "p \<in> purpose ` set (lsTxs s')"
    then obtain r where r: "r \<in> set (lsTxs s')" "p = purpose r" by blast
    then obtain r' where "r' \<in> set (lsTxs s)" "p = purpose r'" using old [OF r(1)] by metis
    then show "p \<in> purpose ` set (lsTxs s)" by blast
  qed
  ultimately show "grows s s'" by (simp add: grows_def l(2)) (simp add: s'_def)
qed

lemma launch_ok_append:
  assumes "launch_ok s" "purpose row \<in> purpose ` set (lsTxs s) \<or> ltTxID row \<notin> ltTxID ` set (lsTxs s)"
    "tx_wf row" "ltID row = lsNextTx s"
  shows "launch_ok (s\<lparr> lsTxs := lsTxs s @ [row], lsNextTx := lsNextTx s + 1 \<rparr>)"
proof (rule launch_okI)
  note ok = launch_okD [OF assms(1)]
  let ?s = "s\<lparr> lsTxs := lsTxs s @ [row], lsNextTx := lsNextTx s + 1 \<rparr>"
  have l: "lsTxs ?s = lsTxs s @ [row]" "lsNextTx ?s = lsNextTx s + 1" by simp_all
  have p: "purpose r = purpose row" if r: "r \<in> set (lsTxs s)" "ltTxID r = ltTxID row" for r
  proof -
    have "ltTxID row \<in> ltTxID ` set (lsTxs s)" using r by (metis imageI)
    with assms(2) obtain r' where r': "r' \<in> set (lsTxs s)" "purpose row = purpose r'" by blast
    with r(2) have "ltTxID r = ltTxID r'" by (simp add: purpose_def)
    from ok(6) [OF r(1) r'(1) this] r'(2) show ?thesis by simp
  qed
  have "ltID row \<notin> ltID ` set (lsTxs s)"
  proof
    assume "ltID row \<in> ltID ` set (lsTxs s)"
    then obtain r where r: "r \<in> set (lsTxs s)" "ltID row = ltID r" by blast
    with ok(4) [OF r(1)] assms(4) show False by simp
  qed
  with ok(1) show "distinct (map ltID (lsTxs ?s))" by (simp add: l)
  show "0 < lsNextTx ?s" using ok(2) by simp
  show "0 < ltID r \<and> ltID r < lsNextTx ?s \<and> tx_wf r" if "r \<in> set (lsTxs ?s)" for r
    using that ok(2) ok(3-5) [of r] assms(3,4) by (cases "r = row") auto
  show "purpose r = purpose r'" if "r \<in> set (lsTxs ?s)" "r' \<in> set (lsTxs ?s)" "ltTxID r = ltTxID r'" for r r'
    using that p [of r] p [of r'] ok(6) [of r r'] by (cases "r = row"; cases "r' = row") (auto simp: l)
qed

lemma UpdateTx_runs:
  assumes "tx_wf tx"
  shows "runs (known tx) (UpdateTx now tx)
    (\<lambda>tx' s. known tx' s \<and> purpose tx' = purpose tx \<and> ltID tx' = ltID tx \<and> tx' = tx\<lparr> ltUpdateTime := now \<rparr>)"
  unfolding UpdateTx_def
proof (rule runs_dbCall [OF _ stable_known])
  let ?t = "tx\<lparr> ltUpdateTime := now \<rparr>"
  have t: "purpose ?t = purpose tx" "ltID ?t = ltID tx" "tx_wf ?t"
    using assms by (simp_all add: purpose_def tx_wf_def)
  show "runs (known tx) (saveTx ?t)
    (\<lambda>tx' s. known tx' s \<and> purpose tx' = purpose tx \<and> ltID tx' = ltID tx \<and> tx' = ?t)"
    unfolding runs_def
  proof (intro allI impI)
    fix s r s'
    assume s: "launch_ok s" "known tx s" "saveTx ?t s = (r, s')"
    have k: "known ?t s" using s(2) t by (simp add: known_def)
    then obtain r0 where r0: "r0 \<in> set (lsTxs s)" "ltID r0 = ltID ?t" by (auto simp: known_def)
    moreover have "ltID ?t \<noteq> 0" using launch_okD(3) [OF s(1) r0(1)] r0(2) by simp
    ultimately have ex: "ltID ?t \<noteq> 0 \<and> (\<exists>r \<in> set (lsTxs s). ltID r = ltID ?t)" by blast
    have "r = Inr ?t" "s' = s\<lparr> lsTxs := map (\<lambda>r. if ltID r = ltID ?t then ?t else r) (lsTxs s) \<rparr>"
      using s(3) unfolding saveTx_def if_P [OF ex] prod.inject by (rule conjunct1 [THEN sym], rule conjunct2 [THEN sym])
    with launch_ok_replace [OF s(1) k t(3)] t show "launch_ok s' \<and> grows s s' \<and>
      (\<forall>x. r = Inr x \<longrightarrow> known x s' \<and> purpose x = purpose tx \<and> ltID x = ltID tx \<and> x = ?t)" by simp
  qed
qed

text \<open>The same with a changed copy of a row that was read.\<close>

lemma UpdateTx_copy_runs:
  assumes "tx_wf t" "purpose t = purpose tx" "ltID t = ltID tx"
  shows "runs (known tx) (UpdateTx now t) (\<lambda>t' s. known t' s \<and> ltTxID t' \<in> txIDs s \<and> ltStatus t' = ltStatus t)"
proof (rule runs_weaken [OF UpdateTx_runs [OF assms(1)]])
  show "known t s" if "known tx s" for s using that assms(2,3) by (simp add: known_def)
next
  fix t' s
  assume "known t' s \<and> purpose t' = purpose t \<and> ltID t' = ltID t \<and> t' = t\<lparr> ltUpdateTime := now \<rparr>"
  then show "known t' s \<and> ltTxID t' \<in> txIDs s \<and> ltStatus t' = ltStatus t"
    using known_txID [of t' s] by auto
qed

lemma stable_purpose [stable_intros]: "stable (\<lambda>s. p \<in> purpose ` set (lsTxs s))"
proof (unfold stable_def, intro allI impI)
  fix s s'
  assume s: "p \<in> purpose ` set (lsTxs s)" "grows s s'"
  then obtain r where r: "p = purpose r" "r \<in> set (lsTxs s)" by blast
  then have "known r s'" using s(2) by (simp add: grows_def)
  from known_purpose [OF this] r(1) show "p \<in> purpose ` set (lsTxs s')" by simp
qed

text \<open>A second row for a known purpose.\<close>

lemma CreateTx_copy_runs:
  assumes "tx_wf tx" "ltID tx = 0"
  shows "runs (\<lambda>s. purpose tx \<in> purpose ` set (lsTxs s)) (CreateTx now tx) (\<lambda>_ _. True)"
  unfolding CreateTx_def
proof (rule runs_dbCall [OF _ stable_purpose])
  let ?t = "tx\<lparr> ltUpdateTime := now \<rparr>"
  show "runs (\<lambda>s. purpose tx \<in> purpose ` set (lsTxs s)) (insertTx ?t) (\<lambda>_ _. True)"
    unfolding runs_def
  proof (intro allI impI)
    fix s r s'
    assume s: "launch_ok s" "purpose tx \<in> purpose ` set (lsTxs s)" "insertTx ?t s = (r, s')"
    let ?r = "?t\<lparr> ltID := lsNextTx s \<rparr>"
    have r: "purpose ?r = purpose tx" "tx_wf ?r" "ltID ?r = lsNextTx s"
      using assms(1) by (simp_all add: purpose_def tx_wf_def)
    have s': "s' = s\<lparr> lsTxs := lsTxs s @ [?r], lsNextTx := lsNextTx s + 1 \<rparr>"
      using s(3) assms(2) by (simp add: insertTx_def Let_def)
    have "launch_ok s'" unfolding s' by (rule launch_ok_append) (use s r in simp_all)
    moreover have "grows s s'" using s(2) r(1) by (auto simp: grows_def s' known_def)
    ultimately show "launch_ok s' \<and> grows s s' \<and> (\<forall>x. r = Inr x \<longrightarrow> True)" by simp
  qed
qed

lemma rows_loaded:
  assumes "launch_ok s" "set rows \<subseteq> set (lsTxs s)" "t \<in> set rows"
  shows "known t s" "tx_wf t"
  using assms launch_okD(5) [OF assms(1)] known_row by blast+

lemma firstRow_Inr: "firstRow c rows = Inr t \<Longrightarrow> t \<in> set rows"
  by (auto simp: firstRow_def split: list.splits)

lemma FirstTxByUser_runs:
  "runs (\<lambda>_. True) (FirstTxByUser addr [TxInitial]) (\<lambda>t s. known t s \<and> tx_wf t \<and> ltStatus t = TxInitial)"
  unfolding FirstTxByUser_def
proof (rule runs_read)
  fix s t
  assume s: "launch_ok s" "firstRow ''check pending transactions failed: ''
    (sort_key ltID (findTxs (\<lambda>t. statusFilter [TxInitial] t \<and> ltFromAddress t = addr) s)) = Inr t"
  then have "t \<in> set (lsTxs s)" "ltStatus t = TxInitial"
    using firstRow_Inr [OF s(2)] by (auto simp: findTxs_def statusFilter_def)
  with launch_okD(5) [OF s(1)] known_row show "known t s \<and> tx_wf t \<and> ltStatus t = TxInitial" by blast
qed

text \<open>The rows of a query that filters the table.\<close>

lemma query_runs:
  assumes "\<And>s. set (rows s) \<subseteq> {t \<in> set (lsTxs s). P t}"
  shows "runs (\<lambda>_. True) (dbCall (\<lambda>s. (Inr (rows s), s))) (\<lambda>ts s. \<forall>t \<in> set ts. known t s \<and> tx_wf t \<and> P t)"
proof (rule runs_read)
  fix s ts
  assume s: "launch_ok s" "Inr (rows s) = Inr ts"
  with assms [of s] have "\<forall>t \<in> set ts. t \<in> set (lsTxs s) \<and> P t" by blast
  with launch_okD(5) [OF s(1)] known_row show "\<forall>t \<in> set ts. known t s \<and> tx_wf t \<and> P t" by blast
qed

lemma GetTxsByNonce_runs:
  "runs (\<lambda>_. True) (GetTxsByNonce addr nonce []) (\<lambda>ts s. \<forall>t \<in> set ts. known t s)"
proof (cases nonce)
  case None
  then show ?thesis by (simp add: GetTxsByNonce_def runs_throw)
next
  case (Some n)
  have "runs (\<lambda>_. True) (dbCall (\<lambda>s. (Inr (findTxs (\<lambda>t. statusFilter [] t \<and> ltFromAddress t = addr \<and> ltNonce t = Some n) s), s)))
      (\<lambda>ts s. \<forall>t \<in> set ts. known t s \<and> tx_wf t \<and> True)"
    by (rule query_runs) (auto simp: findTxs_def)
  then show ?thesis unfolding GetTxsByNonce_def Some by (auto elim: runs_weaken)
qed

lemma GetTxsByUser_runs:
  "runs (\<lambda>_. True) (GetTxsByUser addr [TxPending]) (\<lambda>ts s. \<forall>t \<in> set ts. known t s \<and> tx_wf t \<and> ltStatus t = TxPending)"
  unfolding GetTxsByUser_def by (rule query_runs) (auto simp: findTxs_def statusFilter_def)

lemma GetTxsByTime_runs:
  "runs (\<lambda>_. True) (GetTxsByTime time [TxSuccess, TxFailed])
     (\<lambda>ts s. \<forall>t \<in> set ts. known t s \<and> tx_wf t \<and> (ltStatus t = TxSuccess \<or> ltStatus t = TxFailed))"
  unfolding GetTxsByTime_def by (rule query_runs) (auto simp: findTxs_def statusFilter_def)

lemma GetUsersWithStatus_runs: "runs (\<lambda>_. True) (GetUsersWithStatus status) (\<lambda>_ _. True)"
  unfolding GetUsersWithStatus_def by (rule runs_read) simp

section \<open>The executor\<close>

lemma send_runs: "runs (known tx) (send env cf tx) (\<lambda>_ _. True)"
proof -
  define tx1 where "tx1 = tx\<lparr> ltGasLimit := Some (of_nat (cfGasLimit cf)),
    ltGasPrice := Some (word_of_int (decimalBigInt (leGasPriceInWei env))) \<rparr>"
  define sent where "sent h = tx1\<lparr> ltStatus := TxPending, ltTransactionHash := Some h \<rparr>" for h
  have p: "purpose (sent h) = purpose tx" "purpose (sent h\<lparr> ltID := 0 \<rparr>) = purpose tx" "ltID (sent h) = ltID tx" for h
    by (simp_all add: sent_def tx1_def purpose_def)
  have body: "runs (known tx)
     (case ccSendTransaction (leChain env) tx1 of
        Inl _ \<Rightarrow> throwE ''send transaction failed''
      | Inr h \<Rightarrow> if ltTransactionHash tx \<noteq> None \<and> MustString (ltTransactionHash tx) \<noteq> h
          then bindE (CreateTx (leNow env) (sent h\<lparr> ltID := 0 \<rparr>)) (\<lambda>_. retE ())
          else bindE (UpdateTx (leNow env) (sent h)) (\<lambda>_. retE ())) (\<lambda>_ _. True)" if "ltNonce tx \<noteq> None"
  proof (cases "ccSendTransaction (leChain env) tx1")
    case (Inl e)
    then show ?thesis by (simp add: runs_throw)
  next
    case (Inr h)
    have w: "tx_wf (sent h)" "tx_wf (sent h\<lparr> ltID := 0 \<rparr>)"
      using that by (simp_all add: tx_wf_def sent_def tx1_def)
    have "runs (known tx) (CreateTx (leNow env) (sent h\<lparr> ltID := 0 \<rparr>)) (\<lambda>_ _. True)"
      by (rule runs_weaken [OF CreateTx_copy_runs [OF w(2)]]) (use p(2) [of h] known_purpose [of tx] in simp_all)
    moreover have "runs (known tx) (UpdateTx (leNow env) (sent h)) (\<lambda>_ _. True)"
      by (rule runs_weaken [OF UpdateTx_runs [OF w(1)]]) (use p in \<open>auto simp: known_def\<close>)
    ultimately show ?thesis using Inr by (auto intro!: runs_bind runs_ret)
  qed
  show ?thesis
  proof (cases "ltNonce tx")
    case None
    then show ?thesis unfolding send_def prepare_def Let_def
      by (intro runs_launchTx stable_intros) (simp add: runs_throw)
  next
    case (Some n)
    then have "ltNonce tx \<noteq> None" by simp
    from runs_launchTx [OF body [OF this] stable_const] Some show ?thesis
      unfolding send_def prepare_def Let_def tx1_def sent_def by simp
  qed
qed

lemma reset_runs:
  assumes "ltNonce tx \<noteq> None"
  shows "runs (known tx) (reset env tx) (\<lambda>_ _. True)"
proof -
  define status where "status = (case ltTransactionHash tx of
      None \<Rightarrow> TxCanceled
    | Some h \<Rightarrow> (case ccTransactionByHash (leChain env) h of Inl _ \<Rightarrow> TxCanceled | Inr _ \<Rightarrow> TxPending))"
  let ?t = "tx\<lparr> ltStatus := status \<rparr>"
  have w: "tx_wf ?t"
    using assms by (auto simp: tx_wf_def status_def split: option.splits sum.splits)
  have st: "LaunchStatus_TransactionStatus status \<noteq> TransactionStatusInit"
    by (auto simp: LaunchStatus_TransactionStatus_def status_def split: option.splits sum.splits)
  have "runs (\<lambda>s. known tx s \<and> ltTxID ?t \<in> txIDs s) (UpdateTx (leNow env) ?t) (\<lambda>_ s. ltTxID ?t \<in> txIDs s)"
    by (rule runs_weaken [OF runs_frame [OF UpdateTx_copy_runs [OF w, of tx] stable_txIDs]]) (auto simp: purpose_def)
  then have u: "runs (known tx) (UpdateTx (leNow env) ?t) (\<lambda>_ s. ltTxID ?t \<in> txIDs s)"
    by (rule runs_weaken) (use known_txID [of tx] in auto)
  have "runs (known tx) (launchTx (bindE (UpdateTx (leNow env) ?t) (\<lambda>_.
      onServer (serverUpdateOrdersStatus (leNow env) (ltTxID ?t) (LaunchStatus_TransactionStatus status) [] [] 0 0 [] []))))
      (\<lambda>_ _. True)"
    by (intro runs_launchTx runs_bind [OF u] runs_settle [OF st] stable_intros)
  then show ?thesis by (simp add: reset_def Let_def status_def)
qed

lemma resendAll_runs:
  assumes "launch_ok s" "\<forall>t \<in> set txs. known t s"
  shows "launch_ok (resendAll env cf txs s) \<and> grows s (resendAll env cf txs s)"
  using assms
proof (induction txs arbitrary: s)
  case (Cons tx txs)
  from runs_snd [OF send_runs Cons.prems(1)] Cons.prems(2)
  have s: "launch_ok (snd (send env cf tx s))" "grows s (snd (send env cf tx s))" by auto
  moreover have "\<forall>t \<in> set txs. known t (snd (send env cf tx s))" using Cons.prems(2) s(2) known_grows by auto
  ultimately show ?case using Cons.IH grows_trans by fastforce
qed simp

lemma fastForward_runs: "runs (\<lambda>_. True) (fastForwardLoop env cf addr is) (\<lambda>_ _. True)"
proof (induction "is")
  case Nil
  show ?case unfolding fastForwardLoop.simps by (rule runs_ret) simp
next
  case (Cons i "is")
  have "runs (\<lambda>s. \<forall>t \<in> set ts. known t s) (\<lambda>s. fastForwardLoop env cf addr is (resendAll env cf ts s)) (\<lambda>_ _. True)" for ts
    unfolding runs_def
  proof (intro allI impI)
    fix s r s'
    assume s: "launch_ok s" "\<forall>t \<in> set ts. known t s" "fastForwardLoop env cf addr is (resendAll env cf ts s) = (r, s')"
    note w = resendAll_runs [OF s(1,2), of env cf]
    from runsD [OF Cons.IH _ _ s(3)] w show "launch_ok s' \<and> grows s s' \<and> (\<forall>x. r = Inr x \<longrightarrow> True)"
      using grows_trans by blast
  qed
  from runs_bind [OF GetTxsByNonce_runs this] show ?case by simp
qed

lemma allocateNonce_runs:
  assumes "tx_wf tx" "ltStatus tx = TxInitial"
  shows "runs (known tx) (allocateNonce now tx n) known"
proof -
  have w: "tx_wf (tx\<lparr> ltNonce := Some n \<rparr>)" using assms by (simp add: tx_wf_def)
  have u: "runs (known tx) (UpdateTx now (tx\<lparr> ltNonce := Some n \<rparr>)) known"
    by (rule runs_weaken [OF UpdateTx_runs [OF w]]) (auto simp: known_def purpose_def)
  have "runs (known t) (UpdateNonce addr m) (\<lambda>_. known t)" for t addr m
    unfolding UpdateNonce_def
    by (rule runs_dbCall) (auto simp: runs_def stable_known known_def intro: launch_ok_same grows_same)
  then show ?thesis unfolding allocateNonce_def
    by (intro runs_launchTx runs_bind [OF u] stable_known) (auto intro!: runs_bind runs_ret)
qed

lemma GetNextNonce_same: "GetNextNonce addr s = (n, s') \<Longrightarrow> launch_ok s \<Longrightarrow> launch_ok s' \<and> grows s s'"
  by (auto simp: GetNextNonce_def dbCall_def Let_def intro!: grows_same launch_ok_same [of s' s]
      split: prod.splits sum.splits list.splits if_splits option.splits)

lemma sendTransaction_runs:
  assumes "tx_wf tx" "ltStatus tx = TxInitial"
  shows "runs (known tx) (sendTransaction env cf tx) (\<lambda>_ _. True)"
  unfolding runs_def
proof (intro allI impI)
  fix s r s'
  assume s: "launch_ok s" "known tx s" "sendTransaction env cf tx s = (r, s')"
  have alloc: "runs (known tx) (bindE (allocateNonce (leNow env) tx e) (send env cf)) (\<lambda>_ _. True)" for e
    by (rule runs_bind [OF allocateNonce_runs [OF assms] send_runs])
  obtain m s1 where n: "GetNextNonce (ltFromAddress tx) s = (m, s1)" by fastforce
  note w = GetNextNonce_same [OF n s(1)]
  have k: "known tx s1" using s(2) w known_grows by blast
  have "launch_ok s' \<and> grows s s'"
  proof (cases "ccPendingNonceAt (leChain env) (ltFromAddress tx)")
    case (Inl e)
    with s show ?thesis by (auto simp: sendTransaction_def)
  next
    case (Inr e)
    show ?thesis
    proof (cases "case ltNonce tx of Some n \<Rightarrow> n < e | None \<Rightarrow> False")
      case True
      with Inr s(3) have "reset env tx s = (r, s')" "ltNonce tx \<noteq> None"
        by (auto simp: sendTransaction_def split: option.splits)
      from runsD [OF reset_runs [OF this(2)] s(1,2) this(1)] show ?thesis .
    next
      case False
      let ?target = "case ltNonce tx of Some n \<Rightarrow> Some n | None \<Rightarrow> m"
      show ?thesis
      proof (cases "\<exists>t. ?target = Some t \<and> e < t")
        case True
        with Inr False s(3) n obtain t where "s' = snd (fastForward env cf (ltFromAddress tx) e t s1)"
          by (auto simp: sendTransaction_def split: option.splits)
        with runs_snd [OF fastForward_runs _ TrueI] w grows_trans show ?thesis
          unfolding fastForward_def by blast
      next
        case nf: False
        with Inr False s(3) n have "bindE (allocateNonce (leNow env) tx e) (send env cf) s1 = (r, s')"
          by (auto simp: sendTransaction_def split: option.splits if_splits)
        from runsD [OF alloc _ k this] w grows_trans show ?thesis by blast
      qed
    qed
  qed
  then show "launch_ok s' \<and> grows s s' \<and> (\<forall>x. r = Inr x \<longrightarrow> True)" by simp
qed

lemma executeUsers_runs: "launch_ok s \<Longrightarrow> launch_ok (executeUsers env cf users s) \<and> grows s (executeUsers env cf users s)"
proof (induction users arbitrary: s)
  case (Cons user users)
  have send: "runs (\<lambda>s. known tx s \<and> tx_wf tx \<and> ltStatus tx = TxInitial) (sendTransaction env cf tx) (\<lambda>_ _. True)" for tx
    using sendTransaction_runs [of tx env cf] unfolding runs_def by blast
  let ?s = "snd (bindE (FirstTxByUser user [TxInitial]) (sendTransaction env cf) s)"
  have "launch_ok ?s \<and> grows s ?s"
    by (rule runs_snd [OF runs_bind [OF FirstTxByUser_runs send] Cons.prems TrueI])
  with Cons.IH [of ?s] grows_trans show ?case by auto
qed simp

lemma executeTransaction_runs:
  assumes "launch_ok s"
  shows "launch_ok (executeTransaction env cf s) \<and> grows s (executeTransaction env cf s)"
proof -
  have "runs (\<lambda>_. True) (\<lambda>s. (Inr (), executeUsers env cf users s)) (\<lambda>_ _. True)" for users
    using executeUsers_runs unfolding runs_def by auto
  from runs_snd [OF runs_bind [OF GetUsersWithStatus_runs this] assms TrueI] show ?thesis
    by (simp add: executeTransaction_def)
qed

section \<open>The syncer and the monitor\<close>

lemma resetTransaction_runs: "runs (known tx) (resetTransaction now tx) (\<lambda>_ _. True)"
proof -
  let ?t = "tx\<lparr> ltNonce := None, ltTransactionHash := None, ltStatus := TxInitial \<rparr>"
  have w: "tx_wf ?t" by (simp add: tx_wf_def)
  have "runs (known tx) (UpdateTx now ?t) (\<lambda>_ _. True)"
    by (rule runs_weaken [OF UpdateTx_runs [OF w]]) (auto simp: known_def purpose_def)
  then show ?thesis unfolding resetTransaction_def
    by (intro runs_launchTx runs_bind [where Q = "\<lambda>_ _. True"] runs_ret stable_intros) auto
qed

lemma cancelCandidates_runs:
  "runs (\<lambda>s. \<forall>c \<in> set cs. known c s) (cancelCandidates now h cs) (\<lambda>_ _. True)"
proof (induction cs)
  case Nil
  show ?case unfolding cancelCandidates.simps by (rule runs_ret) simp
next
  case (Cons c cs)
  let ?c = "c\<lparr> ltStatus := TxCanceled \<rparr>"
  have w: "tx_wf ?c" by (simp add: tx_wf_def)
  have u: "runs (known c) (UpdateTx now ?c) (\<lambda>_ _. True)"
    by (rule runs_weaken [OF UpdateTx_runs [OF w]]) (auto simp: known_def purpose_def)
  let ?A = "\<lambda>s. \<forall>d \<in> set (c # cs). known d s"
  have step: "runs ?A (\<lambda>s. cancelCandidates now h cs (if h' \<noteq> h then snd (UpdateTx now ?c s) else s)) (\<lambda>_ _. True)" for h'
    unfolding runs_def
  proof (intro allI impI)
    fix s r s'
    let ?s = "if h' \<noteq> h then snd (UpdateTx now ?c s) else s"
    assume s: "launch_ok s" "?A s" "cancelCandidates now h cs ?s = (r, s')"
    have g: "launch_ok ?s" "grows s ?s" using runs_snd [OF u s(1)] s(1,2) by simp_all
    moreover have "\<forall>d \<in> set cs. known d ?s" using s(2) g(2) known_grows by (metis list.set_intros(2))
    ultimately have "launch_ok s'" "grows ?s s'" using runsD [OF Cons.IH _ _ s(3)] by blast+
    with g(2) grows_trans show "launch_ok s' \<and> grows s s' \<and> (\<forall>x. r = Inr x \<longrightarrow> True)" by blast
  qed
  have "runs ?A (deref (ltTransactionHash c)) (\<lambda>_. ?A)"
    by (auto simp: runs_def deref_def split: option.splits)
  from runs_bind [OF this step] show ?case by simp
qed

lemma mined_simps [simp]:
  "purpose (mined tx receipt) = purpose tx" "ltID (mined tx receipt) = ltID tx" "ltStatus (mined tx receipt) = rcStatus receipt"
  "ltTransactionHash (mined tx receipt) = ltTransactionHash tx" "ltNonce (mined tx receipt) = ltNonce tx"
  by (simp_all add: mined_def purpose_def)

lemma mined_wf:
  assumes "rcStatus receipt = TxSuccess \<or> rcStatus receipt = TxFailed" "ltTransactionHash tx \<noteq> None" "ltNonce tx \<noteq> None"
  shows "tx_wf (mined tx receipt)"
  using assms by (auto simp: tx_wf_def) (simp_all add: mined_def)

lemma UpdateTx_mined_runs:
  assumes "rcStatus receipt = TxSuccess \<or> rcStatus receipt = TxFailed" "ltTransactionHash tx \<noteq> None" "ltNonce tx \<noteq> None"
  shows "runs (known tx) (UpdateTx now (mined tx receipt))
    (\<lambda>t s. ltTxID t \<in> txIDs s \<and> ltStatus t = rcStatus receipt)"
  by (rule runs_weaken [OF UpdateTx_copy_runs [OF mined_wf [OF assms], of tx]]) simp_all

lemma confirmTransaction_runs:
  assumes "rcStatus receipt = TxSuccess \<or> rcStatus receipt = TxFailed" "ltTransactionHash tx \<noteq> None" "ltNonce tx \<noteq> None"
  shows "runs (known tx) (confirmTransaction now tx h receipt succ fail) (\<lambda>_ _. True)"
proof -
  have st: "LaunchStatus_TransactionStatus (rcStatus receipt) \<noteq> TransactionStatusInit"
    using assms(1) by (auto simp: LaunchStatus_TransactionStatus_def)
  have c: "runs (\<lambda>s. (\<forall>c \<in> set cs. known c s) \<and> i \<in> txIDs s) (bindE (cancelCandidates now h cs) (\<lambda>_. onServer
      (serverUpdateOrdersStatus now i (LaunchStatus_TransactionStatus (rcStatus receipt)) h (rcBlockHash receipt)
        (rcBlockNumber receipt) (rcBlockTime receipt) succ fail))) (\<lambda>_ _. True)" for cs i
    by (rule runs_bind_frame [OF cancelCandidates_runs stable_txIDs]) (rule runs_weaken [OF runs_settle [OF st]], simp_all)
  have "runs (\<lambda>s. ltTxID t \<in> txIDs s \<and> ltStatus t = rcStatus receipt)
      (bindE (GetTxsByNonce (ltFromAddress t) (ltNonce t) []) (\<lambda>cs.
       bindE (cancelCandidates now h cs) (\<lambda>_. onServer
      (serverUpdateOrdersStatus now (ltTxID t) (LaunchStatus_TransactionStatus (rcStatus receipt)) h (rcBlockHash receipt)
        (rcBlockNumber receipt) (rcBlockTime receipt) succ fail)))) (\<lambda>_ _. True)" for t
    by (rule runs_weaken [OF runs_bind_frame [OF GetTxsByNonce_runs stable_txIDs c]]) simp_all
  from runs_bind [OF UpdateTx_mined_runs [OF assms] this] show ?thesis
    unfolding confirmTransaction_def by (intro runs_launchTx stable_intros)
qed

lemma rollbackOrders_runs:
  assumes "ltStatus tx \<noteq> TxInitial"
  shows "runs (\<lambda>s. ltTxID tx \<in> txIDs s) (rollbackOrders now tx succ fail) (\<lambda>_ _. True)"
proof -
  have st: "LaunchStatus_TransactionStatus (ltStatus tx) \<noteq> TransactionStatusInit"
    using assms by (auto simp: LaunchStatus_TransactionStatus_def split: LaunchTransactionStatus.splits)
  have d: "runs B (deref p) (\<lambda>_. B)" for p :: "'x option" and B
    by (auto simp: runs_def deref_def split: option.splits)
  show ?thesis unfolding rollbackOrders_def
    by (intro runs_bind [OF d] runs_rollback [OF st])
qed

lemma dropMined_runs:
  assumes "tx_wf tx" "ltStatus tx = TxSuccess"
  shows "runs (known tx) (dropMined now tx) (\<lambda>_ _. True)"
proof -
  have w: "tx_wf (tx\<lparr> ltStatus := TxFailed \<rparr>)" using assms by (simp add: tx_wf_def)
  have u: "runs (known tx) (UpdateTx now (tx\<lparr> ltStatus := TxFailed \<rparr>)) (\<lambda>t s. ltTxID t \<in> txIDs s \<and> ltStatus t = TxFailed)"
    by (rule runs_weaken [OF UpdateTx_copy_runs [OF w, of tx]]) (simp_all add: purpose_def)
  have "runs (\<lambda>s. ltTxID t \<in> txIDs s \<and> ltStatus t = TxFailed) (rollbackOrders now t [] []) (\<lambda>_ _. True)" for t
    using rollbackOrders_runs [of t now] unfolding runs_def by (metis LaunchTransactionStatus.distinct(5))
  from runs_bind [OF u this] show ?thesis unfolding dropMined_def by (intro runs_launchTx stable_intros)
qed

lemma checkMined_runs:
  assumes "rcStatus receipt = TxSuccess \<or> rcStatus receipt = TxFailed" "ltTransactionHash tx \<noteq> None" "ltNonce tx \<noteq> None"
    "ltStatus tx \<noteq> TxInitial"
  shows "runs (known tx) (checkMined now tx receipt succ fail) (\<lambda>_ _. True)"
proof -
  have d: "runs (known tx) (deref p) (\<lambda>_. known tx)" for p :: "'x option"
    by (auto simp: runs_def deref_def split: option.splits)
  have c: "runs (known tx) (if b then retE True else bindE (deref p) (\<lambda>x. retE (f x))) (\<lambda>_. known tx)"
    for b and p :: "'x option" and f :: "'x \<Rightarrow> bool"
    by (auto intro!: runs_ret runs_bind [OF d])
  let ?Q = "\<lambda>t s. ltTxID t \<in> txIDs s \<and> ltStatus t \<noteq> TxInitial"
  have "runs (known tx) (UpdateTx now (mined tx receipt)) ?Q"
    by (rule runs_weaken [OF UpdateTx_mined_runs [OF assms(1-3)]]) (use assms(1) in auto)
  then have u: "runs (known tx) (if b then UpdateTx now (mined tx receipt) else retE tx) ?Q" for b
    using assms(4) by (auto intro!: runs_ret known_txID)
  have r: "runs (?Q t) (rollbackOrders now t succ fail) (\<lambda>_ _. True)" for t
    using rollbackOrders_runs [of t now succ fail] unfolding runs_def by blast
  show ?thesis unfolding checkMined_def
    by (intro runs_launchTx stable_intros runs_bind [OF d] runs_bind [OF c] runs_bind [OF u] r)
qed

lemma setDirty_runs:
  assumes "launch_ok s"
  shows "launch_ok (setDirty i s) \<and> grows s (setDirty i s)"
proof -
  have dirty: "dbTables (serverSetPoolStorageDirty i sv) = dbTables sv" for sv
  proof -
    obtain r sv1 where q: "GetMatchTransaction i sv = (r, sv1)" by fastforce
    from GetMatchTransaction_tables [OF q] q show ?thesis by (cases r) (simp_all add: serverSetPoolStorageDirty_def)
  qed
  have "runs (\<lambda>_. True) (onServer (\<lambda>sv. (Inr (), serverSetPoolStorageDirty i sv))) (\<lambda>_ _. True)"
    by (rule runs_onServer) (metis Pair_inject advances_refl dirty truncate_simps)
  from runs_snd [OF this assms TrueI] show ?thesis by (simp add: setDirty_def)
qed

text \<open>What the rounds of the syncer and the monitor rely on: a receipt is final.\<close>

locale launch_chain =
  fixes chain :: chain_cli
  assumes final: "ccWaitTransactionReceipt chain h = Inr receipt \<Longrightarrow>
    rcStatus receipt = TxSuccess \<or> rcStatus receipt = TxFailed"
begin

definition pending_rows :: "LaunchTransaction list \<Rightarrow> lstate \<Rightarrow> bool" where
  "pending_rows txs s \<longleftrightarrow> (\<forall>t \<in> set txs. known t s \<and> tx_wf t \<and> ltStatus t = TxPending)"

lemma pending_grows: "pending_rows (t # txs) s \<Longrightarrow> grows s s' \<Longrightarrow> pending_rows txs s'"
  using known_grows by (auto simp: pending_rows_def)

lemma pending_columns:
  assumes "pending_rows txs s" "t \<in> set txs"
  shows "known t s" "ltTransactionHash t \<noteq> None" "ltNonce t \<noteq> None"
  using assms by (auto simp: pending_rows_def tx_wf_def)

text \<open>The syncer does not panic, and its round keeps the rows.\<close>

lemma syncLoop_runs:
  assumes "leChain env = chain" "launch_ok s" "pending_rows txs s"
  shows "\<exists>s'. syncLoop env cf txs s = Some s' \<and> launch_ok s' \<and> grows s s'"
  using assms(2,3)
proof (induction txs arbitrary: s)
  case (Cons tx txs)
  obtain h n where tx: "ltTransactionHash tx = Some h" "ltNonce tx = Some n" "known tx s"
    using pending_columns [OF Cons.prems(2), of tx] by auto
  have go: "\<exists>s'. syncLoop env cf txs s1 = Some s' \<and> launch_ok s' \<and> grows s s'"
    if "launch_ok s1 \<and> grows s s1" for s1
    using Cons.IH [of s1] that pending_grows [OF Cons.prems(2)] grows_trans by blast
  note stay = go [of s] and reset = go [OF runs_snd [OF resetTransaction_runs Cons.prems(1) tx(3)]]
  have stay: "\<exists>s'. syncLoop env cf txs s = Some s' \<and> launch_ok s' \<and> grows s s'"
    using stay Cons.prems(1) by simp
  show ?case
  proof (cases "ccWaitTransactionReceipt (leChain env) h")
    case (Inl e)
    show ?thesis
    proof (cases "IsNotFoundError e")
      case False
      with Inl tx stay show ?thesis by simp
    next
      case True
      show ?thesis
      proof (cases txs)
        case Nil
        with Inl True tx reset [of "leNow env"] show ?thesis by simp
      next
        case (Cons t ts)
        with pending_columns [OF Cons.prems(2), of t] obtain m where m: "ltNonce t = Some m" by auto
        show ?thesis
          using Inl True tx m stay reset [of "leNow env"] unfolding Cons by (cases "n = m") simp_all
      qed
    qed
  next
    case (Inr receipt)
    obtain succ fail where ev: "ccParseLogs (leChain env) (cfBrokerAddress cf) (rcLogs receipt) = (succ, fail)" by fastforce
    let ?s = "setDirty (ltTxID tx) s"
    let ?c = "snd (confirmTransaction (leNow env) tx h receipt succ fail ?s)"
    have d: "launch_ok ?s" "grows s ?s" using setDirty_runs [OF Cons.prems(1)] by simp_all
    have "rcStatus receipt = TxSuccess \<or> rcStatus receipt = TxFailed" using final Inr assms(1) by metis
    from confirmTransaction_runs [OF this] tx(1,2)
    have "runs (known tx) (confirmTransaction (leNow env) tx h receipt succ fail) (\<lambda>_ _. True)" by simp
    from runs_snd [OF this d(1) known_grows [OF tx(3) d(2)]] d(2)
    have "launch_ok ?c \<and> grows s ?c" using grows_trans by blast
    from go [OF this] stay Inr ev tx(1) show ?thesis by simp
  qed
qed auto

lemma updateStatusByUser_runs:
  assumes "leChain env = chain" "launch_ok s"
  shows "\<exists>s'. updateStatusByUser env cf user s = Some s' \<and> launch_ok s' \<and> grows s s'"
proof -
  obtain r s1 where q: "GetTxsByUser user [TxPending] s = (r, s1)" by fastforce
  note w = GetTxsByUser_runs [unfolded runs_def, rule_format, OF assms(2) TrueI q]
  show ?thesis
  proof (cases r)
    case (Inl e)
    with q w show ?thesis by (simp add: updateStatusByUser_def)
  next
    case (Inr txs)
    with w have "pending_rows txs s1" "launch_ok s1" "grows s s1" by (simp_all add: pending_rows_def)
    with syncLoop_runs [OF assms(1), of s1 txs cf] q Inr grows_trans show ?thesis
      by (auto simp: updateStatusByUser_def)
  qed
qed

lemma syncTransaction_runs:
  assumes "leChain env = chain" "launch_ok s"
  shows "\<exists>s'. syncTransaction env cf s = Some s' \<and> launch_ok s' \<and> grows s s'"
proof -
  have users: "\<exists>s'. syncUsers env cf users s = Some s' \<and> launch_ok s' \<and> grows s s'" if "launch_ok s" for users s
    using that
  proof (induction users arbitrary: s)
    case (Cons user users)
    from updateStatusByUser_runs [OF assms(1) Cons.prems] obtain s1
      where "updateStatusByUser env cf user s = Some s1" "launch_ok s1" "grows s s1" by blast
    with Cons.IH [of s1] grows_trans show ?case by auto
  qed simp
  obtain r s1 where q: "GetUsersWithStatus [TxPending] s = (r, s1)" by fastforce
  from runsD [OF GetUsersWithStatus_runs assms(2) TrueI q] have "launch_ok s1" "grows s s1" by simp_all
  note s1 = q this
  show ?thesis
  proof (cases r)
    case (Inl e)
    with s1 show ?thesis by (simp add: syncTransaction_def)
  next
    case (Inr us)
    from users [OF s1(2), of us] obtain s' where "syncUsers env cf us s1 = Some s'" "launch_ok s'" "grows s1 s'" by blast
    with Inr s1 grows_trans show ?thesis by (auto simp: syncTransaction_def)
  qed
qed

lemma unmatureLoop_runs:
  assumes "leChain env = chain" "launch_ok s"
    "\<forall>t \<in> set txs. known t s \<and> tx_wf t \<and> (ltStatus t = TxSuccess \<or> ltStatus t = TxFailed)"
  shows "launch_ok (unmatureLoop env cf txs s) \<and> grows s (unmatureLoop env cf txs s)"
  using assms(2,3)
proof (induction txs arbitrary: s)
  case (Cons tx txs)
  have k: "known tx s" "tx_wf tx" "ltStatus tx = TxSuccess \<or> ltStatus tx = TxFailed" using Cons.prems(2) by auto
  then obtain h n b where tx: "ltTransactionHash tx = Some h" "ltNonce tx = Some n" "ltBlockNumber tx = Some b"
    by (auto simp: tx_wf_def)
  have go: "launch_ok (unmatureLoop env cf txs s1) \<and> grows s (unmatureLoop env cf txs s1)"
    if "launch_ok s1 \<and> grows s s1" for s1
    using Cons.IH [of s1] that Cons.prems(2) known_grows grows_trans by (metis list.set_intros(2))
  show ?case
  proof (cases "ccWaitTransactionReceipt (leChain env) h")
    case (Inl e)
    have "launch_ok (snd (dropMined (leNow env) tx s)) \<and> grows s (snd (dropMined (leNow env) tx s))" if "ltStatus tx = TxSuccess"
      by (rule runs_snd [OF dropMined_runs [OF k(2) that] Cons.prems(1) k(1)])
    with Inl tx go go [of s] Cons.prems(1) show ?thesis by simp
  next
    case (Inr receipt)
    obtain succ fail where ev: "ccParseLogs (leChain env) (cfBrokerAddress cf) (rcLogs receipt) = (succ, fail)" by fastforce
    have fr: "rcStatus receipt = TxSuccess \<or> rcStatus receipt = TxFailed" using final Inr assms(1) by metis
    have "ltStatus tx \<noteq> TxInitial" using k(3) by auto
    from checkMined_runs [OF fr _ _ this] tx(1,2)
    have "runs (known tx) (checkMined (leNow env) tx receipt succ fail) (\<lambda>_ _. True)" by simp
    from runs_snd [OF this Cons.prems(1) k(1)] Inr ev tx go go [of s] Cons.prems(1) show ?thesis by simp
  qed
qed simp

lemma checkUnmature_runs:
  assumes "leChain env = chain" "launch_ok s"
  shows "launch_ok (checkUnmatureTransactionStatus env cf s) \<and> grows s (checkUnmatureTransactionStatus env cf s)"
proof -
  obtain r s1 where q: "GetTxsByTime (leNow env - leUnmatureDuration env) [TxSuccess, TxFailed] s = (r, s1)" by fastforce
  note w = GetTxsByTime_runs [unfolded runs_def, rule_format, OF assms(2) TrueI q]
  show ?thesis
  proof (cases r)
    case (Inl e)
    with q w show ?thesis by (simp add: checkUnmatureTransactionStatus_def)
  next
    case (Inr txs)
    with w unmatureLoop_runs [OF assms(1), of s1 txs cf] q grows_trans show ?thesis
      by (auto simp: checkUnmatureTransactionStatus_def)
  qed
qed

end

section \<open>The client keeps the promise\<close>

text \<open>
  The chain client of \<^verbatim>\<open>client.go\<close> as the launcher sees it in one round: \<open>v\<close> is the view of the
  nodes for single calls, \<open>views\<close> are those of the attempts at a receipt. Parsing of logs and
  packing of the call data belong to the generated bindings and are given. A panic is an error
  here; a client that asks at least one node does not panic.
\<close>

definition noPanic :: "(rpc_error + 'a) option \<Rightarrow> rpc_error + 'a" where
  "noPanic r = (case r of Some x \<Rightarrow> x | None \<Rightarrow> Inl (OtherError ''panic''))"

definition clientChain ::
  "eth_lib \<Rightarrow> client \<Rightarrow> view \<Rightarrow> (nat \<Rightarrow> view) \<Rightarrow> nat \<Rightarrow>
   (string \<Rightarrow> eth_log list \<Rightarrow> TradeSuccessEvent list \<times> TradeFailedEvent list) \<Rightarrow>
   (byte list list \<Rightarrow> decimal list \<Rightarrow> int list \<Rightarrow> byte list result) \<Rightarrow> chain_cli" where
  "clientChain E c v views idx parse pack =
     \<lparr> ccPendingNonceAt = (\<lambda>a. noPanic (PendingNonceAt E c v a)),
       ccTransactionByHash = (\<lambda>h. noPanic (TransactionByHash E c v h)),
       ccSendTransaction = (\<lambda>tx. noPanic (SendTransaction E c v tx)),
       ccWaitTransactionReceipt = (\<lambda>h. noPanic (WaitTransactionReceipt E c views h)),
       ccParseLogs = parse, ccBatchTradeDataPack = pack, ccGetSignAccount = GetSignAccount idx c \<rparr>"

lemma callLoop_answers:
  "0 < n \<or> e \<noteq> None \<Longrightarrow> callLoop meth ns n i e \<noteq> Inr None"
  by (induction meth ns n i e rule: callLoop.induct) (auto split: sum.splits option.splits)

lemma call_answers: "0 < clTryTimes c \<Longrightarrow> call c meth v \<noteq> Inr None"
  using callLoop_answers [of "clTryTimes c" None meth] by (simp add: call_def)

lemma asserted_call: "0 < clTryTimes c \<Longrightarrow> asserted (call c meth v) \<noteq> None"
  using call_answers [of c meth v] by (auto simp: asserted_def split: sum.splits option.splits)

lemma receiptLoop_answers: "0 < n \<Longrightarrow> \<exists>j. receiptLoop ask n i res = ask j"
  by (induction ask n i res rule: receiptLoop.induct) (auto, metis neq0_conv receiptLoop.simps(1))

lemma client_never_panics:
  assumes "0 < clTryTimes c"
  shows "PendingNonceAt E c v a \<noteq> None" "TransactionByHash E c v h \<noteq> None" "WaitTransactionReceipt E c views h \<noteq> None"
proof -
  show "PendingNonceAt E c v a \<noteq> None" "TransactionByHash E c v h \<noteq> None"
    unfolding PendingNonceAt_def TransactionByHash_def by (rule asserted_call [OF assms])+
  let ?ask = "\<lambda>i. call c (\<lambda>n. ndTransactionReceipt n (elHexToHash E h)) (views i)"
  obtain j where "receiptLoop ?ask 10 0 (Inr None) = ?ask j" using receiptLoop_answers [of 10 ?ask 0 "Inr None"] by auto
  then show "WaitTransactionReceipt E c views h \<noteq> None"
    using call_answers [OF assms, of "\<lambda>n. ndTransactionReceipt n (elHexToHash E h)" "views j"]
      call_answers [OF assms, of "\<lambda>n. ndBlockByNumber n (Some _)" "views 10"]
    by (auto simp: WaitTransactionReceipt_def split: sum.splits option.splits)
qed

lemma WaitTransactionReceipt_final:
  "WaitTransactionReceipt E c views h = Some (Inr receipt) \<Longrightarrow> rcStatus receipt = TxSuccess \<or> rcStatus receipt = TxFailed"
  by (auto simp: WaitTransactionReceipt_def split: sum.splits option.splits if_splits)

interpretation client_chain: launch_chain "clientChain E c v views idx parse pack" for E c v views idx parse pack
proof
  fix h :: string and receipt
  assume "ccWaitTransactionReceipt (clientChain E c v views idx parse pack) h = Inr receipt"
  then show "rcStatus receipt = TxSuccess \<or> rcStatus receipt = TxFailed"
    using WaitTransactionReceipt_final [of E c views h receipt]
    by (auto simp: clientChain_def noPanic_def split: option.splits)
qed

end
