(* ===== verification/Server_Run.thy ===== *)
theory Server_Run
  imports Match_Monitor
begin

text \<open>
  The runs of the match server: one rule per operation of \<^verbatim>\<open>src/match/server.go\<close>, per goroutine
  of a handler and for the monitor, while the database does not fail. The rules ask of the callers
  what the rest of the system does: a cancellation names the perpetual of its order, the events of
  a mined transaction fit its match, and a perpetual is opened when its open orders are pending.
\<close>

section \<open>Steps\<close>

text \<open>The items and events of a mined transaction fit the orders it matched.\<close>

definition settlement_fits ::
  "tables \<Rightarrow> MatchTransaction \<Rightarrow> TransactionStatus \<Rightarrow> TradeSuccessEvent list \<Rightarrow> TradeFailedEvent list \<Rightarrow> bool" where
  "settlement_fits t tx status successEvents failedEvents \<longleftrightarrow>
     tx \<in> set (tMatchTxs t) \<and> distinct (map mtID (tMatchTxs t)) \<and> address (mtLiquidityPoolAddress tx) \<and>
     events_nonzero successEvents failedEvents \<and>
     (\<forall>r \<in> set (tOrders t). OrderHash r \<in> miOrderHash ` set (MatchItems (mtMatchResult tx)) \<longrightarrow>
        LiquidityPoolAddress r = mtLiquidityPoolAddress tx \<and> PerpetualIndex r = mtPerpetualIndex tx \<and>
        fits (succMap status successEvents) (amountMap (MatchItems (mtMatchResult tx))) r)"

inductive srv_step :: "decimal_lib \<Rightarrow> conf \<Rightarrow> server \<Rightarrow> server \<Rightarrow> bool" for L cf where
  start: "svHandlers sv = [] \<Longrightarrow> \<forall>p \<in> set (tPerpetuals (dbTables sv)). address (ppLiquidityPoolAddress p) \<Longrightarrow>
    open_pending (dbTables sv) \<Longrightarrow> serverStart env sv = (res, sv') \<Longrightarrow> srv_step L cf sv sv'"
| new_order: "fresh_order ord \<Longrightarrow> address (LiquidityPoolAddress ord) \<Longrightarrow>
    (getMatchHandler (LiquidityPoolAddress ord) (PerpetualIndex ord) sv = None \<longrightarrow> open_pending (dbTables sv)) \<Longrightarrow>
    serverNewOrder L env cf visit ord sv = Some (code, sv') \<Longrightarrow> srv_step L cf sv sv'"
| cancel: "address pool \<Longrightarrow>
    \<forall>r \<in> set (tOrders (dbTables sv)). OrderHash r = hash \<longrightarrow> LiquidityPoolAddress r = pool \<and> PerpetualIndex r = i \<Longrightarrow>
    serverCancelOrder now pool i hash sv = (res, sv') \<Longrightarrow> srv_step L cf sv sv'"
| matching: "serverMatchOrders L env cf uuid key sv = Some sv' \<Longrightarrow> srv_step L cf sv sv'"
| expired: "map_of (svHandlers sv) key = Some h \<Longrightarrow>
    \<forall>r \<in> set (tOrders (dbTables sv)). OrderHash r = hash \<longrightarrow> in_perp (hPerp h) r \<Longrightarrow>
    srv_step L cf sv (serverExpired now key hash sv)"
| mined: "settlement_fits (dbTables sv) tx status successEvents failedEvents \<Longrightarrow>
    serverUpdateOrdersStatus now (mtID tx) status transactionHash blockHash blockNumber blockTime
      successEvents failedEvents sv = (res, sv') \<Longrightarrow> srv_step L cf sv sv'"
| monitor: "visits_ok visit \<Longrightarrow> checkPerpUserOrders L env cf visit sv = Some sv' \<Longrightarrow> srv_step L cf sv sv'"
| close: "saves_perpetuals save \<Longrightarrow> ClosePerpetual save pool i sv = (res, sv') \<Longrightarrow> srv_step L cf sv sv'"
| pool_dirty: "srv_step L cf sv (serverSetPoolStorageDirty txID sv)"
| pool_sync: "runSyncer env (svPools sv) = Some ps \<Longrightarrow> srv_step L cf sv (sv\<lparr> svPools := ps \<rparr>)"

text \<open>The server starts on tables whose rows are accounted for, without handlers.\<close>

definition srv_initial :: "server \<Rightarrow> bool" where
  "srv_initial sv \<longleftrightarrow> svHandlers sv = [] \<and> dbFaults sv = [] \<and>
     tables_ok (map ident (tOrders (dbTables sv))) (dbTables sv) \<and>
     (\<forall>r \<in> set (tOrders (dbTables sv)). sided r \<and> address (LiquidityPoolAddress r))"

inductive srv_reachable :: "decimal_lib \<Rightarrow> conf \<Rightarrow> server \<Rightarrow> bool" for L cf where
  init: "srv_initial sv \<Longrightarrow> srv_reachable L cf sv"
| step: "srv_reachable L cf sv \<Longrightarrow> srv_step L cf sv sv' \<Longrightarrow> srv_reachable L cf sv'"

section \<open>Every step keeps the agreement\<close>

lemma update_twice: "AList.update k v (AList.update k w m) = AList.update k v m"
  by (induction m) auto

lemma serverStart_agreed:
  assumes "agreed sv" "dbFaults sv = []" "\<forall>p \<in> set (tPerpetuals (dbTables sv)). address (ppLiquidityPoolAddress p)"
    "open_pending (dbTables sv)" "serverStart env sv = (res, sv')"
  shows "agreed sv' \<and> dbFaults sv' = []"
proof -
  let ?ps = "filter ppIsPublished (tPerpetuals (dbTables sv))" and ?sv = "sv\<lparr> svPools := newPoolSyncer \<rparr>"
  have "QueryPerpetuals True sv = (Inr ?ps, sv)" using assms(2) by (simp add: QueryPerpetuals_def dbCall_def)
  with assms(5) have "sv' = startLoop env ?ps ?sv" by (simp add: serverStart_def)
  moreover have "agreed ?sv" "dbFaults ?sv = []" "\<forall>p \<in> set ?ps. address (ppLiquidityPoolAddress p)" "open_pending (dbTables ?sv)"
    using assms(1-4) by simp_all
  ultimately show ?thesis using startLoop_agreed [of ?sv ?ps env] by simp
qed

lemma serverCancelOrder_agreed:
  assumes "agreed sv" "dbFaults sv = []" "address pool"
    "\<forall>r \<in> set (tOrders (dbTables sv)). OrderHash r = hash \<longrightarrow> LiquidityPoolAddress r = pool \<and> PerpetualIndex r = i"
    "serverCancelOrder now pool i hash sv = (res, sv')"
  shows "agreed sv' \<and> dbFaults sv' = []"
proof (cases "getMatchHandler pool i sv")
  case None
  with assms(1,2,5) show ?thesis by (simp add: serverCancelOrder_def)
next
  case (Some h)
  note rt = routed [OF assms(1) Some assms(3)]
  obtain r s where run: "cancelOrderWithoutLock now hash CancelReasonUserCancel True 0 (enter h sv) = (r, s)" by fastforce
  have "\<forall>r \<in> set (tOrders (dbTables sv)). OrderHash r = hash \<longrightarrow>
      in_perp (hPerp h) r \<and> (True \<or> HasTheSameSign 0 (Amount r))"
    using assms(4) rt(1,2) by (simp add: in_perp_def)
  from handler_cancel_agreed [OF assms(1,2) rt(3) _ this run] run Some assms(5) show ?thesis
    by (auto simp: serverCancelOrder_def onHandler_def)
qed

lemma serverExpired_agreed:
  assumes "agreed sv" "dbFaults sv = []" "map_of (svHandlers sv) key = Some h"
    "\<forall>r \<in> set (tOrders (dbTables sv)). OrderHash r = hash \<longrightarrow> in_perp (hPerp h) r"
  shows "agreed (serverExpired now key hash sv) \<and> dbFaults (serverExpired now key hash sv) = []"
proof -
  let ?h = "h\<lparr> hTimers := AList.delete hash (hTimers h) \<rparr>"
  let ?sv = "sv\<lparr> svHandlers := AList.update key ?h (svHandlers sv) \<rparr>"
  have d: "distinct (map fst (svHandlers sv))" using assms(1) by (simp add: agreed_def)
  have "(key, h) \<in> set (svHandlers sv)" using assms(3) by (rule map_of_SomeD)
  with assms(1) d have a: "agreed ?sv"
    by (auto simp: agreed_def set_update_alist distinct_update split: if_splits)
  have e: "deleteOrderTimer hash (enter h sv) = enter ?h ?sv" by (simp add: deleteOrderTimer_def enter_def)
  obtain r s where run: "cancelOrderWithoutLock now hash CancelReasonExpired True 0 (enter ?h ?sv) = (r, s)" by fastforce
  have m: "map_of (svHandlers ?sv) key = Some ?h" "dbFaults ?sv = []" using assms(2) by (simp_all add: update_conv)
  have c: "\<forall>r \<in> set (tOrders (dbTables ?sv)). OrderHash r = hash \<longrightarrow>
      in_perp (hPerp ?h) r \<and> (True \<or> HasTheSameSign 0 (Amount r))" using assms(4) by simp
  have "agreed (leave key (hPerp ?h) s ?sv) \<and> dbFaults s = []"
    using handler_cancel_agreed [OF a m(2,1) _ c run] by simp
  moreover have "leave key (hPerp ?h) s ?sv = leave key (hPerp h) s sv"
    by (simp add: leave_def shared_def update_twice)
  moreover have "serverExpired now key hash sv = leave key (hPerp h) s sv"
    using assms(3) run e by (simp add: serverExpired_def onOrderExpired_def)
  ultimately show ?thesis by simp
qed

lemma serverUpdateOrdersStatus_agreed:
  assumes "agreed sv" "dbFaults sv = []" "settlement_fits (dbTables sv) tx status successEvents failedEvents"
    "serverUpdateOrdersStatus now (mtID tx) status transactionHash blockHash blockNumber blockTime
      successEvents failedEvents sv = (res, sv')"
  shows "agreed sv' \<and> dbFaults sv' = []"
proof -
  let ?k = "getPerpetualKey (mtLiquidityPoolAddress tx) (mtPerpetualIndex tx)"
  have f: "tx \<in> set (tMatchTxs (dbTables sv))" "distinct (map mtID (tMatchTxs (dbTables sv)))"
    "address (mtLiquidityPoolAddress tx)" "events_nonzero successEvents failedEvents"
    using assms(3) by (simp_all add: settlement_fits_def)
  have g: "GetMatchTransaction (mtID tx) sv = (Inr tx, sv)" using assms(2) f(1,2) by (rule run_GetMatchTransaction)
  show ?thesis
  proof (cases "getMatchHandler (mtLiquidityPoolAddress tx) (mtPerpetualIndex tx) sv")
    case None
    with assms(1,2,4) g show ?thesis by (auto simp: serverUpdateOrdersStatus_def)
  next
    case (Some h)
    note rt = routed [OF assms(1) Some f(3)]
    obtain r s where run: "UpdateOrdersStatus now (mtID tx) status transactionHash blockHash blockNumber blockTime
        successEvents failedEvents (enter h sv) = (r, s)" by fastforce
    have "\<forall>r \<in> set (tOrders (dbTables sv)). OrderHash r \<in> set (map miOrderHash (MatchItems (mtMatchResult tx))) \<longrightarrow>
        in_perp (hPerp h) r \<and> fits (succMap status successEvents) (amountMap (MatchItems (mtMatchResult tx))) r"
      using assms(3) rt(1,2) by (simp add: settlement_fits_def in_perp_def)
    from handler_settle_agreed [OF assms(1,2) rt(3) f(1,2) refl refl refl refl this f(4) run] run g Some assms(4)
    show ?thesis by (auto simp: serverUpdateOrdersStatus_def onHandler_def)
  qed
qed

lemma srv_step_agreed:
  assumes "srv_step L cf sv sv'" "agreed sv" "dbFaults sv = []"
  shows "agreed sv' \<and> dbFaults sv' = []"
  using assms(1)
proof cases
  case (start env res)
  then show ?thesis using serverStart_agreed [OF assms(2,3)] by blast
next
  case (new_order ord env visit code)
  show ?thesis by (rule serverNewOrder_agreed [OF assms(2,3) new_order])
next
  case (cancel pool hash i now res)
  then show ?thesis using serverCancelOrder_agreed [OF assms(2,3)] by blast
next
  case (matching env uuid key)
  show ?thesis
  proof (cases "map_of (svHandlers sv) key")
    case None
    with matching assms(2,3) show ?thesis by (simp add: serverMatchOrders_def)
  next
    case (Some h)
    with matching obtain s where "matchOrders L env cf (hPerp h) uuid (enter h sv) = Some s" "sv' = leave key (hPerp h) s sv"
      by (auto simp: serverMatchOrders_def bind_Some_iff)
    with handler_match_agreed [OF assms(2,3) Some] show ?thesis by simp
  qed
next
  case (expired key h hash now)
  then show ?thesis using serverExpired_agreed [OF assms(2,3)] by blast
next
  case (mined tx status successEvents failedEvents now transactionHash blockHash blockNumber blockTime res)
  then show ?thesis using serverUpdateOrdersStatus_agreed [OF assms(2,3)] by blast
next
  case (monitor visit env)
  then show ?thesis using checkPerpUserOrders_run [OF assms(2,3)] by blast
next
  case (close save pool i res)
  then show ?thesis using ClosePerpetual_agreed [OF assms(2,3)] by blast
next
  case (pool_dirty txID)
  with assms(2,3) show ?thesis
    by (auto simp: serverSetPoolStorageDirty_def GetMatchTransaction_def dbCall_def split: option.split)
next
  case (pool_sync env ps)
  with assms(2,3) show ?thesis by simp
qed

lemma srv_reachable_agreed: "srv_reachable L cf sv \<Longrightarrow> agreed sv \<and> dbFaults sv = []"
proof (induction rule: srv_reachable.induct)
  case (init sv)
  then show ?case by (simp add: srv_initial_def agreed_def)
next
  case (step sv sv')
  with srv_step_agreed show ?case by blast
qed

section \<open>A server on concrete data\<close>

definition demo_server :: server where
  "demo_server = \<lparr> dbTables = \<lparr> tOrders = [match_row], tMatchTxs = [], tPerpetuals = [match_perp], tNextID = 2 \<rparr>,
     dbFaults = [], svHandlers = [], svPools = [], svWs = [] \<rparr>"

lemma demo_initial: "srv_initial demo_server"
proof -
  have "tables_ok [ident match_row] (dbTables match_state)" using synced_tables [OF match_synced] by simp
  then have "tables_ok [ident match_row] (dbTables demo_server)"
    by (simp add: tables_ok_def orders_ok_def demo_server_def)
  moreover have "address (LiquidityPoolAddress match_row)"
    using match_row_simps(8) by (simp add: in_perp_def match_perp_def address_def)
  ultimately show ?thesis by (simp add: srv_initial_def demo_server_def)
qed

text \<open>Starting it opens the perpetual, and its order is in the book.\<close>

lemma reloadLoop_pools: "reloadLoop now orders s = (r, s') \<Longrightarrow> msPools s' = msPools s"
proof (induction orders arbitrary: s)
  case (Cons ord orders)
  then show ?case
    by (cases "InsertOrder (msBook s) (getMemoryOrder ord)"; cases "fst (InsertOrder (msBook s) (getMemoryOrder ord))")
      (auto simp: bindE_def bookInsert_def setExpirationTimer_def split: if_splits)
qed auto

lemma newMatch_pools: "newMatch now perp s = (r, s') \<Longrightarrow> msPools s' = msPools s"
  by (auto simp: newMatch_def reloadActiveOrders_def bindE_def QueryOrder_def dbCall_def Let_def
      dest: reloadLoop_pools split: list.splits if_splits)

lemma serverNewMatch_pools:
  "serverNewMatch env perp sv = (r, sv') \<Longrightarrow> svPools sv' = AddPool env (ppLiquidityPoolAddress perp) (svPools sv)"
  by (auto simp: serverNewMatch_def Let_def bindE_def setMatchHandler_def shared_def enter_def
      dest!: newMatch_pools split: prod.splits sum.splits option.splits)

lemma demo_started:
  obtains sv h where "srv_step L cf demo_server sv" "srv_reachable L cf sv"
    "svPools sv = AddPool match_env ''0xa'' []" "dbFaults sv = []"
    "map_of (svHandlers sv) (perpetualKey match_perp) = Some h" "hPerp h = match_perp" "tOrders (dbTables sv) = [match_row]"
proof -
  have a: "agreed demo_server" "dbFaults demo_server = []" "open_pending (dbTables demo_server)"
    using demo_initial by (simp_all add: srv_initial_def agreed_def open_pending_def demo_server_def)
  have p: "address (ppLiquidityPoolAddress match_perp)" "ppIsPublished match_perp" by (simp_all add: match_perp_def address_def)
  let ?sv = "demo_server\<lparr> svPools := newPoolSyncer \<rparr>"
  obtain res sv where m: "serverNewMatch match_env match_perp ?sv = (res, sv)" by fastforce
  have "agreed ?sv" "dbFaults ?sv = []" "open_pending (dbTables ?sv)" using a by simp_all
  moreover have "map_of (svHandlers ?sv) (perpetualKey match_perp) = None" by (simp add: demo_server_def)
  ultimately obtain h where
    h: "hPerp h = match_perp" "map_of (svHandlers sv) (perpetualKey match_perp) = Some h" "dbTables sv = dbTables demo_server"
    using serverNewMatch_agreed [OF _ _ p(1) _ m] by (cases res) auto
  have q: "QueryPerpetuals True demo_server = (Inr [match_perp], demo_server)"
    using p(2) by (simp add: QueryPerpetuals_def dbCall_def demo_server_def)
  then have "serverStart match_env demo_server = (Inr (), sv)" using m by (simp add: serverStart_def)
  then have st: "srv_step L cf demo_server sv"
    using a(3) p(1) by (intro srv_step.start) (simp_all add: demo_server_def)
  note re = srv_reachable.step [OF srv_reachable.init [OF demo_initial] st]
  have "svPools sv = AddPool match_env ''0xa'' []"
    using serverNewMatch_pools [OF m] by (simp add: match_perp_def newPoolSyncer_def)
  from that [OF st re this _ h(2,1)] h(3) srv_reachable_agreed [OF re] show ?thesis by (simp add: demo_server_def)
qed

text \<open>A broker with another address: the monitor cancels the order that was signed for the old one.\<close>

definition other_conf :: conf where
  "other_conf = match_conf\<lparr> cfBrokerAddress := ''0xc'' \<rparr>"

definition in_order :: visits where
  "in_order = \<lparr> vsCollaterals = (\<lambda>xs. xs), vsPerps = (\<lambda>xs. xs) \<rparr>"

lemma demo_monitor:
  assumes "svPools sv = AddPool match_env ''0xa'' []" "dbFaults sv = []" "tOrders (dbTables sv) = [match_row]"
  shows "checkUserPendingOrders L match_env other_conf in_order ''0xe'' sv =
      Some ([cancelItem match_row (- (1 / 4)) CancelReasonTransactionFail], sv)"
    "checkPerpUserOrders L match_env other_conf in_order sv =
      Some (monitorCancels 0 [cancelItem match_row (- (1 / 4)) CancelReasonTransactionFail] sv)"
proof -
  have r: "TraderAddress match_row = ''0xe''" "BrokerAddress match_row = ''0xb''" "LiquidityPoolAddress match_row = ''0xa''"
    by (simp_all add: match_row_def match_db_order_def)
  have e: "envPool match_env ''0xa'' = Some sample_pool" "envAccount match_env i a tr = Some (sample_account 10 1)"
    "envNow match_env = 0" for i a tr by (simp_all add: match_env_def)
  have p: "GetPoolStorage match_env ''0xa'' (svPools sv) = (Some (sample_pool, True), svPools sv)"
    unfolding assms(1) by (simp add: GetPoolStorage_def AddPool_def e)
  have l: "loadPoolAccount match_env match_row sv = (Inr (sample_pool, sample_account 10 1), sv)"
    by (simp add: loadPoolAccount_def r p e)
  have "toLower (cfBrokerAddress other_conf) = ''0xc''"
    by (simp add: toLower_def toLowerChar_def other_conf_def)
  then have c: "singleOrderCheck other_conf match_row sample_pool (sample_account 10 1) =
      Some (cancelItem match_row (- (1 / 4)) CancelReasonTransactionFail)"
    by (simp add: singleOrderCheck_def r)
  have q: "QueryOrder ''0xe'' [] 0 [OrderPending] 0 0 0 sv = (Inr [match_row], sv)"
    "GetPendingOrderUsers [] 0 [OrderPending] sv = (Inr [''0xe''], sv)"
    using assms(2,3) by (simp_all add: QueryOrder_def GetPendingOrderUsers_def dbCall_def limitDesc_def orderWhere_def r)
  show u: "checkUserPendingOrders L match_env other_conf in_order ''0xe'' sv =
      Some ([cancelItem match_row (- (1 / 4)) CancelReasonTransactionFail], sv)"
    using q(1) l c by (simp add: checkUserPendingOrders_def splitOne_def bindE_def Let_def in_order_def)
  then show "checkPerpUserOrders L match_env other_conf in_order sv =
      Some (monitorCancels 0 [cancelItem match_row (- (1 / 4)) CancelReasonTransactionFail] sv)"
    using q(2) by (simp add: checkPerpUserOrders_def e)
qed

section \<open>Properties\<close>



text \<open>
  C14: the monitor only cancels. In a reachable state of the server, a round of the monitor that
  ends leaves every order with its identity, its pending and its confirmed amount, never more
  available than before, and the books in agreement.
\<close>

theorem monitor_only_cancels:
  assumes "srv_reachable L cf sv" "visits_ok visit" "checkPerpUserOrders L env cf visit sv = Some sv'"
  shows "agreed sv' \<and>
     list_all2 (\<lambda>r r'. ident r' = ident r \<and> PendingAmount r' = PendingAmount r \<and> ConfirmedAmount r' = ConfirmedAmount r \<and>
         AvailableAmount r' + CanceledAmount r' = AvailableAmount r + CanceledAmount r \<and>
         \<bar>AvailableAmount r'\<bar> \<le> \<bar>AvailableAmount r\<bar>)
       (tOrders (dbTables sv)) (tOrders (dbTables sv'))"
proof -
  have a: "agreed sv" "dbFaults sv = []" using srv_reachable_agreed [OF assms(1)] by simp_all
  from checkPerpUserOrders_run [OF a assms(2,3)] have r: "agreed sv'"
    "list_all2 cancelled_row (tOrders (dbTables sv)) (tOrders (dbTables sv'))" by simp_all
  have c: "\<forall>r \<in> set (tOrders (dbTables s)). conserved r" if "agreed s" for s
    using that by (auto simp: agreed_def tables_ok_def orders_ok_def row_ok_def)
  have "list_all2 (\<lambda>r r'. ident r' = ident r \<and> PendingAmount r' = PendingAmount r \<and> ConfirmedAmount r' = ConfirmedAmount r \<and>
         AvailableAmount r' + CanceledAmount r' = AvailableAmount r + CanceledAmount r \<and>
         \<bar>AvailableAmount r'\<bar> \<le> \<bar>AvailableAmount r\<bar>)
       (tOrders (dbTables sv)) (tOrders (dbTables sv'))"
  proof (rule list.rel_mono_strong [OF r(2)])
    fix x y
    assume "x \<in> set (tOrders (dbTables sv))" "y \<in> set (tOrders (dbTables sv'))" "cancelled_row x y"
    with c [OF a(1)] c [OF r(1)] identD(3) [of y x] show "ident y = ident x \<and> PendingAmount y = PendingAmount x \<and>
      ConfirmedAmount y = ConfirmedAmount x \<and> AvailableAmount y + CanceledAmount y = AvailableAmount x + CanceledAmount x \<and>
      \<bar>AvailableAmount y\<bar> \<le> \<bar>AvailableAmount x\<bar>"
      by (auto simp: cancelled_row_def conserved_def)
  qed
  with r(1) show ?thesis by simp
qed

theorem monitor_only_cancels_witness:
  "\<exists>sv sv'. srv_reachable lib18 other_conf sv \<and> visits_ok in_order \<and>
     checkUserPendingOrders lib18 match_env other_conf in_order ''0xe'' sv =
       Some ([cancelItem match_row (- (1 / 4)) CancelReasonTransactionFail], sv) \<and>
     checkPerpUserOrders lib18 match_env other_conf in_order sv = Some sv' \<and> agreed sv'"
proof -
  obtain sv h where "srv_step lib18 other_conf demo_server sv" and s: "srv_reachable lib18 other_conf sv"
    "svPools sv = AddPool match_env ''0xa'' []" "dbFaults sv = []"
    and "map_of (svHandlers sv) (perpetualKey match_perp) = Some h" "hPerp h = match_perp"
    and t: "tOrders (dbTables sv) = [match_row]"
    by (rule demo_started)
  have v: "visits_ok in_order" by (simp add: visits_ok_def in_order_def)
  note m = demo_monitor [OF s(2,3) t, of lib18]
  from monitor_only_cancels [OF s(1) v m(2)] s(1) v m show ?thesis by blast
qed

end
