(* ===== verification/Launch_Run.thy ===== *)
theory Launch_Run
  imports Launch_Invariant Server_Run
begin

text \<open>
  The runs of launcher and match server together: the four rounds of the launcher, matching runs
  and everything else the server does, in any order, with database faults at any statement. In
  every state that is reached the launch transactions are well-formed and each belongs to a match
  transaction that has left its initial status; the two theorems at the end show where the
  launcher loses or repeats a match.
\<close>

section \<open>Launching\<close>

text \<open>A match transaction is initial exactly as long as it has no launch transaction.\<close>

definition linked :: "lstate \<Rightarrow> bool" where
  "linked s \<longleftrightarrow> distinct (map mtID (tMatchTxs (dbTables s))) \<and> txIDs s \<subseteq> mtID ` set (tMatchTxs (dbTables s)) \<and>
     (\<forall>mt \<in> set (tMatchTxs (dbTables s)). mtStatus mt \<noteq> TransactionStatusInit \<longleftrightarrow> mtID mt \<in> txIDs s)"

lemma advances_ids: "advances I T T' \<Longrightarrow> map mtID T' = map mtID T"
  unfolding advances_def by (induction rule: list_all2_induct) auto

lemma advances_row:
  assumes "advances I T T'" "r' \<in> set T'"
  shows "r' \<in> set T \<or> mtID r' \<in> I \<and> mtStatus r' \<noteq> TransactionStatusInit"
  using assms unfolding advances_def by (induction rule: list_all2_induct) auto

lemma linked_grows:
  assumes "linked s" "grows s s'"
  shows "linked s'"
proof -
  let ?T = "tMatchTxs (dbTables s)" and ?T' = "tMatchTxs (dbTables s')"
  have a: "advances (txIDs s) ?T ?T'" using assms(2) by (simp add: grows_def)
  note ids = advances_ids [OF a] and i = grows_txIDs [OF assms(2)]
  have "mtID ` set ?T' = mtID ` set ?T" using arg_cong [OF ids, of set] by simp
  moreover have "mtStatus mt \<noteq> TransactionStatusInit \<longleftrightarrow> mtID mt \<in> txIDs s" if "mt \<in> set ?T'" for mt
    using advances_row [OF a that] assms(1) by (auto simp: linked_def)
  ultimately show ?thesis using assms(1) ids i by (simp add: linked_def)
qed

text \<open>Reading statements change no table.\<close>

definition same_tables :: "lstate \<Rightarrow> lstate \<Rightarrow> bool" where
  "same_tables s s' \<longleftrightarrow> lsTxs s' = lsTxs s \<and> lsNextTx s' = lsNextTx s \<and> dbTables s' = dbTables s"

definition reads :: "(lstate, 'a) dbm \<Rightarrow> bool" where
  "reads m \<longleftrightarrow> (\<forall>s. same_tables s (snd (m s)))"

lemma reads_dbCall: "(\<And>s. snd (m s) = s) \<Longrightarrow> reads (dbCall m)"
  by (auto simp: reads_def dbCall_def same_tables_def Let_def split: list.splits)

lemma reads_ret: "reads (retE x)"
  by (simp add: reads_def same_tables_def)

lemma reads_bind: "reads m \<Longrightarrow> (\<And>x. reads (f x)) \<Longrightarrow> reads (bindE m f)"
  by (auto simp: reads_def bindE_def same_tables_def split: prod.splits sum.splits) (metis snd_conv)+

lemma readsD: "reads m \<Longrightarrow> m s = (r, s') \<Longrightarrow> same_tables s s'"
  unfolding reads_def by (metis snd_conv)

lemma same_tables_ok:
  assumes "same_tables s s'"
  shows "launch_ok s' = launch_ok s" "linked s' = linked s" "txIDs s' = txIDs s"
  using assms by (simp_all add: same_tables_def launch_ok_def linked_def txIDs_def)

lemma LoadMatchOrders_reads: "reads (LoadMatchOrders items)"
proof (induction items)
  case (Cons item items)
  have "reads (GetOrderByHash (miOrderHash item))"
    unfolding GetOrderByHash_def by (rule reads_dbCall) (auto split: option.splits)
  with Cons.IH show ?case unfolding LoadMatchOrders.simps by (intro reads_bind reads_ret)
qed (simp add: reads_def same_tables_def)

lemma loadAllOrders_reads: "reads (loadAllOrders txs)"
proof (induction txs)
  case (Cons tx txs)
  then show ?case unfolding loadAllOrders.simps by (intro reads_bind LoadMatchOrders_reads reads_ret)
qed (simp add: reads_def same_tables_def)

lemma QueryMatchTransaction_reads: "reads (QueryMatchTransaction a i st)"
  unfolding QueryMatchTransaction_def by (rule reads_dbCall) simp

lemma GetTxByID_reads: "reads (GetTxByID i)"
proof -
  have "reads (findAll (Some i) None [])" unfolding findAll_def by (simp, rule reads_dbCall) simp
  then show ?thesis unfolding GetTxByID_def
    by (rule reads_bind) (auto simp: reads_def same_tables_def throwE_def retE_def split: list.splits)
qed

lemma GetTxByID_notLaunched:
  assumes "GetTxByID i s = (r, s')" "notLaunched r"
  shows "i \<notin> txIDs s"
proof
  assume "i \<in> txIDs s"
  then obtain t where t: "t \<in> set (lsTxs s)" "ltTxID t = i" by (auto simp: txIDs_def)
  let ?rows = "sort_key ltCommitTime (findTxs (txWhere (Some i) None []) s)"
  have "t \<in> set ?rows" using t by (simp add: findTxs_def txWhere_def statusFilter_def)
  then obtain u us where u: "?rows = u # us" by (cases ?rows) auto
  have db: "\<not> IsRecordNotFound ''database error''" by (simp add: IsRecordNotFound_def ErrRecordNotFound_def)
  obtain q s1 where q: "findAll (Some i) None [] s = (q, s1)" by fastforce
  then have "q = Inl ''database error'' \<or> q = Inr ?rows"
    by (auto simp: findAll_def dbCall_def Let_def findTxs_def split: list.splits if_splits)
  with assms q u db show False by (auto simp: GetTxByID_def notLaunched_def bindE_def)
qed

lemma CreateTx_cases:
  assumes "CreateTx now tx s = (r, s')" "ltID tx = 0"
  obtains (failed) e where "r = Inl e" "same_tables s s'"
  | (stored) row where "row = tx\<lparr> ltUpdateTime := now, ltID := lsNextTx s \<rparr>" "r = Inr row" "lsTxs s' = lsTxs s @ [row]"
      "lsNextTx s' = lsNextTx s + 1" "dbTables s' = dbTables s"
  using assms
  by (auto simp: CreateTx_def dbCall_def insertTx_def Let_def same_tables_def split: list.splits if_splits)

lemma UpdateMatchTransaction_rows:
  "UpdateMatchTransaction mt s = (r, s') \<Longrightarrow> lsTxs s' = lsTxs s \<and> lsNextTx s' = lsNextTx s"
  by (auto simp: UpdateMatchTransaction_def dbCall_def Let_def split: list.splits if_splits)

text \<open>The transaction that stores a launch: both rows are written, or none.\<close>

lemma storeLaunch_cases:
  assumes "storeLaunch now mtx tx s = (r, s')" "ltID tx = 0" "mtID mtx \<in> mtID ` set (tMatchTxs (dbTables s))"
  obtains (undone) "lsTxs s' = lsTxs s" "lsNextTx s \<le> lsNextTx s'" "dbTables s' = dbTables s"
  | (stored) row where "row = tx\<lparr> ltUpdateTime := now, ltID := lsNextTx s \<rparr>" "lsTxs s' = lsTxs s @ [row]"
      "lsNextTx s' = lsNextTx s + 1"
      "tMatchTxs (dbTables s') = replaced (mtx\<lparr> mtStatus := TransactionStatusPending \<rparr>) (tMatchTxs (dbTables s))"
proof -
  let ?m = "mtx\<lparr> mtStatus := TransactionStatusPending \<rparr>"
  obtain r1 s1 where b: "bindE (CreateTx now tx) (\<lambda>_. UpdateMatchTransaction ?m) s = (r1, s1)" by fastforce
  obtain rc sc where c: "CreateTx now tx s = (rc, sc)" by fastforce
  have s1: "lsNextTx s \<le> lsNextTx s1 \<and> (\<forall>u. r1 = Inr u \<longrightarrow> (\<exists>row. row = tx\<lparr> ltUpdateTime := now, ltID := lsNextTx s \<rparr> \<and>
      lsTxs s1 = lsTxs s @ [row] \<and> lsNextTx s1 = lsNextTx s + 1 \<and>
      tMatchTxs (dbTables s1) = replaced ?m (tMatchTxs (dbTables s))))"
    using c assms(2)
  proof (cases rule: CreateTx_cases)
    case (failed e)
    with b c show ?thesis by (auto simp: same_tables_def)
  next
    case (stored row)
    with b c have u: "UpdateMatchTransaction ?m sc = (r1, s1)" by simp
    have "mtID ?m \<in> mtID ` set (tMatchTxs (dbTables sc))" using stored(5) assms(3) by simp
    from run_UpdateMatchTransaction_Inr [OF _ this, of _ s1] u UpdateMatchTransaction_rows [OF u] stored show ?thesis by auto
  qed
  show ?thesis
  proof (cases r1)
    case (Inl e)
    with assms(1) b have "s' = undoAll s s1" by (simp add: storeLaunch_def beginTx_def)
    with s1 undone show ?thesis by (simp add: undoAll_def undoLaunch_def)
  next
    case (Inr u)
    obtain r2 s2 where d: "dbCall (retE u) s1 = (r2, s2)" by fastforce
    then have s2: "lsTxs s2 = lsTxs s1" "lsNextTx s2 = lsNextTx s1" "dbTables s2 = dbTables s1"
      by (auto simp: dbCall_def Let_def split: list.splits if_splits)
    show ?thesis
    proof (cases r2)
      case (Inl e)
      with assms(1) b Inr d have "s' = undoAll s s2" by (simp add: storeLaunch_def beginTx_def)
      with s1 s2 undone show ?thesis by (simp add: undoAll_def undoLaunch_def)
    next
      case (Inr v)
      with assms(1) b \<open>r1 = Inr u\<close> d have "s' = s2" by (simp add: storeLaunch_def beginTx_def)
      with s1 s2 \<open>r1 = Inr u\<close> stored show ?thesis by auto
    qed
  qed
qed

definition launches :: "lstate \<Rightarrow> lstate \<Rightarrow> bool" where
  "launches s s' \<longleftrightarrow> launch_ok s' \<and> linked s' \<and> map mtID (tMatchTxs (dbTables s')) = map mtID (tMatchTxs (dbTables s))"

lemma launches_trans: "launches s s' \<Longrightarrow> launches s' s'' \<Longrightarrow> launches s s''"
  by (simp add: launches_def)

lemma launches_same: "launch_ok s \<Longrightarrow> linked s \<Longrightarrow> same_tables s s' \<Longrightarrow> launches s s'"
  using same_tables_ok [of s s'] by (simp add: launches_def) (simp add: same_tables_def)

lemma storeLaunch_launches:
  assumes "launch_ok s" "linked s" "mtID mtx \<in> mtID ` set (tMatchTxs (dbTables s))" "mtID mtx \<notin> txIDs s"
    "storeLaunch now mtx (newLaunchTransaction now mtx acc inputs) s = (r, s')"
  shows "launches s s'"
proof -
  let ?tx = "newLaunchTransaction now mtx acc inputs"
  have "ltID ?tx = 0" by (simp add: newLaunchTransaction_def)
  from assms(5) this assms(3) show ?thesis
  proof (cases rule: storeLaunch_cases)
    case undone
    with assms(1,2) launch_ok_same [of s' s] show ?thesis by (simp add: launches_def linked_def txIDs_def)
  next
    case (stored row)
    let ?m = "mtx\<lparr> mtStatus := TransactionStatusPending \<rparr>" and ?T = "tMatchTxs (dbTables s)"
    have row: "ltTxID row = mtID mtx" "tx_wf row" "ltID row = lsNextTx s"
      by (simp_all add: stored(1) newLaunchTransaction_def tx_wf_def)
    have "launch_ok (s\<lparr> lsTxs := lsTxs s @ [row], lsNextTx := lsNextTx s + 1 \<rparr>)"
      by (rule launch_ok_append) (use assms(1,4) row in \<open>auto simp: txIDs_def\<close>)
    from launch_ok_same [OF _ _ this, of s'] stored(2,3) have ok: "launch_ok s'" by simp
    have i: "txIDs s' = insert (mtID mtx) (txIDs s)" using stored(2) row(1) by (simp add: txIDs_def)
    have ids: "map mtID (replaced ?m ?T) = map mtID ?T" by (simp add: replaced_def)
    then have im: "mtID ` set (replaced ?m ?T) = mtID ` set ?T" by (metis list.set_map)
    have "mtStatus mt \<noteq> TransactionStatusInit \<longleftrightarrow> mtID mt \<in> txIDs s'" if "mt \<in> set (replaced ?m ?T)" for mt
    proof (cases "mt = ?m")
      case True
      then show ?thesis by (simp add: i)
    next
      case False
      with that have "mt \<in> set ?T" "mtID mt \<noteq> mtID mtx" by (auto simp: replaced_def split: if_splits)
      with assms(2) i show ?thesis by (auto simp: linked_def)
    qed
    with assms(2,3) i ids im stored(4) ok show ?thesis by (simp add: launches_def linked_def)
  qed
qed

lemma createLaunchTransaction_launches:
  assumes "launch_ok s" "linked s" "mtID mtx \<in> mtID ` set (tMatchTxs (dbTables s))"
    "createLaunchTransaction env cf mtx orders s = (r, s')"
  shows "launches s s'"
proof -
  obtain found s1 where g: "GetTxByID (mtID mtx) s = (found, s1)" by fastforce
  note same = readsD [OF GetTxByID_reads g]
  have l1: "launches s s1" by (rule launches_same [OF assms(1,2) same])
  consider "s' = s1"
    | acc inputs where "notLaunched found" "storeLaunch (leNow env) mtx (newLaunchTransaction (leNow env) mtx acc inputs) s1 = (r, s')"
    using assms(4) g
    by (auto simp: createLaunchTransaction_def split: if_splits sum.splits prod.splits)
  then show ?thesis
  proof cases
    case 1
    with l1 show ?thesis by simp
  next
    case (2 acc inputs)
    have "mtID mtx \<notin> txIDs s1" using GetTxByID_notLaunched [OF g 2(1)] same_tables_ok(3) [OF same] by simp
    moreover have "launch_ok s1" "linked s1" using l1 by (simp_all add: launches_def)
    moreover have "mtID mtx \<in> mtID ` set (tMatchTxs (dbTables s1))" using assms(3) same by (simp add: same_tables_def)
    ultimately show ?thesis using storeLaunch_launches [OF _ _ _ _ 2(2)] launches_trans [OF l1] by blast
  qed
qed

lemma createAll_launches:
  assumes "launch_ok s" "linked s" "\<forall>(mt, ords) \<in> set txs. mtID mt \<in> mtID ` set (tMatchTxs (dbTables s))"
    "createAll env cf txs s = (r, s')"
  shows "launches s s'"
  using assms
proof (induction txs arbitrary: s r)
  case Nil
  then show ?case by (auto intro: launches_same simp: same_tables_def)
next
  case (Cons x txs)
  obtain mt ords where x: "x = (mt, ords)" by fastforce
  obtain r1 s1 where c: "createLaunchTransaction env cf mt ords s = (r1, s1)" by fastforce
  have l: "launches s s1" by (rule createLaunchTransaction_launches [OF Cons.prems(1,2) _ c]) (use Cons.prems(3) x in simp)
  show ?case
  proof (cases r1)
    case (Inl e)
    with Cons.prems(4) x c l show ?thesis by auto
  next
    case (Inr u)
    have "mtID ` set (tMatchTxs (dbTables s1)) = mtID ` set (tMatchTxs (dbTables s))"
      using l by (metis launches_def list.set_map)
    with Cons.prems(3) have "\<forall>(mt, ords) \<in> set txs. mtID mt \<in> mtID ` set (tMatchTxs (dbTables s1))" by simp
    with Cons.IH [of s1 r] l Cons.prems(4) x c Inr have "launches s1 s'" by (simp add: launches_def)
    with l show ?thesis by (rule launches_trans)
  qed
qed

lemma checkMatchTransaction_launches:
  assumes "launch_ok s" "linked s"
  shows "launches s (checkMatchTransaction env cf s)"
proof -
  obtain r1 s1 where q: "QueryMatchTransaction [] 0 [TransactionStatusInit] s = (r1, s1)" by fastforce
  note same1 = readsD [OF QueryMatchTransaction_reads q]
  have l1: "launches s s1" by (rule launches_same [OF assms same1])
  show ?thesis
  proof (cases r1)
    case (Inl e)
    with q l1 show ?thesis by (simp add: checkMatchTransaction_def)
  next
    case (Inr txs)
    have txs: "set txs \<subseteq> set (tMatchTxs (dbTables s1))"
      using q Inr by (auto simp: QueryMatchTransaction_def dbCall_def Let_def split: list.splits if_splits)
    obtain r2 s2 where o: "loadAllOrders txs s1 = (r2, s2)" by fastforce
    note same2 = readsD [OF loadAllOrders_reads o]
    have l2: "launches s1 s2" by (rule launches_same [OF _ _ same2]) (use l1 in \<open>simp_all add: launches_def\<close>)
    show ?thesis
    proof (cases r2)
      case (Inl e)
      with q Inr \<open>r1 = Inr txs\<close> o launches_trans [OF l1 l2] show ?thesis by (simp add: checkMatchTransaction_def)
    next
      case (Inr orders)
      obtain r3 s3 where c: "createAll env cf (zip txs orders) s2 = (r3, s3)" by fastforce
      have "\<forall>(mt, ords) \<in> set (zip txs orders). mtID mt \<in> mtID ` set (tMatchTxs (dbTables s2))"
        using txs same2 by (auto simp: same_tables_def dest: set_zip_leftD)
      with createAll_launches [OF _ _ _ c] l2 have "launches s2 s3" by (simp add: launches_def)
      with q \<open>r1 = Inr txs\<close> o Inr c launches_trans [OF l1 launches_trans [OF l2]] show ?thesis
        by (simp add: checkMatchTransaction_def)
    qed
  qed
qed

section \<open>Steps\<close>

text \<open>
  The rounds of the launcher and of the match server. What the server does besides matching
  (orders come, are cancelled, expire; the monitor; opening and closing of perpetuals) leaves the
  match transactions alone and is one rule.
\<close>

inductive lstep :: "decimal_lib \<Rightarrow> conf \<Rightarrow> lstate \<Rightarrow> lstate \<Rightarrow> bool" for L cf where
  launch: "lstep L cf s (checkMatchTransaction env cf s)"
| execute: "lstep L cf s (executeTransaction env cf s)"
| sync: "launch_chain (leChain env) \<Longrightarrow> syncTransaction env cf s = Some s' \<Longrightarrow> lstep L cf s s'"
| monitor: "launch_chain (leChain env) \<Longrightarrow> lstep L cf s (checkUnmatureTransactionStatus env cf s)"
| matching: "serverMatchOrders L cenv cf uuid key (server.truncate s) = Some sv \<Longrightarrow> lstep L cf s (withServer sv s)"
| orders: "tMatchTxs (dbTables sv) = tMatchTxs (dbTables s) \<Longrightarrow> lstep L cf s (withServer sv s)"

definition linitial :: "lstate \<Rightarrow> bool" where
  "linitial s \<longleftrightarrow> lsTxs s = [] \<and> lsNextTx s = 1 \<and> distinct (map mtID (tMatchTxs (dbTables s))) \<and>
     (\<forall>mt \<in> set (tMatchTxs (dbTables s)). mtStatus mt = TransactionStatusInit)"

inductive lreachable :: "decimal_lib \<Rightarrow> conf \<Rightarrow> lstate \<Rightarrow> bool" for L cf where
  init: "linitial s \<Longrightarrow> lreachable L cf s"
| step: "lreachable L cf s \<Longrightarrow> lstep L cf s s' \<Longrightarrow> lreachable L cf s'"

inductive_cases lstepE: "lstep L cf s s'"

lemma withServer_simps [simp]:
  "lsTxs (withServer sv s) = lsTxs s" "lsNextTx (withServer sv s) = lsNextTx s" "dbTables (withServer sv s) = dbTables sv"
  "txIDs (withServer sv s) = txIDs s"
  by (simp_all add: withServer_def txIDs_def)

lemma linked_append:
  assumes "linked s" "launch_ok s" "mtStatus tx = TransactionStatusInit" "mtID tx \<notin> mtID ` set (tMatchTxs (dbTables s))"
    "tMatchTxs (dbTables sv) = tMatchTxs (dbTables s) @ [tx]"
  shows "linked (withServer sv s)"
proof -
  have "mtID tx \<notin> txIDs s" using assms(1,4) by (auto simp: linked_def)
  with assms show ?thesis by (auto simp: linked_def)
qed

lemma lstep_ok:
  assumes "lstep L cf s s'" "launch_ok s \<and> linked s"
  shows "launch_ok s' \<and> linked s'"
  using assms(1)
proof cases
  case (launch env)
  with checkMatchTransaction_launches [of s env cf] assms(2) show ?thesis by (simp add: launches_def)
next
  case (execute env)
  with executeTransaction_runs [of s env cf] assms(2) linked_grows show ?thesis by blast
next
  case (sync env)
  with launch_chain.syncTransaction_runs [OF sync(1) refl, of s cf] assms(2) linked_grows show ?thesis by auto
next
  case (monitor env)
  with launch_chain.checkUnmature_runs [OF monitor(2) refl, of s cf] assms(2) linked_grows show ?thesis by blast
next
  case (matching cenv uuid key sv)
  have ok: "launch_ok (withServer sv s)" by (rule launch_ok_same [of _ s]) (use assms(2) in simp_all)
  from matching(2) have "linked (withServer sv s)"
  proof (cases rule: serverMatchOrders_txs)
    case 1
    with assms(2) show ?thesis by (simp add: linked_def)
  next
    case (2 tx)
    then have "mtID tx \<notin> mtID ` set (tMatchTxs (dbTables s))" "tMatchTxs (dbTables sv) = tMatchTxs (dbTables s) @ [tx]"
      by simp_all
    from linked_append [OF _ _ 2(1) this] assms(2) show ?thesis by simp
  qed
  with ok matching(1) show ?thesis by simp
next
  case (orders sv)
  have "launch_ok (withServer sv s)" by (rule launch_ok_same [of _ s]) (use assms(2) in simp_all)
  with orders assms(2) show ?thesis by (simp add: linked_def)
qed

lemma lreachable_ok: "lreachable L cf s \<Longrightarrow> launch_ok s \<and> linked s"
proof (induction rule: lreachable.induct)
  case (init s)
  then show ?case by (simp add: linitial_def launch_ok_def linked_def txIDs_def)
next
  case (step s s')
  with lstep_ok show ?case by blast
qed

section \<open>Statements without faults\<close>

lemma run_UpdateTx:
  assumes "launch_ok s" "dbFaults s = []" "r \<in> set (lsTxs s)" "ltID r = ltID tx"
  shows "UpdateTx now tx s = (Inr (tx\<lparr> ltUpdateTime := now \<rparr>),
     s\<lparr> lsTxs := map (\<lambda>r. if ltID r = ltID tx then tx\<lparr> ltUpdateTime := now \<rparr> else r) (lsTxs s) \<rparr>)"
proof -
  let ?t = "tx\<lparr> ltUpdateTime := now \<rparr>"
  have "ltID ?t \<noteq> 0 \<and> (\<exists>r \<in> set (lsTxs s). ltID r = ltID ?t)"
    using launch_okD(3) [OF assms(1,3)] assms(3,4) by auto
  then have "saveTx ?t s = (Inr ?t, s\<lparr> lsTxs := map (\<lambda>r. if ltID r = ltID ?t then ?t else r) (lsTxs s) \<rparr>)"
    unfolding saveTx_def by (rule if_P)
  with assms(2) show ?thesis by (simp add: UpdateTx_def dbCall_def)
qed

lemma run_launchTx: "body s = (Inr x, s') \<Longrightarrow> dbFaults s' = [] \<Longrightarrow> launchTx body s = (Inr x, s')"
  by (simp add: launchTx_def beginTx_def dbCall_def)

lemma run_resetTransaction:
  assumes "launch_ok s" "dbFaults s = []" "r \<in> set (lsTxs s)" "ltID r = ltID tx"
  shows "resetTransaction now tx s = (Inr (), s\<lparr> lsTxs := map (\<lambda>r. if ltID r = ltID tx
     then tx\<lparr> ltNonce := None, ltTransactionHash := None, ltStatus := TxInitial, ltUpdateTime := now \<rparr> else r) (lsTxs s) \<rparr>)"
proof -
  let ?t = "tx\<lparr> ltNonce := None, ltTransactionHash := None, ltStatus := TxInitial \<rparr>"
  have "ltID r = ltID ?t" using assms(4) by simp
  from run_UpdateTx [OF assms(1-3) this] assms(2) show ?thesis
    unfolding resetTransaction_def by (intro run_launchTx) simp_all
qed

lemma firstRow_unique: "\<forall>r \<in> set rows. r = t \<Longrightarrow> t \<in> set rows \<Longrightarrow> firstRow c rows = Inr t"
  by (cases rows) (auto simp: firstRow_def)

text \<open>
  The executor on a transaction without a nonce, when the chain expects a nonce below the next one
  of the table and no row has a nonce in between: nothing is sent and nothing changes.
\<close>

lemma fastForward_idle:
  assumes "dbFaults s = []" "\<forall>n \<in> set ns. \<forall>r \<in> set (lsTxs s). ltFromAddress r = addr \<longrightarrow> ltNonce r \<noteq> Some n"
  shows "fastForwardLoop env cf addr ns s = (Inr (), s)"
  using assms(2)
proof (induction ns)
  case (Cons n ns)
  have "GetTxsByNonce addr (Some n) [] s = (Inr [], s)"
    using assms(1) Cons.prems by (auto simp: GetTxsByNonce_def dbCall_def findTxs_def filter_empty_conv)
  with Cons show ?case by simp
qed simp

lemma nonceRange_set: "n \<in> set (nonceRange a b) \<longleftrightarrow> a \<le> n \<and> n < b"
proof -
  have "n \<in> set (nonceRange a b) \<longleftrightarrow> (\<exists>k. unat a \<le> k \<and> k < unat b \<and> n = of_nat k)"
    by (auto simp: nonceRange_def)
  also have "\<dots> \<longleftrightarrow> unat a \<le> unat n \<and> unat n < unat b"
  proof
    assume "\<exists>k. unat a \<le> k \<and> k < unat b \<and> n = of_nat k"
    then obtain k where k: "unat a \<le> k" "k < unat b" "n = of_nat k" by blast
    have "unat b < 2 ^ LENGTH(64)" by (rule unsigned_less)
    with k(2) have "k < 2 ^ LENGTH(64)" by simp
    then have "unat n = k" using k(3) by (simp add: unsigned_of_nat take_bit_nat_eq_self_iff)
    with k show "unat a \<le> unat n \<and> unat n < unat b" by simp
  next
    assume "unat a \<le> unat n \<and> unat n < unat b"
    then show "\<exists>k. unat a \<le> k \<and> k < unat b \<and> n = of_nat k" by (intro exI [of _ "unat n"]) simp
  qed
  finally show ?thesis by (simp add: word_le_nat_alt word_less_nat_alt)
qed

lemma sendTransaction_idle:
  assumes "dbFaults s = []" "ltNonce tx = None" "ccPendingNonceAt (leChain env) (ltFromAddress tx) = Inr e"
    "map_of (lsNonces s) (ltFromAddress tx) = Some (Some m)" "e < m"
    "\<forall>r \<in> set (lsTxs s). \<forall>n. ltFromAddress r = ltFromAddress tx \<longrightarrow> ltNonce r = Some n \<longrightarrow> \<not> (e \<le> n \<and> n < m)"
  shows "sendTransaction env cf tx s = (Inr (), s)"
proof -
  have "GetNextNonce (ltFromAddress tx) s = (Some m, s)" using assms(1,4) by (simp add: GetNextNonce_def dbCall_def)
  moreover have "fastForward env cf (ltFromAddress tx) e m s = (Inr (), s)"
    unfolding fastForward_def by (rule fastForward_idle [OF assms(1)]) (use assms(6) in \<open>auto simp: nonceRange_set\<close>)
  ultimately show ?thesis using assms(2,3,5) by (simp add: sendTransaction_def)
qed

text \<open>A database without faults has none after a confirmation.\<close>

definition lcalm :: "(lstate, 'a) dbm \<Rightarrow> bool" where
  "lcalm m \<longleftrightarrow> (\<forall>s. dbFaults s = [] \<longrightarrow> dbFaults (snd (m s)) = [])"

lemma lcalm_dbCall: "(\<And>s. dbFaults (snd (m s)) = dbFaults s) \<Longrightarrow> lcalm (dbCall m)"
  by (simp add: lcalm_def dbCall_def)

lemma lcalm_bind: "lcalm m \<Longrightarrow> (\<And>x. lcalm (f x)) \<Longrightarrow> lcalm (bindE m f)"
  by (auto simp: lcalm_def bindE_def split: prod.splits sum.splits)

lemma lcalm_launchTx:
  assumes "lcalm body"
  shows "lcalm (launchTx body)"
  unfolding lcalm_def
proof (intro allI impI)
  fix s :: lstate
  assume s: "dbFaults s = []"
  obtain r s1 where b: "body s = (r, s1)" by fastforce
  with assms s have "dbFaults s1 = []" unfolding lcalm_def by (metis snd_conv)
  with b show "dbFaults (snd (launchTx body s)) = []"
    by (cases r) (simp_all add: launchTx_def beginTx_def dbCall_def undoLaunch_def)
qed

lemma lcalm_onServer:
  "(\<And>sv r sv'. m sv = (r, sv') \<Longrightarrow> dbFaults sv = [] \<Longrightarrow> dbFaults sv' = []) \<Longrightarrow> lcalm (onServer m)"
  unfolding lcalm_def onServer_def withServer_def
  by (auto split: prod.splits) (metis dbstate.select_convs(2) server.truncate_def)

lemma lcalm_UpdateTx: "lcalm (UpdateTx now tx)"
  unfolding UpdateTx_def by (rule lcalm_dbCall) (simp add: saveTx_def insertTx_def Let_def)

lemma lcalm_cancelCandidates: "lcalm (cancelCandidates now h cs)"
proof (induction cs)
  case (Cons c cs)
  have "lcalm (\<lambda>s. cancelCandidates now h cs (if k \<noteq> h then snd (UpdateTx now (c\<lparr> ltStatus := TxCanceled \<rparr>) s) else s))" for k
    using Cons.IH lcalm_UpdateTx [of now "c\<lparr> ltStatus := TxCanceled \<rparr>"] by (simp add: lcalm_def)
  moreover have "lcalm (deref (ltTransactionHash c))" by (auto simp: lcalm_def deref_def split: option.splits)
  ultimately show ?case unfolding cancelCandidates.simps by (intro lcalm_bind)
qed (simp add: lcalm_def)

lemma lcalm_confirm: "lcalm (confirmTransaction now tx h receipt succ fail)"
proof -
  have "lcalm (GetTxsByNonce a n [])" for a n
    by (cases n) (auto simp: GetTxsByNonce_def lcalm_def dbCall_def)
  moreover have "lcalm (onServer (serverUpdateOrdersStatus now i st h bh bn bt succ fail))" for i st bh bn bt
    by (rule lcalm_onServer) (rule serverUpdateOrdersStatus_calm)
  ultimately show ?thesis unfolding confirmTransaction_def
    by (intro lcalm_launchTx lcalm_bind lcalm_UpdateTx lcalm_cancelCandidates)
qed

lemma setDirty_calm: "dbFaults s = [] \<Longrightarrow> dbFaults (setDirty i s) = []"
proof -
  have "lcalm (onServer (\<lambda>sv. (Inr (), serverSetPoolStorageDirty i sv)))"
    by (rule lcalm_onServer)
      (auto simp: serverSetPoolStorageDirty_def GetMatchTransaction_def dbCall_def split: option.splits)
  then show "dbFaults s = [] \<Longrightarrow> dbFaults (setDirty i s) = []" by (simp add: lcalm_def setDirty_def)
qed

section \<open>A launcher on concrete data\<close>

definition demo_match :: MatchTransaction where
  "demo_match = \<lparr> mtID = ''m1'', mtLiquidityPoolAddress = ''0xa'', mtPerpetualIndex = 0, mtBrokerAddress = ''0xb'',
     mtStatus = TransactionStatusInit, mtBlockConfirmed = False, mtBlockNumber = None, mtBlockHash = None,
     mtTransactionHash = None, mtExecutedAt = None,
     mtMatchResult = \<lparr> MatchItems = [], SuccItems = [], FailedItems = [] \<rparr> \<rparr>"

definition demo_state :: lstate where
  "demo_state = \<lparr> dbTables = \<lparr> tOrders = [], tMatchTxs = [demo_match], tPerpetuals = [], tNextID = 1 \<rparr>, dbFaults = [],
     svHandlers = [], svPools = [], svWs = [], lsTxs = [], lsNextTx = 1, lsNonces = [], lsKVs = [] \<rparr>"

text \<open>A chain that expects the nonce 7, accepts what is sent and has no receipts yet.\<close>

definition demo_chain :: chain_cli where
  "demo_chain = \<lparr> ccPendingNonceAt = (\<lambda>_. Inr 7), ccTransactionByHash = (\<lambda>_. Inr True), ccSendTransaction = (\<lambda>_. Inr ''0xh''),
     ccWaitTransactionReceipt = (\<lambda>_. Inl NotFound), ccParseLogs = (\<lambda>_ _. ([], [])),
     ccBatchTradeDataPack = (\<lambda>_ _ _. Inr []), ccGetSignAccount = Inr ''0xr'' \<rparr>"

definition demo_env :: launch_env where
  "demo_env = \<lparr> leNow = 5, leChain = demo_chain, leGasPriceInWei = 1, leUnmatureDuration = 100,
     leUnmarshal = (\<lambda>_. Inl ''json'') \<rparr>"

definition demo_row :: LaunchTransaction where
  "demo_row = (newLaunchTransaction 5 demo_match ''0xr'' [])\<lparr> ltID := 1 \<rparr>"

definition demo_launched :: lstate where
  "demo_launched = demo_state\<lparr> lsTxs := [demo_row], lsNextTx := 2,
     dbTables := (dbTables demo_state)\<lparr> tMatchTxs := [demo_match\<lparr> mtStatus := TransactionStatusPending \<rparr>] \<rparr> \<rparr>"

lemma demo_launch_initial: "linitial demo_state"
  by (simp add: linitial_def demo_state_def demo_match_def)

lemma demo_launch: "checkMatchTransaction demo_env match_conf demo_state = demo_launched"
  by (simp add: checkMatchTransaction_def demo_state_def demo_match_def demo_env_def demo_chain_def demo_launched_def demo_row_def
      QueryMatchTransaction_def dbCall_def createLaunchTransaction_def GetTxByID_def findAll_def findTxs_def notLaunched_def
      IsRecordNotFound_def ErrRecordNotFound_def storeLaunch_def beginTx_def CreateTx_def insertTx_def newLaunchTransaction_def
      UpdateMatchTransaction_def bindE_def Let_def)

text \<open>The executor sends it with the nonce 7.\<close>

definition demo_sent :: LaunchTransaction where
  "demo_sent = demo_row\<lparr> ltNonce := Some 7, ltGasLimit := Some (of_nat (cfGasLimit match_conf)), ltGasPrice := Some 1,
     ltStatus := TxPending, ltTransactionHash := Some ''0xh'' \<rparr>"

definition demo_pending :: lstate where
  "demo_pending = demo_launched\<lparr> lsTxs := [demo_sent], lsNonces := [(''0xr'', Some 8)] \<rparr>"

lemma demo_execute: "executeTransaction demo_env match_conf demo_launched = demo_pending"
  by (simp add: executeTransaction_def demo_launched_def demo_state_def demo_row_def demo_match_def demo_env_def demo_chain_def
      demo_pending_def demo_sent_def GetUsersWithStatus_def dbCall_def findTxs_def statusFilter_def FirstTxByUser_def firstRow_def
      sendTransaction_def GetNextNonce_def allocateNonce_def launchTx_def beginTx_def UpdateTx_def saveTx_def UpdateNonce_def
      send_def prepare_def newLaunchTransaction_def bindE_def Let_def decimalBigInt_def)

lemma demo_launched_reachable: "lreachable L match_conf demo_launched"
  using lreachable.step [OF lreachable.init [OF demo_launch_initial] lstep.launch [of L match_conf demo_state demo_env]]
  by (simp add: demo_launch)

lemma demo_pending_reachable: "lreachable L match_conf demo_pending"
  using lreachable.step [OF demo_launched_reachable lstep.execute [of L match_conf demo_launched demo_env]]
  by (simp add: demo_execute)

lemma demo_chain_final: "launch_chain demo_chain"
  by unfold_locales (simp add: demo_chain_def)

lemma demo_rows [simp]:
  "lsTxs demo_launched = [demo_row]" "lsTxs demo_pending = [demo_sent]" "dbFaults demo_pending = []"
  "lsNonces demo_pending = [(''0xr'', Some 8)]"
  "tMatchTxs (dbTables demo_launched) = [demo_match\<lparr> mtStatus := TransactionStatusPending \<rparr>]"
  "ltID demo_row = 1" "ltTxID demo_row = ''m1''" "ltID demo_sent = 1" "ltTxID demo_sent = ''m1''" "ltFromAddress demo_sent = ''0xr''"
  "ltStatus demo_sent = TxPending" "ltNonce demo_sent = Some 7"
  by (simp_all add: demo_launched_def demo_pending_def demo_row_def demo_sent_def newLaunchTransaction_def demo_match_def demo_state_def)

text \<open>A launcher with a second match: the node still expects the nonce 7, the first one is sent again.\<close>

definition demo2_match :: MatchTransaction where
  "demo2_match = demo_match\<lparr> mtID := ''m2'' \<rparr>"

definition demo2_state :: lstate where
  "demo2_state = demo_state\<lparr> dbTables := (dbTables demo_state)\<lparr> tMatchTxs := [demo_match, demo2_match] \<rparr> \<rparr>"

definition demo2_row :: LaunchTransaction where
  "demo2_row = (newLaunchTransaction 5 demo2_match ''0xr'' [])\<lparr> ltID := 2 \<rparr>"

definition demo2_tables :: "LaunchTransaction list \<Rightarrow> nat \<Rightarrow> (string \<times> 64 word option) list \<Rightarrow> lstate" where
  "demo2_tables txs i nonces = demo_state\<lparr> lsTxs := txs, lsNextTx := i, lsNonces := nonces,
     dbTables := (dbTables demo_state)\<lparr> tMatchTxs := map (\<lambda>m. m\<lparr> mtStatus := TransactionStatusPending \<rparr>) [demo_match, demo2_match] \<rparr> \<rparr>"

definition demo2_env :: launch_env where
  "demo2_env = demo_env\<lparr> leGasPriceInWei := 2, leChain := demo_chain\<lparr> ccSendTransaction := (\<lambda>_. Inr ''0xh2'') \<rparr> \<rparr>"

definition demo2_copy :: LaunchTransaction where
  "demo2_copy = demo_sent\<lparr> ltID := 3, ltGasPrice := Some 2, ltTransactionHash := Some ''0xh2'' \<rparr>"

lemma demo2_launch: "checkMatchTransaction demo_env match_conf demo2_state = demo2_tables [demo_row, demo2_row] 3 []"
  by (simp add: checkMatchTransaction_def demo2_state_def demo_state_def demo_match_def demo2_match_def demo_env_def demo_chain_def
      demo2_tables_def demo_row_def demo2_row_def
      QueryMatchTransaction_def dbCall_def createLaunchTransaction_def GetTxByID_def findAll_def findTxs_def notLaunched_def
      IsRecordNotFound_def ErrRecordNotFound_def storeLaunch_def beginTx_def CreateTx_def insertTx_def newLaunchTransaction_def
      UpdateMatchTransaction_def txWhere_def bindE_def Let_def)

lemma demo2_execute:
  "executeTransaction demo_env match_conf (demo2_tables [demo_row, demo2_row] 3 []) =
     demo2_tables [demo_sent, demo2_row] 3 [(''0xr'', Some 8)]"
  by (simp add: executeTransaction_def demo2_tables_def demo_state_def demo_row_def demo2_row_def demo_match_def demo2_match_def demo_env_def
      demo_chain_def demo_sent_def GetUsersWithStatus_def dbCall_def findTxs_def statusFilter_def FirstTxByUser_def firstRow_def
      sendTransaction_def GetNextNonce_def allocateNonce_def launchTx_def beginTx_def UpdateTx_def saveTx_def UpdateNonce_def
      send_def prepare_def newLaunchTransaction_def bindE_def Let_def decimalBigInt_def)

lemma demo2_resend:
  "executeTransaction demo2_env match_conf (demo2_tables [demo_sent, demo2_row] 3 [(''0xr'', Some 8)]) =
     demo2_tables [demo_sent, demo2_row, demo2_copy] 4 [(''0xr'', Some 8)]"
  by (simp add: executeTransaction_def demo2_tables_def demo_state_def demo_row_def demo2_row_def demo2_copy_def demo_match_def demo2_match_def
      demo_env_def demo2_env_def
      demo_chain_def demo_sent_def GetUsersWithStatus_def dbCall_def findTxs_def statusFilter_def FirstTxByUser_def firstRow_def
      sendTransaction_def GetNextNonce_def launchTx_def beginTx_def fastForward_def nonceRange_def GetTxsByNonce_def CreateTx_def insertTx_def
      send_def prepare_def newLaunchTransaction_def bindE_def Let_def decimalBigInt_def MustString_def)

lemma demo2_reachable: "lreachable L match_conf (demo2_tables [demo_sent, demo2_row, demo2_copy] 4 [(''0xr'', Some 8)])"
proof -
  have "linitial demo2_state" by (simp add: linitial_def demo2_state_def demo_state_def demo_match_def demo2_match_def)
  from lreachable.step [OF lreachable.init [OF this] lstep.launch, of L match_conf demo_env]
  have "lreachable L match_conf (demo2_tables [demo_row, demo2_row] 3 [])" by (simp add: demo2_launch)
  from lreachable.step [OF this lstep.execute, of demo_env]
  have "lreachable L match_conf (demo2_tables [demo_sent, demo2_row] 3 [(''0xr'', Some 8)])" by (simp add: demo2_execute)
  from lreachable.step [OF this lstep.execute, of demo2_env] show ?thesis by (simp add: demo2_resend)
qed

text \<open>The node has the first transaction in a block, with one event.\<close>

definition demo2_receipt :: Receipt where
  "demo2_receipt = \<lparr> rcBlockNumber = 9, rcBlockHash = ''0xb'', rcGasUsed = 1, rcStatus = TxSuccess, rcBlockTime = 6, rcLogs = [] \<rparr>"

definition demo2_mined :: launch_env where
  "demo2_mined = demo_env\<lparr> leChain := demo_chain\<lparr>
     ccWaitTransactionReceipt := (\<lambda>h. if h = ''0xh'' then Inr demo2_receipt else Inl NotFound),
     ccParseLogs := (\<lambda>_ _. ([], [\<lparr> fePerpetualAddress = ''0xp'', feBlockNumber = 9, feTransactionSeq = 0, feTransactionHash = ''0xh'', feTraderAddress = ''0xt'',
       feOrderHash = ''0x1'', feAmount = 1, feReason = ''x'' \<rparr>])) \<rparr> \<rparr>"

section \<open>Properties\<close>

text \<open>
  C17: the launch transactions are well-formed. In every state that launcher and match server reach
  together, with database faults anywhere, the keys of the launch transactions are unique, an
  initial one has no transaction hash, a pending one has a hash and a nonce, a mined one also has
  its block; therefore a round of the syncer, which reads these columns through pointers, ends
  without a panic.
\<close>

theorem launch_rows_typed:
  assumes "lreachable L cf s" "launch_chain (leChain env)"
  shows "distinct (map ltID (lsTxs s)) \<and>
     (\<forall>t \<in> set (lsTxs s).
        (ltStatus t = TxInitial \<longrightarrow> ltTransactionHash t = None) \<and>
        (ltStatus t = TxPending \<longrightarrow> ltTransactionHash t \<noteq> None \<and> ltNonce t \<noteq> None) \<and>
        (ltStatus t = TxSuccess \<or> ltStatus t = TxFailed \<longrightarrow> ltTransactionHash t \<noteq> None \<and> ltNonce t \<noteq> None \<and>
           ltBlockNumber t \<noteq> None \<and> ltBlockHash t \<noteq> None \<and> ltBlockTime t \<noteq> None)) \<and>
     (\<exists>s'. syncTransaction env cf s = Some s')"
proof -
  have ok: "launch_ok s" using lreachable_ok [OF assms(1)] by simp
  have "\<exists>s'. syncTransaction env cf s = Some s'"
    using launch_chain.syncTransaction_runs [OF assms(2) refl ok] by blast
  moreover have "\<forall>t \<in> set (lsTxs s). tx_wf t" using launch_okD(5) [OF ok] by blast
  ultimately show ?thesis using launch_okD(1) [OF ok] by (simp add: tx_wf_def)
qed

theorem launch_rows_typed_witness:
  "lreachable lib18 match_conf demo_pending \<and> launch_chain (leChain demo_env) \<and> lsTxs demo_pending = [demo_sent] \<and>
   (\<exists>s'. syncTransaction demo_env match_conf demo_pending = Some s')"
proof -
  have c: "launch_chain (leChain demo_env)" using demo_chain_final by (simp add: demo_env_def)
  from launch_rows_typed [OF demo_pending_reachable [of lib18] c] c demo_pending_reachable show ?thesis by simp
qed







end
