(* ===== verification/Signatures.thy ===== *)
theory Signatures
  imports Order_Codec Go_Strings "HOL-Library.Signed_Division"
begin

text \<open>
  Signatures and tokens: \<^verbatim>\<open>src/common/mai3/crypto/crypto.go\<close>, \<^verbatim>\<open>src/common/mai3/sign.go\<close> and
  \<^verbatim>\<open>src/common/auth/auth.go\<close>. The curve of btcec is the record \<open>ecc\<close>, the JWT package the record
  \<open>jwt_lib\<close>, both parameters, like the hash function \<open>K\<close>. A signature is accepted for an address
  only when the key that the curve recovers from it hashes to that address, and a token only within
  five minutes around the time it names.
\<close>

section \<open>crypto.go\<close>

record public_key =
  pkX :: "int option"
  pkY :: "int option"

text \<open>\<open>pvSecp\<close> says that the curve of the key is \<^verbatim>\<open>btcec.S256()\<close>.\<close>

record ecdsa_key =
  pvD :: int
  pvPublic :: public_key
  pvSecp :: bool

record ecc =
  ecBitSize :: nat
  ecN :: int
  ecScalarBaseMult :: "byte list \<Rightarrow> public_key"
  ecSignCompact :: "ecdsa_key \<Rightarrow> byte list \<Rightarrow> byte list result"
  ecRecoverCompact :: "byte list \<Rightarrow> byte list \<Rightarrow> public_key option result"
  ecSerializeUncompressed :: "public_key option \<Rightarrow> byte list"

definition NewPrivateKey :: "ecc \<Rightarrow> byte list \<Rightarrow> ecdsa_key result" where
  "NewPrivateKey C privateKeyBytes =
     (if 8 * length privateKeyBytes \<noteq> ecBitSize C
      then Inl (''invalid length, need '' @ natToString (ecBitSize C) @ '' bits'')
      else
        let D = int (be_value privateKeyBytes) in
        if ecN C \<le> D then Inl ''invalid private key, >=N''
        else if D \<le> 0 then Inl ''invalid private key, zero or negative''
        else
          let public = ecScalarBaseMult C privateKeyBytes in
          if pkX public = None then Inl ''invalid private key''
          else Inr \<lparr> pvD = D, pvPublic = public, pvSecp = True \<rparr>)"

definition NewPrivateKeyByHex :: "ecc \<Rightarrow> string \<Rightarrow> ecdsa_key result" where
  "NewPrivateKeyByHex C privateKeyHex =
     (case Hex2Bytes privateKeyHex of
        Inl e \<Rightarrow> Inl (''NewPrivateKeyByHex:private key hex to bytes error:'' @ e)
      | Inr privateKeyBytes \<Rightarrow> NewPrivateKey C privateKeyBytes)"

text \<open>
  The compact signature starts with the recovery byte; the bytes behind it are moved to the front
  and the recovery byte, less 27, is written behind them. A shorter slice would panic.
\<close>

definition Sign :: "ecc \<Rightarrow> byte list \<Rightarrow> ecdsa_key \<Rightarrow> byte list go" where
  "Sign C hash prv =
     (if length hash \<noteq> 32
      then Some (Inl (''hash is required to be exactly 32 bytes ('' @ natToString (length hash) @ '')''))
      else if \<not> pvSecp prv then Some (Inl ''private key curve is not secp256k1'')
      else
        (case ecSignCompact C prv hash of
           Inl e \<Rightarrow> Some (Inl e)
         | Inr sig \<Rightarrow>
             if length sig \<le> 64 then None
             else Some (Inr ((drop 1 sig @ [last sig])[64 := sig ! 0 - 27]))))"

definition hashPersonalMessage :: "keccak \<Rightarrow> byte list \<Rightarrow> byte list" where
  "hashPersonalMessage K data =
     Keccak256 K [[25] @ ascii ''Ethereum Signed Message:'' @ [10] @ ascii (natToString (length data)) @ data]"

definition PersonalSignByPrivateKey :: "ecc \<Rightarrow> keccak \<Rightarrow> byte list \<Rightarrow> ecdsa_key \<Rightarrow> byte list go" where
  "PersonalSignByPrivateKey C K message privateKey =
     Sign C (hashPersonalMessage K message) privateKey \<bind> (\<lambda>r.
     go_try r (\<lambda>singBytes.
       Some (Inr (if singBytes ! 64 < 27 then singBytes[64 := singBytes ! 64 + 27] else singBytes))))"

definition cryptoPersonalSign :: "ecc \<Rightarrow> keccak \<Rightarrow> byte list \<Rightarrow> string \<Rightarrow> byte list go" where
  "cryptoPersonalSign C K message privateKey =
     go_try (NewPrivateKeyByHex C privateKey) (PersonalSignByPrivateKey C K message)"

definition SigToPub :: "ecc \<Rightarrow> byte list \<Rightarrow> byte list \<Rightarrow> public_key option result" where
  "SigToPub C hash sig = ecRecoverCompact C ((sig ! 64 + 27) # take 64 sig) hash"

definition EcRecover :: "ecc \<Rightarrow> byte list \<Rightarrow> byte list \<Rightarrow> byte list go" where
  "EcRecover C hash sig =
     (if length sig \<le> 64 then None
      else Some (case SigToPub C hash sig of
                   Inl e \<Rightarrow> Inl e
                 | Inr pub \<Rightarrow> Inr (ecSerializeUncompressed C pub)))"

text \<open>\<^verbatim>\<open>elliptic.Marshal\<close> on a curve of 256 bits.\<close>

definition ellipticMarshal :: "int \<Rightarrow> int \<Rightarrow> byte list" where
  "ellipticMarshal x y = 4 # BytesToHash (bigBytes x) @ BytesToHash (bigBytes y)"

definition EIP712EcRecover :: "ecc \<Rightarrow> keccak \<Rightarrow> byte list \<Rightarrow> byte list \<Rightarrow> string result" where
  "EIP712EcRecover C K data sig =
     (if length sig \<noteq> 65 then Inl ''signature must be 65 bytes long''
      else if \<not> 27 \<le> sig ! 64 then Inl ''we only accept EIP155. the v is either 27 or 28''
      else
        let sig = sig[64 := sig ! 64 - 27] in
        case SigToPub C data sig of
          Inl e \<Rightarrow> Inl e
        | Inr None \<Rightarrow> Inl []
        | Inr (Some rpk) \<Rightarrow>
            (case (pkX rpk, pkY rpk) of
               (Some x, Some y) \<Rightarrow>
                 Inr (Bytes2Hex (drop 12 (Keccak256 K [drop 1 (ellipticMarshal x y)])))
             | _ \<Rightarrow> Inl []))"

definition PersonalEcRecover :: "ecc \<Rightarrow> keccak \<Rightarrow> byte list \<Rightarrow> byte list \<Rightarrow> string result" where
  "PersonalEcRecover C K data sig = EIP712EcRecover C K (hashPersonalMessage K data) sig"

text \<open>A nil slice has no tail: \<^verbatim>\<open>PubKey2Address\<close> of a key without coordinates panics.\<close>

definition PubKey2Bytes :: "public_key option \<Rightarrow> byte list option" where
  "PubKey2Bytes pub =
     (case pub of
        None \<Rightarrow> None
      | Some p \<Rightarrow> (case (pkX p, pkY p) of (Some x, Some y) \<Rightarrow> Some (ellipticMarshal x y) | _ \<Rightarrow> None))"

definition PubKey2Address :: "keccak \<Rightarrow> public_key \<Rightarrow> string option" where
  "PubKey2Address K p =
     map_option (\<lambda>pubBytes. Bytes2HexP (drop 12 (Keccak256 K [drop 1 pubBytes]))) (PubKey2Bytes (Some p))"

section \<open>sign.go\<close>

definition IsValidSignature :: "ecc \<Rightarrow> keccak \<Rightarrow> string \<Rightarrow> string \<Rightarrow> string \<Rightarrow> string \<Rightarrow> bool result" where
  "IsValidSignature C K addr message signature sigMethod =
     (if length addr \<noteq> 42 then Inl ''IsValidSignature:address must be 42 size long''
      else if length signature \<noteq> 132 then Inl ''IsValidSignature:signature must be 132 size long''
      else
        (case (if HasPrefix message ''0x'' then Hex2Bytes message else Inr (ascii message)) of
           Inl e \<Rightarrow> Inl (''IsValidSignature:'' @ e)
         | Inr hashBytes \<Rightarrow>
             (case Hex2Bytes signature of
                Inl e \<Rightarrow> Inl (''IsValidSignature:'' @ e)
              | Inr signatureByte \<Rightarrow>
                  (case (if sigMethod = EthSign then PersonalEcRecover C K hashBytes signatureByte
                         else if sigMethod = EIP712 then EIP712EcRecover C K hashBytes signatureByte
                         else Inl ''IsValidSignature:unknown signature method'') of
                     Inl e \<Rightarrow> Inl e
                   | Inr pk \<Rightarrow> Inr (''0x'' @ toLower pk = toLower addr)))))"

section \<open>auth.go\<close>

text \<open>\<^verbatim>\<open>strconv.ParseInt(s, 10, 64)\<close> and \<^verbatim>\<open>strconv.ParseUint(s, 10, 64)\<close>.\<close>

definition isDigit :: "char \<Rightarrow> bool" where
  "isDigit c \<longleftrightarrow> (let n = of_char c :: nat in 48 \<le> n \<and> n \<le> 57)"

definition digitsValue :: "string \<Rightarrow> nat" where
  "digitsValue s = foldl (\<lambda>v c. 10 * v + (of_char c - 48)) 0 s"

definition ParseUint64 :: "string \<Rightarrow> nat result" where
  "ParseUint64 s =
     (if s = [] \<or> \<not> list_all isDigit s then Inl ''invalid syntax''
      else if 2 ^ 64 \<le> digitsValue s then Inl ''value out of range''
      else Inr (digitsValue s))"

definition ParseInt64 :: "string \<Rightarrow> int result" where
  "ParseInt64 s =
     (let neg = (s \<noteq> [] \<and> hd s = CHR ''-'');
          t = (if s \<noteq> [] \<and> (hd s = CHR ''-'' \<or> hd s = CHR ''+'') then tl s else s)
      in case ParseUint64 t of
           Inl e \<Rightarrow> Inl e
         | Inr n \<Rightarrow>
             if (if neg then 2 ^ 63 < n else 2 ^ 63 \<le> n) then Inl ''value out of range''
             else Inr (if neg then - int n else int n))"

text \<open>
  Times of tokens are nanoseconds since the epoch. \<open>parseRFC3339\<close> is \<^verbatim>\<open>time.Parse\<close> with the layout
  RFC3339Nano.
\<close>

type_synonym nanotime = int

definition MaiAuthTimeout :: nanotime where
  "MaiAuthTimeout = 5 * 60 * 1000000000"

definition getMaiAuthTimestamp :: "(string \<Rightarrow> nanotime option) \<Rightarrow> string \<Rightarrow> nanotime result" where
  "getMaiAuthTimestamp parseRFC3339 token =
     (let fields = splitOn CHR ''@'' token in
      if length fields \<noteq> 2 then Inl (''Token should be MAI-AUTHENTICATION@'' @ ''{time}'')
      else
        (case parseRFC3339 (fields ! 1) of
           Some t \<Rightarrow> Inr t
         | None \<Rightarrow>
             (case ParseInt64 (fields ! 1) of
                Inr n \<Rightarrow> Inr ((n sdiv 1000) * 1000000000 + n smod 1000 * 1000000)
              | Inl _ \<Rightarrow> Inl ''Time field should be a unix timestamp or an rfc3339 time string'')))"

definition ValidateMaiAuth ::
  "ecc \<Rightarrow> keccak \<Rightarrow> (string \<Rightarrow> nanotime option) \<Rightarrow> nanotime \<Rightarrow> string \<Rightarrow> string result" where
  "ValidateMaiAuth C K parseRFC3339 now token =
     (let maiAuthTokens = splitOn CHR ''#'' token in
      if length maiAuthTokens \<noteq> 3
      then Inl (''Mai-Authentication should be like {address}#MAI-AUTHENTICATION@'' @ ''{time}#{signature}'')
      else
        (case getMaiAuthTimestamp parseRFC3339 (maiAuthTokens ! 1) of
           Inl e \<Rightarrow> Inl (''Unable to find valid Mai-Authentication {time} field:'' @ e)
         | Inr signTime \<Rightarrow>
             if signTime < now - MaiAuthTimeout then Inl ''Mai-Authentication token has expired.''
             else if now + MaiAuthTimeout < signTime
             then Inl ''Timestamp of Mai-Authentication is in the future, check your local time.''
             else
               (case IsValidSignature C K (maiAuthTokens ! 0) (maiAuthTokens ! 1) (maiAuthTokens ! 2) EthSign of
                  Inr True \<Rightarrow> Inr (maiAuthTokens ! 0)
                | _ \<Rightarrow> Inl ''Token is invalid or expired, please check your authentication'')))"

text \<open>
  The JWT package. \<open>jwParseWithClaims\<close> asks a key function for the key of the token it reads;
  \<open>jtAddress\<close> is the claim \<^verbatim>\<open>address\<close> when it is there and a string.
\<close>

record jwt_token =
  jtAlg :: string
  jtValid :: bool
  jtAddress :: "string option"

record jwt_claims =
  jcAddress :: string
  jcExp :: int

record jwt_lib =
  jwParseWithClaims :: "string \<Rightarrow> (jwt_token \<Rightarrow> string result) \<Rightarrow> jwt_token result"
  jwSignedString :: "string \<Rightarrow> jwt_claims \<Rightarrow> string \<Rightarrow> string result"

definition JwtSigningMethod :: string where
  "JwtSigningMethod = ''HS256''"

text \<open>A day, in seconds.\<close>

definition JwtExpiration :: int where
  "JwtExpiration = 24 * 60 * 60"

definition jwtKeyfunc :: "string \<Rightarrow> jwt_token \<Rightarrow> string result" where
  "jwtKeyfunc jwtSecret t =
     (if jtAlg t \<noteq> JwtSigningMethod then Inl (''unexpected jwt signing method='' @ jtAlg t) else Inr jwtSecret)"

definition ValidateJwt :: "jwt_lib \<Rightarrow> string \<Rightarrow> string \<Rightarrow> string result" where
  "ValidateJwt J jwtSecret token =
     (case jwParseWithClaims J token (jwtKeyfunc jwtSecret) of
        Inl e \<Rightarrow> Inl (''Jwt-Authentication contains invalid claims:'' @ e)
      | Inr jwtToken \<Rightarrow>
          if \<not> jtValid jwtToken then Inl ''Invalid Jwt-Authentication, please check your request''
          else
            (case jtAddress jwtToken of
               None \<Rightarrow> Inl ''Invalid Jwt-Authentication, please check your request''
             | Some addr \<Rightarrow> Inr addr))"

definition SignJwt :: "jwt_lib \<Rightarrow> string \<Rightarrow> nanotime \<Rightarrow> string \<Rightarrow> string result" where
  "SignJwt J jwtSecret now addr =
     jwSignedString J JwtSigningMethod \<lparr> jcAddress = addr, jcExp = now div 1000000000 + JwtExpiration \<rparr> jwtSecret"

section \<open>Lemmas\<close>

lemma Hex2Bytes_Bytes2HexP [simp]: "Hex2Bytes (Bytes2HexP bs) = Inr bs"
  by (simp add: Hex2Bytes_def Bytes2HexP_def strip_0x_def hex_decode_Bytes2Hex)

lemma toLower_append [simp]: "toLower (s @ t) = toLower s @ toLower t"
  by (simp add: toLower_def)

lemma toLower_0x [simp]: "toLower (CHR ''0'' # CHR ''x'' # s) = CHR ''0'' # CHR ''x'' # toLower s"
  by (simp add: toLower_def toLowerChar_def)

text \<open>What a signature is checked against: the key that the curve recovers from it.\<close>

lemma EIP712EcRecover_Inr:
  assumes "EIP712EcRecover C K data sig = Inr pk"
  obtains rpk where "length sig = 65" "ecRecoverCompact C ((sig ! 64) # take 64 sig) data = Inr (Some rpk)"
    "PubKey2Address K rpk = Some (''0x'' @ pk)"
proof -
  from assms have l: "length sig = 65" and v: "27 \<le> sig ! 64"
    by (auto simp: EIP712EcRecover_def split: if_splits)
  then have s: "SigToPub C data (sig[64 := sig ! 64 - 27]) = ecRecoverCompact C ((sig ! 64) # take 64 sig) data"
    by (simp add: SigToPub_def)
  from assms l v obtain rpk x y where r: "ecRecoverCompact C ((sig ! 64) # take 64 sig) data = Inr (Some rpk)"
    "pkX rpk = Some x" "pkY rpk = Some y" "pk = Bytes2Hex (drop 12 (Keccak256 K [drop 1 (ellipticMarshal x y)]))"
    by (auto simp: EIP712EcRecover_def s Let_def split: sum.splits option.splits)
  then have "PubKey2Address K rpk = Some (''0x'' @ pk)" by (simp add: PubKey2Address_def PubKey2Bytes_def Bytes2HexP_def)
  with that l r(1) show ?thesis by blast
qed

lemma IsValidSignature_True:
  assumes "IsValidSignature C K addr message signature sigMethod = Inr True"
  obtains hashBytes sig rpk pk where
    "(if HasPrefix message ''0x'' then Hex2Bytes message else Inr (ascii message)) = Inr hashBytes"
    "Hex2Bytes signature = Inr sig" "sigMethod = EthSign \<or> sigMethod = EIP712"
    "ecRecoverCompact C ((sig ! 64) # take 64 sig) (if sigMethod = EthSign then hashPersonalMessage K hashBytes else hashBytes) =
       Inr (Some rpk)"
    "PubKey2Address K rpk = Some pk" "EqualFold addr pk"
proof -
  let ?h = "\<lambda>hashBytes. if sigMethod = EthSign then hashPersonalMessage K hashBytes else hashBytes"
  from assms obtain hashBytes sig pk where
    h: "(if HasPrefix message ''0x'' then Hex2Bytes message else Inr (ascii message)) = Inr hashBytes"
    "Hex2Bytes signature = Inr sig" "sigMethod = EthSign \<or> sigMethod = EIP712"
    and r: "EIP712EcRecover C K (?h hashBytes) sig = Inr pk" "''0x'' @ toLower pk = toLower addr"
    unfolding IsValidSignature_def PersonalEcRecover_def by (simp split: if_splits sum.splits)
  from r(1) obtain rpk where k: "ecRecoverCompact C ((sig ! 64) # take 64 sig) (?h hashBytes) = Inr (Some rpk)"
    "PubKey2Address K rpk = Some (''0x'' @ pk)" by (rule EIP712EcRecover_Inr)
  have "EqualFold addr (''0x'' @ pk)" using r(2) by (simp add: EqualFold_def)
  with that h k show ?thesis by blast
qed

lemma PubKey2Address_length:
  assumes "PubKey2Address K p = Some addr" "\<forall>x. length (K x) = 32"
  shows "length addr = 42"
  using assms by (auto simp: PubKey2Address_def Bytes2HexP_def Keccak256_def)

text \<open>The signature of this package, with its recovery byte at the end, is read as the curve gave it.\<close>

lemma PersonalSign_compact:
  assumes "PersonalSignByPrivateKey C K message key = Some (Inr sig)"
    "\<And>h s. ecSignCompact C key h = Inr s \<Longrightarrow> length s = 65 \<and> (s ! 0 = 27 \<or> s ! 0 = 28)"
  obtains s where "ecSignCompact C key (hashPersonalMessage K message) = Inr s"
    "(sig ! 64) # take 64 sig = s" "length sig = 65" "27 \<le> sig ! 64"
proof -
  from assms(1) obtain s where s: "ecSignCompact C key (hashPersonalMessage K message) = Inr s"
    and sig: "sig = (let b = (drop 1 s @ [last s])[64 := s ! 0 - 27] in if b ! 64 < 27 then b[64 := b ! 64 + 27] else b)"
    by (auto simp: PersonalSignByPrivateKey_def Sign_def Let_def go_conv split: if_splits sum.splits)
  from assms(2) [OF s] have l: "length s = 65" "s ! 0 = 27 \<or> s ! 0 = 28" by simp_all
  then have "sig = drop 1 s @ [s ! 0]" by (auto simp: sig Let_def nth_append list_update_append)
  moreover from l have "s = s ! 0 # drop 1 s" by (cases s) auto
  ultimately show ?thesis using that [OF s] l by (auto simp: nth_append)
qed

section \<open>Properties\<close>


text \<open>A curve whose signatures all come from one key.\<close>

definition demo_ecc :: ecc where
  "demo_ecc = \<lparr> ecBitSize = 256, ecN = 2 ^ 255, ecScalarBaseMult = (\<lambda>_. \<lparr> pkX = Some 1, pkY = Some 2 \<rparr>),
     ecSignCompact = (\<lambda>_ _. Inr (28 # replicate 64 7)),
     ecRecoverCompact = (\<lambda>s _. if s = 28 # replicate 64 7 then Inr (Some \<lparr> pkX = Some 1, pkY = Some 2 \<rparr>) else Inl ''recover''),
     ecSerializeUncompressed = (\<lambda>_. []) \<rparr>"

definition demo_key :: string where
  "demo_key = Bytes2HexP (replicate 31 0 @ [1])"


end
