(* ===== verification/Api.thy ===== *)
theory Api
  imports Launcher Signatures Server_Run
begin

text \<open>
  The order API: \<^verbatim>\<open>src/api\<close>. Requests are authenticated (\<^verbatim>\<open>auth.go\<close>, \<^verbatim>\<open>jwt.go\<close>), read by the
  common handler (\<^verbatim>\<open>commonhandler.go\<close>) and served on the database and the match server
  (\<^verbatim>\<open>order.go\<close>, \<^verbatim>\<open>perpetual.go\<close>). The HTTP framework, its binding of parameters and the validator
  are outside: a handler gets its parameters, or an error, from them. An order enters the server
  only with the hash of its own fields and a signature of its trader, and a cancellation needs the
  token of the trader.
\<close>

section \<open>errors.go\<close>

record ApiError =
  aerCode :: int
  aerDesc :: string
  aerParams :: "string list"
  aerInternal :: "string option"

definition apiError :: "int \<Rightarrow> string \<Rightarrow> ApiError" where
  "apiError code desc = \<lparr> aerCode = code, aerDesc = desc, aerParams = [], aerInternal = None \<rparr>"

definition InternalError :: "string \<Rightarrow> ApiError" where
  "InternalError err = (apiError (- 1) ''Internal Server Error'')\<lparr> aerInternal := Some err \<rparr>"

definition BindError :: "string \<Rightarrow> ApiError" where
  "BindError err = (apiError (- 3) ''bind error'')\<lparr> aerInternal := Some err \<rparr>"

definition PerpetualNotFoundError :: "string \<Rightarrow> int \<Rightarrow> ApiError" where
  "PerpetualNotFoundError perpetual index =
     apiError (- 4) (''not support perpetual address: '' @ perpetual @ '' index:'' @ intToString index)"

definition InvalidPriceAmountError :: "string \<Rightarrow> ApiError" where
  "InvalidPriceAmountError desc = apiError (- 5) desc"

definition OrderIDNotExistError :: "string \<Rightarrow> ApiError" where
  "OrderIDNotExistError i = (apiError (- 6) (''order id['' @ i @ ''] do not exist''))\<lparr> aerParams := [i] \<rparr>"

definition BadSignatureError :: ApiError where
  "BadSignatureError = apiError (- 7) ''bad signature''"

definition InsufficientBalanceError :: ApiError where
  "InsufficientBalanceError = apiError (- 8) ''insufficient balance''"

definition AuthError :: "string \<Rightarrow> string option \<Rightarrow> ApiError" where
  "AuthError desc err = (apiError (- 11) (''Authentication failed. '' @ desc))\<lparr> aerInternal := err \<rparr>"

definition OrderAuthError :: "string \<Rightarrow> ApiError" where
  "OrderAuthError i =
     (apiError (- 13) (''order hash['' @ i @ ''] do not exist or is not owned by current address''))\<lparr> aerParams := [i] \<rparr>"

definition MaxOrderNumReachError :: ApiError where
  "MaxOrderNumReachError = apiError (- 17) ''cannot create more order''"

definition OrderHashExistError :: "string \<Rightarrow> ApiError" where
  "OrderHashExistError orderHash =
     (apiError (- 18) (''order hash['' @ orderHash @ ''] exist''))\<lparr> aerParams := [orderHash] \<rparr>"

definition BrokerAddressError :: "string \<Rightarrow> ApiError" where
  "BrokerAddressError addr = apiError (- 19) (''Invalid broker address ['' @ addr @ '']'')"

definition ChainIDError :: "int \<Rightarrow> ApiError" where
  "ChainIDError chainID = apiError (- 20) (''not in the same chain. chainID ['' @ intToString chainID @ '']'')"

definition OrderExpired :: ApiError where
  "OrderExpired = apiError (- 21) ''order expired''"

definition GasBalanceError :: ApiError where
  "GasBalanceError = apiError (- 22) ''gas balance not enough for trade''"

definition CloseOnlyError :: ApiError where
  "CloseOnlyError = apiError (- 23) ''amount is not right for close only order''"

definition AddressNotInWhiteListError :: ApiError where
  "AddressNotInWhiteListError = apiError (- 24) ''address is not in whitelist''"

definition InvalidOrderTypeError :: ApiError where
  "InvalidOrderTypeError = apiError (- 25) ''invalid order type''"

section \<open>The environment\<close>

text \<open>
  The configuration and the packages: \<open>aeNewFromString\<close> is \<^verbatim>\<open>decimal.NewFromString\<close>, \<open>aeMarshal\<close>
  \<^verbatim>\<open>json.Marshal\<close> of a signature, \<open>aeUnescape\<close> \<^verbatim>\<open>url.QueryUnescape\<close>. \<open>aeNow\<close> is the clock of the API.
\<close>

record api_env =
  aeConf :: conf
  aeChainID :: int
  aeJwtSecret :: string
  aeWhiteList :: "string list"
  aeNow :: nanotime
  aeKeccak :: keccak
  aeEcc :: ecc
  aeJwt :: jwt_lib
  aeDecimal :: decimal_lib
  aeParseTime :: "string \<Rightarrow> nanotime option"
  aeNewFromString :: "string \<Rightarrow> decimal option"
  aeMarshal :: "OrderSignature \<Rightarrow> string result"
  aeUnescape :: "string \<Rightarrow> string result"

section \<open>auth.go\<close>

text \<open>The two headers of a request that the authenticators read; a missing one is empty.\<close>

record api_headers =
  hdMai :: string
  hdJwt :: string

definition maiIsAvail :: "api_headers \<Rightarrow> bool" where
  "maiIsAvail c \<longleftrightarrow> hdMai c \<noteq> []"

definition maiValid :: "api_env \<Rightarrow> api_headers \<Rightarrow> ApiError + string" where
  "maiValid A c =
     (case aeUnescape A (hdMai c) of
        Inl e \<Rightarrow> Inl (AuthError ''Mai-Authentication requires uri-encoded'' (Some e))
      | Inr token \<Rightarrow>
          (case ValidateMaiAuth (aeEcc A) (aeKeccak A) (aeParseTime A) (aeNow A) token of
             Inl e \<Rightarrow> Inl (AuthError ''Mai-Authentication fail:'' (Some e))
           | Inr addr \<Rightarrow> Inr addr))"

definition jwtFromHeader :: "api_headers \<Rightarrow> string" where
  "jwtFromHeader c =
     (let auth = hdJwt c; scheme = ''Bearer''; l = length scheme
      in if l + 1 < length auth \<and> take l auth = scheme then drop (l + 1) auth else [])"

definition jwtIsAvail :: "api_headers \<Rightarrow> bool" where
  "jwtIsAvail c \<longleftrightarrow> hdJwt c \<noteq> []"

definition jwtValid :: "api_env \<Rightarrow> api_headers \<Rightarrow> ApiError + string" where
  "jwtValid A c =
     (case ValidateJwt (aeJwt A) (aeJwtSecret A) (jwtFromHeader c) of
        Inl e \<Rightarrow> Inl (AuthError ''JWT-Authentication fail:'' (Some e))
      | Inr addr \<Rightarrow> Inr addr)"

text \<open>
  A middleware gets the address that is known so far and what comes next, a function of the
  address; \<open>fail\<close> is what an error is answered with.
\<close>

definition JwtAuthMiddleware ::
  "api_env \<Rightarrow> api_headers \<Rightarrow> (ApiError \<Rightarrow> 'r) \<Rightarrow> (string \<Rightarrow> 'r) \<Rightarrow> string \<Rightarrow> 'r" where
  "JwtAuthMiddleware A c fail continue addr =
     (if addr \<noteq> [] then continue addr
      else if \<not> jwtIsAvail c then continue addr
      else case jwtValid A c of Inl e \<Rightarrow> fail e | Inr addr \<Rightarrow> continue (toLower addr))"

definition MaiAuthMiddleware ::
  "api_env \<Rightarrow> api_headers \<Rightarrow> (ApiError \<Rightarrow> 'r) \<Rightarrow> (string \<Rightarrow> 'r) \<Rightarrow> string \<Rightarrow> 'r" where
  "MaiAuthMiddleware A c fail continue addr =
     (if addr \<noteq> [] then continue addr
      else if \<not> maiIsAvail c then continue addr
      else case maiValid A c of Inl e \<Rightarrow> fail e | Inr addr \<Rightarrow> continue (toLower addr))"

definition CheckAuthMiddleware :: "(ApiError \<Rightarrow> 'r) \<Rightarrow> (string \<Rightarrow> 'r) \<Rightarrow> string \<Rightarrow> 'r" where
  "CheckAuthMiddleware fail continue addr =
     (if addr = [] then fail (AuthError ''Authentication required.'' None) else continue addr)"

text \<open>\<open>bound\<close> is what binding and validation made of the request.\<close>

definition CommonHandler ::
  "(ApiError \<Rightarrow> 'r) \<Rightarrow> (ApiError + 'p) \<Rightarrow> (string \<Rightarrow> 'p \<Rightarrow> 'p) \<Rightarrow> ('p \<Rightarrow> 'r) \<Rightarrow> string \<Rightarrow> 'r" where
  "CommonHandler fail bound setAddress fn addr =
     (case bound of
        Inl e \<Rightarrow> fail e
      | Inr reqParam \<Rightarrow> fn (if addr \<noteq> [] then setAddress addr reqParam else reqParam))"

text \<open>The group \<^verbatim>\<open>/orders\<close> of \<^verbatim>\<open>initRouter\<close>, and its route to cancel an order.\<close>

definition ordersGroup :: "api_env \<Rightarrow> api_headers \<Rightarrow> (ApiError \<Rightarrow> 'r) \<Rightarrow> (string \<Rightarrow> 'r) \<Rightarrow> 'r" where
  "ordersGroup A c fail continue =
     MaiAuthMiddleware A c fail (JwtAuthMiddleware A c fail (CheckAuthMiddleware fail continue)) []"

section \<open>jwt.go\<close>

definition inWhiteList :: "string list \<Rightarrow> string \<Rightarrow> bool" where
  "inWhiteList whiteList addr \<longleftrightarrow> whiteList = [] \<or> (\<exists>item \<in> set whiteList. EqualFold addr item)"

definition GetJwtAuth :: "api_env \<Rightarrow> string \<Rightarrow> ApiError + (string \<times> int)" where
  "GetJwtAuth A addr =
     (if \<not> inWhiteList (aeWhiteList A) addr then Inl AddressNotInWhiteListError
      else
        (case SignJwt (aeJwt A) (aeJwtSecret A) (aeNow A) addr of
           Inl e \<Rightarrow> Inl (InternalError e)
         | Inr jwt \<Rightarrow> Inr (jwt, JwtExpiration * 1000)))"

text \<open>\<open>cookie\<close> is the value of the cookie, if there is one; the result is the status and the text.\<close>

definition CheckJwtAuthByCookie :: "api_env \<Rightarrow> string option \<Rightarrow> nat \<times> string" where
  "CheckJwtAuthByCookie A cookie =
     (case cookie of
        None \<Rightarrow> (403, ''token error'')
      | Some v \<Rightarrow>
          (case aeUnescape A v of
             Inl _ \<Rightarrow> (403, ''token error'')
           | Inr token \<Rightarrow>
               (case ValidateJwt (aeJwt A) (aeJwtSecret A) token of
                  Inl _ \<Rightarrow> (403, ''jwt auth error'')
                | Inr addr \<Rightarrow>
                    if \<not> inWhiteList (aeWhiteList A) addr then (403, ''address not in white list'') else (200, ''OK''))))"

section \<open>order.go\<close>

definition ADDRESS_ZERO :: string where
  "ADDRESS_ZERO = ''0x0000000000000000000000000000000000000000''"

record PlaceOrderReq =
  poAddress :: string
  poOrderHash :: string
  poLiquidityPoolAddress :: string
  poPerpetualIndex :: int
  poBrokerAddress :: string
  poRelayerAddress :: string
  poReferrerAddress :: string
  poOrderType :: int
  poPrice :: string
  poTriggerPrice :: string
  poAmount :: string
  poMinTradeAmount :: string
  poBrokerFeeLimit :: int
  poSalt :: int
  poExpiresAt :: int
  poR :: string
  poS :: string
  poV :: string
  poSignType :: string
  poIsCloseOnly :: bool
  poChainID :: int

text \<open>The checks of the trigger price of a stop order; \<open>None\<close> is no error.\<close>

definition validateTrigger :: "api_env \<Rightarrow> PlaceOrderReq \<Rightarrow> decimal \<Rightarrow> decimal \<Rightarrow> ApiError option" where
  "validateTrigger A req amount price =
     (if poOrderType req = StopLimitOrder \<or> poOrderType req = TakeProfitOrder then
        (case aeNewFromString A (poTriggerPrice req) of
           None \<Rightarrow> Some (InvalidPriceAmountError (''parse price['' @ poTriggerPrice req @ ''] error''))
         | Some triggerPrice \<Rightarrow>
             if triggerPrice \<le> 0 then Some (InvalidPriceAmountError ''trigger price <= 0'')
             else if 0 < amount \<and> price < triggerPrice \<or> amount < 0 \<and> triggerPrice < price
             then Some (InvalidPriceAmountError ''trigger price and limit price are not appropriate'')
             else None)
      else if poOrderType req = LimitOrder then None
      else Some InvalidOrderTypeError)"

definition validatePlaceOrder :: "api_env \<Rightarrow> PlaceOrderReq \<Rightarrow> ApiError option" where
  "validatePlaceOrder A req =
     (case aeNewFromString A (poAmount req) of
        None \<Rightarrow> Some (InvalidPriceAmountError (''parse amount['' @ poAmount req @ ''] error''))
      | Some amount \<Rightarrow>
      if amount = 0 then Some (InvalidPriceAmountError ''amount = 0'')
      else case aeNewFromString A (poPrice req) of
        None \<Rightarrow> Some (InvalidPriceAmountError (''parse price['' @ poPrice req @ ''] error''))
      | Some price \<Rightarrow>
      if price \<le> 0 then Some (InvalidPriceAmountError ''price <= 0'')
      else case aeNewFromString A (poMinTradeAmount req) of
        None \<Rightarrow> Some (InvalidPriceAmountError (''parse minTradeAmount['' @ poMinTradeAmount req @ ''] error''))
      | Some minTradeAmount \<Rightarrow>
      if minTradeAmount = 0 \<or> \<bar>amount\<bar> < \<bar>minTradeAmount\<bar> then Some (InvalidPriceAmountError ''minTradeAmount invalid'')
      else if poExpiresAt req * 1000000000 < aeNow A then Some OrderExpired
      else case validateTrigger A req amount price of
        Some e \<Rightarrow> Some e
      | None \<Rightarrow>
      if \<not> EqualFold (poBrokerAddress req) (cfBrokerAddress (aeConf A)) then Some (BrokerAddressError (poBrokerAddress req))
      else None)"

text \<open>A string that is not a number reads as zero where the error is dropped.\<close>

definition rounded :: "api_env \<Rightarrow> string \<Rightarrow> decimal" where
  "rounded A str = round18 (aeDecimal A) (case aeNewFromString A str of None \<Rightarrow> 0 | Some d \<Rightarrow> d)"

definition orderOfReq :: "api_env \<Rightarrow> PlaceOrderReq \<Rightarrow> string \<Rightarrow> Order" where
  "orderOfReq A params sigJSON =
     \<lparr> TraderAddress = toLower (poAddress params), LiquidityPoolAddress = toLower (poLiquidityPoolAddress params),
       PerpetualIndex = poPerpetualIndex params, RelayerAddress = toLower (poRelayerAddress params),
       BrokerAddress = toLower (poBrokerAddress params),
       ReferrerAddress = (if poReferrerAddress params = [] then ADDRESS_ZERO else poReferrerAddress params),
       Type = poOrderType params, Price = rounded A (poPrice params), Amount = rounded A (poAmount params),
       MinTradeAmount = rounded A (poMinTradeAmount params), TriggerPrice = rounded A (poTriggerPrice params),
       BrokerFeeLimit = poBrokerFeeLimit params, ExpiresAt = poExpiresAt params, Salt = poSalt params,
       IsCloseOnly = poIsCloseOnly params, ChainID = poChainID params, Signature = sigJSON,
       ID = 0, OrderHash = poOrderHash params, OldStatus = OrderStatusUnset, Status = OrderPending, CollateralAddress = [],
       AvailableAmount = rounded A (poAmount params), ConfirmedAmount = 0, CanceledAmount = 0, PendingAmount = 0,
       GasFeeLimit = 0, CreatedAt = aeNow A div 1000000000, UpdatedAt = aeNow A div 1000000000, CheckAmount = 0,
       CancelReasons = [] \<rparr>"

text \<open>The hash of the fields of an order, as the contract computes it.\<close>

definition hashOfOrder :: "keccak \<Rightarrow> Order \<Rightarrow> byte list result" where
  "hashOfOrder K order =
     GetOrderHash K (TraderAddress order) (BrokerAddress order) (RelayerAddress order) (ReferrerAddress order)
       (LiquidityPoolAddress order) (MinTradeAmount order) (Amount order) (Price order) (TriggerPrice order) (ChainID order)
       (ExpiresAt order) (PerpetualIndex order) (BrokerFeeLimit order) (GenerateOrderFlags (Type order) (IsCloseOnly order))
       (Salt order)"

definition GetOrderFromPalceOrderReq :: "api_env \<Rightarrow> PlaceOrderReq \<Rightarrow> ApiError + Order" where
  "GetOrderFromPalceOrderReq A params =
     (case validatePlaceOrder A params of
        Some e \<Rightarrow> Inl e
      | None \<Rightarrow>
      case aeMarshal A \<lparr> osSignType = poSignType params, osV = poV params, osR = poR params, osS = poS params \<rparr> of
        Inl e \<Rightarrow> Inl (InternalError (''marshalSignature:'' @ e))
      | Inr sigJSON \<Rightarrow>
      let order = orderOfReq A params sigJSON in
      if \<not> EqualFold (cfBrokerAddress (aeConf A)) (BrokerAddress order)
      then Inl (InternalError (''unSupport brokerAddress:'' @ poBrokerAddress params))
      else case hashOfOrder (aeKeccak A) order of
        Inl e \<Rightarrow> Inl (InternalError (''get order hash fail err:'' @ e))
      | Inr orderHash \<Rightarrow>
      if Bytes2HexP orderHash \<noteq> poOrderHash params then Inl (InternalError ''order hash not match'')
      else
        let signature = ''0x'' @ poR params @ poS params @ poV params in
        case IsValidSignature (aeEcc A) (aeKeccak A) (poAddress params) (poOrderHash params) signature (poSignType params) of
          Inl _ \<Rightarrow> Inl (InternalError ''check signature fail'')
        | Inr valid \<Rightarrow> if \<not> valid then Inl BadSignatureError else Inr order)"

text \<open>The answer to the code of the match server; the order itself when it is accepted.\<close>

definition placed :: "Order \<Rightarrow> MatchCode \<Rightarrow> ApiError + Order" where
  "placed order errID =
     (case errID of
        MatchOK \<Rightarrow> Inr order
      | MatchInternalErrorID \<Rightarrow> Inl (InternalError ''match new order error'')
      | MatchMaxOrderNumReachID \<Rightarrow> Inl MaxOrderNumReachError
      | MatchInsufficientBalanceErrorID \<Rightarrow> Inl InsufficientBalanceError
      | MatchGasNotEnoughErrorID \<Rightarrow> Inl GasBalanceError
      | MatchCloseOnlyErrorID \<Rightarrow> Inl CloseOnlyError)"

definition PlaceOrder ::
  "api_env \<Rightarrow> chain_env \<Rightarrow> (OrdersEachPerp list \<Rightarrow> OrdersEachPerp list) \<Rightarrow> PlaceOrderReq \<Rightarrow> server \<Rightarrow>
   ((ApiError + Order) \<times> server) option" where
  "PlaceOrder A env visit params sv =
     (case GetOrderFromPalceOrderReq A params of
        Inl e \<Rightarrow> Some (Inl e, sv)
      | Inr order \<Rightarrow>
      case GetPerpetualByPoolAddressAndIndex (LiquidityPoolAddress order) (PerpetualIndex order) True sv of
        (Inl e, sv) \<Rightarrow>
          Some (Inl (if IsRecordNotFound e then PerpetualNotFoundError (LiquidityPoolAddress order) (PerpetualIndex order)
                     else InternalError e), sv)
      | (Inr perpetual, sv) \<Rightarrow>
      let order = order\<lparr> CollateralAddress := ppCollateralAddress perpetual \<rparr> in
      if aeChainID A \<noteq> poChainID params then Some (Inl (ChainIDError (poChainID params)), sv)
      else case GetOrderByHash (poOrderHash params) sv of
        (Inr _, sv) \<Rightarrow> Some (Inl (OrderHashExistError (poOrderHash params)), sv)
      | (Inl e, sv) \<Rightarrow>
          if \<not> IsRecordNotFound e then Some (Inl (InternalError ''get order fail''), sv)
          else do {
            (errID, sv) \<leftarrow> serverNewOrder (aeDecimal A) env (aeConf A) visit order sv;
            Some (placed order errID, sv)
          })"

record CancelOrderReq =
  coAddress :: string
  coOrderHash :: string

definition apiCancelOrder :: "time \<Rightarrow> CancelOrderReq \<Rightarrow> server \<Rightarrow> (ApiError + unit) \<times> server" where
  "apiCancelOrder now params sv =
     (case GetOrderByHash (coOrderHash params) sv of
        (Inl e, sv) \<Rightarrow>
          (Inl (if IsRecordNotFound e then OrderIDNotExistError (coOrderHash params) else InternalError e), sv)
      | (Inr order, sv) \<Rightarrow>
          if \<not> EqualFold (coAddress params) (TraderAddress order) then (Inl (OrderAuthError (coOrderHash params)), sv)
          else
            (case serverCancelOrder now (LiquidityPoolAddress order) (PerpetualIndex order) (OrderHash order) sv of
               (Inl e, sv) \<Rightarrow> (Inl (InternalError e), sv)
             | (Inr _, sv) \<Rightarrow> (Inr (), sv)))"

text \<open>The goroutine that cancels the orders of a user one after the other; an error is only logged.\<close>

fun cancelOrders :: "time \<Rightarrow> Order list \<Rightarrow> server \<Rightarrow> server" where
  "cancelOrders now [] sv = sv"
| "cancelOrders now (order # orders) sv =
     cancelOrders now orders (snd (serverCancelOrder now (LiquidityPoolAddress order) (PerpetualIndex order) (OrderHash order) sv))"

definition CancelAllOrders :: "time \<Rightarrow> string \<Rightarrow> server \<Rightarrow> (ApiError + unit) \<times> server" where
  "CancelAllOrders now addr sv =
     (case QueryOrder (toLower addr) [] 0 [OrderPending] 0 0 0 sv of
        (Inl e, sv) \<Rightarrow> (Inl (InternalError e), sv)
      | (Inr orders, sv) \<Rightarrow> (Inr (), cancelOrders now orders sv))"

text \<open>The routes that cancel, behind the authentication of their group.\<close>

definition routeCancelOrder ::
  "api_env \<Rightarrow> api_headers \<Rightarrow> (ApiError + CancelOrderReq) \<Rightarrow> time \<Rightarrow> server \<Rightarrow> (ApiError + unit) \<times> server" where
  "routeCancelOrder A c bound now =
     ordersGroup A c (\<lambda>e sv. (Inl e, sv))
       (CommonHandler (\<lambda>e sv. (Inl e, sv)) bound (\<lambda>addr req. req\<lparr> coAddress := addr \<rparr>) (apiCancelOrder now))"

definition routeCancelAllOrders ::
  "api_env \<Rightarrow> api_headers \<Rightarrow> (ApiError + string) \<Rightarrow> time \<Rightarrow> server \<Rightarrow> (ApiError + unit) \<times> server" where
  "routeCancelAllOrders A c bound now =
     ordersGroup A c (\<lambda>e sv. (Inl e, sv))
       (CommonHandler (\<lambda>e sv. (Inl e, sv)) bound (\<lambda>addr _. addr) (CancelAllOrders now))"

subsection \<open>Queries\<close>

record QueryOrderReq =
  qoAddress :: string
  qoLiquidityPoolAddress :: string
  qoPerpetualIndex :: int
  qoStatus :: string
  qoBeforeOrderHash :: string
  qoAfterOrderHash :: string
  qoBeginTime :: int
  qoEndTime :: int
  qoLimit :: int

text \<open>A status of the query; a string that is no status of an order matches no row.\<close>

definition statusOfString :: "string \<Rightarrow> OrderStatus option" where
  "statusOfString s =
     (if s = [] then Some OrderStatusUnset else if s = ''canceled'' then Some OrderCanceled
      else if s = ''pending'' then Some OrderPending else if s = ''partial_filled'' then Some OrderPartialFilled
      else if s = ''full_filled'' then Some OrderFullFilled else None)"

definition orderIDOf :: "string \<Rightarrow> server \<Rightarrow> (ApiError + int) \<times> server" where
  "orderIDOf hash sv =
     (if hash = [] then (Inr 0, sv)
      else case GetOrderByHash hash sv of
        (Inl e, sv) \<Rightarrow> (Inl (if IsRecordNotFound e then OrderIDNotExistError hash else InternalError e), sv)
      | (Inr order, sv) \<Rightarrow> (Inr (ID order), sv))"

definition checkPool :: "string \<Rightarrow> int \<Rightarrow> server \<Rightarrow> (ApiError + unit) \<times> server" where
  "checkPool pool index sv =
     (if pool = [] then (Inr (), sv)
      else case GetPerpetualByPoolAddressAndIndex pool index True sv of
        (Inl e, sv) \<Rightarrow> (Inl (if IsRecordNotFound e then PerpetualNotFoundError pool index else InternalError e), sv)
      | (Inr _, sv) \<Rightarrow> (Inr (), sv))"

text \<open>The zero time of Go, in seconds, is no condition either.\<close>

definition queryTime :: "int \<Rightarrow> time option" where
  "queryTime t = (if t = 0 \<or> t = - 62135596800 then None else Some t)"

definition queryRows :: "QueryOrderReq \<Rightarrow> int \<Rightarrow> int \<Rightarrow> (server, Order list) dbm" where
  "queryRows params beforeOrderID afterOrderID =
     (let strings = (if qoStatus params \<noteq> ''all'' then splitOn CHR '','' (qoStatus params) else []);
          status = List.map_filter statusOfString strings;
          maxRows = (if 0 < qoLimit params then nat (qoLimit params) else 20)
      in if strings \<noteq> [] \<and> status = [] then dbCall (retE [])
         else if qoBeginTime params \<noteq> 0 \<or> qoEndTime params \<noteq> 0
         then QueryOrderWithCreateTime (qoAddress params) (qoLiquidityPoolAddress params) (qoPerpetualIndex params) status
                beforeOrderID afterOrderID (queryTime (qoBeginTime params)) (queryTime (qoEndTime params)) maxRows
         else QueryOrder (qoAddress params) (qoLiquidityPoolAddress params) (qoPerpetualIndex params) status
                beforeOrderID afterOrderID maxRows)"

definition GetOrders :: "QueryOrderReq \<Rightarrow> server \<Rightarrow> (ApiError + Order list) \<times> server" where
  "GetOrders params sv =
     (case orderIDOf (qoBeforeOrderHash params) sv of
        (Inl e, sv) \<Rightarrow> (Inl e, sv)
      | (Inr beforeOrderID, sv) \<Rightarrow>
      case orderIDOf (qoAfterOrderHash params) sv of
        (Inl e, sv) \<Rightarrow> (Inl e, sv)
      | (Inr afterOrderID, sv) \<Rightarrow>
      case checkPool (qoLiquidityPoolAddress params) (qoPerpetualIndex params) sv of
        (Inl e, sv) \<Rightarrow> (Inl e, sv)
      | (Inr _, sv) \<Rightarrow>
      case queryRows params beforeOrderID afterOrderID sv of
        (Inl e, sv) \<Rightarrow> (Inl (InternalError e), sv)
      | (Inr orders, sv) \<Rightarrow> (Inr orders, sv))"

definition GetOrderByOrderHash :: "string \<Rightarrow> server \<Rightarrow> (ApiError + Order) \<times> server" where
  "GetOrderByOrderHash hash sv =
     (case GetOrderByHash hash sv of
        (Inl e, sv) \<Rightarrow> (Inl (if IsRecordNotFound e then OrderIDNotExistError hash else InternalError e), sv)
      | (Inr order, sv) \<Rightarrow> (Inr order, sv))"

definition GetOrdersByOrderHashs :: "string list \<Rightarrow> server \<Rightarrow> (ApiError + Order list) \<times> server" where
  "GetOrdersByOrderHashs hashs sv =
     (case GetOrderByHashs hashs sv of
        (Inl e, sv) \<Rightarrow> (Inl (InternalError e), sv)
      | (Inr orders, sv) \<Rightarrow> (Inr orders, sv))"

section \<open>perpetual.go\<close>

definition GetPerpetual :: "string \<Rightarrow> int \<Rightarrow> server \<Rightarrow> (ApiError + Perpetual) \<times> server" where
  "GetPerpetual pool index sv =
     (case GetPerpetualByPoolAddressAndIndex pool index True sv of
        (Inl e, sv) \<Rightarrow> (Inl (if IsRecordNotFound e then PerpetualNotFoundError pool index else InternalError e), sv)
      | (Inr perpetual, sv) \<Rightarrow> (Inr perpetual, sv))"

record GetBrokerRelayResp =
  brBrokerAddress :: string
  brVersion :: int
  brRelayerAddress :: string

definition GetBrokerRelay :: "api_env \<Rightarrow> nat \<Rightarrow> client \<Rightarrow> string \<Rightarrow> int \<Rightarrow> server \<Rightarrow> (ApiError + GetBrokerRelayResp) \<times> server" where
  "GetBrokerRelay A idx cli pool index sv =
     (case GetPerpetualByPoolAddressAndIndex pool index True sv of
        (Inl e, sv) \<Rightarrow> (Inl (if IsRecordNotFound e then PerpetualNotFoundError pool index else InternalError e), sv)
      | (Inr _, sv) \<Rightarrow>
          (case GetSignAccount idx cli of
             Inl e \<Rightarrow> (Inl (InternalError e), sv)
           | Inr account \<Rightarrow>
               (Inr \<lparr> brBrokerAddress = toLower (cfBrokerAddress (aeConf A)), brVersion = 3, brRelayerAddress = toLower account \<rparr>, sv)))"

end
