(* ===== verification/Api_Run.thy ===== *)
theory Api_Run
  imports Api
begin

text \<open>
  What the API adds to the runs of the match server: its requests are steps of the server, an order
  that comes in through it is signed by its trader, and only the trader's token cancels an order.
\<close>

section \<open>New orders\<close>

text \<open>A new order appends one row with the signed fields of the order, or leaves the tables.\<close>

lemma NewOrder_row:
  assumes "synced perp (dbTables s) (msBook s)" "dbFaults s = []" "fresh_order ord" "in_perp perp ord"
    "NewOrder L env cf perp visit ord s = Some (code, s')"
  obtains (refused) "code \<noteq> MatchOK" "dbTables s' = dbTables s"
  | (stored) row where "code = MatchOK" "tOrders (dbTables s') = tOrders (dbTables s) @ [row]"
      "OrderParam.truncate row = OrderParam.truncate ord" "OrderHash row = OrderHash ord" "AvailableAmount row = Amount ord"
proof -
  from assms(5) obtain r1 s1 where c: "checkNewOrder L env cf perp visit ord s = Some (r1, s1)"
    by (auto simp: NewOrder_def bind_Some_iff)
  note core = checkNewOrder_core [OF c]
  have s1: "dbTables s1 = dbTables s" "msBook s1 = msBook s" "dbFaults s1 = []"
    using core(1,4) assms(2) by (simp_all add: same_core_def)
  show ?thesis
  proof (cases r1)
    case (Inl e)
    with core(3) assms(5) c s1 show ?thesis by (intro refused) (auto simp: NewOrder_def)
  next
    case (Inr ord1)
    with core(2) obtain g where g: "ord1 = ord\<lparr> GasFeeLimit := g \<rparr>" by blast
    obtain res s2 where tx: "newOrderTx (envNow env) ord1 s1 = (res, s2)" by fastforce
    have "fresh_order ord1" "in_perp perp ord1" using assms(3,4) g by (simp_all add: in_perp_def)
    from newOrderTx_run [OF _ s1(3) this tx] assms(1) s1
    have run: "if OrderHash ord \<in> OrderHash ` set (tOrders (dbTables s)) then isl res \<and> dbTables s2 = dbTables s
       else \<not> isl res \<and> dbTables s2 = appendRow (createdRow (envNow env) ord1) (dbTables s)"
      by (auto simp: g split: if_splits)
    have code: "code = MatchOK \<longleftrightarrow> \<not> isl res" "dbTables s' = dbTables s2"
      using assms(5) c Inr tx by (auto simp: NewOrder_def Let_def split: sum.splits if_splits)
    let ?row = "(createdRow (envNow env) ord1)\<lparr> ID := tNextID (dbTables s) \<rparr>"
    have row: "OrderParam.truncate ?row = OrderParam.truncate ord" "OrderHash ?row = OrderHash ord" "AvailableAmount ?row = Amount ord"
      using assms(3) by (simp_all add: g createdRow_def dbRow_def setStatusByAmounts_def marshalCancelReason_def OrderParam.truncate_def
          fresh_order_def)
    show ?thesis
    proof (cases "isl res")
      case True
      with run code show ?thesis by (intro refused) (auto split: if_splits)
    next
      case False
      with run code have "code = MatchOK" "tOrders (dbTables s') = tOrders (dbTables s) @ [?row]"
        by (auto simp: appendRow_def split: if_splits)
      then show ?thesis by (rule stored [OF _ _ row])
    qed
  qed
qed

lemma openHandler_tables:
  assumes "agreed sv" "dbFaults sv = []" "address pool" "getMatchHandler pool i sv = None \<longrightarrow> open_pending (dbTables sv)"
    "openHandler env pool i sv = (res, sv')"
  shows "dbTables sv' = dbTables sv"
proof (cases "getMatchHandler pool i sv")
  case None
  obtain res' sv2 where g: "GetPerpetualByPoolAddressAndIndex pool i True sv = (res', sv2)" by fastforce
  note p = run_GetPerpetual [OF assms(2) g]
  show ?thesis
  proof (cases res')
    case (Inr perp)
    with None g p assms(5) have m: "serverNewMatch env perp sv = (res, sv')" by (simp add: openHandler_def)
    from serverNewMatch_agreed [OF assms(1,2) _ _ m] p Inr None assms(3,4) show ?thesis by simp
  qed (use None g p assms(5) in \<open>auto simp: openHandler_def\<close>)
qed (use assms(5) in \<open>simp add: openHandler_def\<close>)

lemma serverNewOrder_row:
  assumes "agreed sv" "dbFaults sv = []" "fresh_order ord" "address (LiquidityPoolAddress ord)"
    "getMatchHandler (LiquidityPoolAddress ord) (PerpetualIndex ord) sv = None \<longrightarrow> open_pending (dbTables sv)"
    "serverNewOrder L env cf visit ord sv = Some (code, sv')"
  obtains (refused) "code \<noteq> MatchOK" "dbTables sv' = dbTables sv"
  | (stored) row where "code = MatchOK" "tOrders (dbTables sv') = tOrders (dbTables sv) @ [row]"
      "OrderParam.truncate row = OrderParam.truncate ord" "OrderHash row = OrderHash ord" "AvailableAmount row = Amount ord"
proof -
  obtain res sv1 where o: "openHandler env (LiquidityPoolAddress ord) (PerpetualIndex ord) sv = (res, sv1)" by fastforce
  note a = openHandler_agreed [OF assms(1,2,4,5) o] and t = openHandler_tables [OF assms(1,2,4,5) o]
  show ?thesis
  proof (cases res)
    case (Inl e)
    with assms(6) o t show ?thesis by (intro refused) (simp_all add: serverNewOrder_def)
  next
    case (Inr h)
    with a have a1: "agreed sv1" "dbFaults sv1 = []" "getMatchHandler (LiquidityPoolAddress ord) (PerpetualIndex ord) sv1 = Some h"
      by simp_all
    from Inr assms(6) o obtain s where s: "NewOrder L env cf (hPerp h) visit ord (enter h sv1) = Some (code, s)"
      "sv' = leave (getPerpetualKey (LiquidityPoolAddress ord) (PerpetualIndex ord)) (hPerp h) s sv1"
      by (auto simp: serverNewOrder_def bind_Some_iff)
    note rt = routed [OF a1(1,3) assms(4)]
    have i: "in_perp (hPerp h) ord" using rt(1,2) by (simp add: in_perp_def)
    have e: "synced (hPerp h) (dbTables (enter h sv1)) (msBook (enter h sv1))" "dbFaults (enter h sv1) = []"
      using agreed_handler(1) [OF a1(1) rt(3)] a1(2) by simp_all
    from e assms(3) i s(1) show ?thesis by (rule NewOrder_row) (use s(2) t refused stored in auto)
  qed
qed

text \<open>
  An order is signed by its trader: its hash is the hash of its own fields, and from the signature
  over it, plain or as a personal message, the curve recovers a key of the trader's address.
\<close>

definition signed_by_trader :: "ecc \<Rightarrow> keccak \<Rightarrow> byte list \<Rightarrow> Order \<Rightarrow> bool" where
  "signed_by_trader C K sig r \<longleftrightarrow> (\<exists>h m rpk pk. hashOfOrder K r = Inr h \<and> OrderHash r = Bytes2HexP h \<and>
     (m = h \<or> m = hashPersonalMessage K h) \<and> ecRecoverCompact C ((sig ! 64) # take 64 sig) m = Inr (Some rpk) \<and>
     PubKey2Address K rpk = Some pk \<and> EqualFold (TraderAddress r) pk)"

lemma hashOfOrder_params:
  assumes "OrderParam.truncate r = OrderParam.truncate ord"
  shows "hashOfOrder K r = hashOfOrder K ord" "TraderAddress r = TraderAddress ord" "Amount r = Amount ord" "ChainID r = ChainID ord"
    "BrokerAddress r = BrokerAddress ord"
  using assms by (simp_all add: OrderParam.truncate_def hashOfOrder_def)

lemma GetOrderFromPalceOrderReq_Inr:
  assumes "GetOrderFromPalceOrderReq A params = Inr ord"
  obtains sigJSON h where "ord = orderOfReq A params sigJSON" "hashOfOrder (aeKeccak A) ord = Inr h" "poOrderHash params = Bytes2HexP h"
    "IsValidSignature (aeEcc A) (aeKeccak A) (poAddress params) (poOrderHash params)
       (''0x'' @ poR params @ poS params @ poV params) (poSignType params) = Inr True"
    "EqualFold (cfBrokerAddress (aeConf A)) (BrokerAddress ord)"
  using assms unfolding GetOrderFromPalceOrderReq_def
  by (auto simp: Let_def split: option.splits sum.splits if_splits)

lemma orderOfReq_simps [simp]:
  "TraderAddress (orderOfReq A params sig) = toLower (poAddress params)" "OrderHash (orderOfReq A params sig) = poOrderHash params"
  "Amount (orderOfReq A params sig) = rounded A (poAmount params)" "ChainID (orderOfReq A params sig) = poChainID params"
  "LiquidityPoolAddress (orderOfReq A params sig) = toLower (poLiquidityPoolAddress params)"
  "PerpetualIndex (orderOfReq A params sig) = poPerpetualIndex params"
  by (simp_all add: orderOfReq_def)

lemma orderOfReq_fresh: "rounded A (poAmount params) \<noteq> 0 \<Longrightarrow> fresh_order ((orderOfReq A params sig)\<lparr> CollateralAddress := c \<rparr>)"
  by (simp add: fresh_order_def orderOfReq_def)

lemma request_signed:
  assumes "GetOrderFromPalceOrderReq A params = Inr ord" "OrderParam.truncate r = OrderParam.truncate ord" "OrderHash r = OrderHash ord"
    "Hex2Bytes (''0x'' @ poR params @ poS params @ poV params) = Inr sig"
  shows "signed_by_trader (aeEcc A) (aeKeccak A) sig r"
proof -
  from assms(1) obtain sigJSON h where o: "ord = orderOfReq A params sigJSON" "hashOfOrder (aeKeccak A) ord = Inr h"
    "poOrderHash params = Bytes2HexP h"
    and v: "IsValidSignature (aeEcc A) (aeKeccak A) (poAddress params) (poOrderHash params)
       (''0x'' @ poR params @ poS params @ poV params) (poSignType params) = Inr True"
    by (rule GetOrderFromPalceOrderReq_Inr)
  have p: "HasPrefix (poOrderHash params) ''0x''" "Hex2Bytes (poOrderHash params) = Inr h"
    by (simp_all add: o(3)) (simp add: HasPrefix_def Bytes2HexP_def)
  from v obtain hb sb rpk pk where
    k: "(if HasPrefix (poOrderHash params) ''0x'' then Hex2Bytes (poOrderHash params) else Inr (ascii (poOrderHash params))) = Inr hb"
    "Hex2Bytes (''0x'' @ poR params @ poS params @ poV params) = Inr sb"
    "ecRecoverCompact (aeEcc A) ((sb ! 64) # take 64 sb) (if poSignType params = EthSign then hashPersonalMessage (aeKeccak A) hb else hb) =
       Inr (Some rpk)"
    "PubKey2Address (aeKeccak A) rpk = Some pk" "EqualFold (poAddress params) pk"
    by (rule IsValidSignature_True)
  have "hb = h" "sb = sig" using k(1,2) p assms(4) by simp_all
  note k = k [unfolded this]
  with o assms(3) hashOfOrder_params [OF assms(2)] show ?thesis
    unfolding signed_by_trader_def
    by (intro exI [of _ h] exI [of _ "if poSignType params = EthSign then hashPersonalMessage (aeKeccak A) h else h"]
        exI [of _ rpk] exI [of _ pk]) simp
qed

section \<open>Cancellations\<close>

text \<open>Only rows with a property of their signed fields have changed.\<close>

definition touches :: "(Order \<Rightarrow> bool) \<Rightarrow> server \<Rightarrow> server \<Rightarrow> bool" where
  "touches P sv sv' \<longleftrightarrow>
     list_all2 (\<lambda>r r'. ident r' = ident r \<and> (r' \<noteq> r \<longrightarrow> P r)) (tOrders (dbTables sv)) (tOrders (dbTables sv'))"

lemma touches_refl: "tOrders (dbTables sv') = tOrders (dbTables sv) \<Longrightarrow> touches P sv sv'"
  by (simp add: touches_def list_all2_same)

lemma touches_weaken:
  assumes "touches P sv sv'" "\<And>r. r \<in> set (tOrders (dbTables sv)) \<Longrightarrow> P r \<Longrightarrow> Q r"
  shows "touches Q sv sv'"
  unfolding touches_def
  by (rule list.rel_mono_strong [OF assms(1) [unfolded touches_def]]) (use assms(2) in auto)

lemma touches_trans:
  assumes "touches P sv sv1" "touches P sv1 sv2" "\<And>r r'. ident r = ident r' \<Longrightarrow> P r = P r'"
  shows "touches P sv sv2"
  unfolding touches_def
  by (rule list_all2_trans [OF _ assms(1,2) [unfolded touches_def]]) (use assms(3) in metis)

lemma serverCancelOrder_touches:
  assumes "agreed sv" "dbFaults sv = []" "r \<in> set (tOrders (dbTables sv))"
    "serverCancelOrder now (LiquidityPoolAddress r) (PerpetualIndex r) (OrderHash r) sv = (res, sv')"
  shows "touches (\<lambda>x. x = r) sv sv'"
proof (cases "getMatchHandler (LiquidityPoolAddress r) (PerpetualIndex r) sv")
  case None
  with assms(4) show ?thesis by (auto simp: serverCancelOrder_def intro: touches_refl)
next
  case (Some h)
  have ad: "address (LiquidityPoolAddress r)" using assms(1,3) by (simp add: agreed_def)
  note rt = routed [OF assms(1) Some ad]
  have i: "in_perp (hPerp h) r" using rt(1,2) by (simp add: in_perp_def)
  have e: "synced (hPerp h) (dbTables (enter h sv)) (msBook (enter h sv))" "dbFaults (enter h sv) = []"
    "r \<in> set (tOrders (dbTables (enter h sv)))"
    using agreed_handler(1) [OF assms(1) rt(3)] assms(2,3) by simp_all
  obtain s row where run: "cancelOrderWithoutLock now (OrderHash r) CancelReasonUserCancel True 0 (enter h sv) = (Inr (), s)"
    "dbTables s = replaceRow row (dbTables (enter h sv))" "ident row = ident r"
    by (rule cancel_run [where now = now and reason = CancelReasonUserCancel and all = True and amount = 0, OF e(1,2) _ e(3) i]) auto
  have "sv' = leave (getPerpetualKey (LiquidityPoolAddress r) (PerpetualIndex r)) (hPerp h) s sv"
    using assms(4) Some run(1) by (auto simp: serverCancelOrder_def onHandler_def)
  then have t: "tOrders (dbTables sv') = map (\<lambda>x. if ID x = ID row then row else x) (tOrders (dbTables sv))"
    using run(2) by (simp add: replaceRow_def)
  have ids: "distinct (map ID (tOrders (dbTables sv)))" using assms(1) by (simp add: agreed_def tables_ok_def orders_ok_def)
  have "x = r" if "x \<in> set (tOrders (dbTables sv))" "ID x = ID row" for x
    using that assms(3) ids run(3) by (metis ident_def distinct_map inj_on_def prod.inject)
  with run(3) show ?thesis unfolding touches_def t list_all2_map2 by (auto intro!: list.rel_refl_strong)
qed

lemma cancel_step:
  assumes "srv_reachable L cf sv" "r \<in> set (tOrders (dbTables sv))" "ident ord = ident r"
    "serverCancelOrder now (LiquidityPoolAddress ord) (PerpetualIndex ord) (OrderHash ord) sv = (res, sv')"
  shows "srv_reachable L cf sv'" "touches (\<lambda>x. x = r) sv sv'"
proof -
  have a: "agreed sv" "dbFaults sv = []" using srv_reachable_agreed [OF assms(1)] by simp_all
  have o: "LiquidityPoolAddress ord = LiquidityPoolAddress r" "PerpetualIndex ord = PerpetualIndex r" "OrderHash ord = OrderHash r"
    using assms(3) by (simp_all add: ident_def OrderParam.truncate_def)
  have c: "serverCancelOrder now (LiquidityPoolAddress r) (PerpetualIndex r) (OrderHash r) sv = (res, sv')" using assms(4) o by simp
  then show "touches (\<lambda>x. x = r) sv sv'" by (rule serverCancelOrder_touches [OF a assms(2)])
  have "inj_on OrderHash (set (tOrders (dbTables sv)))" "address (LiquidityPoolAddress r)"
    using a(1) assms(2) by (simp_all add: agreed_def tables_ok_def orders_ok_def distinct_map)
  then have "srv_step L cf sv sv'"
    by (intro srv_step.cancel [OF _ _ c]) (use assms(2) in \<open>auto dest: inj_onD\<close>)
  with assms(1) show "srv_reachable L cf sv'" by (rule srv_reachable.step)
qed

lemma touches_rows:
  assumes "touches P sv sv'" "r \<in> set (tOrders (dbTables sv))"
  shows "\<exists>r' \<in> set (tOrders (dbTables sv')). ident r' = ident r"
proof -
  from assms(2) obtain i where i: "i < length (tOrders (dbTables sv))" "r = tOrders (dbTables sv) ! i"
    by (metis in_set_conv_nth)
  from assms(1) have l: "length (tOrders (dbTables sv')) = length (tOrders (dbTables sv))"
    unfolding touches_def by (simp add: list_all2_lengthD)
  have "ident (tOrders (dbTables sv') ! i) = ident r"
    using list_all2_nthD [OF assms(1) [unfolded touches_def] i(1)] i(2) by simp
  with i(1) l show ?thesis by force
qed

lemma cancelOrders_step:
  assumes "srv_reachable L cf sv" "\<forall>ord \<in> set orders. TraderAddress ord = trader \<and> (\<exists>r \<in> set (tOrders (dbTables sv)). ident r = ident ord)"
  shows "srv_reachable L cf (cancelOrders now orders sv) \<and> touches (\<lambda>r. TraderAddress r = trader) sv (cancelOrders now orders sv)"
  using assms
proof (induction orders arbitrary: sv)
  case Nil
  then show ?case by (auto intro: touches_refl)
next
  case (Cons ord orders)
  obtain res sv1 where c: "serverCancelOrder now (LiquidityPoolAddress ord) (PerpetualIndex ord) (OrderHash ord) sv = (res, sv1)"
    by fastforce
  from Cons.prems(2) obtain r where r: "r \<in> set (tOrders (dbTables sv))" "ident ord = ident r" "TraderAddress ord = trader"
    by (metis list.set_intros(1))
  note st = cancel_step [OF Cons.prems(1) r(1,2) c]
  have "TraderAddress r = trader" using r(2,3) identD(7) by metis
  then have t: "touches (\<lambda>r. TraderAddress r = trader) sv sv1" by (intro touches_weaken [OF st(2)]) simp
  have "\<forall>o' \<in> set orders. TraderAddress o' = trader \<and> (\<exists>r \<in> set (tOrders (dbTables sv1)). ident r = ident o')"
  proof
    fix o' assume o': "o' \<in> set orders"
    with Cons.prems(2) obtain r' where "r' \<in> set (tOrders (dbTables sv))" "ident r' = ident o'" "TraderAddress o' = trader" by auto
    with touches_rows [OF t] show "TraderAddress o' = trader \<and> (\<exists>r \<in> set (tOrders (dbTables sv1)). ident r = ident o')" by metis
  qed
  with Cons.IH [OF st(1)] c have "srv_reachable L cf (cancelOrders now (ord # orders) sv)"
    "touches (\<lambda>r. TraderAddress r = trader) sv1 (cancelOrders now (ord # orders) sv)" by simp_all
  with touches_trans [OF t] show ?case using identD(7) by metis
qed

text \<open>The address of the token that a request carries.\<close>

definition authenticated :: "api_env \<Rightarrow> api_headers \<Rightarrow> string \<Rightarrow> bool" where
  "authenticated A c addr \<longleftrightarrow> maiIsAvail c \<and> maiValid A c = Inr addr \<or> jwtIsAvail c \<and> jwtValid A c = Inr addr"

lemma ordersGroup_cases:
  obtains (failed) e where "ordersGroup A c fail continue = fail e"
  | (passed) addr where "authenticated A c addr" "toLower addr \<noteq> []" "ordersGroup A c fail continue = continue (toLower addr)"
proof -
  note defs = ordersGroup_def MaiAuthMiddleware_def JwtAuthMiddleware_def CheckAuthMiddleware_def authenticated_def
  have "(\<exists>e. ordersGroup A c fail continue = fail e) \<or>
      (\<exists>addr. authenticated A c addr \<and> toLower addr \<noteq> [] \<and> ordersGroup A c fail continue = continue (toLower addr))"
    by (cases "maiIsAvail c"; cases "maiValid A c"; cases "jwtIsAvail c"; cases "jwtValid A c") (auto simp: defs)
  with that show ?thesis by blast
qed

lemma run_GetOrderByHash:
  assumes "dbFaults sv = []" "GetOrderByHash h sv = (res, sv')"
  shows "sv' = sv \<and> (\<forall>r. res = Inr r \<longrightarrow> r \<in> set (tOrders (dbTables sv)) \<and> OrderHash r = h)"
  using assms by (auto simp: GetOrderByHash_def dbCall_def find_Some_iff split: option.splits)

lemma apiCancelOrder_run:
  assumes "srv_reachable L cf sv" "apiCancelOrder now params sv = (res, sv')"
  shows "srv_reachable L cf sv' \<and>
     touches (\<lambda>r. OrderHash r = coOrderHash params \<and> EqualFold (coAddress params) (TraderAddress r)) sv sv'"
proof -
  have f: "dbFaults sv = []" using srv_reachable_agreed [OF assms(1)] by simp
  obtain got sv1 where g: "GetOrderByHash (coOrderHash params) sv = (got, sv1)" by fastforce
  note r = run_GetOrderByHash [OF f g]
  show ?thesis
  proof (cases "\<exists>ord. got = Inr ord \<and> EqualFold (coAddress params) (TraderAddress ord)")
    case False
    with assms g r have "sv' = sv" by (auto simp: apiCancelOrder_def split: sum.splits if_splits)
    with assms(1) show ?thesis by (auto intro: touches_refl)
  next
    case True
    then obtain ord where o: "got = Inr ord" "EqualFold (coAddress params) (TraderAddress ord)" by blast
    obtain res' sv2 where c: "serverCancelOrder now (LiquidityPoolAddress ord) (PerpetualIndex ord) (OrderHash ord) sv = (res', sv2)"
      by fastforce
    with assms(2) g r o have "sv' = sv2" by (auto simp: apiCancelOrder_def split: sum.splits)
    with cancel_step [OF assms(1) _ refl c] r o show ?thesis by (auto intro: touches_weaken)
  qed
qed

lemma CancelAllOrders_run:
  assumes "srv_reachable L cf sv" "CancelAllOrders now addr sv = (res, sv')" "addr \<noteq> []"
  shows "srv_reachable L cf sv' \<and> touches (\<lambda>r. TraderAddress r = toLower addr) sv sv'"
proof -
  have f: "dbFaults sv = []" using srv_reachable_agreed [OF assms(1)] by simp
  let ?rows = "filter (orderWhere (toLower addr) [] 0 [OrderPending] 0 0) (tOrders (dbTables sv))"
  have "QueryOrder (toLower addr) [] 0 [OrderPending] 0 0 0 sv = (Inr ?rows, sv)"
    using f by (simp add: QueryOrder_def dbCall_def limitDesc_def)
  with assms(2) have sv': "sv' = cancelOrders now ?rows sv" by (simp add: CancelAllOrders_def)
  have "toLower addr \<noteq> []" using assms(3) by (simp add: toLower_def)
  then show ?thesis unfolding sv' by (intro cancelOrders_step [OF assms(1)]) (auto simp: orderWhere_def)
qed

section \<open>An order on concrete data\<close>

definition demo_api :: api_env where
  "demo_api = \<lparr> aeConf = match_conf, aeChainID = 1, aeJwtSecret = ''s'', aeWhiteList = [], aeNow = 0,
     aeKeccak = (\<lambda>_. replicate 32 0), aeEcc = demo_ecc,
     aeJwt = \<lparr> jwParseWithClaims = (\<lambda>_ _. Inr \<lparr> jtAlg = ''HS256'', jtValid = True, jtAddress = Some ''0xE'' \<rparr>),
               jwSignedString = (\<lambda>_ _ _. Inl ''key'') \<rparr>,
     aeDecimal = lib18, aeParseTime = (\<lambda>_. None),
     aeNewFromString = (\<lambda>s. if s = ''-1'' then Some (-1) else if s = ''2'' then Some 2 else if s = ''1'' then Some 1 else None),
     aeMarshal = (\<lambda>_. Inr ''{}''), aeUnescape = (\<lambda>s. Inr s) \<rparr>"

definition demo_req :: PlaceOrderReq where
  "demo_req = \<lparr> poAddress = Bytes2HexP (replicate 20 0), poOrderHash = Bytes2HexP (replicate 32 0),
     poLiquidityPoolAddress = ''0xa'', poPerpetualIndex = 0, poBrokerAddress = ''0xb'', poRelayerAddress = ''0xc'',
     poReferrerAddress = [], poOrderType = 1, poPrice = ''2'', poTriggerPrice = [], poAmount = ''-1'', poMinTradeAmount = ''1'',
     poBrokerFeeLimit = 0, poSalt = 1, poExpiresAt = 1000, poR = Bytes2Hex (replicate 32 7), poS = Bytes2Hex (replicate 32 7),
     poV = Bytes2Hex [28], poSignType = EIP712, poIsCloseOnly = True, poChainID = 1 \<rparr>"

lemma demo_signature: "''0x'' @ poR demo_req @ poS demo_req @ poV demo_req = Bytes2HexP (replicate 64 7 @ [28])"
proof -
  have "replicate 64 (7 :: byte) = replicate 32 7 @ replicate 32 7" by (simp flip: replicate_add)
  then show ?thesis by (simp only: demo_req_def PlaceOrderReq.simps Bytes2HexP_def Bytes2Hex_append append_assoc)
qed

lemma demo_valid:
  "IsValidSignature demo_ecc (\<lambda>_. replicate 32 0) (poAddress demo_req) (poOrderHash demo_req)
     (''0x'' @ poR demo_req @ poS demo_req @ poV demo_req) EIP712 = Inr True"
proof -
  have r: "ecRecoverCompact demo_ecc (28 # replicate 64 7) h = Inr (Some \<lparr> pkX = Some 1, pkY = Some 2 \<rparr>)" for h
    by (simp add: demo_ecc_def)
  have "length (Bytes2HexP (replicate 64 7 @ [28])) = 132" "length (poAddress demo_req) = 42"
    by (simp_all add: Bytes2HexP_def demo_req_def)
  moreover have "HasPrefix (poOrderHash demo_req) ''0x''" "Hex2Bytes (poOrderHash demo_req) = Inr (replicate 32 0)"
    by (simp_all add: demo_req_def) (simp add: HasPrefix_def Bytes2HexP_def)
  ultimately show ?thesis
    unfolding demo_signature
    by (simp add: IsValidSignature_def EIP712_def EthSign_def EIP712EcRecover_def SigToPub_def r Let_def nth_append Keccak256_def)
      (simp add: demo_req_def Bytes2HexP_def)
qed

lemma toLower_Bytes2Hex [simp]: "toLower (Bytes2Hex bs) = Bytes2Hex bs"
proof -
  have "\<forall>c \<in> set hex_digits. toLowerChar c = c" by (simp add: hex_digits_def toLowerChar_def)
  moreover have "hex_char n \<in> set hex_digits" for n unfolding hex_char_def by (rule nth_mem) (simp add: hex_digits_def)
  ultimately have "toLowerChar (hex_char n) = hex_char n" for n by blast
  then show ?thesis by (simp add: Bytes2Hex_def toLower_def map_concat comp_def)
qed

lemma demo_hash: "hashOfOrder (\<lambda>_. replicate 32 0) (orderOfReq demo_api demo_req sig) = Inr (replicate 32 0)"
proof -
  have h: "HexToHash ''0xb'' = Inr (BytesToHash [11])" "HexToHash ''0xc'' = Inr (BytesToHash [12])" "HexToHash ''0xa'' = Inr (BytesToHash [10])"
    by (simp_all add: HexToHash_def Hex2Bytes_def strip_0x_def hex_value_def)
  have t: "HexToHash (Bytes2HexP bs) = Inr (BytesToHash bs)" for bs by (simp add: HexToHash_def)
  have a: "ADDRESS_ZERO = Bytes2HexP (replicate 20 0)" by code_simp
  have z: "HexToHash ADDRESS_ZERO = Inr (BytesToHash (replicate 20 0))" unfolding a by (rule t)
  have l: "toLower (Bytes2HexP bs) = Bytes2HexP bs" "toLower ''a'' = ''a''" "toLower ''b'' = ''b''" "toLower ''c'' = ''c''" for bs
    by (simp add: Bytes2HexP_def) (simp_all add: toLower_def toLowerChar_def)
  show ?thesis
    by (simp add: hashOfOrder_def orderOfReq_def demo_req_def l GetOrderHash_def h z t getEIP712MessageHash_def Keccak256_def)
qed

lemma demo_request: "GetOrderFromPalceOrderReq demo_api demo_req = Inr (orderOfReq demo_api demo_req ''{}'')"
proof -
  have v: "validatePlaceOrder demo_api demo_req = None"
    by (simp add: validatePlaceOrder_def validateTrigger_def demo_api_def demo_req_def OrderType_defs EqualFold_def match_conf_def)
  have b: "EqualFold (cfBrokerAddress match_conf) (BrokerAddress (orderOfReq demo_api demo_req ''{}''))"
    by (simp add: match_conf_def orderOfReq_def demo_req_def EqualFold_def)
  have h: "Bytes2HexP (replicate 32 0) = poOrderHash demo_req" "poSignType demo_req = EIP712" by (simp_all add: demo_req_def)
  have e: "aeMarshal demo_api x = Inr ''{}''" "aeConf demo_api = match_conf" "aeKeccak demo_api = (\<lambda>_. replicate 32 0)" "aeEcc demo_api = demo_ecc" for x
    by (simp_all add: demo_api_def)
  show ?thesis unfolding GetOrderFromPalceOrderReq_def by (simp add: v b e demo_hash h demo_valid [simplified] Let_def)
qed

text \<open>A server with one perpetual and no orders yet; it accepts the order.\<close>

definition demo_shop :: server where
  "demo_shop = \<lparr> dbTables = \<lparr> tOrders = [], tMatchTxs = [], tPerpetuals = [match_perp], tNextID = 1 \<rparr>,
     dbFaults = [], svHandlers = [], svPools = [], svWs = [] \<rparr>"

definition demo_order :: Order where
  "demo_order = (orderOfReq demo_api demo_req ''{}'')\<lparr> CollateralAddress := ''0xd'' \<rparr>"

lemma demo_shop_initial: "srv_initial demo_shop" "agreed demo_shop" "open_pending (dbTables demo_shop)" "dbFaults demo_shop = []"
  by (simp_all add: srv_initial_def agreed_def open_pending_def demo_shop_def tables_ok_def orders_ok_def)

lemma demo_rounded: "rounded demo_api ''-1'' = -1" "rounded demo_api ''2'' = 2"
proof -
  note exact = decimal_laws.round_exact(1) [OF decimal_laws_lib18]
  have "round18 lib18 (-1) = -1" using on_grid_of_int [of "-1"] by (intro exact) simp
  then show "rounded demo_api ''-1'' = -1" by (simp add: rounded_def demo_api_def)
  have "round18 lib18 2 = 2" using on_grid_of_int [of 2] by (intro exact) simp
  then show "rounded demo_api ''2'' = 2" by (simp add: rounded_def demo_api_def)
qed

lemma demo_order_simps:
  "LiquidityPoolAddress demo_order = ''0xa''" "PerpetualIndex demo_order = 0" "IsCloseOnly demo_order" "Amount demo_order = -1"
  "AvailableAmount demo_order = -1" "PendingAmount demo_order = 0" "Price demo_order = 2" "CollateralAddress demo_order = ''0xd''"
  "fresh_order demo_order" "Status demo_order = OrderPending"
proof -
  show "LiquidityPoolAddress demo_order = ''0xa''"
    by (simp add: demo_order_def demo_req_def) (simp add: toLower_def toLowerChar_def)
  have "rounded demo_api (poAmount demo_req) \<noteq> 0" using demo_rounded(1) by (simp add: demo_req_def)
  then show "fresh_order demo_order" unfolding demo_order_def by (rule orderOfReq_fresh)
qed (use demo_rounded in \<open>simp_all add: demo_order_def orderOfReq_def demo_req_def\<close>)

lemma demo_available:
  "ComputeOrderAvailable lib18 sample_pool 0 ((sample_account 10 1)\<lparr> WalletBalance := 100 \<rparr>) [demo_order\<lparr> GasFeeLimit := g \<rparr>] =
   Some ([], 100)"
  by (simp add: ComputeOrderAvailable_def splitActiveOrders_def Let_def demo_order_simps
      sideAvailable_def closeStep_def SplitAmount_def HasTheSameSign_def sample_account_def sample_amm_defs
      ComputeAccount_def DivD_def lib18_quo_int)

lemma demo_check:
  assumes "tOrders (dbTables s) = []" "dbFaults s = []" "msPools s = AddPool match_env ''0xa'' []"
  obtains g s' where "checkNewOrder lib18 match_env match_conf match_perp id demo_order s = Some (Inr (demo_order\<lparr> GasFeeLimit := g \<rparr>), s')"
proof -
  have q: "QueryOrder (TraderAddress demo_order) [] 0 [OrderPending] 0 0 0 s = (Inr [], s)"
    using assms(1,2) by (simp add: QueryOrder_def dbCall_def limitDesc_def)
  have e: "envAccount match_env i a tr = Some (sample_account 10 1)" "envBalance match_env a tr d = Some 100"
    "envAllowance match_env a tr b d = Some 100" "envPool match_env a = Some sample_pool" "envNow match_env = 0" for i a tr b d
    by (simp_all add: match_env_def)
  have g: "GetPoolStorage match_env ''0xa'' (AddPool match_env ''0xa'' []) = (Some (sample_pool, True), AddPool match_env ''0xa'' [])"
    by (simp add: GetPoolStorage_def AddPool_def e)
  have p: "ppLiquidityPoolAddress match_perp = ''0xa''" "ppPerpetualIndex match_perp = 0" by (simp_all add: match_perp_def)
  have c: "CheckCloseOnly (sample_account 10 1) demo_order = 0"
    by (simp add: CheckCloseOnly_def demo_order_simps sample_account_def HasTheSameSign_def)
  have s: "map_of (Perpetuals sample_pool) 0 = Some sample_perp" "IsNormal sample_perp"
    "length (Perpetuals sample_pool) = 1" "cfMaxOrderNum match_conf = 10"
    by (simp_all add: sample_amm_defs match_conf_def)
  have gas: "gasCheck match_env match_conf ord n = None" for ord n by (simp add: gasCheck_def match_conf_def)
  show ?thesis
    using that [of "GetGasFeeLimit (Suc 0) True"] demo_available [of "GetGasFeeLimit (Suc 0) True"] assms(3)
    by (simp add: checkNewOrder_def q g p c e s gas demo_order_simps Let_def)
qed

lemma demo_placed:
  obtains ord sv where "PlaceOrder demo_api match_env id demo_req demo_shop = Some (Inr ord, sv)"
proof -
  let ?p = match_perp
  have g: "GetPerpetualByPoolAddressAndIndex ''0xa'' 0 True demo_shop = (Inr ?p, demo_shop)"
    by (simp add: GetPerpetualByPoolAddressAndIndex_def dbCall_def demo_shop_def perpKey_def match_perp_def)
  obtain res sv1 where m: "serverNewMatch match_env ?p demo_shop = (res, sv1)" by fastforce
  have p: "address (ppLiquidityPoolAddress ?p)" "ppLiquidityPoolAddress ?p = ''0xa''" "ppCollateralAddress ?p = ''0xd''"
    by (simp_all add: match_perp_def address_def)
  have n: "map_of (svHandlers demo_shop) (perpetualKey ?p) = None" by (simp add: demo_shop_def)
  note a = serverNewMatch_agreed [OF demo_shop_initial(2,4) p(1) demo_shop_initial(3) m]
  then have "\<not> isl res" using n by blast
  then obtain h where "res = Inr h" by (cases res) simp_all
  with a have h: "res = Inr h" "agreed sv1" "dbFaults sv1 = []" "dbTables sv1 = dbTables demo_shop" "hPerp h = ?p"
      "map_of (svHandlers sv1) (perpetualKey ?p) = Some h"
    by blast+
  have o: "openHandler match_env ''0xa'' 0 demo_shop = (Inr h, sv1)"
    using g m h(1) by (simp add: openHandler_def getMatchHandler_def demo_shop_def)
  let ?s = "enter h sv1"
  have s: "tOrders (dbTables ?s) = []" "dbFaults ?s = []" "msPools ?s = AddPool match_env ''0xa'' []"
    using h(3,4) serverNewMatch_pools [OF m] p(2) by (simp_all add: demo_shop_def enter_def)
  obtain gas s' where c: "checkNewOrder lib18 match_env match_conf ?p id demo_order ?s = Some (Inr (demo_order\<lparr> GasFeeLimit := gas \<rparr>), s')"
    using s by (rule demo_check)
  note core = checkNewOrder_core [OF c]
  have s': "dbTables s' = dbTables ?s" "msBook s' = msBook ?s" "dbFaults s' = []"
    using core(1,4) s(2) by (simp_all add: same_core_def)
  obtain r s2 where tx: "newOrderTx (envNow match_env) (demo_order\<lparr> GasFeeLimit := gas \<rparr>) s' = (r, s2)" by fastforce
  have "synced ?p (dbTables s') (msBook s')" using agreed_handler(1) [OF h(2,6)] h(5) s' by simp
  from newOrderTx_run [OF this s'(3) _ _ tx] s(1) s'(1) obtain ord where "r = Inr ord"
    using demo_order_simps(1,2,9) by (cases r) (auto simp: in_perp_def match_perp_def)
  with tx c have "NewOrder lib18 match_env match_conf ?p id demo_order ?s \<noteq> None \<and>
      fst (the (NewOrder lib18 match_env match_conf ?p id demo_order ?s)) = MatchOK" by (simp add: NewOrder_def Let_def)
  then obtain s3 where n: "NewOrder lib18 match_env match_conf ?p id demo_order ?s = Some (MatchOK, s3)" by force
  then obtain sv where n': "serverNewOrder lib18 match_env match_conf id demo_order demo_shop = Some (MatchOK, sv)"
    using o h(5) by (simp add: serverNewOrder_def demo_order_simps)
  have "GetOrderByHash (poOrderHash demo_req) demo_shop = (Inl ''GetOrder:record not found'', demo_shop)"
    by (rule run_Get_none) (simp_all add: demo_shop_def)
  moreover have "aeChainID demo_api = poChainID demo_req" "aeDecimal demo_api = lib18" "aeConf demo_api = match_conf"
    by (simp_all add: demo_api_def demo_req_def)
  moreover have "(orderOfReq demo_api demo_req ''{}'')\<lparr> CollateralAddress := ''0xd'' \<rparr> = demo_order"
    "LiquidityPoolAddress (orderOfReq demo_api demo_req ''{}'') = ''0xa''" "PerpetualIndex (orderOfReq demo_api demo_req ''{}'') = 0"
    using demo_order_simps(1,2) by (simp_all add: demo_order_def)
  ultimately have "PlaceOrder demo_api match_env id demo_req demo_shop = Some (Inr demo_order, sv)"
    using n' g p(3) by (simp add: PlaceOrder_def demo_request Let_def IsRecordNotFound_def ErrRecordNotFound_def placed_def)
  with that show ?thesis by blast
qed

text \<open>A request that is refused before it reaches the match server changes nothing.\<close>

lemma PlaceOrder_refused:
  assumes "dbFaults sv = []" "PlaceOrder A env visit params sv = Some (res, sv')"
    "\<not> (\<exists>ord p. GetOrderFromPalceOrderReq A params = Inr ord \<and>
       GetPerpetualByPoolAddressAndIndex (LiquidityPoolAddress ord) (PerpetualIndex ord) True sv = (Inr p, sv) \<and>
       aeChainID A = poChainID params \<and> isl (fst (GetOrderByHash (poOrderHash params) sv)))"
  shows "isl res \<and> sv' = sv"
proof (cases "GetOrderFromPalceOrderReq A params")
  case (Inr ord)
  obtain p sv1 where g: "GetPerpetualByPoolAddressAndIndex (LiquidityPoolAddress ord) (PerpetualIndex ord) True sv = (p, sv1)" by fastforce
  obtain q sv2 where h: "GetOrderByHash (poOrderHash params) sv = (q, sv2)" by fastforce
  from run_GetPerpetual [OF assms(1) g] run_GetOrderByHash [OF assms(1) h] assms(3) Inr g h assms(2) show ?thesis
    by (cases p; cases q) (auto simp: PlaceOrder_def Let_def split: if_splits)
next
  case (Inl e)
  with assms(2) have "res = Inl e \<and> sv' = sv" by (simp add: PlaceOrder_def)
  then show ?thesis by simp
qed

section \<open>Properties\<close>

text \<open>
  C9: an order comes in only with the signature of its trader. A request for a new order is a step of
  the match server. It leaves the table of orders as it is, or appends one row: the hash of that row is
  the hash of its own fields, from the signature of the request the curve recovers, over that hash, a
  key whose address is the trader of the row, and the row names this chain and this broker and has its
  whole amount available.
\<close>

theorem PlaceOrder_signed:
  assumes "srv_reachable (aeDecimal A) (aeConf A) sv" "\<forall>p \<in> set (tPerpetuals (dbTables sv)). address (ppLiquidityPoolAddress p)"
    "open_pending (dbTables sv)" "rounded A (poAmount params) \<noteq> 0" "PlaceOrder A env visit params sv = Some (res, sv')"
  shows "srv_reachable (aeDecimal A) (aeConf A) sv' \<and>
     (isl res \<and> tOrders (dbTables sv') = tOrders (dbTables sv) \<or>
      \<not> isl res \<and> (\<exists>r sig. tOrders (dbTables sv') = tOrders (dbTables sv) @ [r] \<and>
        Hex2Bytes (''0x'' @ poR params @ poS params @ poV params) = Inr sig \<and> signed_by_trader (aeEcc A) (aeKeccak A) sig r \<and>
        ChainID r = aeChainID A \<and> EqualFold (cfBrokerAddress (aeConf A)) (BrokerAddress r) \<and> AvailableAmount r = Amount r))"
proof (cases "\<exists>ord p. GetOrderFromPalceOrderReq A params = Inr ord \<and>
    GetPerpetualByPoolAddressAndIndex (LiquidityPoolAddress ord) (PerpetualIndex ord) True sv = (Inr p, sv) \<and>
    aeChainID A = poChainID params \<and> isl (fst (GetOrderByHash (poOrderHash params) sv))")
  case False
  have "dbFaults sv = []" using srv_reachable_agreed [OF assms(1)] by simp
  from PlaceOrder_refused [OF this assms(5) False] have "isl res \<and> sv' = sv" .
  with assms(1) show ?thesis by simp
next
  case True
  then obtain ord p where o: "GetOrderFromPalceOrderReq A params = Inr ord"
    and p: "GetPerpetualByPoolAddressAndIndex (LiquidityPoolAddress ord) (PerpetualIndex ord) True sv = (Inr p, sv)"
    and c: "aeChainID A = poChainID params" and n: "isl (fst (GetOrderByHash (poOrderHash params) sv))" by blast
  have a: "agreed sv" "dbFaults sv = []" using srv_reachable_agreed [OF assms(1)] by simp_all
  from o obtain sigJSON where ord: "ord = orderOfReq A params sigJSON"
    and v: "IsValidSignature (aeEcc A) (aeKeccak A) (poAddress params) (poOrderHash params)
       (''0x'' @ poR params @ poS params @ poV params) (poSignType params) = Inr True"
    and b: "EqualFold (cfBrokerAddress (aeConf A)) (BrokerAddress ord)" by (rule GetOrderFromPalceOrderReq_Inr)
  from v obtain sig where sig: "Hex2Bytes (''0x'' @ poR params @ poS params @ poV params) = Inr sig" by (rule IsValidSignature_True)
  let ?o = "ord\<lparr> CollateralAddress := ppCollateralAddress p \<rparr>"
  have g: "GetOrderByHash (poOrderHash params) sv = (Inl ''GetOrder:record not found'', sv)"
    using n a(2) by (auto simp: GetOrderByHash_def dbCall_def split: option.splits)
  with assms(5) o p c obtain code where s: "serverNewOrder (aeDecimal A) env (aeConf A) visit ?o sv = Some (code, sv')" "res = placed ?o code"
    by (auto simp: PlaceOrder_def Let_def bind_Some_iff IsRecordNotFound_def ErrRecordNotFound_def)
  have "p \<in> set (tPerpetuals (dbTables sv))" "ppLiquidityPoolAddress p = LiquidityPoolAddress ord"
    using p a(2) by (auto simp: GetPerpetualByPoolAddressAndIndex_def dbCall_def perpKey_def find_Some_iff split: option.splits)
  with assms(2) have ad: "address (LiquidityPoolAddress ?o)" by auto
  have fresh: "fresh_order ?o" unfolding ord by (rule orderOfReq_fresh [OF assms(4)])
  have "getMatchHandler (LiquidityPoolAddress ?o) (PerpetualIndex ?o) sv = None \<longrightarrow> open_pending (dbTables sv)" using assms(3) by simp
  note facts = fresh ad this s(1)
  have re: "srv_reachable (aeDecimal A) (aeConf A) sv'" by (rule srv_reachable.step [OF assms(1) srv_step.new_order [OF facts]])
  from a facts show ?thesis
  proof (cases rule: serverNewOrder_row)
    case refused
    then show ?thesis using re s(2) by (auto simp: placed_def split: MatchCode.splits)
  next
    case (stored row)
    then have t: "OrderParam.truncate row = OrderParam.truncate ord" "OrderHash row = OrderHash ord" by (simp_all add: OrderParam.truncate_def)
    note r = request_signed [OF o t sig] hashOfOrder_params [OF t(1)]
    have "\<not> isl res" using s(2) stored(1) by (simp add: placed_def)
    with re stored(2,5) sig r c b ord show ?thesis by auto
  qed
qed

theorem PlaceOrder_signed_witness:
  "\<exists>ord sv r sig. PlaceOrder demo_api match_env id demo_req demo_shop = Some (Inr ord, sv) \<and> tOrders (dbTables sv) = [r] \<and>
     signed_by_trader demo_ecc (\<lambda>_. replicate 32 0) sig r"
proof -
  obtain ord sv where p: "PlaceOrder demo_api match_env id demo_req demo_shop = Some (Inr ord, sv)" by (rule demo_placed)
  have "srv_reachable (aeDecimal demo_api) (aeConf demo_api) demo_shop" by (rule srv_reachable.init [OF demo_shop_initial(1)])
  moreover have "\<forall>p \<in> set (tPerpetuals (dbTables demo_shop)). address (ppLiquidityPoolAddress p)"
    by (simp add: demo_shop_def match_perp_def address_def)
  moreover have "rounded demo_api (poAmount demo_req) \<noteq> 0" using demo_rounded(1) by (simp add: demo_req_def)
  ultimately have "\<exists>r sig. tOrders (dbTables sv) = tOrders (dbTables demo_shop) @ [r] \<and> signed_by_trader (aeEcc demo_api) (aeKeccak demo_api) sig r"
    using PlaceOrder_signed [OF _ _ demo_shop_initial(3) _ p] by auto
  with p show ?thesis by (auto simp: demo_shop_def demo_api_def)
qed

text \<open>
  C10: an order is cancelled only with the token of its trader. A request to cancel one order, or all of
  them, is a number of steps of the match server, and an order that has changed belongs to the address
  of a token that the request carries and that is valid: a signature of at most five minutes ago, or a
  JWT.
\<close>

theorem cancel_needs_token:
  assumes "srv_reachable L cf sv"
    "routeCancelOrder A c bound now sv = (res, sv') \<or> routeCancelAllOrders A c bound' now sv = (res, sv')"
  shows "srv_reachable L cf sv' \<and>
     list_all2 (\<lambda>r r'. ident r' = ident r \<and>
         (r' = r \<or> (\<exists>addr. authenticated A c addr \<and> EqualFold addr (TraderAddress r))))
       (tOrders (dbTables sv)) (tOrders (dbTables sv'))"
proof -
  let ?P = "\<lambda>r. \<exists>addr. authenticated A c addr \<and> EqualFold addr (TraderAddress r)"
  let ?goal = "srv_reachable L cf sv' \<and> touches ?P sv sv'"
  have none: ?goal if "sv' = sv" using assms(1) that by (auto intro: touches_refl)
  have one: ?goal if "routeCancelOrder A c bound now sv = (res, sv')"
  proof (cases rule: ordersGroup_cases [of A c "\<lambda>e sv. (Inl e, sv)"
        "CommonHandler (\<lambda>e sv. (Inl e, sv)) bound (\<lambda>addr req. req\<lparr> coAddress := addr \<rparr>) (apiCancelOrder now)"])
    case (failed e)
    with that show ?thesis by (intro none) (simp add: routeCancelOrder_def)
  next
    case (passed addr)
    with that have run: "case bound of Inl e \<Rightarrow> sv' = sv | Inr req \<Rightarrow> apiCancelOrder now (req\<lparr> coAddress := toLower addr \<rparr>) sv = (res, sv')"
      by (auto simp: routeCancelOrder_def CommonHandler_def split: sum.splits)
    show ?thesis
    proof (cases bound)
      case (Inr req)
      with run apiCancelOrder_run [OF assms(1)] passed(1) show ?thesis by (force intro: touches_weaken)
    qed (use run none in simp)
  qed
  have all: ?goal if "routeCancelAllOrders A c bound' now sv = (res, sv')"
  proof (cases rule: ordersGroup_cases [of A c "\<lambda>e sv. (Inl e, sv)"
        "CommonHandler (\<lambda>e sv. (Inl e, sv)) bound' (\<lambda>addr _. addr) (CancelAllOrders now)"])
    case (failed e)
    with that show ?thesis by (intro none) (simp add: routeCancelAllOrders_def)
  next
    case (passed addr)
    with that have run: "case bound' of Inl e \<Rightarrow> sv' = sv | Inr _ \<Rightarrow> CancelAllOrders now (toLower addr) sv = (res, sv')"
      by (auto simp: routeCancelAllOrders_def CommonHandler_def split: sum.splits)
    show ?thesis
    proof (cases bound')
      case (Inr req)
      with run CancelAllOrders_run [OF assms(1) _ passed(2)] passed(1) show ?thesis
        by (force intro: touches_weaken simp: EqualFold_def)
    qed (use run none in simp)
  qed
  from assms(2) one all have ?goal by blast
  then show ?thesis unfolding touches_def by (auto elim: list_all2_mono)
qed

theorem cancel_needs_token_witness:
  "\<exists>sv sv' res. srv_reachable lib18 match_conf sv \<and>
     routeCancelOrder demo_api \<lparr> hdMai = [], hdJwt = ''Bearer t'' \<rparr> (Inr \<lparr> coAddress = [], coOrderHash = OrderHash match_row \<rparr>) 0 sv =
       (res, sv') \<and>
     authenticated demo_api \<lparr> hdMai = [], hdJwt = ''Bearer t'' \<rparr> ''0xE'' \<and> srv_reachable lib18 match_conf sv'"
proof -
  let ?c = "\<lparr> hdMai = [], hdJwt = ''Bearer t'' \<rparr>"
  obtain sv h where "srv_step lib18 match_conf demo_server sv" and s: "srv_reachable lib18 match_conf sv"
    by (rule demo_started)
  obtain res sv' where r: "routeCancelOrder demo_api ?c (Inr \<lparr> coAddress = [], coOrderHash = OrderHash match_row \<rparr>) 0 sv = (res, sv')"
    by fastforce
  have "authenticated demo_api ?c ''0xE''"
    by (simp add: authenticated_def maiIsAvail_def jwtIsAvail_def jwtValid_def ValidateJwt_def demo_api_def)
  with cancel_needs_token [OF s disjI1 [OF r]] s r show ?thesis by blast
qed

end
