(* ===== verification/Api_Errors.thy ===== *)
theory Api_Errors
  imports Api
begin

text \<open>
  How the API answers: the rest of \<^verbatim>\<open>src/api/errors.go\<close>, \<^verbatim>\<open>bindAndValidParams\<close>, \<^verbatim>\<open>commonResponse\<close> and
  \<^verbatim>\<open>ErrorHandler\<close> of \<^verbatim>\<open>commonhandler.go\<close>, and \<^verbatim>\<open>RecoverHandler\<close> of \<^verbatim>\<open>recover.go\<close>. An error of Go is
  the list of the errors that \<^verbatim>\<open>errors.As\<close> visits, the outermost first. Every request gets an answer,
  also one whose handler panics; a request that cannot be bound is answered with the code of an HTTP
  error and not with the one of a bind error.
\<close>

section \<open>errors.go\<close>

definition ValidationError :: "string \<Rightarrow> ApiError" where
  "ValidationError message = apiError (- 2) message"

definition InsufficientAllowanceError :: "string \<Rightarrow> string \<Rightarrow> string \<Rightarrow> ApiError" where
  "InsufficientAllowanceError token need has =
     apiError (- 9) (''insufficient allowance of '' @ token @ '', need '' @ need @ '', has '' @ has)"

record FieldError =
  fdTag :: string
  fdField :: string
  fdNamespace :: string

definition buildSingleError :: "FieldError \<Rightarrow> string" where
  "buildSingleError err =
     (if fdTag err = ''required'' then fdField err @ '' is required''
      else ''Key: '' @ [CHR 39] @ fdNamespace err @ [CHR 39] @ '' Error:Field validation for '' @ [CHR 39] @ fdField err @ [CHR 39] @
           '' failed on the '' @ [CHR 39] @ fdTag err @ [CHR 39] @ '' tag'')"

definition ValidatorError :: "FieldError list \<Rightarrow> ApiError" where
  "ValidatorError errors =
     (apiError (- 10) (''validation fail: '' @ concat (map (\<lambda>err. buildSingleError err @ '';'') errors)))\<lparr> aerInternal := Some ''validation'' \<rparr>"

definition EchoHTTPError :: "string \<Rightarrow> string option \<Rightarrow> ApiError" where
  "EchoHTTPError message internal = (apiError (- 12) message)\<lparr> aerInternal := internal \<rparr>"

definition RateLimitError :: "string \<Rightarrow> string option \<Rightarrow> ApiError" where
  "RateLimitError desc err = (apiError (- 14) (''Api rate-limit error. '' @ desc))\<lparr> aerInternal := err \<rparr>"

definition ContractSettledError :: ApiError where
  "ContractSettledError = apiError (- 16) ''the contract is settled, forbidden to place orders''"

section \<open>commonhandler.go\<close>

datatype err_layer =
    ApiLayer ApiError
  | ValidationLayer "FieldError list"
  | EchoLayer string "string option"
  | OtherLayer string

type_synonym err_chain = "err_layer list"

fun asValidation :: "err_chain \<Rightarrow> FieldError list option" where
  "asValidation [] = None"
| "asValidation (ValidationLayer errors # ls) = Some errors"
| "asValidation (l # ls) = asValidation ls"

fun asEcho :: "err_chain \<Rightarrow> (string \<times> string option) option" where
  "asEcho [] = None"
| "asEcho (EchoLayer message internal # ls) = Some (message, internal)"
| "asEcho (l # ls) = asEcho ls"

fun asApi :: "err_chain \<Rightarrow> ApiError option" where
  "asApi [] = None"
| "asApi (ApiLayer e # ls) = Some e"
| "asApi (l # ls) = asApi ls"

definition errText :: "err_chain \<Rightarrow> string" where
  "errText ls = (case ls of
     OtherLayer e # _ \<Rightarrow> e | EchoLayer e _ # _ \<Rightarrow> e | ApiLayer e # _ \<Rightarrow> aerDesc e | _ \<Rightarrow> ''validation'')"

text \<open>\<open>bound\<close> is the result of \<^verbatim>\<open>c.Bind\<close>, \<open>url\<close> sets the parameters of the path, \<open>check\<close> is the validator.\<close>

definition bindAndValidParams ::
  "(err_chain + 'p) \<Rightarrow> ('p \<Rightarrow> 'p) \<Rightarrow> ('p \<Rightarrow> FieldError list) \<Rightarrow> err_chain + 'p" where
  "bindAndValidParams bound url check =
     (case bound of
        Inl err \<Rightarrow> Inl (ApiLayer (BindError (errText err)) # err)
      | Inr params \<Rightarrow>
          let params = url params; errors = check params
          in if errors = [] then Inr params else Inl [ValidationLayer errors])"

record 'd Response =
  rsStatus :: int
  rsDesc :: string
  rsData :: 'd

definition commonResponse :: "'d \<Rightarrow> ('d + string list) Response" where
  "commonResponse data = \<lparr> rsStatus = 0, rsDesc = ''success'', rsData = Inl data \<rparr>"

definition ErrorHandler :: "err_chain \<Rightarrow> ('d + string list) Response" where
  "ErrorHandler err =
     (let e = (case asValidation err of
                 Some errors \<Rightarrow> ValidatorError errors
               | None \<Rightarrow>
                   (case asEcho err of
                      Some (message, internal) \<Rightarrow> EchoHTTPError message internal
                    | None \<Rightarrow> (case asApi err of Some e \<Rightarrow> e | None \<Rightarrow> InternalError (errText err))))
      in \<lparr> rsStatus = aerCode e, rsDesc = aerDesc e, rsData = Inr (aerParams e) \<rparr>)"

text \<open>
  A handler of \<^verbatim>\<open>CommonHandler\<close> under \<^verbatim>\<open>RecoverHandler\<close>: \<open>None\<close> is a panic of the handler, with the
  text \<open>panic\<close>, which is passed to \<^verbatim>\<open>ErrorHandler\<close>.
\<close>

definition RecoverHandler :: "string \<Rightarrow> (err_chain + 'd) option \<Rightarrow> ('d + string list) Response" where
  "RecoverHandler panic r =
     (case r of
        None \<Rightarrow> ErrorHandler [OtherLayer panic]
      | Some (Inl err) \<Rightarrow> ErrorHandler err
      | Some (Inr data) \<Rightarrow> commonResponse data)"

section \<open>Lemmas\<close>

text \<open>Only a handler that succeeds is answered with the status zero, and the text of a panic is not sent.\<close>

lemma ErrorHandler_fails:
  assumes "\<And>e. ApiLayer e \<in> set err \<Longrightarrow> aerCode e < 0"
  shows "rsStatus (ErrorHandler err :: ('d + string list) Response) < 0"
proof -
  have "asApi err = Some e \<Longrightarrow> aerCode e < 0" for e
    using assms by (induction err rule: asApi.induct) auto
  then show ?thesis
    by (auto simp: ErrorHandler_def Let_def ValidatorError_def EchoHTTPError_def InternalError_def apiError_def split: option.splits)
qed

lemma panic_answer:
  "(RecoverHandler panic None :: ('d + string list) Response) = \<lparr> rsStatus = - 1, rsDesc = ''Internal Server Error'', rsData = Inr [] \<rparr>"
  by (simp add: RecoverHandler_def ErrorHandler_def InternalError_def apiError_def)

text \<open>\<^verbatim>\<open>c.Bind\<close> of the framework reports an HTTP error, which \<^verbatim>\<open>errors.As\<close> finds inside the bind error.\<close>

lemma bind_error_hidden:
  assumes "bindAndValidParams (Inl [EchoLayer message internal]) url check = Inl err"
  shows "rsStatus (ErrorHandler err :: ('d + string list) Response) = - 12"
  using assms by (auto simp: bindAndValidParams_def ErrorHandler_def EchoHTTPError_def apiError_def)

end
