(* ===== verification/Relayer.thy ===== *)
theory Relayer
  imports Signatures "HOL-Library.Word"
begin

text \<open>
  The relayer for calls that a user has signed off the chain: \<^verbatim>\<open>src/l2/relayer\<close> (packing of the
  call, fee, errors) and the handler of \<^verbatim>\<open>src/l2/rpc\<close>. The contract binding and the packages of
  go-ethereum are the record \<open>l2_env\<close>. The machine integers keep their widths. \<^verbatim>\<open>bytes.Buffer\<close> is
  modelled with the array behind it, because the code reads and writes beyond the length of a
  slice: the last property shows that the fee of a call never reaches the field of the call that
  the contract reads it from, and that the check of the balance is the wrong way round.
\<close>

section \<open>errors.go\<close>

definition InternalServerError :: int where "InternalServerError = 1"
definition InvalidRequestError :: int where "InvalidRequestError = 2"
definition InsufficentGasError :: int where "InsufficentGasError = 3"
definition EstimateGasError :: int where "EstimateGasError = 4"
definition SendTransactionError :: int where "SendTransactionError = 5"

text \<open>An error of the chain: one of the RPC package, with a code, or any other.\<close>

datatype chain_failure = RpcError int string | PlainError string

record ChainError =
  ceCode :: int
  ceMessage :: string

record relayer_error =
  reCode :: int
  reMessage :: string
  reChainError :: "ChainError option"

text \<open>The errors the functions return: the type of this package, or another one.\<close>

datatype l2_error = RelayerError relayer_error | OtherFailure string

definition getChainError :: "chain_failure \<Rightarrow> ChainError option" where
  "getChainError err = (case err of RpcError c m \<Rightarrow> Some \<lparr> ceCode = c, ceMessage = m \<rparr> | PlainError _ \<Rightarrow> None)"

definition NewEstimateGasError :: "chain_failure \<Rightarrow> l2_error" where
  "NewEstimateGasError rpcError = RelayerError \<lparr> reCode = EstimateGasError,
     reMessage = ''always failing transaction or unpredicatable gas'', reChainError = getChainError rpcError \<rparr>"

definition NewSendTransactionError :: "chain_failure \<Rightarrow> l2_error" where
  "NewSendTransactionError rpcError = RelayerError \<lparr> reCode = SendTransactionError,
     reMessage = ''send transaction to block chain error'', reChainError = getChainError rpcError \<rparr>"

definition NewInsufficentGasError :: "64 word \<Rightarrow> l2_error" where
  "NewInsufficentGasError need = RelayerError \<lparr> reCode = InsufficentGasError,
     reMessage = ''need at least '' @ natToString (unat need) @ '' broker gas'', reChainError = None \<rparr>"

definition NewInvalidRequestError :: "string \<Rightarrow> l2_error" where
  "NewInvalidRequestError msg = RelayerError \<lparr> reCode = InvalidRequestError,
     reMessage = ''bad paramter:'' @ msg, reChainError = None \<rparr>"

definition NewInternalServerError :: relayer_error where
  "NewInternalServerError = \<lparr> reCode = InternalServerError, reMessage = ''internal server error'', reChainError = None \<rparr>"

section \<open>contract.go\<close>

text \<open>In Go \<^verbatim>\<open>^\<close> is the exclusive or.\<close>

definition PackedGasFeeLimitShift :: "64 word" where
  "PackedGasFeeLimitShift = xor 10 11"

text \<open>A \<^verbatim>\<open>uint32\<close> in four bytes, big-endian.\<close>

definition be32 :: "32 word \<Rightarrow> byte list" where
  "be32 w = map (\<lambda>n. ucast (drop_bit n w)) [24, 16, 8, 0]"

text \<open>
  \<^verbatim>\<open>bytes.Buffer\<close>: the array behind it, of 64 bytes at the first small write, and the length of
  what is written. \<^verbatim>\<open>Reset\<close> sets the length to zero and leaves the bytes.
\<close>

record buffer =
  bfArray :: "byte list"
  bfLen :: nat

definition newBuffer :: buffer where
  "newBuffer = \<lparr> bfArray = replicate 64 0, bfLen = 0 \<rparr>"

definition bufWrite :: "byte list \<Rightarrow> buffer \<Rightarrow> buffer" where
  "bufWrite p b =
     b\<lparr> bfArray := take (bfLen b) (bfArray b) @ p @ drop (bfLen b + length p) (bfArray b), bfLen := bfLen b + length p \<rparr>"

definition bufReset :: "buffer \<Rightarrow> buffer" where
  "bufReset b = b\<lparr> bfLen := 0 \<rparr>"

text \<open>
  \<^verbatim>\<open>buf.Bytes()[:32]\<close> reads 32 bytes of the array, whatever the length. \<open>None\<close> is the panic
  for a buffer that is too long.
\<close>

definition first32 :: "buffer \<Rightarrow> byte list option" where
  "first32 b = (if 32 < bfLen b then None else Some (take 32 (bfArray b)))"

definition packUserData ::
  "byte list \<Rightarrow> byte list \<Rightarrow> 32 word \<Rightarrow> 32 word \<Rightarrow> 64 word \<Rightarrow> 64 word \<Rightarrow> (byte list \<times> byte list) option" where
  "packUserData from to Nonce Expiration gasFeeLimit fee =
     (let buf = bufWrite from newBuffer;
          buf = bufWrite (be32 Nonce) buf;
          buf = bufWrite (be32 Expiration) buf;
          u32GasFeeLimit = ucast (gasFeeLimit div PackedGasFeeLimitShift) :: 32 word;
          buf = bufWrite (be32 u32GasFeeLimit) buf
      in case first32 buf of
           None \<Rightarrow> None
         | Some user1 \<Rightarrow>
             (let buf = bufReset buf;
                  buf = bufWrite to buf;
                  u32Fee = ucast (fee div PackedGasFeeLimitShift) :: 32 word;
                  buf = bufWrite (be32 u32Fee) buf
              in case first32 buf of
                   None \<Rightarrow> None
                 | Some user2 \<Rightarrow> Some (user1, user2)))"

record mai3SignedCallMessage =
  scFrom :: "byte list"
  scTo :: "byte list"
  scMethod :: string
  scCallData :: "byte list"
  scNonce :: "32 word"
  scExpiration :: "32 word"
  scGasLimit :: "64 word"
  scSignaure :: "byte list"
  scFee :: "64 word"
  scUserData1 :: "byte list"
  scUserData2 :: "byte list"

text \<open>
  \<^verbatim>\<open>bytes.NewBuffer(m.UserData2[20:24])\<close> holds the four bytes of the slice already; the array
  behind it goes on to the end of \<^verbatim>\<open>UserData2\<close>, so the write behind the four bytes lands there.
\<close>

definition setUserDataFee :: "64 word \<Rightarrow> mai3SignedCallMessage \<Rightarrow> mai3SignedCallMessage" where
  "setUserDataFee fee m =
     (let buf = bufWrite (be32 (ucast (fee div PackedGasFeeLimitShift))) \<lparr> bfArray = drop 20 (scUserData2 m), bfLen = 4 \<rparr>
      in m\<lparr> scUserData2 := take 20 (scUserData2 m) @ bfArray buf \<rparr>)"

text \<open>
  The environment: the functions on addresses and hexadecimals of go-ethereum, the ABI of the
  broker contract, the node and the binding of the contract.
\<close>

type_synonym call_params = "byte list \<times> byte list \<times> string \<times> byte list \<times> byte list"

record transact_opts =
  toFrom :: "byte list"
  toValue :: "int option"
  toGasPrice :: "int option"
  toGasLimit :: "64 word"

record call_msg =
  cmFrom :: "byte list"
  cmTo :: "byte list"
  cmGasPrice :: int
  cmValue :: int
  cmData :: "byte list"

record l2_env =
  l2IsHexAddress :: "string \<Rightarrow> bool"
  l2HexToAddress :: "string \<Rightarrow> byte list"
  l2FromHex :: "string \<Rightarrow> byte list"
  l2Pack :: "string \<Rightarrow> call_params \<Rightarrow> chain_failure + byte list"
  l2EstimateGas :: "call_msg \<Rightarrow> chain_failure + 64 word"
  l2BalanceOf :: "byte list \<Rightarrow> byte list \<Rightarrow> chain_failure + int"
  l2CallFunction :: "transact_opts \<Rightarrow> call_params \<Rightarrow> chain_failure + string"

definition newMai3SignedCallMessage ::
  "l2_env \<Rightarrow> string \<Rightarrow> string \<Rightarrow> string \<Rightarrow> string \<Rightarrow> 32 word \<Rightarrow> 32 word \<Rightarrow> 64 word \<Rightarrow> string \<Rightarrow> 64 word \<Rightarrow>
   (l2_error + mai3SignedCallMessage) option" where
  "newMai3SignedCallMessage E from to meth callData nonce expiration gasFeeLimit signature fee =
     (if \<not> l2IsHexAddress E from then Some (Inl (NewInvalidRequestError ''bad from address''))
      else if \<not> l2IsHexAddress E to then Some (Inl (NewInvalidRequestError ''bad to address''))
      else
        let fromAddress = l2HexToAddress E from; toAddress = l2HexToAddress E to in
        map_option (\<lambda>(userData1, userData2). Inr
          \<lparr> scFrom = fromAddress, scTo = toAddress, scMethod = meth, scCallData = l2FromHex E callData, scNonce = nonce,
            scExpiration = expiration, scGasLimit = gasFeeLimit, scSignaure = l2FromHex E signature, scFee = 0,
            scUserData1 = userData1, scUserData2 = userData2 \<rparr>)
          (packUserData fromAddress toAddress nonce expiration gasFeeLimit fee))"

definition FunctionCallParams :: "mai3SignedCallMessage \<Rightarrow> call_params" where
  "FunctionCallParams msg = (scUserData1 msg, scUserData2 msg, scMethod msg, scCallData msg, scSignaure msg)"

definition callFunction :: "l2_env \<Rightarrow> transact_opts \<Rightarrow> mai3SignedCallMessage \<Rightarrow> chain_failure + string" where
  "callFunction E opts msg = l2CallFunction E opts (FunctionCallParams msg)"

definition estimateFunctionGas ::
  "l2_env \<Rightarrow> byte list \<Rightarrow> transact_opts \<Rightarrow> mai3SignedCallMessage \<Rightarrow> chain_failure + 64 word" where
  "estimateFunctionGas E contract opts msg =
     (case l2Pack E ''callFunction'' (FunctionCallParams msg) of
        Inl e \<Rightarrow> Inl e
      | Inr input \<Rightarrow>
          (let value = (case toValue opts of None \<Rightarrow> 0 | Some v \<Rightarrow> v);
               gasPrice = (case toGasPrice opts of None \<Rightarrow> 0 | Some p \<Rightarrow> p)
           in l2EstimateGas E \<lparr> cmFrom = toFrom opts, cmTo = contract, cmGasPrice = gasPrice, cmValue = value, cmData = input \<rparr>))"

section \<open>relayer.go\<close>

record relayer =
  rlAddress :: "byte list"
  rlTransactOpts :: transact_opts
  rlContract :: "byte list"
  rlFeePercent :: "32 word"

text \<open>
  \<open>dial\<close>, \<open>key\<close>, \<open>opts\<close> and \<open>bound\<close> are the answers of the packages: whether the node could be
  dialled, the address of the private key, the options for the key, whether the contract is bound.
\<close>

definition NewRelayer ::
  "l2_env \<Rightarrow> unit result \<Rightarrow> byte list result \<Rightarrow> transact_opts result \<Rightarrow> unit result \<Rightarrow> string \<Rightarrow> 64 word \<Rightarrow> 32 word \<Rightarrow> relayer result" where
  "NewRelayer E dial key opts bound contract gasPrice feePercent =
     (case dial of Inl e \<Rightarrow> Inl (''NewRelayer:'' @ e) | Inr _ \<Rightarrow>
      case key of Inl e \<Rightarrow> Inl (''NewRelayer:'' @ e) | Inr addr \<Rightarrow>
      case opts of Inl e \<Rightarrow> Inl (''NewRelayer:'' @ e) | Inr transactOpts \<Rightarrow>
        let transactOpts = transactOpts\<lparr> toGasPrice := Some (sint gasPrice) \<rparr> in
        if \<not> l2IsHexAddress E contract then Inl (''NewRelayer:bad broker address:'' @ contract)
        else case bound of Inl e \<Rightarrow> Inl (''NewRelayer:'' @ e) | Inr _ \<Rightarrow>
          Inr \<lparr> rlAddress = addr, rlTransactOpts = transactOpts, rlContract = l2HexToAddress E contract,
                rlFeePercent = feePercent \<rparr>)"

definition checkFeeBalance :: "l2_env \<Rightarrow> relayer \<Rightarrow> 64 word \<Rightarrow> byte list \<Rightarrow> l2_error + unit" where
  "checkFeeBalance E r fee trader =
     (if 0 < fee then
        (case l2BalanceOf E (rlAddress r) trader of
           Inl _ \<Rightarrow> Inl (OtherFailure ''BalanceOf'')
         | Inr balance \<Rightarrow> if sint fee < balance then Inl (NewInsufficentGasError fee) else Inr ())
      else Inr ())"

definition CallFunction ::
  "l2_env \<Rightarrow> relayer \<Rightarrow> string \<Rightarrow> string \<Rightarrow> string \<Rightarrow> string \<Rightarrow> 32 word \<Rightarrow> 32 word \<Rightarrow> 64 word \<Rightarrow> string \<Rightarrow>
   (l2_error + string) option" where
  "CallFunction E r from to meth callData nonce expiration gasLimit signature =
     newMai3SignedCallMessage E from to meth callData nonce expiration gasLimit signature 0 \<bind> (\<lambda>res.
     Some (case res of Inl e \<Rightarrow> Inl e | Inr msg \<Rightarrow>
       let opts = rlTransactOpts r in
       case estimateFunctionGas E (rlContract r) opts msg of
         Inl e \<Rightarrow> Inl (NewEstimateGasError e)
       | Inr gas \<Rightarrow>
           let fee = gas * ucast (rlFeePercent r) div 100 in
           if gasLimit < fee then Inl (NewInsufficentGasError fee)
           else case checkFeeBalance E r fee (scFrom msg) of
             Inl e \<Rightarrow> Inl e
           | Inr _ \<Rightarrow>
               let msg = setUserDataFee fee msg; opts = opts\<lparr> toGasLimit := 100000000 \<rparr> in
               case callFunction E opts msg of
                 Inl e \<Rightarrow> Inl (NewSendTransactionError e)
               | Inr hash \<Rightarrow> Inr hash))"

section \<open>rpc: the handler\<close>

record CallL2FunctionReq =
  lqFrom :: string
  lqTo :: string
  lqMethod :: string
  lqCallData :: string
  lqNonce :: "32 word"
  lqExpiration :: "32 word"
  lqGasLimit :: string
  lqSignature :: string

definition CallL2Function :: "l2_env \<Rightarrow> relayer \<Rightarrow> CallL2FunctionReq \<Rightarrow> (l2_error + string) option" where
  "CallL2Function E r params =
     (case ParseUint64 (lqGasLimit params) of
        Inl _ \<Rightarrow> Some (Inl (NewInvalidRequestError ''invalid gas limit''))
      | Inr gasLimit \<Rightarrow> CallFunction E r (lqFrom params) (lqTo params) (lqMethod params) (lqCallData params)
          (lqNonce params) (lqExpiration params) (of_nat gasLimit) (lqSignature params))"

record l2_response =
  lrStatus :: int
  lrDesc :: string
  lrData :: "string option"
  lrChainError :: "ChainError option"

text \<open>The response to a request that could be read, by the handler or by \<^verbatim>\<open>errorHandler\<close>.\<close>

definition errorResponse :: "l2_error \<Rightarrow> l2_response" where
  "errorResponse err =
     (let relayerError = (case err of RelayerError e \<Rightarrow> e | OtherFailure _ \<Rightarrow> NewInternalServerError)
      in \<lparr> lrStatus = reCode relayerError, lrDesc = reMessage relayerError, lrData = None,
           lrChainError = reChainError relayerError \<rparr>)"

definition callHandler :: "l2_env \<Rightarrow> relayer \<Rightarrow> CallL2FunctionReq \<Rightarrow> l2_response option" where
  "callHandler E r params =
     map_option (\<lambda>res. case res of
        Inl e \<Rightarrow> errorResponse e
      | Inr tx \<Rightarrow> \<lparr> lrStatus = 0, lrDesc = ''success'', lrData = Some tx, lrChainError = None \<rparr>)
       (CallL2Function E r params)"

section \<open>Lemmas\<close>

lemma PackedGasFeeLimitShift_1 [simp]: "PackedGasFeeLimitShift = 1"
  by (simp add: PackedGasFeeLimitShift_def)

lemma length_be32 [simp]: "length (be32 w) = 4"
  by (simp add: be32_def)

lemma be32_0: "be32 0 = [0, 0, 0, 0]"
  by (simp add: be32_def)

lemma be_value_be32: "be_value (be32 w) = unat w"
proof -
  define x where "x = unat w"
  have "x < 256 * 256 * 256 * 256" using unsigned_less [of w] by (simp add: x_def)
  then have "x div 256 div 256 div 256 < 256" by (simp add: div_mult2_eq [symmetric])
  then have "be_value (be32 w) =
      256 * (256 * (256 * (x div 256 div 256 div 256) + x div 256 div 256 mod 256) + x div 256 mod 256) + x mod 256"
    by (simp add: x_def be32_def be_value_def unsigned_ucast_eq unsigned_drop_bit_eq take_bit_eq_mod drop_bit_eq_div [where 'a = nat]
        div_mult2_eq [symmetric])
  then show ?thesis by (simp add: x_def del: div_mult2_eq)
qed

text \<open>What the two writes leave: the last eight bytes of the second word are those of the first.\<close>

lemma packUserData_eq:
  assumes "length from = 20" "length to = 20"
  shows "packUserData from to n e limit fee =
    Some (from @ be32 n @ be32 e @ be32 (ucast limit), to @ be32 (ucast fee) @ be32 e @ be32 (ucast limit))"
  using assms
  by (simp add: packUserData_def bufWrite_def bufReset_def newBuffer_def first32_def Let_def)

lemma setUserDataFee_eq:
  assumes "scUserData2 m = to @ a @ b @ c" "length to = 20" "length a = 4" "length b = 4"
  shows "setUserDataFee fee m = m\<lparr> scUserData2 := to @ a @ be32 (ucast fee) @ c \<rparr>"
  using assms by (simp add: setUserDataFee_def bufWrite_def Let_def)

section \<open>Properties\<close>

text \<open>
  C39: what a relayed call carries. The first word of every call that is sent packs the user, the
  nonce, the expiration and the gas limit (its low 32 bits). The fee is estimated, is at most the gas
  limit, and is then lost: the four bytes of the second word behind the address of the contract,
  where the fee belongs, are zero whatever the fee is; it is written into the four bytes behind them,
  over the expiration that a reused buffer has left there. And a call with a fee is sent only when
  the balance of the user is at most the fee: users who can pay are refused.
\<close>

theorem CallFunction_loses_fee:
  assumes "CallFunction E r from to meth callData nonce expiration gasLimit signature = Some (Inr hash)"
    "length (l2HexToAddress E from) = 20" "length (l2HexToAddress E to) = 20"
  shows "\<exists>gas fee user1 user2.
     fee = gas * ucast (rlFeePercent r) div 100 \<and> fee \<le> gasLimit \<and>
     l2CallFunction E ((rlTransactOpts r)\<lparr> toGasLimit := 100000000 \<rparr>)
       (user1, user2, meth, l2FromHex E callData, l2FromHex E signature) = Inr hash \<and>
     user1 = l2HexToAddress E from @ be32 nonce @ be32 expiration @ be32 (ucast gasLimit) \<and>
     user2 = l2HexToAddress E to @ [0, 0, 0, 0] @ be32 (ucast fee) @ be32 (ucast gasLimit) \<and>
     (0 < fee \<longrightarrow> (\<exists>balance. l2BalanceOf E (rlAddress r) (l2HexToAddress E from) = Inr balance \<and> balance \<le> sint fee))"
proof -
  let ?f = "l2HexToAddress E from" and ?t = "l2HexToAddress E to"
  let ?u1 = "?f @ be32 nonce @ be32 expiration @ be32 (ucast gasLimit)"
  let ?u2 = "?t @ be32 0 @ be32 expiration @ be32 (ucast gasLimit)"
  let ?m = "\<lparr> scFrom = ?f, scTo = ?t, scMethod = meth, scCallData = l2FromHex E callData, scNonce = nonce,
      scExpiration = expiration, scGasLimit = gasLimit, scSignaure = l2FromHex E signature, scFee = 0,
      scUserData1 = ?u1, scUserData2 = ?u2 \<rparr>"
  have "newMai3SignedCallMessage E from to meth callData nonce expiration gasLimit signature 0 = Some (Inr ?m)"
    using assms by (auto simp: CallFunction_def newMai3SignedCallMessage_def packUserData_eq Let_def split: if_splits)
  with assms(1) obtain gas where "estimateFunctionGas E (rlContract r) (rlTransactOpts r) ?m = Inr gas"
    and fee: "gas * ucast (rlFeePercent r) div 100 \<le> gasLimit"
      "checkFeeBalance E r (gas * ucast (rlFeePercent r) div 100) ?f = Inr ()"
      "callFunction E ((rlTransactOpts r)\<lparr> toGasLimit := 100000000 \<rparr>)
         (setUserDataFee (gas * ucast (rlFeePercent r) div 100) ?m) = Inr hash"
    by (auto simp: CallFunction_def Let_def split: sum.splits if_splits)
  let ?fee = "gas * ucast (rlFeePercent r) div 100"
  have "setUserDataFee ?fee ?m = ?m\<lparr> scUserData2 := ?t @ be32 0 @ be32 (ucast ?fee) @ be32 (ucast gasLimit) \<rparr>"
    by (rule setUserDataFee_eq [where b = "be32 expiration"]) (use assms(3) in simp_all)
  with fee(3) have call: "l2CallFunction E ((rlTransactOpts r)\<lparr> toGasLimit := 100000000 \<rparr>)
       (?u1, ?t @ be32 0 @ be32 (ucast ?fee) @ be32 (ucast gasLimit), meth, l2FromHex E callData, l2FromHex E signature) = Inr hash"
    by (simp add: callFunction_def FunctionCallParams_def)
  have "0 < ?fee \<longrightarrow> (\<exists>balance. l2BalanceOf E (rlAddress r) ?f = Inr balance \<and> balance \<le> sint ?fee)"
    using fee(2) by (auto simp: checkFeeBalance_def split: sum.splits if_splits)
  with fee(1) call show ?thesis
    by (intro exI [of _ gas] exI [of _ ?fee] exI [of _ ?u1]
        exI [of _ "?t @ be32 0 @ be32 (ucast ?fee) @ be32 (ucast gasLimit)"]) (simp add: be32_0)
qed

definition demo_l2 :: l2_env where
  "demo_l2 = \<lparr> l2IsHexAddress = (\<lambda>_. True), l2HexToAddress = (\<lambda>_. replicate 20 1), l2FromHex = (\<lambda>_. []), l2Pack = (\<lambda>_ _. Inr []),
     l2EstimateGas = (\<lambda>_. Inr 1000), l2BalanceOf = (\<lambda>_ _. Inr 7), l2CallFunction = (\<lambda>_ _. Inr ''0xh'') \<rparr>"

definition demo_relayer :: relayer where
  "demo_relayer = \<lparr> rlAddress = replicate 20 2,
     rlTransactOpts = \<lparr> toFrom = replicate 20 2, toValue = None, toGasPrice = Some 1, toGasLimit = 0 \<rparr>,
     rlContract = replicate 20 3, rlFeePercent = 120 \<rparr>"

theorem CallFunction_loses_fee_witness:
  "CallFunction demo_l2 demo_relayer ''0xa'' ''0xb'' ''trade'' [] 1 2 5000 [] = Some (Inr ''0xh'') \<and>
   (\<exists>gas fee user1 user2.
     fee = gas * ucast (rlFeePercent demo_relayer) div 100 \<and> fee \<le> (5000 :: 64 word) \<and>
     l2CallFunction demo_l2 ((rlTransactOpts demo_relayer)\<lparr> toGasLimit := 100000000 \<rparr>)
       (user1, user2, ''trade'', l2FromHex demo_l2 [], l2FromHex demo_l2 []) = Inr ''0xh'' \<and>
     user1 = l2HexToAddress demo_l2 ''0xa'' @ be32 1 @ be32 2 @ be32 (ucast (5000 :: 64 word)) \<and>
     user2 = l2HexToAddress demo_l2 ''0xb'' @ [0, 0, 0, 0] @ be32 (ucast fee) @ be32 (ucast (5000 :: 64 word)) \<and>
     (0 < fee \<longrightarrow> (\<exists>balance. l2BalanceOf demo_l2 (rlAddress demo_relayer) (l2HexToAddress demo_l2 ''0xa'') = Inr balance \<and>
        balance \<le> sint fee)))"
proof -
  have len: "length (l2HexToAddress demo_l2 a) = 20" for a by (simp add: demo_l2_def)
  have hex: "l2IsHexAddress demo_l2 a" for a by (simp add: demo_l2_def)
  obtain m where m: "newMai3SignedCallMessage demo_l2 ''0xa'' ''0xb'' ''trade'' [] 1 2 5000 [] 0 = Some (Inr m)"
    by (simp add: newMai3SignedCallMessage_def hex packUserData_eq [OF len len] Let_def)
  have gas: "estimateFunctionGas demo_l2 c opts m = Inr 1000" for c opts m by (simp add: estimateFunctionGas_def demo_l2_def)
  have pays: "checkFeeBalance demo_l2 demo_relayer 1200 a = Inr ()" for a by (simp add: checkFeeBalance_def demo_l2_def)
  have sent: "callFunction demo_l2 opts m = Inr ''0xh''" for opts m by (simp add: callFunction_def demo_l2_def)
  have percent: "rlFeePercent demo_relayer = 120" by (simp add: demo_relayer_def)
  have call: "CallFunction demo_l2 demo_relayer ''0xa'' ''0xb'' ''trade'' [] 1 2 5000 [] = Some (Inr ''0xh'')"
    by (simp add: CallFunction_def m gas percent pays sent)
  show ?thesis by (rule conjI [OF call CallFunction_loses_fee [OF call len len]])
qed

end
