(* ===== verification/Websocket.thy ===== *)
theory Websocket
  imports Signatures Model "HOL-Library.AList"
begin

text \<open>
  The websocket server: \<^verbatim>\<open>src/websocket\<close> and \<^verbatim>\<open>src/common/message/websocket.go\<close>. Clients log in with
  a token, subscribe to channels and get the messages that the match server publishes there; the
  channel of an account is open to clients that have logged in with its address. Connections are
  outside: a client is its login addresses, the messages that wait in \<^verbatim>\<open>msgChan\<close> and those that have
  been written. A channel is owned by one goroutine that serves its unbuffered Go channels one after
  the other, so that a subscription or a message is handled before the next one; they are applied
  where they are sent. A send to a full \<^verbatim>\<open>msgChan\<close> waits for the writer, which changes no order of
  messages: the queue has no bound here. The channels live in a heap, because the table may refer to
  another channel with the same name than the one a racing request has created.
\<close>

section \<open>message\<close>

definition AccountChannelPrefix :: string where
  "AccountChannelPrefix = ''TraderAddress''"

definition GetAccountChannelID :: "string \<Rightarrow> string" where
  "GetAccountChannelID addr = AccountChannelPrefix @ ''#'' @ addr"

definition WsTypeOrderChange :: string where
  "WsTypeOrderChange = ''orderChange''"

record WebSocketOrderChangePayload =
  wpType :: string
  wpOrder :: Order
  wpBlockNumber :: nat
  wpTransactionHash :: string

record WebSocketMessage =
  wmChannelID :: string
  wmPayload :: WebSocketOrderChangePayload

text \<open>What the handlers of the match server send for an order that has changed.\<close>

definition orderChange :: "Order \<Rightarrow> nat \<Rightarrow> string \<Rightarrow> WebSocketMessage" where
  "orderChange order blockNumber transactionHash =
     \<lparr> wmChannelID = GetAccountChannelID (TraderAddress order),
       wmPayload = \<lparr> wpType = WsTypeOrderChange, wpOrder = order, wpBlockNumber = blockNumber,
                     wpTransactionHash = transactionHash \<rparr> \<rparr>"

section \<open>client.go\<close>

datatype ws_msg =
    PongResp
  | LoginResponse int string
  | SubScribeResponse string int string
  | Payload WebSocketOrderChangePayload

record ws_client =
  wcLoginAddresses :: "string list"
  wcMsgChan :: "ws_msg list"
  wcClosed :: bool
  wcSending :: bool
  wcWritten :: "ws_msg list"

definition NewClient :: ws_client where
  "NewClient = \<lparr> wcLoginAddresses = [], wcMsgChan = [], wcClosed = False, wcSending = True, wcWritten = [] \<rparr>"

definition AddLoginAddress :: "string \<Rightarrow> ws_client \<Rightarrow> ws_client" where
  "AddLoginAddress addr c = c\<lparr> wcLoginAddresses := List.insert (toLower addr) (wcLoginAddresses c) \<rparr>"

definition CheckLogin :: "string \<Rightarrow> ws_client \<Rightarrow> bool" where
  "CheckLogin addr c \<longleftrightarrow> toLower addr \<in> set (wcLoginAddresses c)"

text \<open>A send on the closed \<^verbatim>\<open>msgChan\<close> panics, which \<^verbatim>\<open>clientRecover\<close> catches.\<close>

definition SendMsg :: "ws_msg \<Rightarrow> ws_client \<Rightarrow> ws_client" where
  "SendMsg msg c = (if wcClosed c then c else c\<lparr> wcMsgChan := wcMsgChan c @ [msg] \<rparr>)"

text \<open>
  A turn of the writer: a tick, with the answer to the ping, or the next message of \<^verbatim>\<open>msgChan\<close>, with
  the answer to the write. \<open>Inl\<close> is an error of a closed connection, which ends the writer, \<open>Inr False\<close>
  any other error. The writer also ends when \<^verbatim>\<open>msgChan\<close> is closed and empty.
\<close>

datatype ws_turn = Tick "bool result" | Write "bool result"

definition runSendMsg :: "ws_turn \<Rightarrow> ws_client \<Rightarrow> ws_client" where
  "runSendMsg turn c =
     (if \<not> wcSending c then c
      else
        (case turn of
           Tick (Inl _) \<Rightarrow> c\<lparr> wcSending := False \<rparr>
         | Tick (Inr _) \<Rightarrow> c
         | Write res \<Rightarrow>
             (case wcMsgChan c of
                [] \<Rightarrow> if wcClosed c then c\<lparr> wcSending := False \<rparr> else c
              | msg # msgs \<Rightarrow>
                  let c = c\<lparr> wcMsgChan := msgs \<rparr> in
                  (case res of
                     Inl _ \<Rightarrow> c\<lparr> wcSending := False \<rparr>
                   | Inr False \<Rightarrow> c
                   | Inr True \<Rightarrow> c\<lparr> wcWritten := wcWritten c @ [msg] \<rparr>))))"

text \<open>A second close of \<^verbatim>\<open>msgChan\<close> panics and is caught as well.\<close>

definition clientClose :: "ws_client \<Rightarrow> ws_client" where
  "clientClose c = c\<lparr> wcClosed := True \<rparr>"

section \<open>channel.go\<close>

record ws_channel =
  chID :: string
  chClients :: "string list"

record ws =
  wsClients :: "(string \<times> ws_client) list"
  wsHeap :: "ws_channel list"
  allChannels :: "(string \<times> nat) list"

definition onClient :: "string \<Rightarrow> (ws_client \<Rightarrow> ws_client) \<Rightarrow> ws \<Rightarrow> ws" where
  "onClient cid f st =
     (case map_of (wsClients st) cid of
        None \<Rightarrow> st
      | Some c \<Rightarrow> st\<lparr> wsClients := AList.update cid (f c) (wsClients st) \<rparr>)"

definition onChannel :: "nat \<Rightarrow> (string list \<Rightarrow> string list) \<Rightarrow> ws \<Rightarrow> ws" where
  "onChannel r f st =
     st\<lparr> wsHeap := (wsHeap st)[r := (wsHeap st ! r)\<lparr> chClients := f (chClients (wsHeap st ! r)) \<rparr>] \<rparr>"

definition handleMessage :: "WebSocketMessage \<Rightarrow> nat \<Rightarrow> ws \<Rightarrow> ws" where
  "handleMessage msg r st =
     foldl (\<lambda>st cid. onClient cid (SendMsg (Payload (wmPayload msg))) st) st (chClients (wsHeap st ! r))"

definition handleSubscriber :: "string \<Rightarrow> nat \<Rightarrow> ws \<Rightarrow> ws" where
  "handleSubscriber cid r st = onChannel r (List.insert cid) st"

definition handleUnsubscriber :: "string \<Rightarrow> nat \<Rightarrow> ws \<Rightarrow> ws" where
  "handleUnsubscriber cid r st = onChannel r (filter (\<lambda>x. x \<noteq> cid)) st"

definition findChannel :: "string \<Rightarrow> ws \<Rightarrow> nat option" where
  "findChannel channelID st = map_of (allChannels st) channelID"

definition saveChannel :: "nat \<Rightarrow> ws \<Rightarrow> ws" where
  "saveChannel r st =
     (let channelID = chID (wsHeap st ! r) in
      case map_of (allChannels st) channelID of
        None \<Rightarrow> st\<lparr> allChannels := (channelID, r) # allChannels st \<rparr>
      | Some _ \<Rightarrow> st)"

definition RemoveSubscriberAllChannels :: "string \<Rightarrow> ws \<Rightarrow> ws" where
  "RemoveSubscriberAllChannels cid st =
     foldl (\<lambda>st (channelID, r). handleUnsubscriber cid r st) st (allChannels st)"

definition createBaseChannel :: "string \<Rightarrow> ws_channel" where
  "createBaseChannel channelID = \<lparr> chID = channelID, chClients = [] \<rparr>"

text \<open>Nothing calls \<^verbatim>\<open>RegisterChannelCreator\<close>: the table of creators stays empty.\<close>

definition channelCreators :: "(string \<times> (string \<Rightarrow> ws_channel result)) list" where
  "channelCreators = []"

definition createChannelByID :: "string \<Rightarrow> ws \<Rightarrow> nat result \<times> ws" where
  "createChannelByID channelID st =
     (let prefix = hd (splitOn CHR ''#'' channelID) in
      case (case map_of channelCreators prefix of
              Some creatorFunc \<Rightarrow> creatorFunc channelID
            | None \<Rightarrow> Inr (createBaseChannel channelID)) of
        Inl e \<Rightarrow> (Inl (''create channel by id fail:'' @ e), st)
      | Inr channel \<Rightarrow>
          let r = length (wsHeap st) in
          (Inr r, saveChannel r (st\<lparr> wsHeap := wsHeap st @ [channel] \<rparr>)))"

section \<open>server.go\<close>

record ClientRequest =
  rqType :: string
  rqJwt :: string
  rqMaiToken :: string
  rqChannels :: "string list"

text \<open>What the check of a token depends on: the curve, the hash, the clock, the JWT package.\<close>

record ws_env =
  weEcc :: ecc
  weKeccak :: keccak
  weParseTime :: "string \<Rightarrow> nanotime option"
  weNow :: nanotime
  weJwt :: jwt_lib
  weJwtSecret :: string

definition loginAuth :: "ws_env \<Rightarrow> string \<Rightarrow> string \<Rightarrow> string result" where
  "loginAuth E jwt maiToken =
     (if jwt \<noteq> [] then
        (case ValidateJwt (weJwt E) (weJwtSecret E) jwt of
           Inl e \<Rightarrow> Inl (''JWT-Authentication fail:'' @ e)
         | Inr addr \<Rightarrow> Inr addr)
      else if maiToken \<noteq> [] then
        (case ValidateMaiAuth (weEcc E) (weKeccak E) (weParseTime E) (weNow E) maiToken of
           Inl e \<Rightarrow> Inl (''MAI-Authentication fail:'' @ e)
         | Inr addr \<Rightarrow> Inr addr)
      else Inl ''jwt or mai token needed'')"

definition loginRequest :: "ws_env \<Rightarrow> ClientRequest \<Rightarrow> ws_client \<Rightarrow> ws_client" where
  "loginRequest E req c =
     (case loginAuth E (rqJwt req) (rqMaiToken req) of
        Inl e \<Rightarrow> SendMsg (LoginResponse (-1) e) c
      | Inr trader \<Rightarrow> SendMsg (LoginResponse 0 ''login success'') (AddLoginAddress trader c))"

text \<open>Whether a client with the login addresses \<open>logins\<close> may subscribe to a channel.\<close>

definition mayAccess :: "string list \<Rightarrow> string \<Rightarrow> bool" where
  "mayAccess logins channelID \<longleftrightarrow>
     (HasPrefix channelID AccountChannelPrefix \<longrightarrow>
        (let parts = splitOn CHR ''#'' channelID in length parts = 2 \<and> toLower (parts ! 1) \<in> set logins))"

text \<open>
  \<open>look\<close> is the answer of \<^verbatim>\<open>findChannel\<close>; between that call and the creation of a channel another
  goroutine may have saved one, so that the answer need not be the current one.
\<close>

definition subscribeOne :: "(string \<Rightarrow> ws \<Rightarrow> nat option) \<Rightarrow> string \<Rightarrow> string \<Rightarrow> ws \<Rightarrow> ws" where
  "subscribeOne look cid channelID st =
     (case map_of (wsClients st) cid of
        None \<Rightarrow> st
      | Some c \<Rightarrow>
          if \<not> mayAccess (wcLoginAddresses c) channelID
          then onClient cid (SendMsg (SubScribeResponse channelID (-1) ''need login'')) st
          else
            (case look channelID st of
               Some r \<Rightarrow> handleSubscriber cid r st
             | None \<Rightarrow>
                 (case createChannelByID channelID st of
                    (Inl _, st) \<Rightarrow> st
                  | (Inr r, st) \<Rightarrow> handleSubscriber cid r st)))"

definition unsubscribeOne :: "string \<Rightarrow> string \<Rightarrow> ws \<Rightarrow> ws" where
  "unsubscribeOne cid channelID st =
     (case findChannel channelID st of None \<Rightarrow> st | Some r \<Rightarrow> handleUnsubscriber cid r st)"

definition handleRequest ::
  "ws_env \<Rightarrow> (string \<Rightarrow> ws \<Rightarrow> nat option) \<Rightarrow> string \<Rightarrow> ClientRequest \<Rightarrow> ws \<Rightarrow> ws" where
  "handleRequest E look cid req st =
     (if rqType req = ''ping'' then onClient cid (SendMsg PongResp) st
      else if rqType req = ''login'' then onClient cid (loginRequest E req) st
      else if rqType req = ''subscribe'' then foldl (\<lambda>st channelID. subscribeOne look cid channelID st) st (rqChannels req)
      else if rqType req = ''unsubscribe'' then foldl (\<lambda>st channelID. unsubscribeOne cid channelID st) st (rqChannels req)
      else st)"

text \<open>The deferred end of \<^verbatim>\<open>handleClientRequest\<close>.\<close>

definition endClient :: "string \<Rightarrow> ws \<Rightarrow> ws" where
  "endClient cid st = RemoveSubscriberAllChannels cid (onClient cid clientClose st)"

definition connectHandler :: "string \<Rightarrow> ws \<Rightarrow> ws" where
  "connectHandler cid st = st\<lparr> wsClients := AList.update cid NewClient (wsClients st) \<rparr>"

text \<open>A turn of \<^verbatim>\<open>startConsumer\<close>.\<close>

definition consume :: "(string \<Rightarrow> ws \<Rightarrow> nat option) \<Rightarrow> WebSocketMessage \<Rightarrow> ws \<Rightarrow> ws" where
  "consume look wsMsg st =
     (case look (wmChannelID wsMsg) st of
        Some r \<Rightarrow> handleMessage wsMsg r st
      | None \<Rightarrow>
          (case createChannelByID (wmChannelID wsMsg) st of
             (Inl _, st) \<Rightarrow> st
           | (Inr r, st) \<Rightarrow> handleMessage wsMsg r st))"

end
