(* ===== verification/Websocket_Run.thy ===== *)
theory Websocket_Run
  imports Websocket Match_Order
begin

text \<open>
  Runs of the websocket server: clients connect, send requests and leave, the consumer publishes
  messages, the writers write, in any order. A run keeps its events, the latest first, so that
  what a client may see can be read off the requests it has sent: \<open>logins\<close> and \<open>subscribed\<close> are the
  reference for the state of clients and channels. Two goroutines that create one channel at the
  same time leave one of them with a channel that is not in the table; a calm run has no such race.
  The first property holds with races, the second one only without.
\<close>

section \<open>Runs\<close>

datatype ws_event =
    WsConnect string
  | WsRequest ws_env string ClientRequest
  | WsEnd string
  | WsPublish WebSocketMessage
  | WsTurn string ws_turn

definition looks :: "bool \<Rightarrow> (string \<Rightarrow> ws \<Rightarrow> nat option) \<Rightarrow> bool" where
  "looks calm look \<longleftrightarrow> (\<forall>ch st. look ch st = findChannel ch st \<or> (\<not> calm \<and> look ch st = None))"

definition ws_start :: ws where
  "ws_start = \<lparr> wsClients = [], wsHeap = [], allChannels = [] \<rparr>"

inductive ws_run :: "bool \<Rightarrow> ws_event list \<Rightarrow> ws \<Rightarrow> bool" where
  start: "ws_run calm [] ws_start"
| connect: "ws_run calm tr st \<Longrightarrow> map_of (wsClients st) cid = None \<Longrightarrow>
    ws_run calm (WsConnect cid # tr) (connectHandler cid st)"
| request: "ws_run calm tr st \<Longrightarrow> map_of (wsClients st) cid = Some c \<Longrightarrow> \<not> wcClosed c \<Longrightarrow> looks calm look \<Longrightarrow>
    ws_run calm (WsRequest E cid req # tr) (handleRequest E look cid req st)"
| finish: "ws_run calm tr st \<Longrightarrow> map_of (wsClients st) cid = Some c \<Longrightarrow> \<not> wcClosed c \<Longrightarrow>
    ws_run calm (WsEnd cid # tr) (endClient cid st)"
| publish: "ws_run calm tr st \<Longrightarrow> looks calm look \<Longrightarrow> ws_run calm (WsPublish m # tr) (consume look m st)"
| turn: "ws_run calm tr st \<Longrightarrow> ws_run calm (WsTurn cid t # tr) (onClient cid (runSendMsg t) st)"

section \<open>The reference\<close>

text \<open>The addresses that a client has logged in with, and the channels it is subscribed to.\<close>

fun loginOf :: "string \<Rightarrow> ws_event \<Rightarrow> string set" where
  "loginOf cid (WsRequest E x req) =
     (if x = cid \<and> rqType req = ''login'' then
        (case loginAuth E (rqJwt req) (rqMaiToken req) of Inl _ \<Rightarrow> {} | Inr addr \<Rightarrow> {toLower addr})
      else {})"
| "loginOf cid _ = {}"

definition logins :: "ws_event list \<Rightarrow> string \<Rightarrow> string set" where
  "logins tr cid = (\<Union>ev \<in> set tr. loginOf cid ev)"

definition permitted :: "string set \<Rightarrow> string \<Rightarrow> bool" where
  "permitted known ch \<longleftrightarrow>
     (HasPrefix ch AccountChannelPrefix \<longrightarrow> (\<exists>pre addr. splitOn CHR ''#'' ch = [pre, addr] \<and> toLower addr \<in> known))"

fun subscribed :: "ws_event list \<Rightarrow> string \<Rightarrow> string \<Rightarrow> bool" where
  "subscribed [] cid ch = False"
| "subscribed (WsRequest E x req # tr) cid ch =
     (if x = cid \<and> ch \<in> set (rqChannels req) \<and> rqType req = ''subscribe''
      then permitted (logins tr cid) ch \<or> subscribed tr cid ch
      else if x = cid \<and> ch \<in> set (rqChannels req) \<and> rqType req = ''unsubscribe'' then False
      else subscribed tr cid ch)"
| "subscribed (WsEnd x # tr) cid ch = (x \<noteq> cid \<and> subscribed tr cid ch)"
| "subscribed (_ # tr) cid ch = subscribed tr cid ch"

lemma logins_simps [simp]:
  "logins [] cid = {}"
  "logins (ev # tr) cid = loginOf cid ev \<union> logins tr cid"
  by (simp_all add: logins_def)

lemma mayAccess_permitted: "mayAccess as ch = permitted (set as) ch"
proof -
  have "length xs = 2 \<longleftrightarrow> (\<exists>p q. xs = [p, q])" for xs :: "string list"
    by (auto simp: numeral_2_eq_2 length_Suc_conv)
  then show ?thesis by (auto simp: mayAccess_def permitted_def Let_def)
qed

lemma permitted_mono: "permitted A ch \<Longrightarrow> A \<subseteq> B \<Longrightarrow> permitted B ch"
  by (auto simp: permitted_def)

section \<open>Operations on clients\<close>

definition clientLogins :: "ws \<Rightarrow> string \<Rightarrow> string set" where
  "clientLogins st cid = (case map_of (wsClients st) cid of None \<Rightarrow> {} | Some c \<Rightarrow> set (wcLoginAddresses c))"

lemma onClient_simps [simp]:
  "wsHeap (onClient cid f st) = wsHeap st"
  "allChannels (onClient cid f st) = allChannels st"
  by (simp_all add: onClient_def split: option.splits)

lemma onClient_client:
  "map_of (wsClients (onClient cid f st)) x = (if x = cid then map_option f (map_of (wsClients st) cid) else map_of (wsClients st) x)"
  by (auto simp: onClient_def update_conv' split: option.splits)

lemma connectHandler_simps [simp]:
  "wsHeap (connectHandler cid st) = wsHeap st"
  "allChannels (connectHandler cid st) = allChannels st"
  by (simp_all add: connectHandler_def)

lemma connectHandler_client:
  "map_of (wsClients (connectHandler cid st)) x = (if x = cid then Some NewClient else map_of (wsClients st) x)"
  by (simp add: connectHandler_def update_conv')

lemma onChannel_simps [simp]:
  "wsClients (onChannel r f st) = wsClients st"
  "allChannels (onChannel r f st) = allChannels st"
  "length (wsHeap (onChannel r f st)) = length (wsHeap st)"
  by (simp_all add: onChannel_def)

lemma onChannel_heap:
  "k < length (wsHeap st) \<Longrightarrow> wsHeap (onChannel r f st) ! k =
     (if k = r then (wsHeap st ! r)\<lparr> chClients := f (chClients (wsHeap st ! r)) \<rparr> else wsHeap st ! k)"
  by (auto simp: onChannel_def nth_list_update)

lemma SendMsg_simps [simp]:
  "wcLoginAddresses (SendMsg m c) = wcLoginAddresses c"
  "wcClosed (SendMsg m c) = wcClosed c"
  "wcWritten (SendMsg m c) = wcWritten c"
  by (simp_all add: SendMsg_def)

lemma runSendMsg_simps [simp]:
  "wcLoginAddresses (runSendMsg t c) = wcLoginAddresses c"
  "wcClosed (runSendMsg t c) = wcClosed c"
  by (auto simp: runSendMsg_def Let_def split: ws_turn.splits list.splits sum.splits bool.splits)

text \<open>The messages that have reached a client.\<close>

definition got :: "ws_client \<Rightarrow> ws_msg set" where
  "got c = set (wcWritten c) \<union> set (wcMsgChan c)"

lemma got_simps:
  "got (SendMsg m c) \<subseteq> insert m (got c)"
  "got (runSendMsg t c) \<subseteq> got c"
  "got (clientClose c) = got c"
  "got (AddLoginAddress a c) = got c"
  by (auto simp: got_def SendMsg_def runSendMsg_def clientClose_def AddLoginAddress_def Let_def
      split: ws_turn.splits list.splits sum.splits bool.splits if_splits)

lemma handleMessage_simps [simp]:
  "wsHeap (handleMessage m r st) = wsHeap st"
  "allChannels (handleMessage m r st) = allChannels st"
proof -
  have "wsHeap (foldl (\<lambda>st cid. onClient cid f st) st cids) = wsHeap st \<and>
        allChannels (foldl (\<lambda>st cid. onClient cid f st) st cids) = allChannels st" for f cids
    by (induction cids arbitrary: st) auto
  then show "wsHeap (handleMessage m r st) = wsHeap st" "allChannels (handleMessage m r st) = allChannels st"
    by (simp_all add: handleMessage_def)
qed

lemma handleMessage_client:
  assumes "distinct (chClients (wsHeap st ! r))"
  shows "map_of (wsClients (handleMessage m r st)) x =
     (if x \<in> set (chClients (wsHeap st ! r)) then map_option (SendMsg (Payload (wmPayload m))) (map_of (wsClients st) x)
      else map_of (wsClients st) x)"
proof -
  have "distinct cids \<Longrightarrow> map_of (wsClients (foldl (\<lambda>st cid. onClient cid f st) st cids)) x =
     (if x \<in> set cids then map_option f (map_of (wsClients st) x) else map_of (wsClients st) x)" for f cids
    by (induction cids arbitrary: st) (auto simp: onClient_client)
  with assms show ?thesis by (simp add: handleMessage_def)
qed

section \<open>Well-formed channels\<close>

definition ws_wf :: "ws \<Rightarrow> bool" where
  "ws_wf st \<longleftrightarrow>
     (\<forall>ch r. findChannel ch st = Some r \<longrightarrow> r < length (wsHeap st) \<and> chID (wsHeap st ! r) = ch) \<and>
     distinct (map fst (allChannels st)) \<and>
     (\<forall>k < length (wsHeap st). distinct (chClients (wsHeap st ! k)))"

text \<open>The pairs of a channel, in the table or not, and a client that is subscribed to it.\<close>

definition members :: "ws \<Rightarrow> (string \<times> string) set" where
  "members st = {(chID c, cid) | c cid. c \<in> set (wsHeap st) \<and> cid \<in> set (chClients c)}"

definition joined :: "ws \<Rightarrow> string \<Rightarrow> string \<Rightarrow> bool" where
  "joined st cid ch \<longleftrightarrow> (\<exists>r. findChannel ch st = Some r \<and> cid \<in> set (chClients (wsHeap st ! r)))"

lemma members_nth:
  "members st = {(chID (wsHeap st ! k), x) | k x. k < length (wsHeap st) \<and> x \<in> set (chClients (wsHeap st ! k))}"
  by (force simp: members_def in_set_conv_nth)

lemma ws_wfD:
  assumes "ws_wf st" "findChannel ch st = Some r"
  shows "r < length (wsHeap st)" "chID (wsHeap st ! r) = ch" "distinct (chClients (wsHeap st ! r))"
  using assms by (auto simp: ws_wf_def)

lemma joined_member: "ws_wf st \<Longrightarrow> joined st cid ch \<Longrightarrow> (ch, cid) \<in> members st"
  unfolding joined_def members_def by (fastforce dest: ws_wfD)

lemma same_channels:
  assumes "wsHeap st' = wsHeap st" "allChannels st' = allChannels st"
  shows "ws_wf st' = ws_wf st" "members st' = members st" "joined st' = joined st"
  using assms by (auto simp: ws_wf_def members_def joined_def findChannel_def fun_eq_iff)

lemma handleSubscriber_channels:
  assumes "ws_wf st" "r < length (wsHeap st)"
  shows "ws_wf (handleSubscriber cid r st)"
    "members (handleSubscriber cid r st) = insert (chID (wsHeap st ! r), cid) (members st)"
    "joined (handleSubscriber cid r st) x ch \<longleftrightarrow> joined st x ch \<or> (x = cid \<and> findChannel ch st = Some r)"
    "wsClients (handleSubscriber cid r st) = wsClients st"
    "findChannel ch (handleSubscriber cid r st) = findChannel ch st"
proof -
  let ?st = "handleSubscriber cid r st"
  have h: "k < length (wsHeap st) \<Longrightarrow> wsHeap ?st ! k =
     (if k = r then (wsHeap st ! r)\<lparr> chClients := List.insert cid (chClients (wsHeap st ! r)) \<rparr> else wsHeap st ! k)" for k
    by (simp add: handleSubscriber_def onChannel_heap)
  have l: "length (wsHeap ?st) = length (wsHeap st)" and f: "findChannel = (\<lambda>ch st. map_of (allChannels st) ch)"
    and t: "allChannels ?st = allChannels st"
    by (auto simp: handleSubscriber_def findChannel_def fun_eq_iff)
  show "ws_wf ?st" using assms h by (auto simp: ws_wf_def l f t split: if_splits)
  show "members ?st = insert (chID (wsHeap st ! r), cid) (members st)"
    using assms(2) h unfolding members_nth l by (force split: if_splits)
  show "joined ?st x ch \<longleftrightarrow> joined st x ch \<or> (x = cid \<and> findChannel ch st = Some r)"
    using assms ws_wfD(1) [OF assms(1)] h by (auto simp: joined_def f t split: if_splits)
  show "wsClients ?st = wsClients st" "findChannel ch ?st = findChannel ch st"
    by (simp_all add: handleSubscriber_def findChannel_def)
qed

lemma handleUnsubscriber_channels:
  assumes "ws_wf st" "r < length (wsHeap st)"
  shows "ws_wf (handleUnsubscriber cid r st)"
    "members (handleUnsubscriber cid r st) \<subseteq> members st"
    "joined (handleUnsubscriber cid r st) x ch \<longleftrightarrow> joined st x ch \<and> \<not> (x = cid \<and> findChannel ch st = Some r)"
    "wsClients (handleUnsubscriber cid r st) = wsClients st"
    "findChannel ch (handleUnsubscriber cid r st) = findChannel ch st"
    "allChannels (handleUnsubscriber cid r st) = allChannels st"
proof -
  let ?st = "handleUnsubscriber cid r st"
  have h: "k < length (wsHeap st) \<Longrightarrow> wsHeap ?st ! k =
     (if k = r then (wsHeap st ! r)\<lparr> chClients := filter (\<lambda>x. x \<noteq> cid) (chClients (wsHeap st ! r)) \<rparr> else wsHeap st ! k)" for k
    by (simp add: handleUnsubscriber_def onChannel_heap)
  have l: "length (wsHeap ?st) = length (wsHeap st)" and f: "findChannel = (\<lambda>ch st. map_of (allChannels st) ch)"
    and t: "allChannels ?st = allChannels st"
    by (auto simp: handleUnsubscriber_def findChannel_def fun_eq_iff)
  show "ws_wf ?st" using assms h by (auto simp: ws_wf_def l f t split: if_splits)
  show "members ?st \<subseteq> members st"
    using h unfolding members_nth l by (auto split: if_splits)
  show "joined ?st x ch \<longleftrightarrow> joined st x ch \<and> \<not> (x = cid \<and> findChannel ch st = Some r)"
    using assms ws_wfD(1) [OF assms(1)] h by (auto simp: joined_def f t split: if_splits)
  show "wsClients ?st = wsClients st" "findChannel ch ?st = findChannel ch st"
    by (simp_all add: handleUnsubscriber_def findChannel_def)
  show "allChannels ?st = allChannels st" by (rule t)
qed

lemma createChannelByID_channels:
  assumes "ws_wf st" "createChannelByID ch st = (res, st')"
  shows "res = Inr (length (wsHeap st))" "ws_wf st'" "members st' = members st" "joined st' = joined st"
    "wsClients st' = wsClients st" "length (wsHeap st) < length (wsHeap st')" "chID (wsHeap st' ! length (wsHeap st)) = ch"
    "chClients (wsHeap st' ! length (wsHeap st)) = []"
    "findChannel x st' = (if x = ch \<and> findChannel ch st = None then Some (length (wsHeap st)) else findChannel x st)"
proof -
  have st': "res = Inr (length (wsHeap st))" "wsClients st' = wsClients st" "wsHeap st' = wsHeap st @ [createBaseChannel ch]"
    "allChannels st' = (if findChannel ch st = None then (ch, length (wsHeap st)) # allChannels st else allChannels st)"
    using assms(2) by (auto simp: createChannelByID_def channelCreators_def saveChannel_def createBaseChannel_def findChannel_def Let_def
        split: option.splits)
  show "res = Inr (length (wsHeap st))" "wsClients st' = wsClients st" "length (wsHeap st) < length (wsHeap st')"
    "chID (wsHeap st' ! length (wsHeap st)) = ch" "chClients (wsHeap st' ! length (wsHeap st)) = []"
    using st' by (simp_all add: createBaseChannel_def)
  show f: "findChannel x st' = (if x = ch \<and> findChannel ch st = None then Some (length (wsHeap st)) else findChannel x st)" for x
    by (simp add: findChannel_def st'(4))
  show "ws_wf st'"
    using assms(1) unfolding ws_wf_def f
    by (auto simp: st' nth_append createBaseChannel_def findChannel_def less_Suc_eq map_of_eq_None_iff split: if_splits)
  show "members st' = members st" by (auto simp: members_def st' createBaseChannel_def)
  show "joined st' = joined st"
    using ws_wfD(1) [OF assms(1)] by (auto simp: joined_def f fun_eq_iff st' nth_append createBaseChannel_def split: if_splits)
qed

section \<open>Requests on channels\<close>

lemma subscribeOne_channels:
  assumes "ws_wf st" "looks calm look" "map_of (wsClients st) cid = Some c"
  shows "ws_wf (subscribeOne look cid ch st)"
    "members (subscribeOne look cid ch st) =
       (if permitted (set (wcLoginAddresses c)) ch then insert (ch, cid) (members st) else members st)"
    "calm \<Longrightarrow> joined (subscribeOne look cid ch st) x y \<longleftrightarrow>
       joined st x y \<or> (x = cid \<and> y = ch \<and> permitted (set (wcLoginAddresses c)) ch)"
    "permitted (set (wcLoginAddresses c)) ch \<Longrightarrow> wsClients (subscribeOne look cid ch st) = wsClients st"
proof -
  have "ws_wf (subscribeOne look cid ch st) \<and>
    members (subscribeOne look cid ch st) =
       (if permitted (set (wcLoginAddresses c)) ch then insert (ch, cid) (members st) else members st) \<and>
    (calm \<longrightarrow> (joined (subscribeOne look cid ch st) x y \<longleftrightarrow>
       joined st x y \<or> (x = cid \<and> y = ch \<and> permitted (set (wcLoginAddresses c)) ch))) \<and>
    (permitted (set (wcLoginAddresses c)) ch \<longrightarrow> wsClients (subscribeOne look cid ch st) = wsClients st)"
  proof (cases "permitted (set (wcLoginAddresses c)) ch")
    case False
    then have "subscribeOne look cid ch st = onClient cid (SendMsg (SubScribeResponse ch (-1) ''need login'')) st"
      using assms(3) by (simp add: subscribeOne_def mayAccess_permitted)
    with False assms(1) show ?thesis
      by (simp add: same_channels [of "onClient cid (SendMsg (SubScribeResponse ch (-1) ''need login'')) st" st])
  next
    case True
    then have s: "subscribeOne look cid ch st =
       (case look ch st of Some r \<Rightarrow> handleSubscriber cid r st
        | None \<Rightarrow> (case createChannelByID ch st of (Inl _, st) \<Rightarrow> st | (Inr r, st) \<Rightarrow> handleSubscriber cid r st))"
      using assms(3) by (simp add: subscribeOne_def mayAccess_permitted)
    show ?thesis
    proof (cases "look ch st")
      case (Some r)
      with assms(2) have r: "findChannel ch st = Some r" by (metis looks_def option.distinct(1))
      note w = ws_wfD [OF assms(1) r]
      note h = handleSubscriber_channels [OF assms(1) w(1), where cid = cid]
      have "findChannel y st = Some r \<longleftrightarrow> y = ch" using r w(2) ws_wfD(2) [OF assms(1), of y r] by auto
      with True w(2) show ?thesis by (auto simp: s Some h)
    next
      case None
      obtain res st' where c: "createChannelByID ch st = (res, st')" by force
      note n = createChannelByID_channels [OF assms(1) c]
      note h = handleSubscriber_channels [OF n(2) n(6), where cid = cid]
      have "calm \<Longrightarrow> findChannel ch st = None" using None assms(2) by (metis looks_def)
      moreover have "findChannel y st = Some (length (wsHeap st)) \<Longrightarrow> False" using ws_wfD(1) [OF assms(1)] by auto
      ultimately show ?thesis using True by (auto simp: s None c n(1) h n(3-5,7,9) split: if_splits)
    qed
  qed
  then show "ws_wf (subscribeOne look cid ch st)"
    "members (subscribeOne look cid ch st) =
       (if permitted (set (wcLoginAddresses c)) ch then insert (ch, cid) (members st) else members st)"
    "calm \<Longrightarrow> joined (subscribeOne look cid ch st) x y \<longleftrightarrow>
       joined st x y \<or> (x = cid \<and> y = ch \<and> permitted (set (wcLoginAddresses c)) ch)"
    "permitted (set (wcLoginAddresses c)) ch \<Longrightarrow> wsClients (subscribeOne look cid ch st) = wsClients st"
    by blast+
qed

text \<open>Steps that tell the clients nothing but answers to their requests.\<close>

definition client_quiet :: "ws_client \<Rightarrow> ws_client \<Rightarrow> bool" where
  "client_quiet c c' \<longleftrightarrow> wcLoginAddresses c' = wcLoginAddresses c \<and> wcClosed c' = wcClosed c \<and>
     (\<forall>p. Payload p \<in> got c' \<longrightarrow> Payload p \<in> got c)"

definition quiet :: "ws \<Rightarrow> ws \<Rightarrow> bool" where
  "quiet st st' \<longleftrightarrow> (\<forall>x. rel_option client_quiet (map_of (wsClients st) x) (map_of (wsClients st') x))"

lemma client_quiet_refl [simp]: "client_quiet c c"
  by (simp add: client_quiet_def)

lemma client_quiet_SendMsg: "m \<notin> range Payload \<Longrightarrow> client_quiet c (SendMsg m c)"
  using got_simps(1) [of m c] by (auto simp: client_quiet_def)

lemma quiet_same: "wsClients st' = wsClients st \<Longrightarrow> quiet st st'"
  by (simp add: quiet_def option.rel_refl)

lemma quiet_trans: "quiet st st' \<Longrightarrow> quiet st' st'' \<Longrightarrow> quiet st st''"
  unfolding quiet_def
proof
  fix x
  assume "\<forall>x. rel_option client_quiet (map_of (wsClients st) x) (map_of (wsClients st') x)"
    "\<forall>x. rel_option client_quiet (map_of (wsClients st') x) (map_of (wsClients st'') x)"
  from this [THEN spec, of x] show "rel_option client_quiet (map_of (wsClients st) x) (map_of (wsClients st'') x)"
    by (cases "map_of (wsClients st) x"; cases "map_of (wsClients st') x"; cases "map_of (wsClients st'') x")
       (auto simp: client_quiet_def)
qed

lemma quiet_onClient:
  assumes "\<And>c. map_of (wsClients st) cid = Some c \<Longrightarrow> client_quiet c (f c)"
  shows "quiet st (onClient cid f st)"
  using assms by (auto simp: quiet_def onClient_client option.rel_refl option.rel_map rel_option_iff split: option.splits)

lemma quiet_Some:
  assumes "quiet st st'" "map_of (wsClients st) x = Some c"
  obtains c' where "map_of (wsClients st') x = Some c'" "client_quiet c c'"
  using assms by (metis option_rel_Some1 quiet_def)

lemma subscribeOne_quiet:
  assumes "ws_wf st" "looks calm look" "map_of (wsClients st) cid = Some c"
  shows "quiet st (subscribeOne look cid ch st)"
proof (cases "permitted (set (wcLoginAddresses c)) ch")
  case True
  then show ?thesis by (intro quiet_same subscribeOne_channels(4) [OF assms])
next
  case False
  with assms(3) have "subscribeOne look cid ch st = onClient cid (SendMsg (SubScribeResponse ch (-1) ''need login'')) st"
    by (simp add: subscribeOne_def mayAccess_permitted)
  then show ?thesis by (auto intro!: quiet_onClient client_quiet_SendMsg)
qed

lemma subscribe_loop:
  assumes "ws_wf st" "looks calm look" "map_of (wsClients st) cid = Some c"
  shows "ws_wf (foldl (\<lambda>st ch. subscribeOne look cid ch st) st chs) \<and>
    quiet st (foldl (\<lambda>st ch. subscribeOne look cid ch st) st chs) \<and>
    members (foldl (\<lambda>st ch. subscribeOne look cid ch st) st chs) =
       members st \<union> {(ch, cid) | ch. ch \<in> set chs \<and> permitted (set (wcLoginAddresses c)) ch} \<and>
    (calm \<longrightarrow> (\<forall>x y. joined (foldl (\<lambda>st ch. subscribeOne look cid ch st) st chs) x y \<longleftrightarrow>
       joined st x y \<or> (x = cid \<and> y \<in> set chs \<and> permitted (set (wcLoginAddresses c)) y)))"
  using assms
proof (induction chs arbitrary: st c)
  case Nil
  then show ?case by (simp add: quiet_same)
next
  case (Cons ch chs)
  note s = subscribeOne_channels [OF Cons.prems, of ch]
  note q = subscribeOne_quiet [OF Cons.prems, of ch]
  obtain c' where c': "map_of (wsClients (subscribeOne look cid ch st)) cid = Some c'" "client_quiet c c'"
    by (rule quiet_Some [OF q Cons.prems(3)])
  then have l: "wcLoginAddresses c' = wcLoginAddresses c" by (simp add: client_quiet_def)
  note ih = Cons.IH [OF s(1) Cons.prems(2) c'(1), unfolded l]
  have "quiet st (foldl (\<lambda>st ch. subscribeOne look cid ch st) st (ch # chs))"
    using ih by (auto intro: quiet_trans [OF q])
  with ih s(2,3) show ?case by auto
qed

lemma unsubscribeOne_channels:
  assumes "ws_wf st"
  shows "ws_wf (unsubscribeOne cid ch st)" "members (unsubscribeOne cid ch st) \<subseteq> members st"
    "joined (unsubscribeOne cid ch st) x y \<longleftrightarrow> joined st x y \<and> \<not> (x = cid \<and> y = ch)"
    "wsClients (unsubscribeOne cid ch st) = wsClients st"
proof -
  show "ws_wf (unsubscribeOne cid ch st)" "members (unsubscribeOne cid ch st) \<subseteq> members st"
    "wsClients (unsubscribeOne cid ch st) = wsClients st"
    using assms handleUnsubscriber_channels [OF assms] ws_wfD(1) [OF assms]
    by (auto simp: unsubscribeOne_def split: option.splits)
  show "joined (unsubscribeOne cid ch st) x y \<longleftrightarrow> joined st x y \<and> \<not> (x = cid \<and> y = ch)"
  proof (cases "findChannel ch st")
    case None
    then show ?thesis by (auto simp: unsubscribeOne_def joined_def)
  next
    case (Some r)
    note w = ws_wfD [OF assms Some]
    have "findChannel y st = Some r \<longleftrightarrow> y = ch" using Some w(2) ws_wfD(2) [OF assms, of y r] by auto
    with Some show ?thesis by (simp add: unsubscribeOne_def handleUnsubscriber_channels(3) [OF assms w(1)])
  qed
qed

lemma unsubscribe_loop:
  assumes "ws_wf st"
  shows "ws_wf (foldl (\<lambda>st ch. unsubscribeOne cid ch st) st chs) \<and>
    wsClients (foldl (\<lambda>st ch. unsubscribeOne cid ch st) st chs) = wsClients st \<and>
    members (foldl (\<lambda>st ch. unsubscribeOne cid ch st) st chs) \<subseteq> members st \<and>
    (\<forall>x y. joined (foldl (\<lambda>st ch. unsubscribeOne cid ch st) st chs) x y \<longleftrightarrow> joined st x y \<and> \<not> (x = cid \<and> y \<in> set chs))"
  using assms
proof (induction chs arbitrary: st)
  case (Cons ch chs)
  note u = unsubscribeOne_channels [OF Cons.prems, of cid ch]
  from Cons.IH [OF u(1)] u(2,4) show ?case by (auto simp: u(3))
qed simp

text \<open>At its end a client leaves every channel of the table.\<close>

lemma RemoveSubscriberAllChannels_channels:
  assumes "ws_wf st"
  shows "ws_wf (RemoveSubscriberAllChannels cid st)"
    "wsClients (RemoveSubscriberAllChannels cid st) = wsClients st"
    "members (RemoveSubscriberAllChannels cid st) \<subseteq> members st"
    "joined (RemoveSubscriberAllChannels cid st) x y \<longleftrightarrow> joined st x y \<and> x \<noteq> cid"
proof -
  let ?go = "foldl (\<lambda>st (ch, r). handleUnsubscriber cid r st)"
  have go: "ws_wf (?go st cs) \<and> wsClients (?go st cs) = wsClients st \<and> members (?go st cs) \<subseteq> members st \<and>
      (joined (?go st cs) x y \<longleftrightarrow> joined st x y \<and> \<not> (x = cid \<and> (\<exists>r \<in> snd ` set cs. findChannel y st = Some r)))"
    if "ws_wf st" "\<forall>(ch, r) \<in> set cs. r < length (wsHeap st)" for st cs
    using that
  proof (induction cs arbitrary: st)
    case (Cons p cs)
    obtain ch r where p: "p = (ch, r)" by (cases p)
    with Cons.prems have r: "r < length (wsHeap st)" by simp
    note u = handleUnsubscriber_channels [OF Cons.prems(1) r, where cid = cid]
    have "length (wsHeap (handleUnsubscriber cid r st)) = length (wsHeap st)" by (simp add: handleUnsubscriber_def)
    with Cons.prems Cons.IH [OF u(1)] u(2) show ?case by (auto simp: p u(3,4,5))
  qed simp
  have t: "(ch, r) \<in> set (allChannels st) \<Longrightarrow> findChannel ch st = Some r" for ch r
    using assms by (simp add: ws_wf_def findChannel_def)
  have "\<forall>(ch, r) \<in> set (allChannels st). r < length (wsHeap st)" using t ws_wfD(1) [OF assms] by blast
  from go [OF assms this] have g: "ws_wf (RemoveSubscriberAllChannels cid st)" "wsClients (RemoveSubscriberAllChannels cid st) = wsClients st"
    "members (RemoveSubscriberAllChannels cid st) \<subseteq> members st"
    "joined (RemoveSubscriberAllChannels cid st) x y \<longleftrightarrow>
       joined st x y \<and> \<not> (x = cid \<and> (\<exists>r \<in> snd ` set (allChannels st). findChannel y st = Some r))"
    by (simp_all add: RemoveSubscriberAllChannels_def)
  show "ws_wf (RemoveSubscriberAllChannels cid st)" "wsClients (RemoveSubscriberAllChannels cid st) = wsClients st"
    "members (RemoveSubscriberAllChannels cid st) \<subseteq> members st" by (rule g)+
  have "joined st x y \<Longrightarrow> \<exists>r \<in> snd ` set (allChannels st). findChannel y st = Some r"
    by (force simp: joined_def findChannel_def dest: map_of_SomeD)
  with g(4) show "joined (RemoveSubscriberAllChannels cid st) x y \<longleftrightarrow> joined st x y \<and> x \<noteq> cid" by blast
qed

section \<open>The invariant of the runs\<close>

text \<open>A message reached a client that, when it was published, had the logins for its channel.\<close>

definition received :: "ws_event list \<Rightarrow> string \<Rightarrow> WebSocketOrderChangePayload \<Rightarrow> bool" where
  "received tr cid p \<longleftrightarrow>
     (\<exists>later m earlier. tr = later @ WsPublish m # earlier \<and> wmPayload m = p \<and> permitted (logins earlier cid) (wmChannelID m))"

definition ws_inv :: "ws_event list \<Rightarrow> ws \<Rightarrow> bool" where
  "ws_inv tr st \<longleftrightarrow> ws_wf st \<and> (\<forall>cid. clientLogins st cid = logins tr cid) \<and>
     (\<forall>ch cid. (ch, cid) \<in> members st \<longrightarrow> permitted (logins tr cid) ch) \<and>
     (\<forall>cid c p. map_of (wsClients st) cid = Some c \<longrightarrow> Payload p \<in> got c \<longrightarrow> received tr cid p)"

lemma ws_invD:
  assumes "ws_inv tr st"
  shows "ws_wf st" "clientLogins st cid = logins tr cid"
    "(ch, cid) \<in> members st \<Longrightarrow> permitted (logins tr cid) ch"
    "map_of (wsClients st) cid = Some c \<Longrightarrow> Payload p \<in> got c \<Longrightarrow> received tr cid p"
    "map_of (wsClients st) cid = Some c \<Longrightarrow> set (wcLoginAddresses c) = logins tr cid"
proof -
  show "ws_wf st" and l: "clientLogins st cid = logins tr cid" for cid using assms by (simp_all add: ws_inv_def)
  show "(ch, cid) \<in> members st \<Longrightarrow> permitted (logins tr cid) ch"
    "map_of (wsClients st) cid = Some c \<Longrightarrow> Payload p \<in> got c \<Longrightarrow> received tr cid p"
    using assms unfolding ws_inv_def by blast+
  show "map_of (wsClients st) cid = Some c \<Longrightarrow> set (wcLoginAddresses c) = logins tr cid"
    using l [of cid] by (simp add: clientLogins_def)
qed

lemma received_later: "received tr cid p \<Longrightarrow> received (ev # tr) cid p"
  unfolding received_def by (metis append_Cons)

lemma ws_inv_step:
  assumes "ws_inv tr st" "ws_wf st'"
    and "\<And>cid. clientLogins st' cid = loginOf cid ev \<union> clientLogins st cid"
    and "\<And>ch cid. (ch, cid) \<in> members st' \<Longrightarrow> (ch, cid) \<in> members st \<or> permitted (logins tr cid) ch"
    and "\<And>cid c' p. map_of (wsClients st') cid = Some c' \<Longrightarrow> Payload p \<in> got c' \<Longrightarrow>
           (\<exists>c. map_of (wsClients st) cid = Some c \<and> Payload p \<in> got c) \<or> received (ev # tr) cid p"
  shows "ws_inv (ev # tr) st'"
proof -
  note inv = ws_invD [OF assms(1)]
  have "permitted (logins (ev # tr) cid) ch" if "(ch, cid) \<in> members st'" for ch cid
    using assms(4) [OF that] inv(3) by (auto intro: permitted_mono)
  moreover have "received (ev # tr) cid p" if "map_of (wsClients st') cid = Some c'" "Payload p \<in> got c'" for cid c' p
    using assms(5) [OF that] inv(4) received_later by blast
  ultimately show ?thesis using assms(2,3) inv(2) by (auto simp: ws_inv_def)
qed

lemma ws_inv_quiet:
  assumes "ws_inv tr st" "ws_wf st'" "quiet st st'" "\<And>cid. loginOf cid ev = {}"
    and "\<And>ch cid. (ch, cid) \<in> members st' \<Longrightarrow> (ch, cid) \<in> members st \<or> permitted (logins tr cid) ch"
  shows "ws_inv (ev # tr) st'"
proof (rule ws_inv_step [OF assms(1,2)])
  fix cid
  have r: "rel_option client_quiet (map_of (wsClients st) cid) (map_of (wsClients st') cid)"
    using assms(3) by (simp add: quiet_def)
  then show "clientLogins st' cid = loginOf cid ev \<union> clientLogins st cid"
    by (auto simp: clientLogins_def assms(4) client_quiet_def rel_option_iff split: option.splits)
  fix c' p
  assume "map_of (wsClients st') cid = Some c'" "Payload p \<in> got c'"
  with r show "(\<exists>c. map_of (wsClients st) cid = Some c \<and> Payload p \<in> got c) \<or> received (ev # tr) cid p"
    by (auto simp: client_quiet_def option_rel_Some2)
qed (rule assms(5))

lemma ws_inv_request:
  assumes "ws_inv tr st" "looks calm look" "map_of (wsClients st) cid = Some c"
  shows "ws_inv (WsRequest E cid req # tr) (handleRequest E look cid req st)"
proof -
  note inv = ws_invD [OF assms(1)]
  note sub = subscribe_loop [OF inv(1) assms(2,3), of "rqChannels req"]
  note unsub = unsubscribe_loop [OF inv(1), of cid "rqChannels req"]
  consider (ping) "rqType req = ''ping''" | (login) "rqType req = ''login''" | (subscribe) "rqType req = ''subscribe''"
    | (unsubscribe) "rqType req = ''unsubscribe''"
    | (other) "rqType req \<noteq> ''ping''" "rqType req \<noteq> ''login''" "rqType req \<noteq> ''subscribe''" "rqType req \<noteq> ''unsubscribe''"
    by blast
  then show ?thesis
  proof cases
    case ping
    let ?st = "onClient cid (SendMsg PongResp) st"
    show ?thesis
      by (rule ws_inv_quiet [OF assms(1)])
         (auto simp: handleRequest_def ping same_channels [of ?st st] inv(1) intro!: quiet_onClient client_quiet_SendMsg)
  next
    case login
    let ?st = "onClient cid (loginRequest E req) st"
    have "ws_inv (WsRequest E cid req # tr) ?st"
    proof (rule ws_inv_step [OF assms(1)])
      show "ws_wf ?st" by (simp add: same_channels [of ?st st] inv(1))
      show "clientLogins ?st x = loginOf x (WsRequest E cid req) \<union> clientLogins st x" for x
        using assms(3) login
        by (auto simp: clientLogins_def onClient_client loginRequest_def AddLoginAddress_def split: option.splits sum.splits)
      show "(ch, x) \<in> members ?st \<Longrightarrow> (ch, x) \<in> members st \<or> permitted (logins tr x) ch" for ch x
        by (simp add: same_channels [of ?st st])
      fix x c' p
      assume "map_of (wsClients ?st) x = Some c'" "Payload p \<in> got c'"
      then show "(\<exists>c. map_of (wsClients st) x = Some c \<and> Payload p \<in> got c) \<or> received (WsRequest E cid req # tr) x p"
        using got_simps(1,4) assms(3)
        by (fastforce simp: onClient_client loginRequest_def split: if_splits sum.splits)
    qed
    then show ?thesis by (simp add: handleRequest_def login)
  next
    case subscribe
    then have "handleRequest E look cid req st = foldl (\<lambda>st ch. subscribeOne look cid ch st) st (rqChannels req)"
      by (simp add: handleRequest_def)
    with sub show ?thesis
      by (intro ws_inv_quiet [OF assms(1)]) (auto simp: subscribe inv(5) [OF assms(3)])
  next
    case unsubscribe
    then have "handleRequest E look cid req st = foldl (\<lambda>st ch. unsubscribeOne cid ch st) st (rqChannels req)"
      by (simp add: handleRequest_def)
    with unsub show ?thesis
      by (intro ws_inv_quiet [OF assms(1)] quiet_same) (auto simp: unsubscribe)
  next
    case other
    then show ?thesis
      by (intro ws_inv_quiet [OF assms(1)] quiet_same) (auto simp: handleRequest_def inv(1))
  qed
qed

lemma consume_channel:
  assumes "ws_wf st" "looks calm look"
  obtains st1 r where "ws_wf st1" "members st1 = members st" "joined st1 = joined st" "wsClients st1 = wsClients st"
    "r < length (wsHeap st1)" "chID (wsHeap st1 ! r) = wmChannelID m" "consume look m st = handleMessage m r st1"
    "calm \<Longrightarrow> findChannel (wmChannelID m) st1 = Some r"
proof (cases "look (wmChannelID m) st")
  case (Some r)
  with assms(2) have r: "findChannel (wmChannelID m) st = Some r" by (metis looks_def option.distinct(1))
  from Some r ws_wfD [OF assms(1) r] assms(1) show ?thesis by (intro that [of st r]) (simp_all add: consume_def)
next
  case None
  obtain res st1 where c: "createChannelByID (wmChannelID m) st = (res, st1)" by force
  note n = createChannelByID_channels [OF assms(1) c]
  have "calm \<Longrightarrow> findChannel (wmChannelID m) st = None" using None assms(2) by (metis looks_def)
  with None c n show ?thesis by (intro that [of st1 "length (wsHeap st)"]) (simp_all add: consume_def)
qed

lemma ws_inv_publish:
  assumes "ws_inv tr st" "looks calm look"
  shows "ws_inv (WsPublish m # tr) (consume look m st)"
proof -
  note inv = ws_invD [OF assms(1)]
  obtain st1 r where s: "ws_wf st1" "members st1 = members st" "wsClients st1 = wsClients st"
    "r < length (wsHeap st1)" "chID (wsHeap st1 ! r) = wmChannelID m" "consume look m st = handleMessage m r st1"
    using consume_channel [OF inv(1) assms(2)] by metis
  note same = same_channels [OF handleMessage_simps(1,2), of m r st1]
  have "distinct (chClients (wsHeap st1 ! r))" using s(1,4) by (simp add: ws_wf_def)
  note client = handleMessage_client [OF this, of m]
  have mem: "(wmChannelID m, x) \<in> members st" if "x \<in> set (chClients (wsHeap st1 ! r))" for x
    using s(2,4,5) that by (fastforce simp: members_nth)
  show ?thesis
  proof (rule ws_inv_step [OF assms(1)])
    show "ws_wf (consume look m st)" by (simp add: s(6) same s(1))
    show "clientLogins (consume look m st) x = loginOf x (WsPublish m) \<union> clientLogins st x" for x
      by (simp add: clientLogins_def s(3,6) client split: option.splits)
    show "(ch, x) \<in> members (consume look m st) \<Longrightarrow> (ch, x) \<in> members st \<or> permitted (logins tr x) ch" for ch x
      by (simp add: s(2,6) same)
    fix x c' p
    assume c': "map_of (wsClients (consume look m st)) x = Some c'" "Payload p \<in> got c'"
    show "(\<exists>c. map_of (wsClients st) x = Some c \<and> Payload p \<in> got c) \<or> received (WsPublish m # tr) x p"
    proof (cases "x \<in> set (chClients (wsHeap st1 ! r))")
      case True
      with c' obtain c where c: "map_of (wsClients st) x = Some c" "c' = SendMsg (Payload (wmPayload m)) c"
        by (auto simp: s(3,6) client)
      then have "Payload p \<in> got c \<or> p = wmPayload m" using c'(2) got_simps(1) by fastforce
      moreover have "received (WsPublish m # tr) x (wmPayload m)"
        unfolding received_def using inv(3) [OF mem [OF True]] by (metis append_Nil)
      ultimately show ?thesis using c(1) by blast
    qed (use c' in \<open>simp add: s(3,6) client\<close>)
  qed
qed

lemma client_quiet_turn: "client_quiet c (runSendMsg t c)"
  using got_simps(2) by (auto simp: client_quiet_def)

lemma ws_run_inv: "ws_run calm tr st \<Longrightarrow> ws_inv tr st"
proof (induction rule: ws_run.induct)
  case (start calm)
  show ?case by (simp add: ws_inv_def ws_wf_def ws_start_def clientLogins_def members_def findChannel_def)
next
  case (connect calm tr st cid)
  note inv = ws_invD [OF connect.IH]
  show ?case
  proof (rule ws_inv_step [OF connect.IH])
    show "ws_wf (connectHandler cid st)" using inv(1) by (simp add: same_channels [of "connectHandler cid st" st])
    show "clientLogins (connectHandler cid st) x = loginOf x (WsConnect cid) \<union> clientLogins st x" for x
      using connect.hyps(2) by (simp add: clientLogins_def connectHandler_client NewClient_def)
    show "(ch, x) \<in> members (connectHandler cid st) \<Longrightarrow> (ch, x) \<in> members st \<or> permitted (logins tr x) ch" for ch x
      by (simp add: same_channels [of "connectHandler cid st" st])
    fix x c' p
    assume "map_of (wsClients (connectHandler cid st)) x = Some c'" "Payload p \<in> got c'"
    then show "(\<exists>c. map_of (wsClients st) x = Some c \<and> Payload p \<in> got c) \<or> received (WsConnect cid # tr) x p"
      by (auto simp: connectHandler_client NewClient_def got_def split: if_splits)
  qed
next
  case (request calm tr st cid c look E req)
  then show ?case by (intro ws_inv_request)
next
  case (finish calm tr st cid c)
  note inv = ws_invD [OF finish.IH]
  let ?st = "onClient cid clientClose st"
  have w: "ws_wf ?st" "members ?st = members st" using inv(1) by (simp_all add: same_channels [of ?st st])
  note r = RemoveSubscriberAllChannels_channels [OF w(1), of cid]
  show ?case
  proof (rule ws_inv_step [OF finish.IH])
    show "ws_wf (endClient cid st)" by (simp add: endClient_def r(1))
    show "clientLogins (endClient cid st) x = loginOf x (WsEnd cid) \<union> clientLogins st x" for x
      by (simp add: clientLogins_def endClient_def r(2) onClient_client clientClose_def split: option.splits)
    show "(ch, x) \<in> members (endClient cid st) \<Longrightarrow> (ch, x) \<in> members st \<or> permitted (logins tr x) ch" for ch x
      using r(3) w(2) by (auto simp: endClient_def)
    fix x c' p
    assume "map_of (wsClients (endClient cid st)) x = Some c'" "Payload p \<in> got c'"
    then show "(\<exists>c. map_of (wsClients st) x = Some c \<and> Payload p \<in> got c) \<or> received (WsEnd cid # tr) x p"
      using got_simps(3) by (auto simp: endClient_def r(2) onClient_client split: if_splits)
  qed
next
  case (publish calm tr st look m)
  then show ?case by (intro ws_inv_publish)
next
  case (turn calm tr st cid t)
  let ?st = "onClient cid (runSendMsg t) st"
  show ?case
    by (rule ws_inv_quiet [OF turn.IH])
       (auto simp: same_channels [of ?st st] ws_invD(1) [OF turn.IH] intro!: quiet_onClient client_quiet_turn)
qed

text \<open>Without races the subscriptions are those that the requests call for, and of open clients.\<close>

definition ws_calm :: "ws_event list \<Rightarrow> ws \<Rightarrow> bool" where
  "ws_calm tr st \<longleftrightarrow>
     (\<forall>cid ch. joined st cid ch = subscribed tr cid ch) \<and>
     (\<forall>cid ch. subscribed tr cid ch \<longrightarrow> (\<exists>c. map_of (wsClients st) cid = Some c \<and> \<not> wcClosed c))"

lemma ws_calm_frame:
  assumes "ws_calm tr st" "joined st' = joined st" "\<And>cid ch. subscribed (ev # tr) cid ch = subscribed tr cid ch"
    and "\<And>cid c. map_of (wsClients st) cid = Some c \<Longrightarrow> \<not> wcClosed c \<Longrightarrow>
           \<exists>c'. map_of (wsClients st') cid = Some c' \<and> \<not> wcClosed c'"
  shows "ws_calm (ev # tr) st'"
  using assms unfolding ws_calm_def by metis

lemma ws_calm_request:
  assumes "ws_inv tr st" "ws_calm tr st" "looks True look" "map_of (wsClients st) cid = Some c" "\<not> wcClosed c"
  shows "ws_calm (WsRequest E cid req # tr) (handleRequest E look cid req st)"
proof -
  note inv = ws_invD [OF assms(1)]
  note sub = subscribe_loop [OF inv(1) assms(3,4), of "rqChannels req"]
  note unsub = unsubscribe_loop [OF inv(1), of cid "rqChannels req"]
  have eq: "joined st x y = subscribed tr x y" for x y using assms(2) by (simp add: ws_calm_def)
  have alive: "subscribed tr x y \<Longrightarrow> \<exists>c. map_of (wsClients st) x = Some c \<and> \<not> wcClosed c" for x y
    using assms(2) unfolding ws_calm_def by blast
  consider (subscribe) "rqType req = ''subscribe''" | (unsubscribe) "rqType req = ''unsubscribe''"
    | (other) "rqType req \<noteq> ''subscribe''" "rqType req \<noteq> ''unsubscribe''" by blast
  then show ?thesis
  proof cases
    case subscribe
    then have h: "handleRequest E look cid req st = foldl (\<lambda>st ch. subscribeOne look cid ch st) st (rqChannels req)"
      by (simp add: handleRequest_def)
    have "\<exists>c'. map_of (wsClients (handleRequest E look cid req st)) x = Some c' \<and> \<not> wcClosed c'"
      if "map_of (wsClients st) x = Some d" "\<not> wcClosed d" for x d
      using sub that by (auto simp: h client_quiet_def elim: quiet_Some)
    moreover have "joined (handleRequest E look cid req st) x y = subscribed (WsRequest E cid req # tr) x y" for x y
      using sub by (auto simp: h eq subscribe inv(5) [OF assms(4)])
    moreover have "subscribed (WsRequest E cid req # tr) x y \<Longrightarrow> x = cid \<or> subscribed tr x y" for x y
      by (auto split: if_splits)
    ultimately show ?thesis unfolding ws_calm_def using alive assms(4,5) by metis
  next
    case unsubscribe
    then have "handleRequest E look cid req st = foldl (\<lambda>st ch. unsubscribeOne cid ch st) st (rqChannels req)"
      by (simp add: handleRequest_def)
    with unsub unsubscribe alive show ?thesis by (auto simp: ws_calm_def eq)
  next
    case other
    let ?f = "if rqType req = ''ping'' then SendMsg PongResp else if rqType req = ''login'' then loginRequest E req else (\<lambda>c. c)"
    have h: "handleRequest E look cid req st = onClient cid ?f st"
      using other by (simp add: handleRequest_def onClient_def update_triv split: option.splits)
    have "wcClosed (?f c) = wcClosed c" for c by (simp add: loginRequest_def AddLoginAddress_def split: sum.splits)
    then show ?thesis unfolding h
      by (intro ws_calm_frame [OF assms(2)]) (auto simp: same_channels [of "onClient cid ?f st" st] onClient_client other)
  qed
qed

lemma ws_run_calm: "ws_run calm tr st \<Longrightarrow> calm \<Longrightarrow> ws_calm tr st"
proof (induction rule: ws_run.induct)
  case (start calm)
  then show ?case by (simp add: ws_calm_def joined_def ws_start_def findChannel_def)
next
  case (connect calm tr st cid)
  then show ?case
    by (intro ws_calm_frame [of tr st])
       (auto simp: same_channels [of "connectHandler cid st" st] connectHandler_client)
next
  case (request calm tr st cid c look E req)
  then show ?case using ws_run_inv by (intro ws_calm_request) auto
next
  case (finish calm tr st cid c)
  note inv = ws_invD [OF ws_run_inv [OF finish.hyps(1)]]
  let ?st = "onClient cid clientClose st"
  have w: "ws_wf ?st" "joined ?st = joined st" using inv(1) by (simp_all add: same_channels [of ?st st])
  note r = RemoveSubscriberAllChannels_channels [OF w(1), of cid]
  from finish.IH [OF finish.prems] show ?case
    by (auto simp: ws_calm_def endClient_def r(2,4) w(2) onClient_client)
next
  case (publish calm tr st look m)
  note inv = ws_invD [OF ws_run_inv [OF publish.hyps(1)]]
  obtain st1 r where s: "ws_wf st1" "joined st1 = joined st" "wsClients st1 = wsClients st" "r < length (wsHeap st1)"
    "consume look m st = handleMessage m r st1"
    using consume_channel [OF inv(1) publish.hyps(2)] by metis
  then have d: "distinct (chClients (wsHeap st1 ! r))" by (simp add: ws_wf_def)
  show ?case unfolding s(5) using publish.IH [OF publish.prems]
    by (rule ws_calm_frame)
       (auto simp: same_channels [of "handleMessage m r st1" st1] s(2,3) handleMessage_client [OF d])
next
  case (turn calm tr st cid t)
  then show ?case
    by (intro ws_calm_frame [of tr st])
       (auto simp: same_channels [of "onClient cid (runSendMsg t) st" st] onClient_client)
qed

section \<open>A run\<close>

text \<open>A client logs in with a JWT of its address, subscribes to its account and gets a message.\<close>

definition demo_ws_env :: ws_env where
  "demo_ws_env = \<lparr> weEcc = demo_ecc, weKeccak = (\<lambda>_. replicate 32 0), weParseTime = (\<lambda>_. None), weNow = 0,
     weJwt = \<lparr> jwParseWithClaims = (\<lambda>tok key. Inr \<lparr> jtAlg = ''HS256'', jtValid = True, jtAddress = Some ''0xAB'' \<rparr>),
               jwSignedString = (\<lambda>_ _ _. Inr ''t'') \<rparr>,
     weJwtSecret = ''s'' \<rparr>"

definition demo_login :: ClientRequest where
  "demo_login = \<lparr> rqType = ''login'', rqJwt = ''t'', rqMaiToken = [], rqChannels = [] \<rparr>"

definition demo_subscribe :: ClientRequest where
  "demo_subscribe = \<lparr> rqType = ''subscribe'', rqJwt = [], rqMaiToken = [], rqChannels = [''TraderAddress#0xab''] \<rparr>"

definition demo_change :: WebSocketMessage where
  "demo_change = orderChange (match_db_order\<lparr> TraderAddress := ''0xab'' \<rparr>) 7 ''0xh''"

definition demo_events :: "ws_event list" where
  "demo_events = [WsRequest demo_ws_env ''c'' demo_subscribe, WsRequest demo_ws_env ''c'' demo_login, WsConnect ''c'']"

definition demo_client :: ws_client where
  "demo_client = NewClient\<lparr> wcLoginAddresses := [''0xab''], wcMsgChan := [LoginResponse 0 ''login success''] \<rparr>"

definition demo_ws :: ws where
  "demo_ws = \<lparr> wsClients = [(''c'', demo_client)], wsHeap = [\<lparr> chID = ''TraderAddress#0xab'', chClients = [''c''] \<rparr>],
     allChannels = [(''TraderAddress#0xab'', 0)] \<rparr>"

lemma demo_toLower: "toLower ''0xAB'' = ''0xab''" "toLower ''0xab'' = ''0xab''" "toLower ''AB'' = ''ab''" "toLower ''ab'' = ''ab''"
  by code_simp+

lemma demo_loginAuth: "loginAuth demo_ws_env ''t'' [] = Inr ''0xAB''"
  by (simp add: loginAuth_def ValidateJwt_def demo_ws_env_def)

lemma demo_run: "ws_run calm demo_events demo_ws"
proof -
  have look: "looks calm findChannel" by (simp add: looks_def)
  let ?st = "\<lparr> wsClients = [(''c'', demo_client)], wsHeap = [], allChannels = [] \<rparr>"
  have "ws_run calm [WsConnect ''c''] (connectHandler ''c'' ws_start)"
    by (intro ws_run.connect ws_run.start) (simp add: ws_start_def)
  then have "ws_run calm [WsRequest demo_ws_env ''c'' demo_login, WsConnect ''c'']
      (handleRequest demo_ws_env findChannel ''c'' demo_login (connectHandler ''c'' ws_start))"
    by (rule ws_run.request [where c = NewClient, OF _ _ _ look]) (simp_all add: connectHandler_client, simp add: NewClient_def)
  moreover have "handleRequest demo_ws_env findChannel ''c'' demo_login (connectHandler ''c'' ws_start) = ?st"
    by (simp add: handleRequest_def demo_login_def connectHandler_def ws_start_def onClient_def loginRequest_def demo_loginAuth
        AddLoginAddress_def SendMsg_def NewClient_def demo_client_def demo_toLower)
  ultimately have "ws_run calm demo_events (handleRequest demo_ws_env findChannel ''c'' demo_subscribe ?st)"
    unfolding demo_events_def
    by (intro ws_run.request [where c = demo_client, OF _ _ _ look]) (simp_all, simp add: demo_client_def NewClient_def)
  moreover have "handleRequest demo_ws_env findChannel ''c'' demo_subscribe ?st = demo_ws"
    by (simp add: handleRequest_def demo_subscribe_def subscribeOne_def mayAccess_def demo_client_def demo_toLower
        findChannel_def createChannelByID_def channelCreators_def saveChannel_def createBaseChannel_def
        handleSubscriber_def onChannel_def demo_ws_def)
  ultimately show ?thesis by simp
qed

lemma demo_consume:
  "consume findChannel demo_change demo_ws =
     demo_ws\<lparr> wsClients := [(''c'', SendMsg (Payload (wmPayload demo_change)) demo_client)] \<rparr>"
  by (simp add: consume_def demo_change_def orderChange_def GetAccountChannelID_def AccountChannelPrefix_def
      findChannel_def demo_ws_def handleMessage_def onClient_def)

section \<open>Properties\<close>

lemma loginAuth_Inr:
  assumes "loginAuth E jwt maiToken = Inr addr"
  shows "ValidateJwt (weJwt E) (weJwtSecret E) jwt = Inr addr \<or>
    ValidateMaiAuth (weEcc E) (weKeccak E) (weParseTime E) (weNow E) maiToken = Inr addr"
  using assms by (auto simp: loginAuth_def split: if_splits sum.splits)

lemma permitted_account:
  assumes "permitted known (GetAccountChannelID trader)"
  shows "toLower trader \<in> known"
proof -
  obtain pre addr where s: "splitOn CHR ''#'' (GetAccountChannelID trader) = [pre, addr]" "toLower addr \<in> known"
    using assms by (auto simp: permitted_def GetAccountChannelID_def HasPrefix_def)
  moreover have "splitOn CHR ''#'' (GetAccountChannelID trader) = AccountChannelPrefix # splitOn CHR ''#'' trader"
    by (simp add: GetAccountChannelID_def AccountChannelPrefix_def)
  ultimately have "splitOn CHR ''#'' trader = [addr]" by simp
  with joinWith_splitOn [of "CHR ''#''" trader] s(2) show ?thesis by simp
qed

lemma logins_request:
  assumes "a \<in> logins tr cid"
  obtains E req addr where "WsRequest E cid req \<in> set tr" "rqType req = ''login''"
    "loginAuth E (rqJwt req) (rqMaiToken req) = Inr addr" "a = toLower addr"
proof -
  from assms obtain ev where ev: "ev \<in> set tr" "a \<in> loginOf cid ev" by (auto simp: logins_def)
  then show ?thesis by (cases ev rule: ws_event.exhaust) (auto split: if_splits sum.splits intro: that)
qed

text \<open>A client that has received a message of the channel of a trader has logged in as this trader.\<close>

lemma permitted_login:
  assumes "permitted (logins tr cid) (GetAccountChannelID trader)"
  shows "\<exists>E req addr. WsRequest E cid req \<in> set tr \<and> rqType req = ''login'' \<and> EqualFold addr trader \<and>
     (ValidateJwt (weJwt E) (weJwtSecret E) (rqJwt req) = Inr addr \<or>
      ValidateMaiAuth (weEcc E) (weKeccak E) (weParseTime E) (weNow E) (rqMaiToken req) = Inr addr)"
proof -
  have "toLower trader \<in> logins tr cid" using permitted_account assms by simp
  then obtain E req addr where "WsRequest E cid req \<in> set tr" "rqType req = ''login''"
    "loginAuth E (rqJwt req) (rqMaiToken req) = Inr addr" "toLower trader = toLower addr" by (rule logins_request)
  moreover from this have "EqualFold addr trader" by (simp add: EqualFold_def)
  ultimately show ?thesis using loginAuth_Inr [of E "rqJwt req" "rqMaiToken req" addr] by blast
qed

lemma ws_run_received:
  assumes "ws_run calm tr st" "map_of (wsClients st) cid = Some c" "Payload p \<in> set (wcWritten c) \<union> set (wcMsgChan c)"
  obtains later m earlier where "tr = later @ WsPublish m # earlier" "wmPayload m = p"
    "permitted (logins earlier cid) (wmChannelID m)"
  using ws_invD(4) [OF ws_run_inv [OF assms(1)] assms(2), of p] assms(3) that by (auto simp: got_def received_def)

text \<open>
  C12: the messages of an account are private. Whatever clients connect, ask for and leave, and
  also when requests race for the creation of a channel: a change of an order that has reached a
  client was published before, and when it was published on the channel of a trader, the client had
  before that logged in with a JWT or a signed token that is valid for the address of this trader.
\<close>

theorem account_messages_private:
  assumes "ws_run calm tr st" "map_of (wsClients st) cid = Some c"
    "Payload p \<in> set (wcWritten c) \<union> set (wcMsgChan c)"
  shows "\<exists>later m earlier. tr = later @ WsPublish m # earlier \<and> wmPayload m = p \<and>
    (\<forall>trader. wmChannelID m = GetAccountChannelID trader \<longrightarrow>
      (\<exists>E req addr. WsRequest E cid req \<in> set earlier \<and> rqType req = ''login'' \<and> EqualFold addr trader \<and>
         (ValidateJwt (weJwt E) (weJwtSecret E) (rqJwt req) = Inr addr \<or>
          ValidateMaiAuth (weEcc E) (weKeccak E) (weParseTime E) (weNow E) (rqMaiToken req) = Inr addr)))"
proof -
  obtain later m earlier where "tr = later @ WsPublish m # earlier" "wmPayload m = p"
    "permitted (logins earlier cid) (wmChannelID m)" by (rule ws_run_received [OF assms])
  then show ?thesis using permitted_login by (intro exI conjI) auto
qed

theorem account_messages_private_witness:
  "\<exists>later m earlier. WsPublish demo_change # demo_events = later @ WsPublish m # earlier \<and> wmPayload m = wmPayload demo_change \<and>
    (\<forall>trader. wmChannelID m = GetAccountChannelID trader \<longrightarrow>
      (\<exists>E req addr. WsRequest E ''c'' req \<in> set earlier \<and> rqType req = ''login'' \<and> EqualFold addr trader \<and>
         (ValidateJwt (weJwt E) (weJwtSecret E) (rqJwt req) = Inr addr \<or>
          ValidateMaiAuth (weEcc E) (weKeccak E) (weParseTime E) (weNow E) (rqMaiToken req) = Inr addr)))"
proof (rule account_messages_private)
  show "ws_run True (WsPublish demo_change # demo_events) (consume findChannel demo_change demo_ws)"
    by (rule ws_run.publish [OF demo_run]) (simp add: looks_def)
  show "map_of (wsClients (consume findChannel demo_change demo_ws)) ''c'' = Some (SendMsg (Payload (wmPayload demo_change)) demo_client)"
    by (simp add: demo_consume)
  show "Payload (wmPayload demo_change) \<in> set (wcWritten (SendMsg (Payload (wmPayload demo_change)) demo_client)) \<union>
      set (wcMsgChan (SendMsg (Payload (wmPayload demo_change)) demo_client))"
    by (simp add: SendMsg_def demo_client_def NewClient_def)
qed



end
