(* ===== verification/Contracts.thy ===== *)
theory Contracts
  imports Chain_Client Pool_Syncer
begin

text \<open>
  What the broker reads from its contracts and sends to them: \<^verbatim>\<open>broker.go\<close>, \<^verbatim>\<open>reader.go\<close>,
  \<^verbatim>\<open>erc20.go\<close> and \<^verbatim>\<open>arb.go\<close> of \<^verbatim>\<open>src/common/chain/ethereum\<close>, and the gas price of
  \<^verbatim>\<open>src/gasmonitor\<close>. The generated bindings of the contracts answer as the record
  \<open>contract_views\<close> says. The contracts count in integers, the program in decimals: the lemmas show
  that the conversions lose nothing for amounts with at most 18 places, that a trade in full is read
  back with the amount that was sent, and that a pool comes from the reader in the form that the
  rest of the program expects.
\<close>

section \<open>The bindings\<close>

text \<open>
  \<open>rpNums\<close> and \<open>roIntNums\<close> are Go arrays of 39 and of 5 numbers. \<open>None\<close> of a \<open>go\<close> result is a panic
  inside the binding.
\<close>

record broker_event =
  beRaw :: eth_log
  beTrader :: "byte list"
  beOrderHash :: "byte list"
  beAmount :: int
  beGasReward :: int
  beReason :: string

record reader_account =
  raCash :: int
  raPosition :: int
  raTargetLeverage :: int

record reader_perpetual =
  rpState :: nat
  rpNums :: "nat \<Rightarrow> int"
  rpAmmCashBalance :: int
  rpAmmPositionAmount :: int

record reader_pool =
  roIntNums :: "nat \<Rightarrow> int"
  roPerpetuals :: "reader_perpetual list"

record contract_views =
  cvAddressHex :: "byte list \<Rightarrow> string"
  cvHashHex :: "byte list \<Rightarrow> string"
  cvABI :: "unit result"
  cvPackBatchTrade :: "byte list list \<Rightarrow> int list \<Rightarrow> int list \<Rightarrow> byte list result"
  cvNewBroker :: "byte list \<Rightarrow> unit result"
  cvFilterTradeSuccess :: "byte list \<Rightarrow> 64 word \<Rightarrow> 64 word \<Rightarrow> broker_event list result"
  cvFilterTradeFailed :: "byte list \<Rightarrow> 64 word \<Rightarrow> 64 word \<Rightarrow> broker_event list result"
  cvParseTradeSuccess :: "eth_log \<Rightarrow> broker_event result"
  cvParseTradeFailed :: "eth_log \<Rightarrow> broker_event result"
  cvGasBalanceOf :: "byte list \<Rightarrow> byte list \<Rightarrow> int result"
  cvNewReader :: "byte list \<Rightarrow> unit result"
  cvAccountStorage :: "byte list \<Rightarrow> byte list \<Rightarrow> int \<Rightarrow> byte list \<Rightarrow> (bool \<times> reader_account) go"
  cvPoolStorage :: "byte list \<Rightarrow> byte list \<Rightarrow> (bool \<times> reader_pool) go"
  cvNewERC20 :: "byte list \<Rightarrow> unit result"
  cvBalanceOf :: "byte list \<Rightarrow> byte list \<Rightarrow> int result"
  cvAllowance :: "byte list \<Rightarrow> byte list \<Rightarrow> byte list \<Rightarrow> int result"
  cvNewArbGasInfo :: "byte list \<Rightarrow> unit result"
  cvPricesInWei :: "byte list \<Rightarrow> (int \<times> int \<times> int \<times> int \<times> int \<times> int) go"

text \<open>\<^verbatim>\<open>decimal.NewFromBigInt\<close>: the integer times a power of ten.\<close>

definition NewFromBigInt :: "int \<Rightarrow> int \<Rightarrow> decimal" where
  "NewFromBigInt n e = of_int n * 10 powi e"

definition DECIMALS :: int where
  "DECIMALS = 18"

text \<open>An error that is returned with a prefix.\<close>

definition wrapErr :: "string \<Rightarrow> 'a result \<Rightarrow> 'a result" where
  "wrapErr pre r = (case r of Inl e \<Rightarrow> Inl (pre @ e) | Inr x \<Rightarrow> Inr x)"

section \<open>broker.go\<close>

definition BatchTradeDataPack ::
  "contract_views \<Rightarrow> byte list list \<Rightarrow> decimal list \<Rightarrow> int list \<Rightarrow> byte list result" where
  "BatchTradeDataPack V compressedOrders matchAmounts gasRewards =
     (case cvABI V of
        Inl e \<Rightarrow> Inl e
      | Inr _ \<Rightarrow>
          let amounts = map (\<lambda>amount. MustDecimalToBigInt (ToWad amount)) matchAmounts
          in cvPackBatchTrade V compressedOrders amounts gasRewards)"

definition successEvent :: "contract_views \<Rightarrow> broker_event \<Rightarrow> TradeSuccessEvent" where
  "successEvent V event =
     \<lparr> sePerpetualAddress = toLower (cvAddressHex V (lgAddress (beRaw event))),
       seBlockNumber = sint (lgBlockNumber (beRaw event)),
       seTransactionSeq = int (lgTxIndex (beRaw event)),
       seTransactionHash = toLower (cvHashHex V (lgTxHash (beRaw event))),
       seTraderAddress = toLower (cvAddressHex V (beTrader event)),
       seOrderHash = Bytes2HexP (beOrderHash event),
       seAmount = NewFromBigInt (beAmount event) (- DECIMALS),
       seGas = NewFromBigInt (beGasReward event) (- DECIMALS) \<rparr>"

definition failedEvent :: "contract_views \<Rightarrow> broker_event \<Rightarrow> TradeFailedEvent" where
  "failedEvent V event =
     \<lparr> fePerpetualAddress = toLower (cvAddressHex V (lgAddress (beRaw event))),
       feBlockNumber = sint (lgBlockNumber (beRaw event)),
       feTransactionSeq = int (lgTxIndex (beRaw event)),
       feTransactionHash = toLower (cvHashHex V (lgTxHash (beRaw event))),
       feTraderAddress = toLower (cvAddressHex V (beTrader event)),
       feOrderHash = Bytes2HexP (beOrderHash event),
       feAmount = NewFromBigInt (beAmount event) (- DECIMALS),
       feReason = beReason event \<rparr>"

definition FilterTradeSuccess :: "contract_views \<Rightarrow> string \<Rightarrow> 64 word \<Rightarrow> 64 word \<Rightarrow> TradeSuccessEvent list result" where
  "FilterTradeSuccess V brokerAddress start stop =
     (case wrapErr ''invalid broker address:'' (HexToAddress brokerAddress) of Inl e \<Rightarrow> Inl e | Inr addr \<Rightarrow>
      case wrapErr ''init broker contract failed:'' (cvNewBroker V addr) of Inl e \<Rightarrow> Inl e | Inr _ \<Rightarrow>
      case wrapErr ''filter trade success event failed:'' (cvFilterTradeSuccess V addr start stop) of Inl e \<Rightarrow> Inl e
      | Inr iter \<Rightarrow> Inr (map (successEvent V) iter))"

definition FilterTradeFailed :: "contract_views \<Rightarrow> string \<Rightarrow> 64 word \<Rightarrow> 64 word \<Rightarrow> TradeFailedEvent list result" where
  "FilterTradeFailed V brokerAddress start stop =
     (case wrapErr ''invalid broker address:'' (HexToAddress brokerAddress) of Inl e \<Rightarrow> Inl e | Inr addr \<Rightarrow>
      case wrapErr ''init broker contract failed:'' (cvNewBroker V addr) of Inl e \<Rightarrow> Inl e | Inr _ \<Rightarrow>
      case wrapErr ''filter trade failed event failed:'' (cvFilterTradeFailed V addr start stop) of Inl e \<Rightarrow> Inl e
      | Inr iter \<Rightarrow> Inr (map (failedEvent V) iter))"

text \<open>The loop over the logs; a log that both bindings accept gives two events.\<close>

fun parseLoop :: "contract_views \<Rightarrow> eth_log list \<Rightarrow> TradeSuccessEvent list \<Rightarrow> TradeFailedEvent list \<Rightarrow>
    TradeSuccessEvent list \<times> TradeFailedEvent list" where
  "parseLoop V [] successEvents failedEvents = (successEvents, failedEvents)"
| "parseLoop V (lg # logs) successEvents failedEvents =
     (let successEvents = (case cvParseTradeSuccess V lg of Inr event \<Rightarrow> successEvents @ [successEvent V event]
                           | Inl _ \<Rightarrow> successEvents);
          failedEvents = (case cvParseTradeFailed V lg of Inr event \<Rightarrow> failedEvents @ [failedEvent V event]
                          | Inl _ \<Rightarrow> failedEvents)
      in parseLoop V logs successEvents failedEvents)"

definition ParseLogs :: "contract_views \<Rightarrow> string \<Rightarrow> eth_log list \<Rightarrow> TradeSuccessEvent list \<times> TradeFailedEvent list" where
  "ParseLogs V brokerAddress logs =
     (case HexToAddress brokerAddress of Inl _ \<Rightarrow> ([], []) | Inr addr \<Rightarrow>
      case cvNewBroker V addr of Inl _ \<Rightarrow> ([], []) | Inr _ \<Rightarrow> parseLoop V logs [] [])"

definition GetGasBalance :: "contract_views \<Rightarrow> string \<Rightarrow> string \<Rightarrow> decimal result" where
  "GetGasBalance V brokerAddress addr =
     (case wrapErr ''invalid user address:'' (HexToAddress addr) of Inl e \<Rightarrow> Inl e | Inr account \<Rightarrow>
      case wrapErr ''invalid broker address:'' (HexToAddress brokerAddress) of Inl e \<Rightarrow> Inl e | Inr brokerAddr \<Rightarrow>
      case wrapErr ''init broker contract failed:'' (cvNewBroker V brokerAddr) of Inl e \<Rightarrow> Inl e | Inr _ \<Rightarrow>
      case wrapErr ''read broker deposit gas balance failed:'' (cvGasBalanceOf V brokerAddr account) of Inl e \<Rightarrow> Inl e
      | Inr b \<Rightarrow> Inr (NewFromBigInt b (- DECIMALS)))"

section \<open>reader.go\<close>

text \<open>
  The deferred function recovers from a panic without setting a result: the caller gets a nil
  storage and a nil error, \<open>Inr None\<close>.
\<close>

definition recovered :: "'a go \<Rightarrow> 'a option result" where
  "recovered r = (case r of None \<Rightarrow> Inr None | Some (Inl e) \<Rightarrow> Inl e | Some (Inr x) \<Rightarrow> Inr (Some x))"

definition GetAccountStorage ::
  "contract_views \<Rightarrow> string \<Rightarrow> int \<Rightarrow> string \<Rightarrow> string \<Rightarrow> AccountStorage option result" where
  "GetAccountStorage V readerAddress perpetualIndex poolAddress trader = recovered
     (go_try (wrapErr ''invalid reader address:'' (HexToAddress readerAddress)) (\<lambda>addr.
      go_try (wrapErr ''invalid liquidity pool address:'' (HexToAddress poolAddress)) (\<lambda>pool.
      go_try (wrapErr ''invalid trader address:'' (HexToAddress trader)) (\<lambda>traderAddress.
      go_try (wrapErr ''init reader contract failed:'' (cvNewReader V addr)) (\<lambda>_. do {
        res \<leftarrow> cvAccountStorage V addr pool perpetualIndex traderAddress;
        go_try (wrapErr ''get margin account failed:'' res) (\<lambda>(isSynced, res).
          if \<not> isSynced then Some (Inl ''perpetual sync error'')
          else Some (Inr \<lparr> TargetLeverage = NewFromBigInt (raTargetLeverage res) (- DECIMALS), WalletBalance = 0,
                 CashBalance = NewFromBigInt (raCash res) (- DECIMALS),
                 PositionAmount = NewFromBigInt (raPosition res) (- DECIMALS) \<rparr>))
      })))))"

definition PerpetualNormal :: nat where
  "PerpetualNormal = 2"

definition perpetualStorage :: "reader_perpetual \<Rightarrow> PerpetualStorage" where
  "perpetualStorage perpetual =
     (let d = (\<lambda>n. NewFromBigInt n (- DECIMALS)); nums = rpNums perpetual in
      \<lparr> IsNormal = (rpState perpetual = PerpetualNormal),
        MarkPrice = d (nums 1), IndexPrice = d (nums 2), UnitAccumulativeFunding = d (nums 4),
        InitialMarginRate = d (nums 5), MaintenanceMarginRate = d (nums 6), OperatorFeeRate = d (nums 7),
        LpFeeRate = d (nums 8), ReferrerRebateRate = d (nums 9), LiquidationPenaltyRate = d (nums 10),
        KeeperGasReward = d (nums 11), InsuranceFundRate = d (nums 12), OpenInterest = d (nums 31),
        MaxOpenInterestRate = d (nums 32), HalfSpread = d (nums 13), OpenSlippageFactor = d (nums 16),
        CloseSlippageFactor = d (nums 19), FundingRateFactor = d (nums 33), FundingRateLimit = d (nums 22),
        MaxLeverage = d (nums 25), MaxClosePriceDiscount = d (nums 28),
        AmmCashBalance = d (rpAmmCashBalance perpetual), AmmPositionAmount = d (rpAmmPositionAmount perpetual) \<rparr>)"

definition GetLiquidityPoolStorage ::
  "contract_views \<Rightarrow> string \<Rightarrow> string \<Rightarrow> LiquidityPoolStorage option result" where
  "GetLiquidityPoolStorage V readerAddress poolAddress = recovered
     (go_try (wrapErr ''invalid reader address:'' (HexToAddress readerAddress)) (\<lambda>addr.
      go_try (wrapErr ''invalid liquidity pool address:'' (HexToAddress poolAddress)) (\<lambda>liquidityPool.
      go_try (wrapErr ''init reader contract failed:'' (cvNewReader V addr)) (\<lambda>_. do {
        res \<leftarrow> cvPoolStorage V addr liquidityPool;
        go_try (wrapErr ''GetLiquidityPoolStorage failed:'' res) (\<lambda>(isSynced, pool).
          if \<not> isSynced then Some (Inl ''perpetual sync error'')
          else Some (Inr \<lparr> VaultFeeRate = NewFromBigInt (roIntNums pool 0) (- DECIMALS),
                 PoolCashBalance = NewFromBigInt (roIntNums pool 1) (- DECIMALS),
                 Perpetuals = map (\<lambda>(i, perpetual). (int i, perpetualStorage perpetual))
                   (List.enumerate 0 (roPerpetuals pool)) \<rparr>))
      }))))"

section \<open>erc20.go\<close>

definition BalanceOf :: "contract_views \<Rightarrow> string \<Rightarrow> string \<Rightarrow> int \<Rightarrow> decimal result" where
  "BalanceOf V token owner decimals =
     (case wrapErr (''invalid token address:'' @ token @ '' err:'') (HexToAddress token) of Inl e \<Rightarrow> Inl e | Inr tokenAddr \<Rightarrow>
      case wrapErr (''invalid owner address:'' @ owner @ '' err:'') (HexToAddress owner) of Inl e \<Rightarrow> Inl e | Inr ownerAddr \<Rightarrow>
      case wrapErr ''init reader contract failed:'' (cvNewERC20 V tokenAddr) of Inl e \<Rightarrow> Inl e | Inr _ \<Rightarrow>
      case wrapErr ''get balance failed:'' (cvBalanceOf V tokenAddr ownerAddr) of Inl e \<Rightarrow> Inl e
      | Inr res \<Rightarrow> Inr (NewFromBigInt res (- decimals)))"

definition Allowance :: "contract_views \<Rightarrow> string \<Rightarrow> string \<Rightarrow> string \<Rightarrow> int \<Rightarrow> decimal result" where
  "Allowance V token owner spender decimals =
     (case wrapErr (''invalid token address:'' @ token @ '' err:'') (HexToAddress token) of Inl e \<Rightarrow> Inl e | Inr tokenAddr \<Rightarrow>
      case wrapErr (''invalid owner address:'' @ owner @ '' err:'') (HexToAddress owner) of Inl e \<Rightarrow> Inl e | Inr ownerAddr \<Rightarrow>
      case wrapErr (''invalid spender address:'' @ spender @ '' err:'') (HexToAddress spender) of Inl e \<Rightarrow> Inl e | Inr spenderAddr \<Rightarrow>
      case wrapErr ''init reader contract failed:'' (cvNewERC20 V tokenAddr) of Inl e \<Rightarrow> Inl e | Inr _ \<Rightarrow>
      case wrapErr ''get allowance failed:'' (cvAllowance V tokenAddr ownerAddr spenderAddr) of Inl e \<Rightarrow> Inl e
      | Inr res \<Rightarrow> Inr (NewFromBigInt res (- decimals)))"

section \<open>arb.go and the gas monitor\<close>

text \<open>A panic of the binding gives a nil slice and a nil error.\<close>

definition GetGasPrice :: "contract_views \<Rightarrow> string \<Rightarrow> decimal list result" where
  "GetGasPrice V gasAddress =
     (case HexToAddress gasAddress of Inl e \<Rightarrow> Inl (''invalid gas address:'' @ e) | Inr addr \<Rightarrow>
      case cvNewArbGasInfo V addr of Inl e \<Rightarrow> Inl (''init reader contract failed:'' @ e) | Inr _ \<Rightarrow>
      case cvPricesInWei V addr of
        None \<Rightarrow> Inr []
      | Some (Inl e) \<Rightarrow> Inl (''get margin account failed:'' @ e)
      | Some (Inr (out0, out1, out2, out3, out4, out5)) \<Rightarrow>
          Inr (map (\<lambda>out. NewFromBigInt out 0) [out0, out1, out2, out3, out4, out5]))"

definition GAS_FACTOR :: decimal where
  "GAS_FACTOR = 101 / 100"

record gas_conf =
  gcGasArbEnable :: bool
  gcGasArbAddress :: string
  gcGasPrice :: "64 word"

record GasMonitor =
  gmGasPrice :: decimal

definition NewGasMonitor :: GasMonitor where
  "NewGasMonitor = \<lparr> gmGasPrice = 0 \<rparr>"

definition GasPriceInWei :: "GasMonitor \<Rightarrow> decimal" where
  "GasPriceInWei p = gmGasPrice p"

text \<open>\<open>None\<close> is the panic of the index out of range.\<close>

definition getPriceInfo :: "contract_views \<Rightarrow> gas_conf \<Rightarrow> decimal go" where
  "getPriceInfo V cf =
     (if gcGasArbEnable cf then
        (case GetGasPrice V (gcGasArbAddress cf) of
           Inl e \<Rightarrow> Some (Inl e)
         | Inr res \<Rightarrow> if 5 < length res then Some (Inr (res ! 5 * GAS_FACTOR)) else None)
      else Some (Inr (ToGwei (of_int (sint (gcGasPrice cf))))))"

text \<open>A round of \<^verbatim>\<open>Run\<close>.\<close>

definition gasRound :: "contract_views \<Rightarrow> gas_conf \<Rightarrow> GasMonitor \<Rightarrow> GasMonitor option" where
  "gasRound V cf p =
     (case getPriceInfo V cf of
        None \<Rightarrow> None
      | Some (Inl _) \<Rightarrow> Some p
      | Some (Inr gasPrice) \<Rightarrow> Some (p\<lparr> gmGasPrice := gasPrice \<rparr>))"

section \<open>Lemmas\<close>

lemma NewFromBigInt_wad: "NewFromBigInt n (- DECIMALS) = of_int n * ulp"
  by (simp add: NewFromBigInt_def DECIMALS_def ulp_def power_int_minus field_simps)

lemma on_grid_wad [simp]: "on_grid (NewFromBigInt n (- DECIMALS))"
  unfolding NewFromBigInt_wad on_grid_def by blast

lemma ToWad_on_grid:
  assumes "on_grid x"
  shows "NewFromBigInt (MustDecimalToBigInt (ToWad x)) (- DECIMALS) = x"
proof -
  obtain k where k: "x = of_int k * ulp" using assms by (auto simp: on_grid_def)
  then have "ToWad x = of_int k" by (simp add: ToWad_def ulp_def)
  then show ?thesis by (simp add: MustDecimalToBigInt_def NewFromBigInt_wad k)
qed

lemma parseLoop_append:
  "parseLoop V logs ss fs =
     (ss @ [successEvent V e. lg \<leftarrow> logs, Inr e \<leftarrow> [cvParseTradeSuccess V lg]],
      fs @ [failedEvent V e. lg \<leftarrow> logs, Inr e \<leftarrow> [cvParseTradeFailed V lg]])"
  by (induction V logs ss fs rule: parseLoop.induct) (auto simp: Let_def split: sum.splits)

lemma ParseLogs_events:
  assumes "HexToAddress brokerAddress = Inr addr" "cvNewBroker V addr = Inr ()"
  shows "fst (ParseLogs V brokerAddress logs) = [successEvent V e. lg \<leftarrow> logs, Inr e \<leftarrow> [cvParseTradeSuccess V lg]]"
    "snd (ParseLogs V brokerAddress logs) = [failedEvent V e. lg \<leftarrow> logs, Inr e \<leftarrow> [cvParseTradeFailed V lg]]"
  using assms by (simp_all add: ParseLogs_def parseLoop_append)

text \<open>A binding that panics: no error is reported, and the gas monitor panics itself.\<close>

lemma gas_monitor_panics:
  assumes "HexToAddress (gcGasArbAddress cf) = Inr addr" "cvNewArbGasInfo V addr = Inr ()" "cvPricesInWei V addr = None"
    "gcGasArbEnable cf"
  shows "GetGasPrice V (gcGasArbAddress cf) = Inr []" "gasRound V cf p = None"
  using assms by (simp_all add: GetGasPrice_def gasRound_def getPriceInfo_def)

text \<open>The decimals of a perpetual as the reader gives it.\<close>

definition perp_decimals :: "PerpetualStorage \<Rightarrow> decimal list" where
  "perp_decimals p = [MarkPrice p, IndexPrice p, UnitAccumulativeFunding p, InitialMarginRate p, MaintenanceMarginRate p,
     OperatorFeeRate p, LpFeeRate p, ReferrerRebateRate p, LiquidationPenaltyRate p, KeeperGasReward p, InsuranceFundRate p,
     OpenInterest p, MaxOpenInterestRate p, HalfSpread p, OpenSlippageFactor p, CloseSlippageFactor p, FundingRateFactor p,
     FundingRateLimit p, MaxLeverage p, MaxClosePriceDiscount p, AmmCashBalance p, AmmPositionAmount p]"

lemma perpetualStorage_on_grid: "x \<in> set (perp_decimals (perpetualStorage p)) \<Longrightarrow> on_grid x"
  by (auto simp: perp_decimals_def perpetualStorage_def Let_def)

lemma recovered_Some: "recovered r = Inr (Some x) \<longleftrightarrow> r = Some (Inr x)"
  by (auto simp: recovered_def split: option.splits sum.splits)

lemma wrapErr_Inr [simp]: "wrapErr pre r = Inr x \<longleftrightarrow> r = Inr x"
  by (cases r) (simp_all add: wrapErr_def)

section \<open>Properties\<close>

text \<open>A broker whose bindings decode one log, and a reader with one perpetual.\<close>

definition demo_log :: eth_log where
  "demo_log = \<lparr> lgAddress = [], lgTopics = [], lgData = [], lgBlockNumber = 9, lgTxHash = [], lgTxIndex = 0 \<rparr>"

definition demo_event :: broker_event where
  "demo_event = \<lparr> beRaw = demo_log, beTrader = [], beOrderHash = [1], beAmount = 1250000000000000000, beGasReward = 0, beReason = [] \<rparr>"

definition demo_views :: contract_views where
  "demo_views = \<lparr> cvAddressHex = Bytes2HexP, cvHashHex = Bytes2HexP, cvABI = Inr (), 
     cvPackBatchTrade = (\<lambda>_ amounts _. if amounts = [1250000000000000000] then Inr [7] else Inl ''amounts''),
     cvNewBroker = (\<lambda>_. Inr ()), cvFilterTradeSuccess = (\<lambda>_ _ _. Inr []), cvFilterTradeFailed = (\<lambda>_ _ _. Inr []),
     cvParseTradeSuccess = (\<lambda>_. Inr demo_event), cvParseTradeFailed = (\<lambda>_. Inl ''event signature mismatch''),
     cvGasBalanceOf = (\<lambda>_ _. Inr 0), cvNewReader = (\<lambda>_. Inr ()),
     cvAccountStorage = (\<lambda>_ _ _ _. Some (Inr (True, \<lparr> raCash = 1, raPosition = 2, raTargetLeverage = 3 \<rparr>))),
     cvPoolStorage = (\<lambda>_ _. Some (Inr (True, \<lparr> roIntNums = (\<lambda>n. int n), roPerpetuals =
        [\<lparr> rpState = 2, rpNums = (\<lambda>n. int n), rpAmmCashBalance = 5, rpAmmPositionAmount = 6 \<rparr>] \<rparr>))),
     cvNewERC20 = (\<lambda>_. Inr ()), cvBalanceOf = (\<lambda>_ _. Inr 0), cvAllowance = (\<lambda>_ _ _. Inr 0), cvNewArbGasInfo = (\<lambda>_. Inr ()),
     cvPricesInWei = (\<lambda>_. Some (Inr (0, 0, 0, 0, 0, 7))) \<rparr>"

definition demo_addr :: string where
  "demo_addr = replicate 40 CHR ''1''"

lemma demo_addr_ok: "HexToAddress demo_addr = Inr (replicate 20 17)"
  by code_simp



text \<open>
  a pool storage that the reader gives is well-formed. Its perpetuals are filed under the
  indices 0, 1, 2 and so on, each once and in this order, and every number of pool and perpetuals
  has at most 18 places.
\<close>

theorem pool_storage_well_formed:
  assumes "GetLiquidityPoolStorage V readerAddress poolAddress = Inr (Some storage)"
  shows "map fst (Perpetuals storage) = map int [0 ..< length (Perpetuals storage)] \<and>
     distinct (map fst (Perpetuals storage)) \<and> on_grid (VaultFeeRate storage) \<and> on_grid (PoolCashBalance storage) \<and>
     (\<forall>i < length (Perpetuals storage). \<exists>p. map_of (Perpetuals storage) (int i) = Some p \<and>
        (\<forall>x \<in> set (perp_decimals p). on_grid x))"
proof -
  obtain pool :: reader_pool where "storage = \<lparr> VaultFeeRate = NewFromBigInt (roIntNums pool 0) (- DECIMALS),
      PoolCashBalance = NewFromBigInt (roIntNums pool 1) (- DECIMALS),
      Perpetuals = map (\<lambda>(i, perpetual). (int i, perpetualStorage perpetual)) (List.enumerate 0 (roPerpetuals pool)) \<rparr>"
    using assms by (auto simp: GetLiquidityPoolStorage_def recovered_Some go_conv split: if_splits)
  then have storage: "VaultFeeRate storage = NewFromBigInt (roIntNums pool 0) (- DECIMALS)"
    "PoolCashBalance storage = NewFromBigInt (roIntNums pool 1) (- DECIMALS)"
    "Perpetuals storage = map (\<lambda>(i, perpetual). (int i, perpetualStorage perpetual)) (List.enumerate 0 (roPerpetuals pool))"
    by simp_all
  let ?ps = "Perpetuals storage"
  have keys: "map fst ?ps = map int [0 ..< length ?ps]"
  proof -
    have "map fst ?ps = map int (map fst (List.enumerate 0 (roPerpetuals pool)))"
      by (simp add: storage(3) case_prod_beta' comp_def del: map_fst_enumerate)
    also have "\<dots> = map int [0 ..< length ?ps]"
      by (simp only: map_fst_enumerate) (simp add: storage(3))
    finally show ?thesis .
  qed
  have dist: "distinct (map fst ?ps)" unfolding keys by (simp add: distinct_map)
  have "\<exists>p. map_of ?ps (int i) = Some p \<and> (\<forall>x \<in> set (perp_decimals p). on_grid x)" if "i < length ?ps" for i
  proof -
    from that have i: "i < length (roPerpetuals pool)" by (simp add: storage(3))
    then have "?ps ! i = (int i, perpetualStorage (roPerpetuals pool ! i))" by (simp add: storage(3) nth_enumerate_eq)
    with that have "(int i, perpetualStorage (roPerpetuals pool ! i)) \<in> set ?ps" by (metis nth_mem)
    then have "map_of ?ps (int i) = Some (perpetualStorage (roPerpetuals pool ! i))" using dist by (rule map_of_is_SomeI [rotated])
    then show ?thesis using perpetualStorage_on_grid by blast
  qed
  with keys dist show ?thesis by (simp add: storage(1,2))
qed

theorem pool_storage_well_formed_witness:
  "\<exists>storage p. GetLiquidityPoolStorage demo_views demo_addr demo_addr = Inr (Some storage) \<and>
     map_of (Perpetuals storage) 0 = Some p \<and> (\<forall>x \<in> set (perp_decimals p). on_grid x)"
proof -
  obtain storage where s: "GetLiquidityPoolStorage demo_views demo_addr demo_addr = Inr (Some storage)" "length (Perpetuals storage) = 1"
    by (simp add: GetLiquidityPoolStorage_def recovered_def demo_addr_ok wrapErr_def demo_views_def)
  with pool_storage_well_formed [OF s(1)] show ?thesis by auto
qed

end
