(* ===== verification/Perpetual_Syncer.thy ===== *)
theory Perpetual_Syncer
  imports Launcher Signatures
begin

text \<open>
  The syncer of perpetuals: \<^verbatim>\<open>src/perpetualsyncer/syncer.go\<close> with its part of
  \<^verbatim>\<open>src/dao/perpetual.go\<close>. It asks the subgraph for the perpetuals that were created after the last
  block it knows and stores them, so that the match server can open them. The HTTP client and the
  JSON decoder are the record \<open>subgraph\<close>. In a round without database errors every perpetual of the
  answer is in the table and the known block grows; a perpetual whose insert fails is lost.
\<close>

section \<open>dao/perpetual.go\<close>

text \<open>The table has the primary key of pool and index.\<close>

definition insertPerpetual :: "Perpetual \<Rightarrow> tables \<Rightarrow> tables result" where
  "insertPerpetual perpetual t =
     (if perpKey perpetual \<in> perpKey ` set (tPerpetuals t) then Inl ''duplicate key value''
      else Inr (t\<lparr> tPerpetuals := tPerpetuals t @ [perpetual] \<rparr>))"

definition CreatePerpetual :: "Perpetual \<Rightarrow> ('a dbstate_scheme, unit) dbm" where
  "CreatePerpetual perpetual =
     dbCall (\<lambda>s. case insertPerpetual perpetual (dbTables s) of
        Inl e \<Rightarrow> (Inl (''CreatePerpetual:'' @ e), s)
      | Inr t \<Rightarrow> (Inr (), s\<lparr> dbTables := t \<rparr>))"

definition GetPerpetualSyncedBlockNumber :: "('a dbstate_scheme, int) dbm" where
  "GetPerpetualSyncedBlockNumber =
     dbCall (\<lambda>s. case tPerpetuals (dbTables s) of
        [] \<Rightarrow> (Inl ErrRecordNotFound, s)
      | ps \<Rightarrow> (Inr (Max (set (map ppBlockNumber ps))), s))"

section \<open>syncer.go\<close>

record subgraph_perpetual =
  sgIndex :: string
  sgSymbol :: string
  sgCollateralName :: string
  sgCollateralAddress :: string
  sgOperatorAddress :: string
  sgPoolID :: string
  sgCollateralDecimals :: string
  sgCreatedAtBlockNumber :: string

text \<open>
  \<open>sgPost n\<close> is the answer, a status code and a body, to the query for the perpetuals with a block
  number greater than \<open>n\<close>.
\<close>

record subgraph =
  sgPost :: "int \<Rightarrow> (nat \<times> string) result"
  sgUnmarshal :: "string \<Rightarrow> subgraph_perpetual list result"

record PerpetualSyncer =
  syncedBlockNumber :: int

definition NewPerpetualSyncer :: "('a dbstate_scheme, PerpetualSyncer) dbm" where
  "NewPerpetualSyncer s =
     (case GetPerpetualSyncedBlockNumber s of
        (Inl e, s) \<Rightarrow> if IsRecordNotFound e then (Inr \<lparr> syncedBlockNumber = 0 \<rparr>, s) else (Inl e, s)
      | (Inr blockNumber, s) \<Rightarrow> (Inr \<lparr> syncedBlockNumber = blockNumber \<rparr>, s))"

text \<open>\<^verbatim>\<open>strconv.Atoi\<close> is \<^verbatim>\<open>ParseInt\<close> on a 64-bit machine; \<^verbatim>\<open>int32\<close> of the result wraps around.\<close>

definition newPerpetual :: "subgraph_perpetual \<Rightarrow> Perpetual result" where
  "newPerpetual perp =
     (case ParseInt64 (sgIndex perp) of Inl e \<Rightarrow> Inl (''parse perpetual index fail: '' @ e) | Inr index \<Rightarrow>
      case ParseInt64 (sgCreatedAtBlockNumber perp) of
        Inl e \<Rightarrow> Inl (''parse perpetual createdAt blockNumber fail: '' @ e)
      | Inr blockNumber \<Rightarrow>
      case ParseInt64 (sgCollateralDecimals perp) of
        Inl e \<Rightarrow> Inl (''parse pool collateral decimals fail: '' @ e)
      | Inr collateralDecimals \<Rightarrow>
        Inr \<lparr> ppLiquidityPoolAddress = sgPoolID perp, ppPerpetualIndex = index, ppSymbol = sgSymbol perp,
              ppOperatorAddress = sgOperatorAddress perp, ppCollateralSymbol = sgCollateralName perp,
              ppCollateralAddress = sgCollateralAddress perp,
              ppCollateralDecimals = sint (word_of_int collateralDecimals :: 32 word),
              ppIsPublished = True, ppBlockNumber = blockNumber \<rparr>)"

definition syncOne :: "subgraph_perpetual \<Rightarrow> PerpetualSyncer \<times> 'a dbstate_scheme \<Rightarrow> PerpetualSyncer \<times> 'a dbstate_scheme" where
  "syncOne perp = (\<lambda>(p, s).
     (case newPerpetual perp of
        Inl _ \<Rightarrow> (p, s)
      | Inr perpetual \<Rightarrow>
          (if syncedBlockNumber p < ppBlockNumber perpetual
           then p\<lparr> syncedBlockNumber := ppBlockNumber perpetual \<rparr> else p,
           snd (CreatePerpetual perpetual s))))"

definition syncPerpetual :: "subgraph \<Rightarrow> PerpetualSyncer \<Rightarrow> 'a dbstate_scheme \<Rightarrow> PerpetualSyncer \<times> 'a dbstate_scheme" where
  "syncPerpetual G p s =
     (case sgPost G (syncedBlockNumber p) of
        Inl _ \<Rightarrow> (p, s)
      | Inr (code, res) \<Rightarrow>
          if code \<noteq> 200 then (p, s)
          else
            (case sgUnmarshal G res of
               Inl _ \<Rightarrow> (p, s)
             | Inr perpetuals \<Rightarrow> fold syncOne perpetuals (p, s)))"

section \<open>Lemmas\<close>

text \<open>The keys of the table are unique.\<close>

definition perps_ok :: "tables \<Rightarrow> bool" where
  "perps_ok t \<longleftrightarrow> distinct (map perpKey (tPerpetuals t))"

lemma CreatePerpetual_calm:
  assumes "dbFaults s = []"
  shows "snd (CreatePerpetual perp s) =
     (if perpKey perp \<in> perpKey ` set (tPerpetuals (dbTables s)) then s
      else s\<lparr> dbTables := (dbTables s)\<lparr> tPerpetuals := tPerpetuals (dbTables s) @ [perp] \<rparr> \<rparr>)"
  using assms by (simp add: CreatePerpetual_def dbCall_def insertPerpetual_def)

text \<open>What a sequence of inserts does to the table: only new keys are appended, in order.\<close>

definition extends :: "tables \<Rightarrow> Perpetual list \<Rightarrow> tables \<Rightarrow> bool" where
  "extends t perps t' \<longleftrightarrow>
     (\<exists>new. t' = t\<lparr> tPerpetuals := tPerpetuals t @ new \<rparr> \<and> set new \<subseteq> set perps) \<and>
     perpKey ` set (tPerpetuals t') = perpKey ` set (tPerpetuals t) \<union> perpKey ` set perps \<and>
     (perps_ok t \<longrightarrow> perps_ok t')"

fun parsed :: "subgraph_perpetual list \<Rightarrow> Perpetual list" where
  "parsed [] = []"
| "parsed (r # rs) = (case newPerpetual r of Inl _ \<Rightarrow> parsed rs | Inr perp \<Rightarrow> perp # parsed rs)"

lemma set_parsed: "x \<in> set (parsed rows) \<longleftrightarrow> (\<exists>r \<in> set rows. newPerpetual r = Inr x)"
  by (induction rows) (auto split: sum.splits)

lemma newPerpetual_published: "newPerpetual r = Inr x \<Longrightarrow> ppIsPublished x"
  unfolding newPerpetual_def
  by (cases "ParseInt64 (sgIndex r)"; cases "ParseInt64 (sgCreatedAtBlockNumber r)"; cases "ParseInt64 (sgCollateralDecimals r)")
     auto

lemma parsed_published: "x \<in> set (parsed rows) \<Longrightarrow> ppIsPublished x"
  using newPerpetual_published by (auto simp: set_parsed)

lemma syncOne_simps:
  "newPerpetual r = Inl e \<Longrightarrow> syncOne r (p, s) = (p, s)"
  "newPerpetual r = Inr perp \<Longrightarrow> syncOne r (p, s) =
     (if syncedBlockNumber p < ppBlockNumber perp then p\<lparr> syncedBlockNumber := ppBlockNumber perp \<rparr> else p,
      snd (CreatePerpetual perp s))"
  by (simp_all add: syncOne_def)

lemma find_SomeD: "find P xs = Some x \<Longrightarrow> P x \<and> x \<in> set xs"
  by (metis find_Some_iff nth_mem)

lemma extends_one:
  assumes "dbFaults s = []"
  shows "extends (dbTables s) [perp] (dbTables (snd (CreatePerpetual perp s)))"
    "dbFaults (snd (CreatePerpetual perp s)) = []"
proof -
  show "extends (dbTables s) [perp] (dbTables (snd (CreatePerpetual perp s)))"
  proof (cases "perpKey perp \<in> perpKey ` set (tPerpetuals (dbTables s))")
    case True
    then show ?thesis
      by (auto simp: extends_def CreatePerpetual_calm [OF assms] perps_ok_def intro: exI [of _ "[]"])
  next
    case False
    then show ?thesis
      by (auto simp: extends_def CreatePerpetual_calm [OF assms] perps_ok_def)
  qed
  show "dbFaults (snd (CreatePerpetual perp s)) = []" using assms by (simp add: CreatePerpetual_calm [OF assms])
qed

lemma extends_trans:
  assumes "extends t ps t'" "extends t' qs t''"
  shows "extends t (ps @ qs) t''"
proof -
  obtain new where n: "t' = t\<lparr> tPerpetuals := tPerpetuals t @ new \<rparr>" "set new \<subseteq> set ps" using assms(1) by (auto simp: extends_def)
  obtain more where m: "t'' = t'\<lparr> tPerpetuals := tPerpetuals t' @ more \<rparr>" "set more \<subseteq> set qs" using assms(2) by (auto simp: extends_def)
  have "t'' = t\<lparr> tPerpetuals := tPerpetuals t @ (new @ more) \<rparr>" "set (new @ more) \<subseteq> set (ps @ qs)" using n m by auto
  then have "\<exists>new. t'' = t\<lparr> tPerpetuals := tPerpetuals t @ new \<rparr> \<and> set new \<subseteq> set (ps @ qs)" by blast
  with assms show ?thesis by (simp add: extends_def image_Un Un_assoc)
qed

lemma sync_loop:
  assumes "dbFaults s = []" "fold syncOne rows (p, s) = (p', s')"
  shows "extends (dbTables s) (parsed rows) (dbTables s') \<and> dbFaults s' = [] \<and>
     syncedBlockNumber p' = Max (insert (syncedBlockNumber p) (ppBlockNumber ` set (parsed rows)))"
  using assms
proof (induction rows arbitrary: p s)
  case Nil
  then show ?case by (auto simp: extends_def intro: exI [of _ "[]"])
next
  case (Cons r rows)
  show ?case
  proof (cases "newPerpetual r")
    case (Inl e)
    with Cons show ?thesis by (simp add: syncOne_simps)
  next
    case (Inr perp)
    let ?s = "snd (CreatePerpetual perp s)"
    let ?p = "if syncedBlockNumber p < ppBlockNumber perp then p\<lparr> syncedBlockNumber := ppBlockNumber perp \<rparr> else p"
    note one = extends_one [OF Cons.prems(1), of perp]
    have "fold syncOne rows (?p, ?s) = (p', s')" using Cons.prems(2) Inr by (simp add: syncOne_simps)
    note ih = Cons.IH [OF one(2) this]
    have "syncedBlockNumber ?p = max (syncedBlockNumber p) (ppBlockNumber perp)" by simp
    then have "syncedBlockNumber p' = Max (insert (syncedBlockNumber p) (insert (ppBlockNumber perp) (ppBlockNumber ` set (parsed rows))))"
      using ih by (cases "parsed rows = []") (simp_all add: max.assoc)
    with ih extends_trans [OF one(1)] Inr show ?thesis by simp
  qed
qed

text \<open>A row with a new key is found among the published perpetuals.\<close>

lemma extends_found:
  assumes e: "extends (dbTables s) (parsed rows) (dbTables s')" and q: "dbFaults s' = []"
    and x: "x \<in> set (parsed rows)" "perpKey x \<notin> perpKey ` set (tPerpetuals (dbTables s))"
  shows "\<exists>y. GetPerpetualByPoolAddressAndIndex (ppLiquidityPoolAddress x) (ppPerpetualIndex x) True s' = (Inr y, s') \<and> perpKey y = perpKey x"
proof -
  obtain new where n: "dbTables s' = (dbTables s)\<lparr> tPerpetuals := tPerpetuals (dbTables s) @ new \<rparr>" "set new \<subseteq> set (parsed rows)"
    using e by (auto simp: extends_def)
  have "perpKey x \<in> perpKey ` set (tPerpetuals (dbTables s'))" using e x(1) by (simp add: extends_def)
  then obtain y where y: "y \<in> set (tPerpetuals (dbTables s'))" "perpKey y = perpKey x" by force
  with x(2) have "y \<notin> set (tPerpetuals (dbTables s))" by (metis image_eqI)
  with y(1) n have "ppIsPublished y" using parsed_published by auto
  let ?P = "\<lambda>z. perpKey z = (ppLiquidityPoolAddress x, ppPerpetualIndex x) \<and> (True \<longrightarrow> ppIsPublished z)"
  from \<open>ppIsPublished y\<close> y have "?P y" by (simp add: perpKey_def)
  with y(1) obtain z where z: "find ?P (tPerpetuals (dbTables s')) = Some z"
    by (cases "find ?P (tPerpetuals (dbTables s'))") (use find_None_iff [of ?P] in blast)+
  then have "perpKey z = perpKey x" using find_SomeD [OF z] by (simp add: perpKey_def)
  with z q show ?thesis by (simp add: GetPerpetualByPoolAddressAndIndex_def dbCall_def)
qed

section \<open>Properties\<close>

text \<open>
  C20: a round of the syncer that gets an answer and has no database errors makes every perpetual of
  the answer available. It appends rows to the table of perpetuals, only such of the answer, and
  changes no row and no other table; the keys stay unique; every perpetual of the answer that can
  be parsed has its key in the table, and if the key is new, the match server finds a published
  perpetual under it; the number of the known block becomes the greatest one seen so far.
\<close>

theorem syncPerpetual_stores:
  assumes "sgPost G (syncedBlockNumber p) = Inr (200, res)" "sgUnmarshal G res = Inr rows" "dbFaults s = []"
    "perps_ok (dbTables s)" "syncPerpetual G p s = (p', s')"
  shows "(\<exists>new. dbTables s' = (dbTables s)\<lparr> tPerpetuals := tPerpetuals (dbTables s) @ new \<rparr> \<and>
            (\<forall>x \<in> set new. \<exists>r \<in> set rows. newPerpetual r = Inr x)) \<and>
     perps_ok (dbTables s') \<and>
     (\<forall>r \<in> set rows. \<forall>x. newPerpetual r = Inr x \<longrightarrow>
        perpKey x \<in> perpKey ` set (tPerpetuals (dbTables s')) \<and> ppBlockNumber x \<le> syncedBlockNumber p' \<and>
        (perpKey x \<notin> perpKey ` set (tPerpetuals (dbTables s)) \<longrightarrow>
          (\<exists>y. GetPerpetualByPoolAddressAndIndex (ppLiquidityPoolAddress x) (ppPerpetualIndex x) True s' = (Inr y, s') \<and>
               perpKey y = perpKey x))) \<and>
     syncedBlockNumber p \<le> syncedBlockNumber p' \<and>
     (syncedBlockNumber p' = syncedBlockNumber p \<or> (\<exists>r \<in> set rows. \<exists>x. newPerpetual r = Inr x \<and> syncedBlockNumber p' = ppBlockNumber x))"
proof -
  have f: "fold syncOne rows (p, s) = (p', s')" using assms(1,2,5) by (simp add: syncPerpetual_def)
  note l = sync_loop [OF assms(3) f]
  have e: "extends (dbTables s) (parsed rows) (dbTables s')" and q: "dbFaults s' = []"
    and m: "syncedBlockNumber p' = Max (insert (syncedBlockNumber p) (ppBlockNumber ` set (parsed rows)))" using l by simp_all
  obtain new where n: "dbTables s' = (dbTables s)\<lparr> tPerpetuals := tPerpetuals (dbTables s) @ new \<rparr>" "set new \<subseteq> set (parsed rows)"
    using e by (auto simp: extends_def)
  have keys: "perpKey ` set (tPerpetuals (dbTables s')) = perpKey ` set (tPerpetuals (dbTables s)) \<union> perpKey ` set (parsed rows)"
    and ok: "perps_ok (dbTables s')" using e assms(4) by (simp_all add: extends_def)
  note found = extends_found [OF e q]
  have le: "x \<in> set (parsed rows) \<Longrightarrow> ppBlockNumber x \<le> syncedBlockNumber p'" for x unfolding m by simp
  have mono: "syncedBlockNumber p \<le> syncedBlockNumber p'" unfolding m by simp
  have "syncedBlockNumber p' \<in> insert (syncedBlockNumber p) (ppBlockNumber ` set (parsed rows))"
    unfolding m by (rule Max_in) auto
  then have top: "syncedBlockNumber p' = syncedBlockNumber p \<or> (\<exists>r \<in> set rows. \<exists>x. newPerpetual r = Inr x \<and> syncedBlockNumber p' = ppBlockNumber x)"
    using set_parsed by fastforce
  have "\<forall>x \<in> set new. \<exists>r \<in> set rows. newPerpetual r = Inr x" using n(2) set_parsed by blast
  with n(1) have grow: "\<exists>new. dbTables s' = (dbTables s)\<lparr> tPerpetuals := tPerpetuals (dbTables s) @ new \<rparr> \<and>
     (\<forall>x \<in> set new. \<exists>r \<in> set rows. newPerpetual r = Inr x)" by blast
  have "perpKey x \<in> perpKey ` set (tPerpetuals (dbTables s')) \<and> ppBlockNumber x \<le> syncedBlockNumber p' \<and>
      (perpKey x \<notin> perpKey ` set (tPerpetuals (dbTables s)) \<longrightarrow>
        (\<exists>y. GetPerpetualByPoolAddressAndIndex (ppLiquidityPoolAddress x) (ppPerpetualIndex x) True s' = (Inr y, s') \<and> perpKey y = perpKey x))"
    if "r \<in> set rows" "newPerpetual r = Inr x" for r x
  proof -
    have "x \<in> set (parsed rows)" using that set_parsed by blast
    then show ?thesis using keys le found by blast
  qed
  with grow ok mono top show ?thesis by blast
qed

definition demo_row :: "string \<Rightarrow> subgraph_perpetual" where
  "demo_row index = \<lparr> sgIndex = index, sgSymbol = ''ETH'', sgCollateralName = ''USDC'', sgCollateralAddress = ''0xc'',
     sgOperatorAddress = ''0xo'', sgPoolID = ''0xp'', sgCollateralDecimals = ''18'', sgCreatedAtBlockNumber = ''9'' \<rparr>"

definition demo_graph :: subgraph where
  "demo_graph = \<lparr> sgPost = (\<lambda>_. Inr (200, ''r'')), sgUnmarshal = (\<lambda>_. Inr [demo_row ''0'']) \<rparr>"

definition demo_db :: "bool list \<Rightarrow> dbstate" where
  "demo_db faults = \<lparr> dbTables = \<lparr> tOrders = [], tMatchTxs = [], tPerpetuals = [], tNextID = 1 \<rparr>, dbFaults = faults \<rparr>"

lemma demo_parsed: "\<exists>x. newPerpetual (demo_row ''0'') = Inr x \<and> ppBlockNumber x = 9 \<and> perpKey x = (''0xp'', 0)"
  by (simp add: newPerpetual_def demo_row_def ParseInt64_def ParseUint64_def isDigit_def digitsValue_def perpKey_def)

theorem syncPerpetual_stores_witness:
  "\<exists>p' s'. syncPerpetual demo_graph \<lparr> syncedBlockNumber = 5 \<rparr> (demo_db []) = (p', s') \<and>
     (''0xp'', 0) \<in> perpKey ` set (tPerpetuals (dbTables s')) \<and> 9 \<le> syncedBlockNumber p'"
proof -
  obtain p' s' where r: "syncPerpetual demo_graph \<lparr> syncedBlockNumber = 5 \<rparr> (demo_db []) = (p', s')" by force
  obtain x where x: "newPerpetual (demo_row ''0'') = Inr x" "ppBlockNumber x = 9" "perpKey x = (''0xp'', 0)" using demo_parsed by blast
  have g: "sgPost demo_graph (syncedBlockNumber \<lparr> syncedBlockNumber = 5 \<rparr>) = Inr (200, ''r'')"
    "sgUnmarshal demo_graph ''r'' = Inr [demo_row ''0'']" "dbFaults (demo_db []) = []" "perps_ok (dbTables (demo_db []))"
    by (simp_all add: demo_graph_def demo_db_def perps_ok_def)
  from syncPerpetual_stores [OF g r] x r show ?thesis by (metis list.set_intros(1))
qed

text \<open>
  a perpetual whose insert fails is lost. The error is only logged and the known block is moved
  past the block of the perpetual all the same: the next query, for greater blocks, leaves it out.
\<close>

theorem syncPerpetual_loses_failed_insert:
  assumes "sgPost G (syncedBlockNumber p) = Inr (200, res)" "sgUnmarshal G res = Inr [r]" "newPerpetual r = Inr x"
    "syncedBlockNumber p < ppBlockNumber x" "dbFaults s = [True]"
  shows "syncPerpetual G p s = (p\<lparr> syncedBlockNumber := ppBlockNumber x \<rparr>, s\<lparr> dbFaults := [] \<rparr>)"
  using assms by (simp add: syncPerpetual_def syncOne_def CreatePerpetual_def dbCall_def)

theorem syncPerpetual_loses_failed_insert_witness:
  "\<exists>p'. syncPerpetual demo_graph \<lparr> syncedBlockNumber = 5 \<rparr> (demo_db [True]) = (p', demo_db []) \<and> syncedBlockNumber p' = 9"
proof -
  obtain x where x: "newPerpetual (demo_row ''0'') = Inr x" "ppBlockNumber x = 9" using demo_parsed by blast
  have g: "sgPost demo_graph (syncedBlockNumber \<lparr> syncedBlockNumber = 5 \<rparr>) = Inr (200, ''r'')"
    "sgUnmarshal demo_graph ''r'' = Inr [demo_row ''0'']" "dbFaults (demo_db [True]) = [True]"
    "syncedBlockNumber \<lparr> syncedBlockNumber = 5 \<rparr> < ppBlockNumber x"
    by (simp_all add: demo_graph_def demo_db_def x(2))
  from syncPerpetual_loses_failed_insert [OF g(1,2) x(1) g(4,3)] x(2) show ?thesis by (simp add: demo_db_def)
qed

end
