(* ===== verification/Timed.thy ===== *)
theory Timed
  imports Prelude
begin

text \<open>
  The timed runner of the launcher's services: \<^verbatim>\<open>src/runnable/timed.go\<close>. Its loop calls a function
  whenever the interval has passed or a trigger has come; the triggers wait in a channel with the
  capacity \<^verbatim>\<open>HWM\<close>. The loop is the function \<open>turn\<close>, one wake-up at a time; the clock and the choice of
  \<^verbatim>\<open>select\<close> are given by the caller.
\<close>

datatype timed_error = ErrSystemBusy | ErrSystemInterrupted | ErrSystemRunning

record 'p Timed =
  tdHWM :: nat
  tdTrgr :: "'p list"
  tdOnce :: bool
  tdTimer :: "int option"

definition NewTimed :: "nat \<Rightarrow> 'p Timed" where
  "NewTimed hwm = \<lparr> tdHWM = hwm, tdTrgr = [], tdOnce = False, tdTimer = None \<rparr>"

definition Trigger :: "'p \<Rightarrow> 'p Timed \<Rightarrow> (timed_error + unit) \<times> 'p Timed" where
  "Trigger p t =
     (if length (tdTrgr t) = tdHWM t then (Inl ErrSystemBusy, t)
      else (Inr (), t\<lparr> tdTrgr := tdTrgr t @ [p] \<rparr>))"

text \<open>The first call of \<^verbatim>\<open>Run\<close> enters the loop with a timer that is due; a later one is refused.\<close>

definition startRun :: "'p Timed \<Rightarrow> (timed_error + unit) \<times> 'p Timed" where
  "startRun t =
     (if tdOnce t then (Inl ErrSystemRunning, t) else (Inr (), t\<lparr> tdOnce := True, tdTimer := Some 0 \<rparr>))"

datatype wake = OnTrigger | OnTimer | OnDone

text \<open>
  A turn of the loop: the wake-up, and after the call of the function, which took the time \<open>elapsed\<close>
  and during which the triggers \<open>ps\<close> were accepted, the timer for the rest of the interval.
\<close>

fun accept :: "'p list \<Rightarrow> 'p Timed \<Rightarrow> 'p Timed" where
  "accept [] t = t"
| "accept (p # ps) t = accept ps (snd (Trigger p t))"

definition turn :: "int \<Rightarrow> int \<Rightarrow> 'p list \<Rightarrow> wake \<Rightarrow> 'p Timed \<Rightarrow> (timed_error + unit) \<times> 'p Timed" where
  "turn intvl elapsed ps w t =
     (let rearm = (\<lambda>t. (Inr (), (accept ps t)\<lparr> tdTimer := Some (if intvl \<le> elapsed then 0 else intvl - elapsed) \<rparr>)) in
      case w of
        OnDone \<Rightarrow> (Inl ErrSystemInterrupted, t)
      | OnTrigger \<Rightarrow> rearm (t\<lparr> tdTrgr := tl (tdTrgr t) \<rparr>)
      | OnTimer \<Rightarrow> rearm t)"

text \<open>The channel is never fuller than its capacity, and the loop never waits longer than the interval.\<close>

definition timed_ok :: "int \<Rightarrow> 'p Timed \<Rightarrow> bool" where
  "timed_ok intvl t \<longleftrightarrow> length (tdTrgr t) \<le> tdHWM t \<and> (\<forall>d. tdTimer t = Some d \<longrightarrow> 0 \<le> d \<and> d \<le> intvl)"

lemma Trigger_ok:
  assumes "timed_ok intvl t"
  shows "timed_ok intvl (snd (Trigger p t))" "tdTimer (snd (Trigger p t)) = tdTimer t"
  using assms by (auto simp: timed_ok_def Trigger_def)

lemma accept_ok: "timed_ok intvl t \<Longrightarrow> timed_ok intvl (accept ps t)"
  by (induction ps t rule: accept.induct) (simp_all add: Trigger_ok)

lemma turn_ok:
  assumes "timed_ok intvl t" "0 \<le> elapsed" "0 \<le> intvl"
  shows "timed_ok intvl (snd (turn intvl elapsed ps w t))"
proof -
  have "timed_ok intvl ((accept ps u)\<lparr> tdTimer := Some (if intvl \<le> elapsed then 0 else intvl - elapsed) \<rparr>)"
    if "timed_ok intvl u" for u :: "'a Timed"
    using accept_ok [OF that, of ps] assms(2,3) by (auto simp: timed_ok_def)
  moreover have "timed_ok intvl (t\<lparr> tdTrgr := tl (tdTrgr t) \<rparr>)" using assms(1) by (auto simp: timed_ok_def)
  ultimately show ?thesis using assms(1) by (auto simp: turn_def Let_def split: wake.splits)
qed

lemma startRun_once:
  "startRun t = (Inr (), t') \<Longrightarrow> startRun t' = (Inl ErrSystemRunning, t')"
  by (auto simp: startRun_def split: if_splits)

end
