(* ===== verification/Spec2Isabelle.thy ===== *)
theory Spec2Isabelle
  imports Launch_Run Api_Run Api_Errors Relayer Websocket_Run Contracts Perpetual_Syncer Timed
begin

text \<open>
  A verification development for mai3-broker, the off-chain order relayer of a perpetual exchange
  whose trades go against an automated market maker (AMM). Names of files are below \<^verbatim>\<open>src/\<close>.

  \<^bold>\<open>The program.\<close> Traders send signed limit and stop orders to the API (\<^verbatim>\<open>api\<close>). The match server
  (\<^verbatim>\<open>match\<close>) keeps one matcher for each perpetual: an order book in memory, the rows of the orders in
  a database (\<^verbatim>\<open>dao\<close>), timers for expiry. A matcher compares the prices of its book with the price of
  the AMM, which it computes itself from the storage of the pool (\<^verbatim>\<open>common/mai3\<close>), and records what it
  matched as one match transaction. The launcher (\<^verbatim>\<open>launcher\<close>) turns match transactions into
  transactions on the chain, watches them and reports the events of the contract back to the match
  server, which settles the orders. The websocket server (\<^verbatim>\<open>websocket\<close>) tells the traders what has
  become of their orders. Beside these run a monitor that cancels orders without margin, the cache
  of pool storages, the gas monitor, the syncer of perpetuals, and a second program that relays
  calls signed by users (\<^verbatim>\<open>l2\<close>).

  \<^bold>\<open>The theories.\<close>

  \<^item> \<open>Prelude\<close>, \<open>Containers\<close>, \<open>Go_Strings\<close>: decimals as rationals with the rounding operations of the
    decimal package as the record \<open>decimal_lib\<close> and its laws as the locale \<open>decimal_laws\<close>; results with
    errors and panics; keyed stores as the locale \<open>keyed_store\<close>; the string functions of Go.
  \<^item> \<open>Number_Utils\<close>, \<open>Model\<close>: \<^verbatim>\<open>common/mai3/utils\<close> and \<^verbatim>\<open>common/model\<close>, structs as records with the fields
    of the source.
  \<^item> \<open>GoMath\<close>, \<open>AMM\<close>, \<open>Computation\<close>: \<^verbatim>\<open>math.go\<close>, \<^verbatim>\<open>amm.go\<close>, \<^verbatim>\<open>computation.go\<close>. The square root is within
    1.5 units of the 18th place; a trade conserves collateral up to the fees, an opening trade leaves
    the account safe, a closing trade takes nothing from the wallet, the average price of a trade is
    not better than the best price of the AMM.
  \<^item> \<open>Order_Codec\<close>: \<^verbatim>\<open>common/mai3/order.go\<close>. Numbers survive their encoding; the hashed message
    determines the signed fields of an order.
  \<^item> \<open>Orderbook\<close>: \<^verbatim>\<open>common/orderbook\<close>. The book refines a finite map from side, price and key to
    orders; its price lists are exact and sorted; orders of one price keep their arrival order.
  \<^item> \<open>Pool_Syncer\<close>, \<open>Match_Order\<close>: \<^verbatim>\<open>match/pool_syncer.go\<close>, \<^verbatim>\<open>match/order.go\<close>. What a matching run may
    take from the book, what the margin check and the close-only check cancel.
  \<^item> \<open>Dao\<close>, \<open>Match\<close>, \<open>Match_Result\<close>: the database as tables with a list of faults to come, transactions
    with rollback, and the handlers of a matcher as functions on the state \<open>mstate\<close>.
  \<^item> \<open>Match_Invariant\<close>, \<open>Match_Sync\<close>, \<open>Match_Settle\<close>, \<open>Match_Txs\<close>: what the handlers keep. With faults at any
    statement: every row splits into available, pending, confirmed and cancelled, has the status of
    these amounts and never changes its signed parameters. Without faults: the book holds exactly the
    open orders of the table; matching, settlement, cancellation and restart are described exactly.
    The locale \<open>order_dao\<close> is what the handlers rely on in the database.
  \<^item> \<open>Match_Server\<close>, \<open>Match_Monitor\<close>, \<open>Server_Run\<close>: \<^verbatim>\<open>match/server.go\<close> and \<^verbatim>\<open>match/monitor.go\<close>, and the step
    relation \<open>srv_step\<close> of the server with its reachable states: each handler is filed under its
    perpetual and its book agrees with the table; the monitor only cancels.
  \<^item> \<open>Launch_Dao\<close>, \<open>Chain_Client\<close>, \<open>Launcher\<close>, \<open>Launch_Invariant\<close>, \<open>Launch_Run\<close>: the launcher with its tables
    and the client of the chain, and the step relation \<open>lstep\<close> of launcher and server together. Launch
    transactions have the columns that their status calls for; a match is launched exactly once. The
    locale \<open>launch_chain\<close> is what the launcher relies on in the client, interpreted on the model of
    the client. Two theorems show where a lost transaction blocks the executor or is sent again.
  \<^item> \<open>Signatures\<close>, \<open>Api\<close>, \<open>Api_Run\<close>, \<open>Api_Errors\<close>: keys, signatures, tokens; the routes of the API. An order
    enters the database only with the hash of its own fields and a signature of its trader; only a
    token of the trader cancels; every request gets an answer.
  \<^item> \<open>Websocket\<close>, \<open>Websocket_Run\<close>: the websocket server and its runs as traces of events. Changes of an
    order reach only clients that have logged in as its trader, and without races all subscribers.
  \<^item> \<open>Contracts\<close>: the adaptors of the contracts and the gas monitor. Amounts survive the way to the
    contract and back.
  \<^item> \<open>Perpetual_Syncer\<close>, \<open>Timed\<close>: \<^verbatim>\<open>perpetualsyncer\<close> and \<^verbatim>\<open>runnable/timed.go\<close>.
  \<^item> \<open>Relayer\<close>: the relayer of signed calls with its machine integers and byte buffers; the fee of a call
    is lost on the way.

  \<^bold>\<open>State and concurrency.\<close> A handler is a function on an explicit state. The handlers of a matcher
  hold its mutex from begin to end, so an interleaving of goroutines is a sequence of handler calls,
  and the step relations \<open>step\<close>, \<open>srv_step\<close>, \<open>lstep\<close> and \<open>ws_run\<close> have one rule for each of them. The
  clock, the answers of the chain, random choices and the result of every database statement are
  free in each step. A timer loop is the sequence of its rounds.

  \<^bold>\<open>Errors and loops.\<close> An error is \<open>Inl\<close>, a panic \<open>None\<close>. Loops over data are recursive functions. The
  loops of the square root, which need not end for every input, are \<^theory_text>\<open>partial_function (option)\<close>, and
  that they end for every positive seed and argument is part of the theorem on \<open>Sqrt\<close>. The loop over
  both sides of the book ends because the number of prices it has not visited decreases. The retries
  of the chain client and the golden section search are counted by the program itself. No definition
  has fuel of its own.

  \<^bold>\<open>Parameters.\<close> What is not in the repository is an argument: the decimal package, Keccak, the curve,
  the JWT package, go-ethereum (\<open>eth_lib\<close>, \<open>eth_node\<close>), the generated bindings of the contracts
  (\<open>contract_views\<close>, \<open>l2_env\<close>), JSON, the subgraph. The hypotheses on them are named in the theorems
  and each theorem that has one comes with a witness on concrete functions.

  \<^bold>\<open>Not modelled.\<close> The bindings that abigen generates (\<^verbatim>\<open>common/chain/ethereum/broker\<close>, \<^verbatim>\<open>reader\<close>,
  \<^verbatim>\<open>erc20\<close>, \<^verbatim>\<open>arboscontracts\<close>), which only pass calls on to go-ethereum; metrics and logging; the
  configuration from the environment; the main functions, contexts and error groups that start and
  stop the goroutines; the HTTP framework and the HTTP client; the connection to the database and the
  JSON columns of gorm; the parsers \<^verbatim>\<open>String2BigInt\<close> and \<^verbatim>\<open>StringToDecimal\<close>, which wrap the parsers
  of the big-integer and decimal packages.
\<close>

section \<open>The match server and the websocket server together\<close>



section \<open>Packing, the contract and the settlement together\<close>

text \<open>The events of a contract that executes the call data of a batch in full.\<close>

definition executes_in_full ::
  "contract_views \<Rightarrow> byte list list \<Rightarrow> int list \<Rightarrow> byte list \<Rightarrow> string list \<Rightarrow> eth_log list \<Rightarrow> bool" where
  "executes_in_full V orders gasRewards inputs hashes logs \<longleftrightarrow>
     (\<exists>events. map (cvParseTradeSuccess V) logs = map Inr events \<and> (\<forall>lg \<in> set logs. isl (cvParseTradeFailed V lg)) \<and>
        map (\<lambda>e. Bytes2HexP (beOrderHash e)) events = hashes \<and>
        (\<forall>wads. cvPackBatchTrade V orders wads gasRewards = Inr inputs \<longrightarrow> map beAmount events = wads))"

lemma parsed_in_full:
  assumes "executes_in_full V orders gasRewards inputs (map miOrderHash items) logs"
    "BatchTradeDataPack V orders (map miAmount items) gasRewards = Inr inputs" "\<forall>i \<in> set items. on_grid (miAmount i)"
    "HexToAddress brokerAddress = Inr addr" "cvNewBroker V addr = Inr ()"
  shows "successItems (fst (ParseLogs V brokerAddress logs)) = items" "snd (ParseLogs V brokerAddress logs) = []"
proof -
  obtain events where ev: "map (cvParseTradeSuccess V) logs = map Inr events" "\<forall>lg \<in> set logs. isl (cvParseTradeFailed V lg)"
    "map (\<lambda>e. Bytes2HexP (beOrderHash e)) events = map miOrderHash items"
    "\<forall>wads. cvPackBatchTrade V orders wads gasRewards = Inr inputs \<longrightarrow> map beAmount events = wads"
    using assms(1) by (auto simp: executes_in_full_def)
  let ?wads = "map (\<lambda>i. MustDecimalToBigInt (ToWad (miAmount i))) items"
  have "cvPackBatchTrade V orders ?wads gasRewards = Inr inputs"
    using assms(2) by (simp add: BatchTradeDataPack_def Let_def comp_def split: sum.splits)
  with ev(4) have amounts: "map beAmount events = ?wads" by blast
  have len: "length events = length items" using ev(3) by (metis length_map)
  have parsed: "[successEvent V e. lg \<leftarrow> logs, Inr e \<leftarrow> [cvParseTradeSuccess V lg]] = map (successEvent V) events"
    using ev(1) by (induction logs arbitrary: events) (auto simp: map_eq_Cons_conv)
  show "successItems (fst (ParseLogs V brokerAddress logs)) = items"
    unfolding ParseLogs_events [OF assms(4,5)] parsed successItems_def
  proof (rule nth_equalityI)
    fix k
    assume "k < length (map (\<lambda>e. \<lparr> miOrderHash = seOrderHash e, miAmount = seAmount e \<rparr>) (map (successEvent V) events))"
    then have k: "k < length items" by (simp add: len)
    have "beAmount (events ! k) = ?wads ! k" and h: "Bytes2HexP (beOrderHash (events ! k)) = miOrderHash (items ! k)"
      using amounts ev(3) k len by (metis nth_map)+
    moreover have "NewFromBigInt (?wads ! k) (- DECIMALS) = miAmount (items ! k)"
      using assms(3) k by (simp add: ToWad_on_grid)
    ultimately have a: "NewFromBigInt (beAmount (events ! k)) (- DECIMALS) = miAmount (items ! k)" by simp
    show "map (\<lambda>e. \<lparr> miOrderHash = seOrderHash e, miAmount = seAmount e \<rparr>) (map (successEvent V) events) ! k = items ! k"
      using k by (simp add: len successEvent_def a h)
  qed (simp add: len)
  show "snd (ParseLogs V brokerAddress logs) = []"
    using ev(2) by (auto simp: ParseLogs_events [OF assms(4,5)] split: sum.splits)
qed


text \<open>A transaction with one item that is pending, and a contract that executes it.\<close>

definition demo_batch_row :: Order where
  "demo_batch_row = pending_row\<lparr> OrderHash := ''0x01'' \<rparr>"

definition demo_batch_tx :: MatchTransaction where
  "demo_batch_tx = newMatchTransaction match_conf match_perp ''u'' [\<lparr> miOrderHash = ''0x01'', miAmount = - (1 / 4) \<rparr>]"

definition demo_batch :: mstate where
  "demo_batch = start_state\<lparr>
     dbTables := \<lparr> tOrders = [demo_batch_row], tMatchTxs = [demo_batch_tx], tPerpetuals = [], tNextID = 2 \<rparr> \<rparr>"

definition demo_batch_event :: broker_event where
  "demo_batch_event = demo_event\<lparr> beAmount := - 250000000000000000 \<rparr>"

definition demo_batch_views :: contract_views where
  "demo_batch_views = demo_views\<lparr>
     cvPackBatchTrade := (\<lambda>_ amounts _. if amounts = [- 250000000000000000] then Inr [7] else Inl ''amounts''),
     cvParseTradeSuccess := (\<lambda>_. Inr demo_batch_event) \<rparr>"

lemma demo_batch_simps [simp]:
  "OrderHash demo_batch_row = ''0x01''" "in_perp match_perp demo_batch_row" "sided demo_batch_row" "row_ok demo_batch_row"
  "ID demo_batch_row = 1" "AvailableAmount demo_batch_row = 0" "PendingAmount demo_batch_row = - (1 / 4)" "ConfirmedAmount demo_batch_row = 0"
  "mtID demo_batch_tx = ''u''" "MatchItems (mtMatchResult demo_batch_tx) = [\<lparr> miOrderHash = ''0x01'', miAmount = - (1 / 4) \<rparr>]"
  "tx_ok demo_batch_tx" "dbFaults demo_batch = []" "msBook demo_batch = NewOrderbook"
  "dbTables demo_batch = \<lparr> tOrders = [demo_batch_row], tMatchTxs = [demo_batch_tx], tPerpetuals = [], tNextID = 2 \<rparr>"
  using pending_simps(7,8,9)
  by (simp_all add: demo_batch_row_def in_perp_def sided_def row_ok_def conserved_def setStatusByAmounts_def
      demo_batch_tx_def newMatchTransaction_def tx_ok_def items_of_def demo_batch_def start_state_def HasTheSameSign_def)

lemma demo_batch_synced: "synced match_perp (dbTables demo_batch) (msBook demo_batch)"
  by (simp add: synced_def tables_ok_def orders_ok_def active_def book_orders_def)


end
